(* ===== verification/Prelude.thy ===== *)
theory Prelude
  imports Main
begin

text \<open>
  Shared vocabulary of the development.

  \<^item> Errors: every \<open>throw\<close> of the code is a value of \<open>error\<close>; a
    \<open>PayableError\<close> carries the code string of \<open>domain/errors\<close>. Messages and the
    context objects are not modelled.
  \<^item> Effects: an asynchronous method that reads and writes shared state is a function
    from the state to an outcome and the next state (\<open>io\<close>). State written before an
    exception stays written, as in the code, except inside \<open>atomically\<close>, which models
    \<open>storage.transaction\<close>: an exception rolls the state back.
  \<^item> Identifiers are ASCII strings, instants are milliseconds (\<open>int\<close>), a nullable
    field is an \<open>option\<close>.

  The lemmas on \<open>preserves\<close> and \<open>triple\<close> carry the invariant and the
  functional proofs of every handler.
\<close>

named_theorems preserves_rules \<open>a state predicate is kept by a composed action\<close>
named_theorems io_defs \<open>the definitions of the effect combinators\<close>

section \<open>Errors\<close>

datatype error =
    PayableError string
  | TypeError
  | RangeError
  | ForeignError string

type_synonym instant = int
type_synonym ident = string
type_synonym tenant = "string option"

section \<open>Actions on a state\<close>

type_synonym ('w, 'a) io = "'w \<Rightarrow> (error + 'a) \<times> 'w"

definition ret :: "'a \<Rightarrow> ('w, 'a) io" where
  [io_defs]: "ret x = (\<lambda>w. (Inr x, w))"

definition throw :: "error \<Rightarrow> ('w, 'a) io" where
  [io_defs]: "throw e = (\<lambda>w. (Inl e, w))"

definition andThen :: "('w, 'a) io \<Rightarrow> ('a \<Rightarrow> ('w, 'b) io) \<Rightarrow> ('w, 'b) io" where
  [io_defs]: "andThen m f = (\<lambda>w. case m w of (Inl e, w') \<Rightarrow> (Inl e, w') | (Inr x, w') \<Rightarrow> f x w')"

definition catching :: "('w, 'a) io \<Rightarrow> (error \<Rightarrow> ('w, 'a) io) \<Rightarrow> ('w, 'a) io" where
  [io_defs]: "catching m h = (\<lambda>w. case m w of (Inl e, w') \<Rightarrow> h e w' | (Inr x, w') \<Rightarrow> (Inr x, w'))"

definition atomically :: "('w, 'a) io \<Rightarrow> ('w, 'a) io" where
  [io_defs]: "atomically m = (\<lambda>w. case m w of (Inl e, _) \<Rightarrow> (Inl e, w) | (Inr x, w') \<Rightarrow> (Inr x, w'))"

text \<open>The outcome of an action as a value: a \<open>try\<close> whose \<open>catch\<close> stores the error.\<close>

definition attempt :: "('w, 'a) io \<Rightarrow> ('w, error + 'a) io" where
  [io_defs]: "attempt m = (\<lambda>w. case m w of (r, w') \<Rightarrow> (Inr r, w'))"

definition readState :: "('w \<Rightarrow> 'a) \<Rightarrow> ('w, 'a) io" where
  [io_defs]: "readState g = (\<lambda>w. (Inr (g w), w))"

definition liftResult :: "error + 'a \<Rightarrow> ('w, 'a) io" where
  [io_defs]: "liftResult r = (\<lambda>w. (r, w))"

definition guardE :: "bool \<Rightarrow> error \<Rightarrow> ('w, unit) io" where
  [io_defs]: "guardE b e = (\<lambda>w. if b then (Inr (), w) else (Inl e, w))"

lemma ret_apply [simp]: "ret x w = (Inr x, w)" by (simp add: ret_def)
lemma throw_apply [simp]: "throw e w = (Inl e, w)" by (simp add: throw_def)
lemma readState_apply [simp]: "readState g w = (Inr (g w), w)" by (simp add: readState_def)
lemma liftResult_apply [simp]: "liftResult r w = (r, w)" by (simp add: liftResult_def)

lemma andThen_ret [simp]: "andThen (ret x) f = f x"
  by (simp add: andThen_def ret_def)

lemma andThen_throw [simp]: "andThen (throw e) f = throw e"
  by (simp add: andThen_def throw_def)

lemma andThen_assoc: "andThen (andThen m f) g = andThen m (\<lambda>x. andThen (f x) g)"
  by (rule ext) (simp add: andThen_def split: prod.split sum.split)

lemma andThen_Inr: "m w = (Inr x, w') \<Longrightarrow> andThen m f w = f x w'"
  by (simp add: andThen_def)

lemma andThen_Inl: "m w = (Inl e, w') \<Longrightarrow> andThen m f w = (Inl e, w')"
  by (simp add: andThen_def)

lemma andThen_readState [simp]: "andThen (readState g) f w = f (g w) w"
  by (simp add: andThen_def readState_def)

lemma guardE_apply: "guardE b e w = (if b then (Inr (), w) else (Inl e, w))"
  by (simp add: guardE_def)

lemma andThen_guardE:
  "andThen (guardE b e) f w = (if b then f () w else (Inl e, w))"
  by (simp add: andThen_def guardE_def)

lemma andThen_liftResult:
  "andThen (liftResult r) f w = (case r of Inl e \<Rightarrow> (Inl e, w) | Inr x \<Rightarrow> f x w)"
  by (simp add: andThen_def liftResult_def split: sum.split)

lemma andThen_Inr_iff:
  "andThen m f w = (Inr y, w'') \<longleftrightarrow> (\<exists>x w'. m w = (Inr x, w') \<and> f x w' = (Inr y, w''))"
  by (auto simp: andThen_def split: prod.split sum.split)

lemma attempt_eq: "m w = (r, w') \<Longrightarrow> attempt m w = (Inr r, w')"
  by (simp add: attempt_def)

lemma atomically_Inr_iff: "atomically m w = (Inr x, w') \<longleftrightarrow> m w = (Inr x, w')"
  by (auto simp: atomically_def split: prod.split sum.split)

lemma atomically_Inl_iff:
  "atomically m w = (Inl e, w') \<longleftrightarrow> (\<exists>w''. m w = (Inl e, w'')) \<and> w' = w"
  by (auto simp: atomically_def split: prod.split sum.split)

section \<open>Invariants of actions\<close>

definition preserves :: "('w \<Rightarrow> bool) \<Rightarrow> ('w, 'a) io \<Rightarrow> bool" where
  "preserves I m \<longleftrightarrow> (\<forall>w. I w \<longrightarrow> I (snd (m w)))"

lemma preservesI: "(\<And>w. I w \<Longrightarrow> I (snd (m w))) \<Longrightarrow> preserves I m"
  by (simp add: preserves_def)

lemma preservesD: "preserves I m \<Longrightarrow> I w \<Longrightarrow> I (snd (m w))"
  by (simp add: preserves_def)

lemma preservesE: "preserves I m \<Longrightarrow> I w \<Longrightarrow> m w = (r, w') \<Longrightarrow> I w'"
  by (auto simp: preserves_def dest: spec [of _ w])

lemma preserves_ret [preserves_rules, intro]: "preserves I (ret x)"
  by (simp add: preserves_def)

lemma preserves_throw [preserves_rules, intro]: "preserves I (throw e)"
  by (simp add: preserves_def)

lemma preserves_readState [preserves_rules, intro]: "preserves I (readState g)"
  by (simp add: preserves_def)

lemma preserves_liftResult [preserves_rules, intro]: "preserves I (liftResult r)"
  by (simp add: preserves_def)

lemma preserves_guardE [preserves_rules, intro]: "preserves I (guardE b e)"
  by (simp add: preserves_def guardE_def)

lemma preserves_andThen [preserves_rules, intro]:
  "preserves I m \<Longrightarrow> (\<And>x. preserves I (f x)) \<Longrightarrow> preserves I (andThen m f)"
  by (auto simp: preserves_def andThen_def split: prod.split sum.split dest: spec)

lemma preserves_catching [preserves_rules, intro]:
  "preserves I m \<Longrightarrow> (\<And>e. preserves I (h e)) \<Longrightarrow> preserves I (catching m h)"
  by (auto simp: preserves_def catching_def split: prod.split sum.split dest: spec)

lemma preserves_atomically [preserves_rules, intro]:
  "preserves I m \<Longrightarrow> preserves I (atomically m)"
  by (rule preservesI) (auto simp: atomically_def split: prod.split sum.split elim: preservesE)

lemma preserves_attempt [preserves_rules, intro]: "preserves I m \<Longrightarrow> preserves I (attempt m)"
  by (rule preservesI) (auto simp: attempt_def split: prod.split elim: preservesE)

lemma preserves_if [preserves_rules, intro]:
  "(b \<Longrightarrow> preserves I m) \<Longrightarrow> (\<not> b \<Longrightarrow> preserves I n) \<Longrightarrow> preserves I (if b then m else n)"
  by simp

lemma preserves_option [preserves_rules, intro]:
  "(x = None \<Longrightarrow> preserves I m) \<Longrightarrow> (\<And>y. x = Some y \<Longrightarrow> preserves I (f y)) \<Longrightarrow>
    preserves I (case x of None \<Rightarrow> m | Some y \<Rightarrow> f y)"
  by (cases x) simp_all

lemma preserves_prod [preserves_rules, intro]:
  "(\<And>a b. preserves I (f a b)) \<Longrightarrow> preserves I (case x of (a, b) \<Rightarrow> f a b)"
  by (cases x) simp

lemma preserves_sum [preserves_rules, intro]:
  "(\<And>e. preserves I (f e)) \<Longrightarrow> (\<And>y. preserves I (g y)) \<Longrightarrow> preserves I (case x of Inl e \<Rightarrow> f e | Inr y \<Rightarrow> g y)"
  by (cases x) simp_all

section \<open>Hoare triples for actions\<close>

definition triple :: "('w \<Rightarrow> bool) \<Rightarrow> ('w, 'a) io \<Rightarrow> ('a \<Rightarrow> 'w \<Rightarrow> bool) \<Rightarrow> (error \<Rightarrow> 'w \<Rightarrow> bool) \<Rightarrow> bool" where
  "triple P m Q E \<longleftrightarrow>
    (\<forall>w. P w \<longrightarrow> (case m w of (Inr x, w') \<Rightarrow> Q x w' | (Inl e, w') \<Rightarrow> E e w'))"

lemma tripleI:
  assumes "\<And>w x w'. P w \<Longrightarrow> m w = (Inr x, w') \<Longrightarrow> Q x w'"
    and "\<And>w e w'. P w \<Longrightarrow> m w = (Inl e, w') \<Longrightarrow> E e w'"
  shows "triple P m Q E"
  using assms by (auto simp: triple_def split: prod.split sum.split)

lemma tripleD_ok: "triple P m Q E \<Longrightarrow> P w \<Longrightarrow> m w = (Inr x, w') \<Longrightarrow> Q x w'"
  by (auto simp: triple_def dest!: spec [of _ w])

lemma tripleD_err: "triple P m Q E \<Longrightarrow> P w \<Longrightarrow> m w = (Inl e, w') \<Longrightarrow> E e w'"
  by (auto simp: triple_def dest!: spec [of _ w])

lemma triple_andThen:
  assumes "triple P m R E" and "\<And>x. triple (R x) (f x) Q E"
  shows "triple P (andThen m f) Q E"
proof (rule tripleI)
  fix w y w''
  assume "P w" and "andThen m f w = (Inr y, w'')"
  then show "Q y w''"
    using assms by (auto simp: andThen_Inr_iff dest: tripleD_ok)
next
  fix w e w''
  assume "P w" and "andThen m f w = (Inl e, w'')"
  then show "E e w''"
    using assms by (auto simp: andThen_def split: prod.splits sum.splits dest: tripleD_ok tripleD_err)
qed

section \<open>Steps from one predicate to another\<close>

definition leads :: "('w \<Rightarrow> bool) \<Rightarrow> ('w, 'a) io \<Rightarrow> ('w \<Rightarrow> bool) \<Rightarrow> bool" where
  "leads P m Q \<longleftrightarrow> (\<forall>w. P w \<longrightarrow> Q (snd (m w)))"

lemma leads_preserves: "leads I m I = preserves I m"
  by (simp add: leads_def preserves_def)

lemma leadsI: "(\<And>w r w'. P w \<Longrightarrow> m w = (r, w') \<Longrightarrow> Q w') \<Longrightarrow> leads P m Q"
  unfolding leads_def by (metis prod.collapse)

lemma leadsD: "leads P m Q \<Longrightarrow> P w \<Longrightarrow> m w = (r, w') \<Longrightarrow> Q w'"
  unfolding leads_def by (metis snd_conv)

lemma leads_weaken: "preserves P m \<Longrightarrow> (\<And>w. P w \<Longrightarrow> Q w) \<Longrightarrow> leads P m Q"
  by (simp add: leads_def preserves_def)

lemma leads_andThen:
  assumes "leads P m R" and "\<And>x. leads R (f x) Q" and "\<And>w. R w \<Longrightarrow> Q w"
  shows "leads P (andThen m f) Q"
proof (rule leadsI)
  fix w r w'
  assume "P w" and run: "andThen m f w = (r, w')"
  obtain o1 w1 where m: "m w = (o1, w1)" by (cases "m w")
  with \<open>P w\<close> assms(1) have "R w1" by (auto dest: leadsD)
  then show "Q w'" using run m assms(2,3) by (cases o1) (auto simp: andThen_def dest: leadsD)
qed

lemma leads_if: "leads P m Q \<Longrightarrow> leads P n Q \<Longrightarrow> leads P (if b then m else n) Q"
  by simp

lemma triple_leads: "triple P m (\<lambda>_. Q) (\<lambda>_. Q) = leads P m Q"
  by (auto simp: triple_def leads_def split: prod.splits sum.splits) (metis prod.exhaust_sel sum.exhaust)

lemma triple_catching:
  assumes "triple P m Q R" and "\<And>e. triple (R e) (h e) Q E"
  shows "triple P (catching m h) Q E"
proof (rule tripleI)
  fix w x w'
  assume "P w" and run: "catching m h w = (Inr x, w')"
  obtain o1 w1 where m: "m w = (o1, w1)" by (cases "m w")
  with \<open>P w\<close> assms run show "Q x w'"
    by (cases o1) (auto simp: catching_def dest: tripleD_ok tripleD_err)
next
  fix w e w'
  assume "P w" and run: "catching m h w = (Inl e, w')"
  obtain o1 w1 where m: "m w = (o1, w1)" by (cases "m w")
  with \<open>P w\<close> assms run show "E e w'"
    by (cases o1) (auto simp: catching_def dest: tripleD_ok tripleD_err)
qed

text \<open>A step that is undone when it throws.\<close>

lemma triple_atomically:
  "triple P m Q R \<Longrightarrow> (\<And>e w. P w \<Longrightarrow> E e w) \<Longrightarrow> triple P (atomically m) Q E"
  by (rule tripleI) (auto simp: atomically_Inr_iff atomically_Inl_iff dest: tripleD_ok)

lemma triple_weaken:
  "triple P m Q E \<Longrightarrow> (\<And>w. P' w \<Longrightarrow> P w) \<Longrightarrow> (\<And>x w. Q x w \<Longrightarrow> Q' x w) \<Longrightarrow> (\<And>e w. E e w \<Longrightarrow> E' e w) \<Longrightarrow>
    triple P' m Q' E'"
  by (rule tripleI) (blast dest: tripleD_ok tripleD_err)+

text \<open>The shapes of a step: what was thrown counts as nothing when the step is undone.\<close>

lemma preserves_triple: "preserves P m \<Longrightarrow> (\<And>w. P w \<Longrightarrow> S w) \<Longrightarrow> triple P m (\<lambda>_. P) (\<lambda>_. S)"
  by (rule tripleI) (metis preservesE)+

lemma quiet_then:
  "preserves P m \<Longrightarrow> (\<And>w. P w \<Longrightarrow> S w) \<Longrightarrow> (\<And>x. triple P (f x) Q (\<lambda>_. S)) \<Longrightarrow> triple P (andThen m f) Q (\<lambda>_. S)"
  by (rule triple_andThen [where R = "\<lambda>_. P"]) (auto intro: preserves_triple)

lemma triple_pre: "triple P m Q E \<Longrightarrow> (\<And>w. P' w \<Longrightarrow> P w) \<Longrightarrow> triple P' m Q E"
  by (rule triple_weaken)

lemma triple_ret: "(\<And>w. P w \<Longrightarrow> Q x w) \<Longrightarrow> triple P (ret x) Q E"
  by (simp add: triple_def)

lemma triple_throw: "(\<And>w. P w \<Longrightarrow> E e w) \<Longrightarrow> triple P (throw e) Q E"
  by (simp add: triple_def)

lemma triple_option:
  "(x = None \<Longrightarrow> triple P m Q E) \<Longrightarrow> (\<And>y. x = Some y \<Longrightarrow> triple P (f y) Q E) \<Longrightarrow>
    triple P (case x of None \<Rightarrow> m | Some y \<Rightarrow> f y) Q E"
  by (cases x) simp_all

lemma triple_if: "(c \<Longrightarrow> triple P m Q E) \<Longrightarrow> (\<not> c \<Longrightarrow> triple P n Q E) \<Longrightarrow> triple P (if c then m else n) Q E"
  by simp

lemma triple_conj_pre: "(c \<Longrightarrow> triple P m Q E) \<Longrightarrow> triple (\<lambda>w. c \<and> P w) m Q E"
  by (auto simp: triple_def)

lemma triple_let: "(\<And>x. x = v \<Longrightarrow> triple P (f x) Q E) \<Longrightarrow> triple P (let x = v in f x) Q E"
  by simp

lemma triple_guardE: "(b \<Longrightarrow> triple P (f ()) Q E) \<Longrightarrow> (\<And>w. P w \<Longrightarrow> \<not> b \<Longrightarrow> E e w) \<Longrightarrow> triple P (andThen (guardE b e) f) Q E"
  by (simp add: triple_def andThen_guardE)

lemma triple_liftResult:
  "(\<And>x. r = Inr x \<Longrightarrow> triple P (f x) Q E) \<Longrightarrow> (\<And>e w. P w \<Longrightarrow> E e w) \<Longrightarrow> triple P (andThen (liftResult r) f) Q E"
  by (cases r) (simp_all add: triple_def andThen_liftResult)

lemma triple_readState:
  "(\<And>x. triple (\<lambda>w. P w \<and> g w = x) (f x) Q E) \<Longrightarrow> triple P (andThen (readState g) f) Q E"
  by (simp add: triple_def)

text \<open>A transaction keeps what its steps establish together.\<close>

lemma preserves_transaction: "triple P m (\<lambda>_. P) (\<lambda>_ _. True) \<Longrightarrow> preserves P (atomically m)"
  by (rule preservesI) (auto simp: triple_def atomically_def split: prod.splits sum.splits dest!: spec)

text \<open>Reading, deciding and throwing leave the state alone, so the predicate stays what it was.\<close>

lemma leads_pure_andThen:
  assumes "\<And>w. snd (m w) = w" and "\<And>x. leads P (f x) Q" and "\<And>w. P w \<Longrightarrow> Q w"
  shows "leads P (andThen m f) Q"
proof (rule leads_andThen [OF _ assms(2,3)])
  show "leads P m P" using assms(1) by (simp add: leads_def)
qed

lemma leads_readState: "(\<And>x. leads P (f x) Q) \<Longrightarrow> leads P (andThen (readState g) f) Q"
  by (simp add: leads_def)

lemma leads_guardE:
  "(\<And>w. P w \<Longrightarrow> Q w) \<Longrightarrow> (b \<Longrightarrow> leads P (f ()) Q) \<Longrightarrow> leads P (andThen (guardE b e) f) Q"
  by (simp add: leads_def andThen_guardE)

lemma leads_liftResult:
  "(\<And>w. P w \<Longrightarrow> Q w) \<Longrightarrow> (\<And>x. r = Inr x \<Longrightarrow> leads P (f x) Q) \<Longrightarrow> leads P (andThen (liftResult r) f) Q"
  by (simp add: leads_def andThen_liftResult split: sum.split)

lemma leads_atomically: "leads P m Q \<Longrightarrow> (\<And>w. P w \<Longrightarrow> Q w) \<Longrightarrow> leads P (atomically m) Q"
  by (rule leadsI) (auto simp: atomically_def dest: leadsD split: prod.splits sum.splits)

section \<open>Lists\<close>

lemma filter_map_fst_distinct:
  "distinct (map f xs) \<Longrightarrow> distinct (map f (filter P xs))"
  by (induction xs) auto

lemma find_Some_iff_distinct:
  assumes "distinct (map f xs)" and "x \<in> set xs"
  shows "find (\<lambda>y. f y = f x) xs = Some x"
  using assms by (induction xs) auto

lemma find_SomeD: "find P xs = Some x \<Longrightarrow> x \<in> set xs \<and> P x"
  by (induction xs) (auto split: if_splits)

lemma find_NoneD: "find P xs = None \<Longrightarrow> x \<in> set xs \<Longrightarrow> \<not> P x"
  by (induction xs) (auto split: if_splits)

end
