(* ===== verification/Transition.thy ===== *)
theory Transition
  imports Prelude
begin

text \<open>
  \<open>domain/states/transition.ts\<close>: a transition map is an object of objects, here an
  association list of association lists in the order the source writes the entries (the
  order \<open>Object.entries\<close> returns). The locale \<open>status_machine\<close> is the contract the
  five machines share; what follows from the map alone is proved in it once.
\<close>

type_synonym ('s, 'e) transition_map = "('s \<times> ('e \<times> 's) list) list"

definition transitions :: "('s, 'e) transition_map \<Rightarrow> 's \<Rightarrow> ('e \<times> 's) list" where
  "transitions m s = (case map_of m s of None \<Rightarrow> [] | Some row \<Rightarrow> row)"

definition nextStatus :: "('s, 'e) transition_map \<Rightarrow> 's \<Rightarrow> 'e \<Rightarrow> 's option" where
  "nextStatus m s e = map_of (transitions m s) e"

definition applyTransition :: "('s, 'e) transition_map \<Rightarrow> 's \<Rightarrow> 'e \<Rightarrow> error + 's" where
  "applyTransition m s e = (case nextStatus m s e of
      None \<Rightarrow> Inl (PayableError ''INVALID_STATE_TRANSITION'')
    | Some t \<Rightarrow> Inr t)"

definition canTransition :: "('s, 'e) transition_map \<Rightarrow> 's \<Rightarrow> 'e \<Rightarrow> bool" where
  "canTransition m s e \<longleftrightarrow> nextStatus m s e \<noteq> None"

fun applyEvents :: "('s, 'e) transition_map \<Rightarrow> 's \<Rightarrow> 'e list \<Rightarrow> error + 's" where
  "applyEvents m s [] = Inr s"
| "applyEvents m s (e # es) =
    (case applyTransition m s e of Inl x \<Rightarrow> Inl x | Inr t \<Rightarrow> applyEvents m t es)"

lemma canTransition_iff: "canTransition m s e \<longleftrightarrow> (\<exists>t. applyTransition m s e = Inr t)"
  by (auto simp: canTransition_def applyTransition_def split: option.split)

lemma applyTransition_Inl:
  "applyTransition m s e = Inl x \<Longrightarrow> x = PayableError ''INVALID_STATE_TRANSITION''"
  by (auto simp: applyTransition_def split: option.splits)

lemma applyEvents_append:
  "applyEvents m s (es @ fs) =
    (case applyEvents m s es of Inl x \<Rightarrow> Inl x | Inr t \<Rightarrow> applyEvents m t fs)"
  by (induction es arbitrary: s) (auto split: sum.split)

text \<open>The states of length-\<open>n\<close> event sequences, as a list; bounds shortest paths.\<close>

fun level :: "('s, 'e) transition_map \<Rightarrow> 's \<Rightarrow> nat \<Rightarrow> 's list" where
  "level m s 0 = [s]"
| "level m s (Suc n) = remdups (concat (map (\<lambda>(e, t). level m t n) (transitions m s)))"

inductive moves :: "('s, 'e) transition_map \<Rightarrow> 's \<Rightarrow> 's \<Rightarrow> bool" for m where
  stay: "moves m s s"
| move: "applyTransition m s e = Inr t \<Longrightarrow> moves m t u \<Longrightarrow> moves m s u"

inductive_cases moves_from: "moves m s u"

lemma moves_iff_applyEvents: "moves m s t \<longleftrightarrow> (\<exists>es. applyEvents m s es = Inr t)"
proof
  assume "moves m s t"
  then show "\<exists>es. applyEvents m s es = Inr t"
  proof (induction rule: moves.induct)
    case (stay s)
    show ?case by (rule exI [of _ "[]"]) simp
  next
    case (move s e t u)
    then obtain es where "applyEvents m t es = Inr u" by blast
    with move.hyps(1) have "applyEvents m s (e # es) = Inr u" by simp
    then show ?case by blast
  qed
next
  have "applyEvents m s es = Inr t \<Longrightarrow> moves m s t" for es
    by (induction es arbitrary: s) (auto split: sum.splits intro: moves.intros)
  then show "\<exists>es. applyEvents m s es = Inr t \<Longrightarrow> moves m s t" by blast
qed

lemma applyEvents_level:
  "applyEvents m s es = Inr t \<Longrightarrow> t \<in> set (level m s (length es))"
proof (induction es arbitrary: s)
  case Nil
  then show ?case by simp
next
  case (Cons e es)
  then obtain u where u: "nextStatus m s e = Some u" "applyEvents m u es = Inr t"
    by (auto simp: applyTransition_def split: option.splits)
  then have "(e, u) \<in> set (transitions m s)"
    by (auto simp: nextStatus_def dest: map_of_SomeD)
  moreover have "t \<in> set (level m u (length es))" by (rule Cons.IH [OF u(2)])
  ultimately show ?case by force
qed

locale status_machine =
  fixes tmap :: "('s, 'e) transition_map"
  assumes states_distinct: "distinct (map fst tmap)"
    and events_distinct: "(s, row) \<in> set tmap \<Longrightarrow> distinct (map fst row)"
begin

lemma transitions_distinct: "distinct (map fst (transitions tmap s))"
  by (auto simp: transitions_def split: option.split dest: map_of_SomeD events_distinct)

lemma nextStatus_iff: "nextStatus tmap s e = Some t \<longleftrightarrow> (e, t) \<in> set (transitions tmap s)"
  by (simp add: nextStatus_def map_of_eq_Some_iff transitions_distinct)

lemma applyTransition_Inr: "applyTransition tmap s e = Inr t \<longleftrightarrow> (e, t) \<in> set (transitions tmap s)"
  by (auto simp: applyTransition_def nextStatus_iff [symmetric] split: option.split)

lemma successor_iff: "t \<in> set (map snd (transitions tmap s)) \<longleftrightarrow> (\<exists>e. applyTransition tmap s e = Inr t)"
  by (force simp: applyTransition_Inr)

lemma terminal_stuck: "transitions tmap s = [] \<Longrightarrow> moves tmap s t \<Longrightarrow> t = s"
  by (erule moves.cases) (auto simp: applyTransition_def nextStatus_def split: option.splits)

lemma moves_trans: "moves tmap s t \<Longrightarrow> moves tmap t u \<Longrightarrow> moves tmap s u"
  by (induction rule: moves.induct) (auto intro: moves.intros)

text \<open>A set of states the map does not leave holds everything reachable from it.\<close>

lemma moves_closed:
  assumes "moves tmap s t" and "s \<in> A"
    and "\<And>x e y. x \<in> A \<Longrightarrow> (e, y) \<in> set (transitions tmap x) \<Longrightarrow> y \<in> A"
  shows "t \<in> A"
  using assms(1,2)
proof (induction rule: moves.induct)
  case (stay s)
  then show ?case .
next
  case (move s e t u)
  then have "(e, t) \<in> set (transitions tmap s)"
    by (auto simp: applyTransition_def nextStatus_iff [symmetric] split: option.splits)
  with move assms(3) show ?case by blast
qed

end

end
