(* ===== verification/Status_Machines.thy ===== *)
theory Status_Machines
  imports Transition
begin

text \<open>
  \<open>domain/states/*-state-machine.ts\<close> and \<open>domain/value-objects/*-status.ts\<close>: the five
  status types, their event types and transition maps. Each map is an instance of the
  locale \<open>status_machine\<close>.
\<close>

section \<open>Payments\<close>

datatype payment_status =
    P_pending | P_processing | P_authorized | P_succeeded | P_failed | P_canceled
  | P_refunded | P_partially_refunded

datatype payment_event =
    PE_process | PE_authorize | PE_capture | PE_void | PE_succeed | PE_fail | PE_cancel
  | PE_refund | PE_partially_refund

definition payment_map :: "(payment_status, payment_event) transition_map" where
  "payment_map = [
    (P_pending, [(PE_process, P_processing), (PE_authorize, P_authorized),
      (PE_succeed, P_succeeded), (PE_fail, P_failed), (PE_cancel, P_canceled)]),
    (P_processing, [(PE_authorize, P_authorized), (PE_succeed, P_succeeded),
      (PE_fail, P_failed), (PE_cancel, P_canceled)]),
    (P_authorized, [(PE_capture, P_succeeded), (PE_void, P_canceled), (PE_fail, P_failed)]),
    (P_failed, [(PE_process, P_processing), (PE_authorize, P_authorized),
      (PE_succeed, P_succeeded)]),
    (P_succeeded, [(PE_refund, P_refunded), (PE_partially_refund, P_partially_refunded)]),
    (P_partially_refunded, [(PE_refund, P_refunded),
      (PE_partially_refund, P_partially_refunded)])]"

fun event_by_target :: "payment_status \<Rightarrow> payment_event option" where
  "event_by_target P_processing = Some PE_process"
| "event_by_target P_authorized = Some PE_authorize"
| "event_by_target P_succeeded = Some PE_succeed"
| "event_by_target P_failed = Some PE_fail"
| "event_by_target P_canceled = Some PE_cancel"
| "event_by_target P_refunded = Some PE_refund"
| "event_by_target P_partially_refunded = Some PE_partially_refund"
| "event_by_target P_pending = None"

text \<open>\<open>to\<close>, which every public method of the class calls with its own event.\<close>

definition payment_to :: "payment_status \<Rightarrow> payment_event \<Rightarrow> error + payment_status" where
  "payment_to s e = applyTransition payment_map s e"

definition payment_can :: "payment_status \<Rightarrow> payment_event \<Rightarrow> bool" where
  "payment_can s e = canTransition payment_map s e"

text \<open>\<open>tryTransitionTo\<close> returns whether the machine moved, and the machine's state.\<close>

definition tryTransitionTo :: "payment_status \<Rightarrow> payment_status \<Rightarrow> (error + bool) \<times> payment_status" where
  "tryTransitionTo s target =
    (if s = target then (Inr False, s)
     else let ev = (if s = P_authorized \<and> target = P_succeeded then Some PE_capture
                    else if s = P_authorized \<and> target = P_canceled then Some PE_void
                    else event_by_target target)
       in case ev of
            None \<Rightarrow> (Inr False, s)
          | Some e \<Rightarrow>
              if \<not> payment_can s e then (Inr False, s)
              else (case payment_to s e of Inl x \<Rightarrow> (Inl x, s) | Inr t \<Rightarrow> (Inr True, t)))"

definition isSupersededAuthorization ::
  "payment_status \<Rightarrow> instant option \<Rightarrow> ident option \<Rightarrow> payment_status \<Rightarrow> ident \<Rightarrow> bool" where
  "isSupersededAuthorization status authorizedAt providerPaymentId inStatus inProviderPaymentId \<longleftrightarrow>
    inStatus = P_authorized \<and> status = P_failed \<and> authorizedAt \<noteq> None
    \<and> Some inProviderPaymentId = providerPaymentId"

interpretation payment: status_machine payment_map
  by unfold_locales (auto simp: payment_map_def)

section \<open>Refunds\<close>

datatype refund_status = R_pending | R_succeeded | R_failed | R_canceled

datatype refund_event = RE_succeed | RE_fail | RE_cancel

definition refund_map :: "(refund_status, refund_event) transition_map" where
  "refund_map = [(R_pending, [(RE_succeed, R_succeeded), (RE_fail, R_failed),
     (RE_cancel, R_canceled)])]"

definition refund_to :: "refund_status \<Rightarrow> refund_event \<Rightarrow> error + refund_status" where
  "refund_to s e = applyTransition refund_map s e"

definition REFUND_STATUSES :: "(string \<times> refund_status) list" where
  "REFUND_STATUSES = [(''pending'', R_pending), (''succeeded'', R_succeeded),
     (''failed'', R_failed), (''canceled'', R_canceled)]"

definition isRefundStatus :: "string \<Rightarrow> bool" where
  "isRefundStatus v \<longleftrightarrow> v \<in> set (map fst REFUND_STATUSES)"

definition resolveInitialRefundStatus :: "string \<Rightarrow> error + refund_status" where
  "resolveInitialRefundStatus status =
    (if \<not> isRefundStatus status then Inl (PayableError ''INVALID_STATE_TRANSITION'')
     else if status = ''pending'' then Inr R_pending
     else if status = ''succeeded'' then refund_to R_pending RE_succeed
     else if status = ''failed'' then refund_to R_pending RE_fail
     else refund_to R_pending RE_cancel)"

interpretation refund: status_machine refund_map
  by unfold_locales (auto simp: refund_map_def)

section \<open>Invoices\<close>

datatype invoice_status = I_draft | I_open | I_paid | I_uncollectible | I_void

datatype invoice_event = IE_finalize | IE_pay | IE_mark_uncollectible | IE_void

definition invoice_map :: "(invoice_status, invoice_event) transition_map" where
  "invoice_map = [
    (I_draft, [(IE_finalize, I_open), (IE_void, I_void)]),
    (I_open, [(IE_pay, I_paid), (IE_mark_uncollectible, I_uncollectible), (IE_void, I_void)]),
    (I_uncollectible, [(IE_pay, I_paid), (IE_void, I_void)])]"

definition invoice_to :: "invoice_status \<Rightarrow> invoice_event \<Rightarrow> error + invoice_status" where
  "invoice_to s e = applyTransition invoice_map s e"

interpretation invoice: status_machine invoice_map
  by unfold_locales (auto simp: invoice_map_def)

section \<open>Price migrations\<close>

datatype migration_status =
    M_previewed | M_scheduled | M_executing | M_pending_renewal | M_applied | M_failed
  | M_reconciliation_required | M_cancelled

datatype migration_event =
    ME_schedule | ME_start | ME_apply | ME_confirm_pending_renewal | ME_fail
  | ME_require_reconciliation | ME_resolve_applied | ME_resolve_pending_renewal
  | ME_resolve_not_applied | ME_settle | ME_retry | ME_cancel

definition migration_map :: "(migration_status, migration_event) transition_map" where
  "migration_map = [
    (M_previewed, [(ME_schedule, M_scheduled), (ME_start, M_executing), (ME_cancel, M_cancelled)]),
    (M_scheduled, [(ME_start, M_executing), (ME_cancel, M_cancelled)]),
    (M_executing, [(ME_apply, M_applied), (ME_confirm_pending_renewal, M_pending_renewal),
      (ME_fail, M_failed), (ME_require_reconciliation, M_reconciliation_required)]),
    (M_pending_renewal, [(ME_settle, M_applied)]),
    (M_applied, []),
    (M_failed, [(ME_retry, M_executing), (ME_cancel, M_cancelled)]),
    (M_reconciliation_required, [(ME_resolve_applied, M_applied),
      (ME_resolve_pending_renewal, M_pending_renewal), (ME_resolve_not_applied, M_failed)]),
    (M_cancelled, [])]"

definition migration_to :: "migration_status \<Rightarrow> migration_event \<Rightarrow> error + migration_status" where
  "migration_to s e = applyTransition migration_map s e"

definition canTransitionSubscriptionPriceMigrationStatus ::
  "migration_status \<Rightarrow> migration_status \<Rightarrow> bool" where
  "canTransitionSubscriptionPriceMigrationStatus from to \<longleftrightarrow>
    to \<in> set (map snd (transitions migration_map from))"

interpretation migration: status_machine migration_map
  by unfold_locales (auto simp: migration_map_def)

lemma canTransition_migration_iff:
  "canTransitionSubscriptionPriceMigrationStatus s t \<longleftrightarrow> (\<exists>e. migration_to s e = Inr t)"
  by (simp only: canTransitionSubscriptionPriceMigrationStatus_def migration_to_def
      migration.successor_iff)

section \<open>Tables\<close>

lemmas machine_maps = payment_map_def refund_map_def invoice_map_def migration_map_def

lemmas machine_defs = payment_to_def payment_can_def refund_to_def invoice_to_def migration_to_def
  applyTransition_def canTransition_def nextStatus_def transitions_def

text \<open>The machine moves exactly when the map has an edge to the target, whatever its event.\<close>

lemma payment_edge_iff:
  "(\<exists>e. payment_to s e = Inr t) \<longleftrightarrow> t \<in> set (map snd (transitions payment_map s))"
  by (simp only: payment_to_def payment.successor_iff)

text \<open>
  \<open>tryTransitionTo\<close> never throws; it answers true exactly when the map has an edge to a
  target other than the current state, and then the machine is in the target, else it has
  not moved. The two special events of an authorization (capture, void) make this hold.
\<close>

theorem tryTransitionTo_correct:
  "tryTransitionTo s t =
    (if s \<noteq> t \<and> (\<exists>e. payment_to s e = Inr t) then (Inr True, t) else (Inr False, s))"
  unfolding payment_edge_iff
  by (cases s; cases t; simp add: tryTransitionTo_def machine_defs payment_map_def)

text \<open>
  Once money was taken a payment never goes back: from a succeeded, refunded or partially
  refunded payment no sequence of events reaches a state other than these three, and from a
  refunded or canceled payment every event is refused.
\<close>

theorem payment_settled_closed:
  "(s \<in> {P_succeeded, P_partially_refunded, P_refunded} \<longrightarrow> moves payment_map s t \<longrightarrow>
      t \<in> {P_succeeded, P_partially_refunded, P_refunded}) \<and>
   (s \<in> {P_refunded, P_canceled} \<longrightarrow>
      payment_to s e = Inl (PayableError ''INVALID_STATE_TRANSITION''))"
proof (intro conjI impI)
  assume "s \<in> {P_succeeded, P_partially_refunded, P_refunded}" and "moves payment_map s t"
  then show "t \<in> {P_succeeded, P_partially_refunded, P_refunded}"
    by (intro payment.moves_closed [of s t "{P_succeeded, P_partially_refunded, P_refunded}"])
      (auto simp: transitions_def payment_map_def)
qed (auto simp: machine_defs payment_map_def)

theorem payment_settled_closed_witness:
  "payment_to P_refunded PE_refund = Inl (PayableError ''INVALID_STATE_TRANSITION'')"
  using payment_settled_closed [of P_refunded P_refunded PE_refund] by simp

end
