(* ===== verification/Idempotency_Store.thy ===== *)
theory Idempotency_Store
  imports Prelude
begin

text \<open>
  \<open>domain/contracts/idempotency-store.contract.ts\<close> as a record of operations with its laws
  (locale \<open>idempotency_store\<close>), and \<open>KnexIdempotencyRepository\<close>
  (\<open>infrastructure/storage/knex/repositories/knex-idempotency.repository.ts\<close>) as the
  implementation the laws are proved of. The table is keyed by (tenant, key), its unique
  index; an absent tenant is stored as the empty string. A response is \<open>None\<close> when it is
  null; \<open>json\<close> is what a value becomes when it is written as JSON and parsed back.
\<close>

datatype idem_status = Processing | Completed | Failed | Expired

record 'v idem_record =
  ir_key :: string
  ir_scope :: string
  ir_operation :: string
  ir_resourceType :: "string option"
  ir_resourceId :: "string option"
  ir_requestHash :: string
  ir_response :: "'v option"
  ir_status :: idem_status
  ir_lockedUntil :: "instant option"
  ir_expiresAt :: "instant option"
  ir_lockToken :: "string option"

record ('w, 'v) idem_store =
  st_find :: "string \<Rightarrow> tenant \<Rightarrow> ('w, 'v idem_record option) io"
  st_acquire :: "'v idem_record \<Rightarrow> tenant \<Rightarrow> ('w, bool) io"
  st_takeOver :: "'v idem_record \<Rightarrow> tenant \<Rightarrow> ('w, bool) io"
  st_markCompleted :: "string \<Rightarrow> 'v option \<Rightarrow> tenant \<Rightarrow> string option \<Rightarrow> instant option \<Rightarrow> ('w, unit) io"
  st_markFailed :: "string \<Rightarrow> tenant \<Rightarrow> string option \<Rightarrow> instant option \<Rightarrow> ('w, unit) io"

text \<open>The row conditions of the repository's updates.\<close>

definition past :: "instant \<Rightarrow> instant option \<Rightarrow> bool" where
  "past now d \<longleftrightarrow> (case d of None \<Rightarrow> False | Some t \<Rightarrow> t \<le> now)"

definition claimable :: "instant \<Rightarrow> 'v idem_record \<Rightarrow> bool" where
  "claimable now r \<longleftrightarrow>
    (ir_status r \<in> {Processing, Failed} \<and> (ir_lockedUntil r = None \<or> past now (ir_lockedUntil r)))
    \<or> past now (ir_expiresAt r)"

definition owned :: "string option \<Rightarrow> 'v idem_record \<Rightarrow> bool" where
  "owned token r \<longleftrightarrow> token = None \<or> ir_lockToken r = token"

definition taken_over :: "'v idem_record \<Rightarrow> 'v idem_record \<Rightarrow> 'v idem_record" where
  "taken_over new old = old\<lparr>ir_status := Processing, ir_scope := ir_scope new,
     ir_operation := ir_operation new, ir_resourceType := ir_resourceType new,
     ir_resourceId := ir_resourceId new, ir_requestHash := ir_requestHash new,
     ir_response := None, ir_lockedUntil := ir_lockedUntil new, ir_lockToken := ir_lockToken new,
     ir_expiresAt := ir_expiresAt new\<rparr>"

definition completed_row :: "'v option \<Rightarrow> instant option \<Rightarrow> 'v idem_record \<Rightarrow> 'v idem_record" where
  "completed_row response expires r = r\<lparr>ir_status := Completed, ir_response := response,
     ir_lockedUntil := None, ir_expiresAt := expires\<rparr>"

definition failed_row :: "instant option \<Rightarrow> 'v idem_record \<Rightarrow> 'v idem_record" where
  "failed_row expires r = r\<lparr>ir_status := Failed, ir_lockedUntil := None, ir_expiresAt := expires\<rparr>"

section \<open>The contract\<close>

locale idempotency_store =
  fixes S :: "('w, 'v) idem_store"
    and row :: "'w \<Rightarrow> string \<Rightarrow> tenant \<Rightarrow> 'v idem_record option"
    and now :: "'w \<Rightarrow> instant"
    and json :: "'v \<Rightarrow> 'v"
  assumes find: "st_find S k t w = (Inr (row w k t), w)"
    and acquire_free: "row w (ir_key r) t = None \<Longrightarrow> ir_response r = None \<Longrightarrow>
      \<exists>w'. st_acquire S r t w = (Inr True, w') \<and> row w' (ir_key r) t = Some r \<and> now w' = now w"
    and acquire_taken: "row w (ir_key r) t \<noteq> None \<Longrightarrow> st_acquire S r t w = (Inr False, w)"
    and takeOver_ok: "row w (ir_key r) t = Some old \<Longrightarrow> claimable (now w) old \<Longrightarrow>
      \<exists>w'. st_takeOver S r t w = (Inr True, w') \<and> row w' (ir_key r) t = Some (taken_over r old)
        \<and> now w' = now w"
    and takeOver_refused: "(\<And>old. row w (ir_key r) t = Some old \<Longrightarrow> \<not> claimable (now w) old) \<Longrightarrow>
      st_takeOver S r t w = (Inr False, w)"
    and completed_owned: "row w k t = Some r \<Longrightarrow> owned token r \<Longrightarrow>
      \<exists>w'. st_markCompleted S k v t token e w = (Inr (), w')
        \<and> row w' k t = Some (completed_row (map_option json v) e r) \<and> now w' = now w"
    and completed_foreign: "(\<And>r. row w k t = Some r \<Longrightarrow> \<not> owned token r) \<Longrightarrow>
      st_markCompleted S k v t token e w = (Inr (), w)"
    and failed_owned: "row w k t = Some r \<Longrightarrow> owned token r \<Longrightarrow>
      \<exists>w'. st_markFailed S k t token e w = (Inr (), w') \<and> row w' k t = Some (failed_row e r)
        \<and> now w' = now w"
    and failed_foreign: "(\<And>r. row w k t = Some r \<Longrightarrow> \<not> owned token r) \<Longrightarrow>
      st_markFailed S k t token e w = (Inr (), w)"
begin

text \<open>A live lock is never taken over, and neither is a completed record that has not expired.\<close>

lemma takeOver_live:
  assumes "row w (ir_key r) t = Some old" and "\<not> past (now w) (ir_expiresAt old)"
    and "ir_status old = Completed \<or> (\<exists>u. ir_lockedUntil old = Some u \<and> now w < u)"
  shows "st_takeOver S r t w = (Inr False, w)"
  using assms by (intro takeOver_refused) (auto simp: claimable_def past_def)

end

section \<open>The knex repository\<close>

record 'v idem_db =
  idem_rows :: "string \<times> string \<Rightarrow> 'v idem_record option"
  idem_now :: instant

definition tenant_column :: "tenant \<Rightarrow> string" where
  "tenant_column t = (case t of None \<Rightarrow> [] | Some s \<Rightarrow> s)"

definition knex_find :: "string \<Rightarrow> tenant \<Rightarrow> (('v, 'x) idem_db_scheme, 'v idem_record option) io" where
  "knex_find k t = readState (\<lambda>w. idem_rows w (tenant_column t, k))"

definition put_row ::
  "string \<Rightarrow> tenant \<Rightarrow> 'v idem_record \<Rightarrow> ('v, 'x) idem_db_scheme \<Rightarrow> ('v, 'x) idem_db_scheme" where
  "put_row k t r w = w\<lparr>idem_rows := (idem_rows w)((tenant_column t, k) \<mapsto> r)\<rparr>"

text \<open>An insert that meets the unique index answers false; \<open>acquire\<close> writes JSON as \<open>put\<close> does.\<close>

definition knex_acquire ::
  "('v \<Rightarrow> 'v) \<Rightarrow> 'v idem_record \<Rightarrow> tenant \<Rightarrow> (('v, 'x) idem_db_scheme, bool) io" where
  "knex_acquire json r t = (\<lambda>w. case idem_rows w (tenant_column t, ir_key r) of
      Some _ \<Rightarrow> (Inr False, w)
    | None \<Rightarrow> (Inr True, put_row (ir_key r) t (r\<lparr>ir_response := map_option json (ir_response r)\<rparr>) w))"

definition knex_takeOver ::
  "'v idem_record \<Rightarrow> tenant \<Rightarrow> (('v, 'x) idem_db_scheme, bool) io" where
  "knex_takeOver r t = (\<lambda>w. case idem_rows w (tenant_column t, ir_key r) of
      None \<Rightarrow> (Inr False, w)
    | Some old \<Rightarrow> if claimable (idem_now w) old
        then (Inr True, put_row (ir_key r) t (taken_over r old) w) else (Inr False, w))"

definition knex_put ::
  "('v \<Rightarrow> 'v) \<Rightarrow> 'v idem_record \<Rightarrow> tenant \<Rightarrow> (('v, 'x) idem_db_scheme, unit) io" where
  "knex_put json r t = (\<lambda>w. (Inr (),
     put_row (ir_key r) t (r\<lparr>ir_response := map_option json (ir_response r)\<rparr>) w))"

definition update_owned ::
  "string \<Rightarrow> tenant \<Rightarrow> string option \<Rightarrow> ('v idem_record \<Rightarrow> 'v idem_record)
    \<Rightarrow> (('v, 'x) idem_db_scheme, unit) io" where
  "update_owned k t token f = (\<lambda>w. case idem_rows w (tenant_column t, k) of
      None \<Rightarrow> (Inr (), w)
    | Some r \<Rightarrow> if owned token r then (Inr (), put_row k t (f r) w) else (Inr (), w))"

definition knex_markCompleted ::
  "('v \<Rightarrow> 'v) \<Rightarrow> string \<Rightarrow> 'v option \<Rightarrow> tenant \<Rightarrow> string option \<Rightarrow> instant option
    \<Rightarrow> (('v, 'x) idem_db_scheme, unit) io" where
  "knex_markCompleted json k response t token e =
    update_owned k t token (completed_row (map_option json response) e)"

definition knex_markFailed ::
  "string \<Rightarrow> tenant \<Rightarrow> string option \<Rightarrow> instant option \<Rightarrow> (('v, 'x) idem_db_scheme, unit) io" where
  "knex_markFailed k t token e = update_owned k t token (failed_row e)"

definition knex_idem_store :: "('v \<Rightarrow> 'v) \<Rightarrow> (('v, 'x) idem_db_scheme, 'v) idem_store" where
  "knex_idem_store json = \<lparr>st_find = knex_find, st_acquire = knex_acquire json,
     st_takeOver = knex_takeOver, st_markCompleted = knex_markCompleted json,
     st_markFailed = knex_markFailed\<rparr>"

definition knex_row ::
  "('v, 'x) idem_db_scheme \<Rightarrow> string \<Rightarrow> tenant \<Rightarrow> 'v idem_record option" where
  "knex_row w k t = idem_rows w (tenant_column t, k)"

lemma put_row_simps [simp]:
  "knex_row (put_row k t r w) k t = Some r" "idem_now (put_row k t r w) = idem_now w"
  by (simp_all add: knex_row_def put_row_def)

interpretation knex_idem: idempotency_store "knex_idem_store json" knex_row idem_now json
  for json :: "'v \<Rightarrow> 'v"
proof unfold_locales
  fix w :: "('v, 'x) idem_db_scheme" and r :: "'v idem_record" and k t
  show "st_find (knex_idem_store json) k t w = (Inr (knex_row w k t), w)"
    by (simp add: knex_idem_store_def knex_find_def knex_row_def)
  show "\<exists>w'. st_acquire (knex_idem_store json) r t w = (Inr True, w') \<and>
      knex_row w' (ir_key r) t = Some r \<and> idem_now w' = idem_now w"
    if "knex_row w (ir_key r) t = None" "ir_response r = None"
  proof -
    have "r\<lparr>ir_response := None\<rparr> = r" using that(2) by (cases r) simp
    with that show ?thesis by (simp add: knex_idem_store_def knex_acquire_def knex_row_def put_row_def)
  qed
  show "st_acquire (knex_idem_store json) r t w = (Inr False, w)"
    if "knex_row w (ir_key r) t \<noteq> None"
    using that by (auto simp: knex_idem_store_def knex_acquire_def knex_row_def)
qed (auto simp: knex_idem_store_def knex_takeOver_def knex_markCompleted_def knex_markFailed_def
    update_owned_def knex_row_def put_row_def split: option.split)

end
