(* ===== verification/Idempotency_Service.thy ===== *)
theory Idempotency_Service
  imports Idempotency_Store
begin

text \<open>
  \<open>application/services/idempotency/idempotency-service.ts\<close>, over any store. The operation
  a client protects (\<open>run\<close>) is an arbitrary action on the shared state; the request hash and
  the lock token (a random UUID) are given. The clock is read from the state, so time passes
  while the operation runs.
\<close>

record idem_policy =
  pol_retryFailed :: bool
  pol_reclaimStaleProcessing :: bool
  pol_lockTtl :: int
  pol_failedTtl :: "int option"
  pol_reconciliationRequired :: bool

record idem_options =
  opt_lockTtl :: "int option"
  opt_retryFailed :: "bool option"
  opt_completedTtl :: "int option"
  opt_failedTtl :: "int option"

record idem_config =
  cfg_lockTtl :: int
  cfg_retryFailed :: bool
  cfg_completedTtl :: int
  cfg_failedTtl :: int

definition or_else :: "'a option \<Rightarrow> 'a \<Rightarrow> 'a" where
  "or_else x d = (case x of None \<Rightarrow> d | Some v \<Rightarrow> v)"

definition idem_configure :: "idem_options \<Rightarrow> idem_config" where
  "idem_configure opts = (let lock = or_else (opt_lockTtl opts) 30000 in
     \<lparr>cfg_lockTtl = lock, cfg_retryFailed = or_else (opt_retryFailed opts) True,
      cfg_completedTtl = or_else (opt_completedTtl opts) 86400000,
      cfg_failedTtl = or_else (opt_failedTtl opts) lock\<rparr>)"

record ('w, 'v) idem_execution =
  ex_key :: string
  ex_storageKey :: "string option"
  ex_legacyStorageKeys :: "string list"
  ex_scope :: string
  ex_operation :: string
  ex_requestHash :: string
  ex_resourceType :: "string option"
  ex_resourceId :: "string option"
  ex_tenant :: tenant
  ex_retryFailed :: "bool option"
  ex_reclaimStaleProcessing :: "bool option"
  ex_lockTtl :: "int option"
  ex_reconciliationRequired :: bool
  ex_isFailureOutcomeUncertain :: "(error \<Rightarrow> bool) option"
  ex_token :: string
  ex_run :: "('w, 'v option) io"
  ex_revive :: "('v option \<Rightarrow> ('w, 'v option) io) option"

definition resolvePolicy :: "idem_config \<Rightarrow> ('w, 'v) idem_execution \<Rightarrow> idem_policy" where
  "resolvePolicy c ex =
    (if ex_reconciliationRequired ex
     then \<lparr>pol_retryFailed = False, pol_reclaimStaleProcessing = False,
           pol_lockTtl = cfg_lockTtl c, pol_failedTtl = None, pol_reconciliationRequired = True\<rparr>
     else \<lparr>pol_retryFailed = or_else (ex_retryFailed ex) (cfg_retryFailed c),
           pol_reclaimStaleProcessing = or_else (ex_reclaimStaleProcessing ex) False,
           pol_lockTtl = or_else (ex_lockTtl ex) (cfg_lockTtl c),
           pol_failedTtl = Some (cfg_failedTtl c), pol_reconciliationRequired = False\<rparr>)"

definition scopedKey :: "('w, 'v) idem_execution \<Rightarrow> string" where
  "scopedKey ex = or_else (ex_storageKey ex) (ex_scope ex @ '':'' @ ex_key ex)"

datatype 'v replay = NotHandled | Handled "'v option"

definition isLocked :: "instant \<Rightarrow> 'v idem_record \<Rightarrow> bool" where
  "isLocked now r \<longleftrightarrow> (case ir_lockedUntil r of None \<Rightarrow> False | Some t \<Rightarrow> t > now)"

definition isExpired :: "instant \<Rightarrow> 'v idem_record \<Rightarrow> bool" where
  "isExpired now r \<longleftrightarrow> (case ir_expiresAt r of None \<Rightarrow> False | Some t \<Rightarrow> t \<le> now)"

definition replay ::
  "instant \<Rightarrow> 'v idem_record option \<Rightarrow> string \<Rightarrow> idem_policy \<Rightarrow> error + 'v replay" where
  "replay now existing requestHash policy =
    (case existing of
       None \<Rightarrow> Inr NotHandled
     | Some r \<Rightarrow>
         if isExpired now r then Inr NotHandled
         else if ir_requestHash r \<noteq> requestHash then Inl (PayableError ''IDEMPOTENCY_CONFLICT'')
         else if ir_status r = Completed then Inr (Handled (ir_response r))
         else if ir_status r = Processing \<and> isLocked now r
           then Inl (PayableError ''IDEMPOTENCY_IN_PROGRESS'')
         else if ir_status r = Failed \<and> \<not> pol_retryFailed policy
           then (if pol_reconciliationRequired policy
                 then Inl (PayableError ''IDEMPOTENCY_RECONCILIATION_REQUIRED'')
                 else Inl (PayableError ''IDEMPOTENCY_CONFLICT''))
         else Inr NotHandled)"

definition processingRecord :: "instant \<Rightarrow> idem_policy \<Rightarrow> ('w, 'v) idem_execution \<Rightarrow> 'v idem_record" where
  "processingRecord now policy ex = \<lparr>ir_key = scopedKey ex, ir_scope = ex_scope ex,
     ir_operation = ex_operation ex, ir_resourceType = ex_resourceType ex,
     ir_resourceId = ex_resourceId ex, ir_requestHash = ex_requestHash ex, ir_response = None,
     ir_status = Processing, ir_lockedUntil = Some (now + pol_lockTtl policy),
     ir_expiresAt = None, ir_lockToken = Some (ex_token ex)\<rparr>"

definition revive :: "('w, 'v) idem_execution \<Rightarrow> 'v option \<Rightarrow> ('w, 'v option) io" where
  "revive ex v = (case ex_revive ex of None \<Rightarrow> ret v | Some f \<Rightarrow> f v)"

section \<open>Running the operation\<close>

text \<open>A store error while the failure is recorded is swallowed.\<close>

definition markFailed ::
  "('w, 'v) idem_store \<Rightarrow> ('w \<Rightarrow> instant) \<Rightarrow> ('w, 'v) idem_execution \<Rightarrow> int option \<Rightarrow> ('w, unit) io" where
  "markFailed S now ex failedTtl =
    andThen (readState now) (\<lambda>t.
      catching (st_markFailed S (scopedKey ex) (ex_tenant ex) (Some (ex_token ex))
                  (map_option (\<lambda>ttl. t + ttl) failedTtl))
        (\<lambda>_. ret ()))"

text \<open>The second look of a client whose insert met a record; true when it may take over.\<close>

definition lookAgain ::
  "('w, 'v) idem_store \<Rightarrow> ('w \<Rightarrow> instant) \<Rightarrow> idem_policy \<Rightarrow> ('w, 'v) idem_execution
    \<Rightarrow> ('w, 'v replay) io" where
  "lookAgain S now policy ex =
    andThen (st_find S (scopedKey ex) (ex_tenant ex)) (\<lambda>existing.
    andThen (readState now) (\<lambda>t.
    andThen (liftResult (replay t existing (ex_requestHash ex) policy)) (\<lambda>r.
      case r of
        Handled v \<Rightarrow> ret (Handled v)
      | NotHandled \<Rightarrow>
          if (case existing of None \<Rightarrow> False | Some e \<Rightarrow> ir_status e = Processing) \<and> \<not> pol_reclaimStaleProcessing policy
          then throw (PayableError ''IDEMPOTENCY_IN_PROGRESS'')
          else ret NotHandled)))"

definition complete ::
  "('w, 'v) idem_store \<Rightarrow> ('w \<Rightarrow> instant) \<Rightarrow> idem_config \<Rightarrow> idem_policy \<Rightarrow> ('w, 'v) idem_execution
    \<Rightarrow> 'v option \<Rightarrow> ('w, 'v option) io" where
  "complete S now c policy ex result =
    andThen (readState now) (\<lambda>t.
    andThen (attempt (st_markCompleted S (scopedKey ex) result (ex_tenant ex) (Some (ex_token ex))
        (Some (t + cfg_completedTtl c)))) (\<lambda>completion.
    andThen (attempt (st_find S (scopedKey ex) (ex_tenant ex))) (\<lambda>verification.
      let verified = (case verification of Inl _ \<Rightarrow> None | Inr found \<Rightarrow> found) in
      case verified of
        Some r \<Rightarrow>
          if ir_status r = Completed \<and> ir_requestHash r = ex_requestHash ex
          then (if completion = Inr () \<and> ir_lockToken r = Some (ex_token ex) then ret result
                else revive ex (ir_response r))
          else andThen (markFailed S now ex (pol_failedTtl policy))
                 (\<lambda>_. throw (PayableError ''IDEMPOTENCY_RESULT_PERSISTENCE_FAILED''))
      | None \<Rightarrow> andThen (markFailed S now ex (pol_failedTtl policy))
                 (\<lambda>_. throw (PayableError ''IDEMPOTENCY_RESULT_PERSISTENCE_FAILED'')))))"

definition perform ::
  "('w, 'v) idem_store \<Rightarrow> ('w \<Rightarrow> instant) \<Rightarrow> idem_config \<Rightarrow> idem_policy \<Rightarrow> ('w, 'v) idem_execution
    \<Rightarrow> ('w, 'v option) io" where
  "perform S now c policy ex =
    andThen (attempt (ex_run ex)) (\<lambda>outcome.
      case outcome of
        Inl e \<Rightarrow>
          andThen (markFailed S now ex
              (case ex_isFailureOutcomeUncertain ex of
                 None \<Rightarrow> pol_failedTtl policy
               | Some uncertain \<Rightarrow> if \<not> uncertain e then Some 0 else pol_failedTtl policy))
            (\<lambda>_. throw e)
      | Inr result \<Rightarrow> complete S now c policy ex result)"

definition run_idempotent ::
  "('w, 'v) idem_store \<Rightarrow> ('w \<Rightarrow> instant) \<Rightarrow> idem_config \<Rightarrow> idem_policy \<Rightarrow> ('w, 'v) idem_execution
    \<Rightarrow> ('w, 'v option) io" where
  "run_idempotent S now c policy ex =
    andThen (readState now) (\<lambda>t. let processing = processingRecord t policy ex in
    andThen (st_acquire S processing (ex_tenant ex)) (\<lambda>acquired.
      if acquired then perform S now c policy ex
      else andThen (lookAgain S now policy ex) (\<lambda>r.
        case r of
          Handled v \<Rightarrow> revive ex v
        | NotHandled \<Rightarrow>
            andThen (st_takeOver S processing (ex_tenant ex)) (\<lambda>claimed.
              if \<not> claimed then throw (PayableError ''IDEMPOTENCY_IN_PROGRESS'')
              else perform S now c policy ex))))"

fun execute_legacy ::
  "('w, 'v) idem_store \<Rightarrow> ('w \<Rightarrow> instant) \<Rightarrow> idem_policy \<Rightarrow> ('w, 'v) idem_execution \<Rightarrow> string list
    \<Rightarrow> ('w, 'v replay) io" where
  "execute_legacy S now policy ex [] = ret NotHandled"
| "execute_legacy S now policy ex (k # ks) =
    andThen (st_find S k (ex_tenant ex)) (\<lambda>legacy.
    andThen (readState now) (\<lambda>t.
    andThen (liftResult (replay t legacy (ex_requestHash ex) policy)) (\<lambda>r.
      case r of Handled v \<Rightarrow> ret (Handled v) | NotHandled \<Rightarrow> execute_legacy S now policy ex ks)))"

definition execute ::
  "('w, 'v) idem_store \<Rightarrow> ('w \<Rightarrow> instant) \<Rightarrow> idem_config \<Rightarrow> ('w, 'v) idem_execution \<Rightarrow> ('w, 'v option) io" where
  "execute S now c ex = (let policy = resolvePolicy c ex in
    andThen (execute_legacy S now policy ex (ex_legacyStorageKeys ex)) (\<lambda>legacy.
      case legacy of
        Handled v \<Rightarrow> revive ex v
      | NotHandled \<Rightarrow>
          andThen (st_find S (scopedKey ex) (ex_tenant ex)) (\<lambda>existing.
          andThen (readState now) (\<lambda>t.
          andThen (liftResult (replay t existing (ex_requestHash ex) policy)) (\<lambda>r.
            case r of
              Handled v \<Rightarrow> revive ex v
            | NotHandled \<Rightarrow> run_idempotent S now c policy ex)))))"

section \<open>What the service guarantees over a store that meets the contract\<close>

text \<open>Two executions of one request: the same record, tenant and hash; their operations may differ.\<close>

definition same_request :: "('w, 'v) idem_execution \<Rightarrow> ('w, 'v) idem_execution \<Rightarrow> bool" where
  "same_request ex ex' \<longleftrightarrow> scopedKey ex' = scopedKey ex \<and> ex_tenant ex' = ex_tenant ex
    \<and> ex_requestHash ex' = ex_requestHash ex \<and> ex_legacyStorageKeys ex' = []"

lemma processingRecord_simps [simp]:
  "ir_key (processingRecord t p ex) = scopedKey ex" "ir_response (processingRecord t p ex) = None"
  "ir_lockToken (processingRecord t p ex) = Some (ex_token ex)"
  "ir_requestHash (processingRecord t p ex) = ex_requestHash ex"
  by (simp_all add: processingRecord_def)

lemma completed_row_simps [simp]:
  "ir_status (completed_row v e r) = Completed" "ir_response (completed_row v e r) = v"
  "ir_expiresAt (completed_row v e r) = e" "ir_requestHash (completed_row v e r) = ir_requestHash r"
  "ir_lockToken (completed_row v e r) = ir_lockToken r"
  by (simp_all add: completed_row_def)

lemma failed_row_simps [simp]:
  "ir_status (failed_row e r) = Failed" "ir_expiresAt (failed_row e r) = e"
  "ir_requestHash (failed_row e r) = ir_requestHash r" "ir_lockToken (failed_row e r) = ir_lockToken r"
  by (simp_all add: failed_row_def)

text \<open>The time a failure record of this execution lives, when it has a limit.\<close>

definition failure_ttl :: "idem_config \<Rightarrow> ('w, 'v) idem_execution \<Rightarrow> error \<Rightarrow> int option" where
  "failure_ttl c ex e = (case ex_isFailureOutcomeUncertain ex of
      None \<Rightarrow> pol_failedTtl (resolvePolicy c ex)
    | Some uncertain \<Rightarrow> if \<not> uncertain e then Some 0 else pol_failedTtl (resolvePolicy c ex))"

definition record_of ::
  "('w \<Rightarrow> string \<Rightarrow> tenant \<Rightarrow> 'v idem_record option) \<Rightarrow> 'w \<Rightarrow> ('w, 'v) idem_execution
    \<Rightarrow> 'v idem_record option" where
  "record_of row w ex = row w (scopedKey ex) (ex_tenant ex)"

context idempotency_store begin

lemma andThen_find: "andThen (st_find S k t) f w = f (row w k t) w"
  by (simp add: andThen_def find)

lemma execute_unfold:
  assumes "ex_legacyStorageKeys ex = []"
  shows "execute S now c ex w =
    (case replay (now w) (record_of row w ex) (ex_requestHash ex) (resolvePolicy c ex) of
       Inl e \<Rightarrow> (Inl e, w)
     | Inr (Handled v) \<Rightarrow> revive ex v w
     | Inr NotHandled \<Rightarrow> run_idempotent S now c (resolvePolicy c ex) ex w)"
  using assms
  by (simp add: execute_def Let_def andThen_find andThen_liftResult record_of_def
      split: sum.split replay.split)

lemma execute_completed:
  assumes "ex_legacyStorageKeys ex = []" and "record_of row w ex = Some r" and "ir_status r = Completed"
    and "ir_requestHash r = ex_requestHash ex" and "\<not> isExpired (now w) r"
  shows "execute S now c ex w = revive ex (ir_response r) w"
  using assms by (simp add: execute_unfold replay_def)

lemma markFailed_owned:
  assumes "record_of row w ex = Some r" and "ir_lockToken r = Some (ex_token ex)"
  shows "\<exists>w'. markFailed S now ex ttl w = (Inr (), w')
    \<and> record_of row w' ex = Some (failed_row (map_option (\<lambda>d. now w + d) ttl) r) \<and> now w' = now w"
proof -
  have "owned (Some (ex_token ex)) r" using assms(2) by (simp add: owned_def)
  from failed_owned [OF assms(1) [unfolded record_of_def] this, of "map_option (\<lambda>d. now w + d) ttl"]
  show ?thesis by (auto simp: markFailed_def catching_def record_of_def)
qed

lemma complete_owned:
  assumes "record_of row w ex = Some r" and "ir_lockToken r = Some (ex_token ex)"
    and "ir_requestHash r = ex_requestHash ex"
  shows "\<exists>w'. complete S now c p ex v w = (Inr v, w')
    \<and> record_of row w' ex = Some (completed_row (map_option json v) (Some (now w + cfg_completedTtl c)) r)
    \<and> now w' = now w"
proof -
  have "owned (Some (ex_token ex)) r" using assms(2) by (simp add: owned_def)
  from completed_owned [OF assms(1) [unfolded record_of_def] this, of v "Some (now w + cfg_completedTtl c)"]
  obtain w' where w': "st_markCompleted S (scopedKey ex) v (ex_tenant ex) (Some (ex_token ex))
        (Some (now w + cfg_completedTtl c)) w = (Inr (), w')"
      "row w' (scopedKey ex) (ex_tenant ex)
        = Some (completed_row (map_option json v) (Some (now w + cfg_completedTtl c)) r)"
      "now w' = now w"
    by blast
  then show ?thesis
    using assms(2,3) by (simp add: complete_def andThen_def attempt_def find record_of_def Let_def)
qed

lemma perform_outcome:
  assumes r: "record_of row w ex = Some r" "ir_lockToken r = Some (ex_token ex)"
      "ir_requestHash r = ex_requestHash ex"
    and keeps: "\<And>u. record_of row (snd (ex_run ex u)) ex = record_of row u ex"
  shows "\<exists>w'. perform S now c (resolvePolicy c ex) ex w = (fst (ex_run ex w), w') \<and>
    record_of row w' ex = Some (case fst (ex_run ex w) of
        Inr v \<Rightarrow> completed_row (map_option json v) (Some (now w' + cfg_completedTtl c)) r
      | Inl e \<Rightarrow> failed_row (map_option (\<lambda>d. now w' + d) (failure_ttl c ex e)) r)"
proof -
  obtain o1 w1 where run: "ex_run ex w = (o1, w1)" by (cases "ex_run ex w")
  then have r1: "record_of row w1 ex = Some r" using keeps [of w] r(1) by simp
  show ?thesis
  proof (cases o1)
    case (Inl e)
    with markFailed_owned [OF r1 r(2), of "failure_ttl c ex e"] run show ?thesis
      by (auto simp: perform_def attempt_def andThen_def failure_ttl_def)
  next
    case (Inr v)
    with complete_owned [OF r1 r(2,3), of c "resolvePolicy c ex" v] run show ?thesis
      by (auto simp: perform_def attempt_def andThen_def)
  qed
qed

lemma execute_fresh:
  assumes fresh: "record_of row w ex = None" "ex_legacyStorageKeys ex = []"
    and keeps: "\<And>u. record_of row (snd (ex_run ex u)) ex = record_of row u ex"
  shows "\<exists>u w' r. execute S now c ex w = (fst (ex_run ex u), w') \<and> record_of row w' ex = Some r
    \<and> ir_requestHash r = ex_requestHash ex \<and>
    (case fst (ex_run ex u) of
        Inr v \<Rightarrow> ir_status r = Completed \<and> ir_response r = map_option json v
          \<and> ir_expiresAt r = Some (now w' + cfg_completedTtl c)
      | Inl e \<Rightarrow> ir_status r = Failed
          \<and> ir_expiresAt r = map_option (\<lambda>d. now w' + d) (failure_ttl c ex e))"
proof -
  let ?p = "resolvePolicy c ex"
  let ?rec = "processingRecord (now w) ?p ex"
  obtain u where u: "st_acquire S ?rec (ex_tenant ex) w = (Inr True, u)" "record_of row u ex = Some ?rec"
    using acquire_free [of w ?rec "ex_tenant ex"] fresh(1) by (auto simp: record_of_def)
  then have "execute S now c ex w = perform S now c ?p ex u"
    using fresh by (simp add: execute_unfold replay_def run_idempotent_def Let_def andThen_def)
  moreover obtain w' where "perform S now c ?p ex u = (fst (ex_run ex u), w')"
      "record_of row w' ex = Some (case fst (ex_run ex u) of
        Inr v \<Rightarrow> completed_row (map_option json v) (Some (now w' + cfg_completedTtl c)) ?rec
      | Inl e \<Rightarrow> failed_row (map_option (\<lambda>d. now w' + d) (failure_ttl c ex e)) ?rec)"
    using perform_outcome [OF u(2) _ _ keeps, of c] by auto
  ultimately show ?thesis by (cases "fst (ex_run ex u)") (auto intro!: exI [of _ u])
qed

lemma execute_refused:
  assumes "ex_legacyStorageKeys ex = []" and "record_of row w ex = Some r" and "\<not> isExpired (now w) r"
  shows "ir_requestHash r \<noteq> ex_requestHash ex \<Longrightarrow>
      execute S now c ex w = (Inl (PayableError ''IDEMPOTENCY_CONFLICT''), w)"
    and "ir_requestHash r = ex_requestHash ex \<Longrightarrow> ir_status r = Processing \<Longrightarrow> isLocked (now w) r \<Longrightarrow>
      execute S now c ex w = (Inl (PayableError ''IDEMPOTENCY_IN_PROGRESS''), w)"
    and "ir_requestHash r = ex_requestHash ex \<Longrightarrow> ir_status r = Failed \<Longrightarrow> ex_reconciliationRequired ex \<Longrightarrow>
      execute S now c ex w = (Inl (PayableError ''IDEMPOTENCY_RECONCILIATION_REQUIRED''), w)"
  using assms by (simp_all add: execute_unfold replay_def resolvePolicy_def)

end

section \<open>What an execution does to the rest of the state\<close>

text \<open>
  A predicate the writes of the store cannot change is led from before to after an execution
  when the protected operation leads it.
\<close>

definition row_blind :: "(('v, 'x) idem_db_scheme \<Rightarrow> bool) \<Rightarrow> bool" where
  "row_blind P \<longleftrightarrow> (\<forall>k t r w. P w \<longrightarrow> P (put_row k t r w))"

lemma row_blindD: "row_blind P \<Longrightarrow> P w \<Longrightarrow> P (put_row k t r w)"
  by (simp add: row_blind_def)

lemma store_preserves [preserves_rules]:
  assumes "row_blind P"
  shows "preserves P (st_find (knex_idem_store json) k t)"
    and "preserves P (st_acquire (knex_idem_store json) r t)"
    and "preserves P (st_takeOver (knex_idem_store json) r t)"
    and "preserves P (st_markCompleted (knex_idem_store json) k v t token e)"
    and "preserves P (st_markFailed (knex_idem_store json) k t token e)"
  using assms
  by (auto intro!: preservesI simp: knex_idem_store_def knex_find_def knex_acquire_def knex_takeOver_def
      knex_markCompleted_def knex_markFailed_def update_owned_def dest: row_blindD split: option.splits)

lemma markFailed_preserves:
  "row_blind P \<Longrightarrow> preserves P (markFailed (knex_idem_store json) now ex ttl)"
  unfolding markFailed_def by (intro preserves_rules)

lemma lookAgain_state: "snd (lookAgain (knex_idem_store json) now policy ex w) = w"
  by (simp add: lookAgain_def andThen_def knex_idem_store_def knex_find_def throw_def ret_def liftResult_def
      readState_def split: sum.split replay.split prod.split)

lemma execute_legacy_state: "snd (execute_legacy (knex_idem_store json) now policy ex ks w) = w"
  by (induction ks) (simp_all add: andThen_def knex_idem_store_def knex_find_def liftResult_def
      readState_def split: sum.split replay.split)

lemma preserves_replay [preserves_rules]:
  "preserves I m \<Longrightarrow> (\<And>v. preserves I (f v)) \<Longrightarrow>
    preserves I (case r of NotHandled \<Rightarrow> m | Handled v \<Rightarrow> f v)"
  by (cases r) simp_all

lemma revive_preserves:
  "(\<And>f v. ex_revive ex = Some f \<Longrightarrow> preserves Q (f v)) \<Longrightarrow> preserves Q (revive ex v)"
  unfolding revive_def by (intro preserves_rules)

lemma complete_preserves:
  assumes "row_blind Q" and "\<And>f v. ex_revive ex = Some f \<Longrightarrow> preserves Q (f v)"
  shows "preserves Q (complete (knex_idem_store json) now c policy ex v)"
  unfolding complete_def Let_def
  using assms by (intro preserves_rules markFailed_preserves revive_preserves)

lemma perform_leads:
  assumes "row_blind Q" and "\<And>f v. ex_revive ex = Some f \<Longrightarrow> preserves Q (f v)"
    and "leads P (ex_run ex) Q"
  shows "leads P (perform (knex_idem_store json) now c policy ex) Q"
proof (unfold perform_def, rule leads_andThen [where R = Q])
  show "leads P (attempt (ex_run ex)) Q"
    using assms(3) by (auto simp: leads_def attempt_def split: prod.split dest: spec)
  show "leads Q (case x of
        Inl e \<Rightarrow> andThen (markFailed (knex_idem_store json) now ex
            (case ex_isFailureOutcomeUncertain ex of None \<Rightarrow> pol_failedTtl policy
             | Some uncertain \<Rightarrow> if \<not> uncertain e then Some 0 else pol_failedTtl policy)) (\<lambda>_. throw e)
      | Inr result \<Rightarrow> complete (knex_idem_store json) now c policy ex result) Q" for x
    using assms(1,2)
    by (cases x) (auto simp: leads_preserves intro!: preserves_andThen markFailed_preserves complete_preserves)
qed

lemma execute_leads:
  assumes blind: "row_blind P" "row_blind Q" and PQ: "\<And>w. P w \<Longrightarrow> Q w"
    and revive: "\<And>f v. ex_revive ex = Some f \<Longrightarrow> preserves Q (f v)"
    and run: "leads P (ex_run ex) Q"
  shows "leads P (execute (knex_idem_store json) now c ex) Q"
proof -
  let ?S = "knex_idem_store json" and ?p = "resolvePolicy c ex"
  have weak: "leads P m Q" if "preserves Q m" for m :: "(('a, 'b) idem_db_scheme, 'a option) io"
    using that PQ by (simp add: leads_def preserves_def)
  have rev: "leads P (revive ex v) Q" for v by (intro weak revive_preserves revive)
  have perf: "leads P (perform ?S now c ?p ex) Q"
    by (rule perform_leads [OF blind(2) _ run]) (rule revive)
  have over: "leads P (andThen (st_takeOver ?S r t) (\<lambda>claimed. if \<not> claimed
      then throw (PayableError ''IDEMPOTENCY_IN_PROGRESS'') else perform ?S now c ?p ex)) Q" for r t
    by (intro leads_andThen [where R = P] leads_if perf PQ weak preserves_throw)
      (simp add: leads_preserves store_preserves blind)
  have look: "leads P (case r of Handled v \<Rightarrow> revive ex v | NotHandled \<Rightarrow>
      andThen (st_takeOver ?S r' t) (\<lambda>claimed. if \<not> claimed
        then throw (PayableError ''IDEMPOTENCY_IN_PROGRESS'') else perform ?S now c ?p ex)) Q" for r r' t
    using over rev by (cases r) simp_all
  have run2: "leads P (run_idempotent ?S now c ?p ex) Q"
    unfolding run_idempotent_def Let_def
    by (intro leads_pure_andThen leads_andThen [where R = P] leads_if perf PQ look)
      (simp_all add: lookAgain_state leads_preserves store_preserves blind leads_andThen)
  have final: "leads P (case r of Handled v \<Rightarrow> revive ex v | NotHandled \<Rightarrow> run_idempotent ?S now c ?p ex) Q" for r
    using run2 rev by (cases r) simp_all
  have "leads P (case r of Handled v \<Rightarrow> revive ex v | NotHandled \<Rightarrow>
      andThen (st_find ?S (scopedKey ex) (ex_tenant ex)) (\<lambda>existing. andThen (readState now) (\<lambda>t.
        andThen (liftResult (replay t existing (ex_requestHash ex) ?p)) (\<lambda>r.
          case r of Handled v \<Rightarrow> revive ex v | NotHandled \<Rightarrow> run_idempotent ?S now c ?p ex)))) Q" for r
  proof (cases r)
    case NotHandled
    have "snd (st_find ?S k t w) = w" for k t w by (simp add: knex_idem_store_def knex_find_def)
    then show ?thesis unfolding NotHandled replay.case by (intro leads_pure_andThen final PQ) simp_all
  qed (simp add: rev)
  then show ?thesis
    unfolding execute_def Let_def by (intro leads_pure_andThen PQ) (simp_all add: execute_legacy_state)
qed

section \<open>The service over the knex repository\<close>

lemma same_request_record: "same_request ex ex' \<Longrightarrow> record_of row w ex' = record_of row w ex"
  by (simp add: same_request_def record_of_def)


text \<open>
  A live record shuts out every other request and client: with another request hash the
  execution is a conflict, with a live processing lock it is refused as in progress, and in
  both cases nothing runs and the store is unchanged; nor can the lock be taken over.
\<close>

theorem execute_excludes:
  assumes "record_of knex_row w ex = Some r" and "ex_legacyStorageKeys ex = []"
    and "\<not> isExpired (idem_now w) r"
  shows "(ir_requestHash r \<noteq> ex_requestHash ex \<longrightarrow>
      execute (knex_idem_store json) idem_now c ex w = (Inl (PayableError ''IDEMPOTENCY_CONFLICT''), w))
    \<and> (ir_requestHash r = ex_requestHash ex \<and> ir_status r = Processing \<and> isLocked (idem_now w) r \<longrightarrow>
      execute (knex_idem_store json) idem_now c ex w = (Inl (PayableError ''IDEMPOTENCY_IN_PROGRESS''), w)
      \<and> knex_takeOver (processingRecord t p ex) (ex_tenant ex) w = (Inr False, w))"
proof (intro conjI impI)
  assume l: "ir_requestHash r = ex_requestHash ex \<and> ir_status r = Processing \<and> isLocked (idem_now w) r"
  then have "st_takeOver (knex_idem_store json) (processingRecord t p ex) (ex_tenant ex) w = (Inr False, w)"
    using assms by (intro knex_idem.takeOver_live)
      (auto simp: record_of_def isLocked_def isExpired_def past_def split: option.splits)
  then show "knex_takeOver (processingRecord t p ex) (ex_tenant ex) w = (Inr False, w)"
    by (simp add: knex_idem_store_def)
qed (use knex_idem.execute_refused [OF assms(2,1,3)] in auto)

section \<open>Examples\<close>

definition example_config :: idem_config where
  "example_config = idem_configure \<lparr>opt_lockTtl = None, opt_retryFailed = None,
     opt_completedTtl = None, opt_failedTtl = None\<rparr>"

definition example_execution :: "string \<Rightarrow> ('w, int option) io \<Rightarrow> ('w, int) idem_execution" where
  "example_execution token run = \<lparr>ex_key = ''k'', ex_storageKey = None, ex_legacyStorageKeys = [],
     ex_scope = ''s'', ex_operation = ''charge'', ex_requestHash = ''h'', ex_resourceType = None,
     ex_resourceId = None, ex_tenant = None, ex_retryFailed = None,
     ex_reclaimStaleProcessing = None, ex_lockTtl = None, ex_reconciliationRequired = True,
     ex_isFailureOutcomeUncertain = None, ex_token = token, ex_run = run, ex_revive = None\<rparr>"

definition empty_idem_db :: "int idem_db" where
  "empty_idem_db = \<lparr>idem_rows = Map.empty, idem_now = 10\<rparr>"


text \<open>A record with one failure whose outcome was certain, so that it expired at once.\<close>

definition example_record :: "idem_status \<Rightarrow> instant option \<Rightarrow> instant option \<Rightarrow> int idem_record" where
  "example_record st locked expires = \<lparr>ir_key = ''s:k'', ir_scope = ''s'', ir_operation = ''charge'',
     ir_resourceType = None, ir_resourceId = None, ir_requestHash = ''h'', ir_response = None,
     ir_status = st, ir_lockedUntil = locked, ir_expiresAt = expires, ir_lockToken = Some ''z''\<rparr>"

definition example_idem_db :: "int idem_record \<Rightarrow> int idem_db" where
  "example_idem_db r = \<lparr>idem_rows = [([], ''s:k'') \<mapsto> r], idem_now = 10\<rparr>"

theorem execute_excludes_witness:
  "execute (knex_idem_store id) idem_now example_config (example_execution ''a'' (ret (Some 5)))
      (example_idem_db (example_record Processing (Some 11) None))
    = (Inl (PayableError ''IDEMPOTENCY_IN_PROGRESS''), example_idem_db (example_record Processing (Some 11) None))"
  using execute_excludes [of "example_idem_db (example_record Processing (Some 11) None)"
      "example_execution ''a'' (ret (Some 5))" "example_record Processing (Some 11) None" id example_config 0]
  by (simp add: record_of_def knex_row_def example_idem_db_def example_execution_def scopedKey_def
      or_else_def tenant_column_def example_record_def isExpired_def isLocked_def)

text \<open>
  The take-over does not look at what the second look saw. Two clients of the
  reconciliation policy both find an expired failure; the first takes it over and its
  operation fails with an unknown outcome, which leaves a failed record without lock or
  expiry. Every later execution is refused for reconciliation, but the second client's
  take-over succeeds, so that the operation is run again.
\<close>

theorem stale_look_runs_again:
  "let S = knex_idem_store id; p = resolvePolicy example_config;
       a = example_execution ''a'' (throw (ForeignError ''timeout''));
       b = example_execution ''b'' (ret (Some 5));
       w0 = example_idem_db (example_record Failed None (Some 10));
       w1 = snd (execute S idem_now example_config a w0)
   in fst (lookAgain S idem_now (p b) b w0) = Inr NotHandled
    \<and> fst (execute S idem_now example_config a w0) = Inl (ForeignError ''timeout'')
    \<and> fst (execute S idem_now example_config b w1) = Inl (PayableError ''IDEMPOTENCY_RECONCILIATION_REQUIRED'')
    \<and> fst (st_takeOver S (processingRecord 10 (p b) b) None w1) = Inr True"
  by code_simp

end
