(* ===== verification/Minor_Units.thy ===== *)
theory Minor_Units
  imports Prelude
begin

text \<open>
  Integer arithmetic on amounts in minor units: \<open>divideMinor\<close> and the share computation of
  \<open>allocate\<close> in \<open>domain/value-objects/money.ts\<close>, and \<open>divideMinorBig\<close> in
  \<open>minor-units.ts\<close>. A \<open>number\<close> whose integrality the code tests is a \<open>js_number\<close>;
  the integers of \<open>js_number\<close> are exact, which the code's guards justify: each product and
  sum is compared with \<open>2^53 - 1\<close> before it is used, and a double that is not exact is
  already outside that range.
\<close>

datatype js_number = JSInt int | JSNotInt

definition MAX_SAFE :: int where
  "MAX_SAFE = 9007199254740991"

definition isSafeInteger :: "int \<Rightarrow> bool" where
  "isSafeInteger n \<longleftrightarrow> - MAX_SAFE \<le> n \<and> n \<le> MAX_SAFE"

lemma isSafeInteger_iff: "isSafeInteger n \<longleftrightarrow> \<bar>n\<bar> \<le> MAX_SAFE"
  by (auto simp: isSafeInteger_def abs_le_iff)

definition assertSafeMinor :: "int \<Rightarrow> error + unit" where
  "assertSafeMinor n = (if isSafeInteger n then Inr () else Inl RangeError)"

lemma assertSafeMinor_Inr [simp]: "assertSafeMinor n = Inr u \<longleftrightarrow> isSafeInteger n"
  by (simp add: assertSafeMinor_def)

section \<open>Rounding division\<close>

definition rounded_quotient :: "int \<Rightarrow> int \<Rightarrow> int" where
  "rounded_quotient amount divisor =
    (let sign = (if amount < 0 then -1 else 1) * (if divisor < 0 then -1 else 1);
         a = \<bar>amount\<bar>; d = \<bar>divisor\<bar>;
         quotient = a div d;
         remainder = a - quotient * d;
         rounded = (if remainder * 2 \<ge> d then quotient + 1 else quotient)
     in sign * rounded)"

definition divideMinorBig :: "int \<Rightarrow> int \<Rightarrow> error + int" where
  "divideMinorBig amount divisor =
    (if divisor = 0 then Inl RangeError
     else let signed = rounded_quotient amount divisor
          in if signed > MAX_SAFE \<or> signed < - MAX_SAFE then Inl RangeError else Inr signed)"

definition divideMinor :: "int \<Rightarrow> int \<Rightarrow> error + int" where
  "divideMinor amount divisor =
    (if divisor = 0 then Inl RangeError
     else let sign = sgn amount * sgn divisor;
              a = \<bar>amount\<bar>; d = \<bar>divisor\<bar>;
              quotient = a div d;
              remainder = a - quotient * d;
              rounded = (if remainder * 2 \<ge> d then quotient + 1 else quotient)
          in Inr (sign * rounded))"

lemma half_up_bounds:
  fixes a d :: int
  assumes "0 \<le> a" and "0 < d" and "r = (if (a - a div d * d) * 2 \<ge> d then a div d + 1 else a div d)"
  shows "2 * (r * d - a) \<le> d" and "2 * (a - r * d) < d" and "0 \<le> r"
proof -
  have m: "a - a div d * d = a mod d" by (simp add: minus_div_mult_eq_mod)
  have "0 \<le> a mod d" "a mod d < d" "0 \<le> a div d" using assms by (auto simp: pos_imp_zdiv_nonneg_iff)
  moreover have r: "r = (if a mod d * 2 \<ge> d then a div d + 1 else a div d)"
    using assms(3) unfolding m .
  moreover have "r * d - a = (if a mod d * 2 \<ge> d then d - a mod d else - (a mod d))"
    using m by (simp add: r distrib_right)
  ultimately show "2 * (r * d - a) \<le> d" "2 * (a - r * d) < d" "0 \<le> r"
    by (auto split: if_splits)
qed

text \<open>The rounded quotient is the nearest integer, ties away from zero.\<close>

lemma rounded_quotient_nearest:
  assumes "divisor \<noteq> 0"
  shows "2 * \<bar>rounded_quotient amount divisor * divisor - amount\<bar> \<le> \<bar>divisor\<bar>"
    and "2 * \<bar>rounded_quotient amount divisor * divisor - amount\<bar> = \<bar>divisor\<bar> \<Longrightarrow>
      \<bar>amount\<bar> < \<bar>rounded_quotient amount divisor * divisor\<bar>"
proof -
  define a d where "a = \<bar>amount\<bar>" and "d = \<bar>divisor\<bar>"
  define r where "r = (if (a - a div d * d) * 2 \<ge> d then a div d + 1 else a div d)"
  define s t :: int where "s = (if amount < 0 then -1 else 1)" and "t = (if divisor < 0 then -1 else 1)"
  have st: "s * s = 1" "t * t = 1" "\<bar>s\<bar> = 1" by (auto simp: s_def t_def)
  have ad: "amount = s * a" "divisor = t * d" by (auto simp: s_def t_def a_def d_def)
  have q: "rounded_quotient amount divisor = s * t * r"
    by (simp add: rounded_quotient_def Let_def s_def t_def r_def a_def d_def)
  have "rounded_quotient amount divisor * divisor = s * t * r * divisor" by (simp only: q)
  also have "\<dots> = s * t * r * (t * d)" by (simp only: ad(2))
  also have "\<dots> = s * (t * t) * (r * d)" by (simp only: ac_simps)
  finally have p: "rounded_quotient amount divisor * divisor = s * (r * d)" by (simp add: st)
  then have "rounded_quotient amount divisor * divisor - amount = s * (r * d - a)"
    by (simp only: right_diff_distrib ad(1) [symmetric])
  then have e: "\<bar>rounded_quotient amount divisor * divisor - amount\<bar> = \<bar>r * d - a\<bar>"
    by (simp only: abs_mult st(3) mult_1)
  have pos: "0 \<le> a" "0 < d" using assms by (simp_all add: a_def d_def)
  note b = half_up_bounds [OF pos r_def]
  show "2 * \<bar>rounded_quotient amount divisor * divisor - amount\<bar> \<le> \<bar>divisor\<bar>"
    unfolding e d_def [symmetric] using b by (simp add: abs_if)
  assume "2 * \<bar>rounded_quotient amount divisor * divisor - amount\<bar> = \<bar>divisor\<bar>"
  then have "2 * \<bar>r * d - a\<bar> = d" unfolding e d_def [symmetric] .
  with b(2) pos(2) have "a < r * d" by (simp add: abs_if split: if_splits)
  moreover have "\<bar>rounded_quotient amount divisor * divisor\<bar> = r * d"
    using b(3) pos(2) by (simp add: p abs_mult st(3))
  ultimately show "\<bar>amount\<bar> < \<bar>rounded_quotient amount divisor * divisor\<bar>" by (simp add: a_def)
qed

lemma divideMinor_eq:
  "divisor \<noteq> 0 \<Longrightarrow> divideMinor amount divisor = Inr (rounded_quotient amount divisor)"
  by (auto simp: divideMinor_def rounded_quotient_def Let_def sgn_if)

lemma no_larger_quotient:
  fixes a q d :: int
  assumes "0 \<le> a" and "2 \<le> d" and "2 * (q * d - a) \<le> d"
  shows "q \<le> a"
proof (rule ccontr)
  assume "\<not> q \<le> a"
  then have "(a + 1) * d \<le> q * d" using assms(2) by (intro mult_right_mono) auto
  then have "a * d + d \<le> q * d" by (simp add: distrib_right)
  moreover have "2 * a \<le> a * d" using mult_left_mono [OF assms(2,1)] by (simp add: mult.commute)
  ultimately show False using assms by (simp add: right_diff_distrib)
qed

lemma abs_rounded_quotient:
  "\<bar>rounded_quotient amount divisor\<bar> =
    (if (\<bar>amount\<bar> - \<bar>amount\<bar> div \<bar>divisor\<bar> * \<bar>divisor\<bar>) * 2 \<ge> \<bar>divisor\<bar>
     then \<bar>amount\<bar> div \<bar>divisor\<bar> + 1 else \<bar>amount\<bar> div \<bar>divisor\<bar>)"
proof -
  have "0 \<le> \<bar>amount\<bar> div \<bar>divisor\<bar>" by (simp add: div_int_pos_iff)
  then show ?thesis by (simp add: rounded_quotient_def Let_def abs_mult del: minus_div_mult_eq_mod)
qed

lemma divideMinor_safe:
  assumes "isSafeInteger amount" and "divisor \<noteq> 0"
  shows "isSafeInteger (rounded_quotient amount divisor)"
proof -
  have "\<bar>rounded_quotient amount divisor\<bar> \<le> \<bar>amount\<bar>"
  proof (cases "\<bar>divisor\<bar> = 1")
    case True
    show ?thesis unfolding abs_rounded_quotient True by simp
  next
    case False
    with zero_less_abs_iff [THEN iffD2, OF assms(2)] have "2 \<le> \<bar>divisor\<bar>" by simp
    moreover have "2 * (\<bar>rounded_quotient amount divisor\<bar> * \<bar>divisor\<bar> - \<bar>amount\<bar>) \<le> \<bar>divisor\<bar>"
      proof (rule half_up_bounds(1) [OF _ _ abs_rounded_quotient])
      show "0 < \<bar>divisor\<bar>" using assms(2) by (rule zero_less_abs_iff [THEN iffD2])
    qed (rule abs_ge_zero)
    ultimately show ?thesis by (rule no_larger_quotient [OF abs_ge_zero])
  qed
  with assms(1) show ?thesis unfolding isSafeInteger_iff by (rule order_trans [rotated])
qed

section \<open>Sharing an amount\<close>

definition trunc_div :: "int \<Rightarrow> int \<Rightarrow> int" where
  "trunc_div a b = sgn a * (\<bar>a\<bar> div b)"

definition allocation_shares :: "int \<Rightarrow> int list \<Rightarrow> error + int list" where
  "allocation_shares amount ratios =
    (if \<exists>r \<in> set ratios. \<not> isSafeInteger (amount * r) then Inl RangeError
     else Inr (map (\<lambda>r. trunc_div (amount * r) (sum_list ratios)) ratios))"

definition eligible_indices :: "int list \<Rightarrow> nat list" where
  "eligible_indices ratios = filter (\<lambda>i. 0 < ratios ! i) [0..<length ratios]"

text \<open>The \<open>while (remainder !== 0)\<close> loop; \<open>None\<close> is a loop that never ends.\<close>

partial_function (option) distribute ::
  "nat list \<Rightarrow> int \<Rightarrow> nat \<Rightarrow> int \<Rightarrow> int list \<Rightarrow> int list option" where
  "distribute eligible step cursor remainder shares =
    (if remainder = 0 then Some shares
     else let target = (if eligible = [] then 0 else eligible ! (cursor mod length eligible))
          in distribute eligible step (cursor + 1) (remainder - step)
               (shares[target := shares ! target + step]))"

definition allocate_minor :: "int \<Rightarrow> int list \<Rightarrow> (error + int list) option" where
  "allocate_minor amount ratios =
    (if ratios = [] then Some (Inl RangeError)
     else if \<exists>r \<in> set ratios. r < 0 then Some (Inl RangeError)
     else if sum_list ratios \<le> 0 then Some (Inl RangeError)
     else case allocation_shares amount ratios of
         Inl e \<Rightarrow> Some (Inl e)
       | Inr shares \<Rightarrow>
           let remainder = amount - sum_list shares;
               step = (if remainder \<ge> 0 then 1 else - 1)
           in map_option Inr (distribute (eligible_indices ratios) step 0 remainder shares))"

lemma sum_list_update_add:
  "i < length xs \<Longrightarrow> sum_list (xs[i := xs ! i + c]) = sum_list xs + (c :: int)"
  by (induction xs arbitrary: i) (auto split: nat.split)

text \<open>
  A remainder of \<open>k\<close> steps, with \<open>k\<close> eligible indices left before the cursor wraps, adds
  one step to each of the next \<open>k\<close> indices.
\<close>

lemma distribute_steps:
  assumes "distinct el" and "\<forall>i \<in> set el. i < length shares" and "s \<noteq> 0"
    and "c + k \<le> length el"
  shows "\<exists>rs. distribute el s c (s * int k) shares = Some rs \<and> length rs = length shares
    \<and> sum_list rs = sum_list shares + s * int k
    \<and> (\<forall>i < length shares. rs ! i = shares ! i + (if i \<in> set (take k (drop c el)) then s else 0))"
  using assms
proof (induction k arbitrary: c shares)
  case 0
  then show ?case by (simp add: distribute.simps)
next
  case (Suc k)
  let ?t = "el ! c"
  let ?sh = "shares[?t := shares ! ?t + s]"
  have c: "c < length el" "el \<noteq> []" using Suc.prems by auto
  then have t: "?t < length shares" using Suc.prems(2) by simp
  have "s * int (Suc k) \<noteq> 0" using Suc.prems(3) by simp
  then have "distribute el s c (s * int (Suc k)) shares =
      distribute el s (c + 1) (s * int (Suc k) - s) ?sh"
    using c by (subst distribute.simps) (simp add: Let_def del: of_nat_Suc)
  moreover have "s * int (Suc k) - s = s * int k" by (simp add: distrib_left)
  ultimately have step: "distribute el s c (s * int (Suc k)) shares =
      distribute el s (c + 1) (s * int k) ?sh" by simp
  have "drop c el = ?t # drop (Suc c) el" using c by (simp add: Cons_nth_drop_Suc)
  then have tk: "set (take (Suc k) (drop c el)) = insert ?t (set (take k (drop (Suc c) el)))" by simp
  have fresh: "?t \<notin> set (take k (drop (Suc c) el))"
  proof
    assume "?t \<in> set (take k (drop (Suc c) el))"
    then have "?t \<in> set (drop (Suc c) el)" by (rule in_set_takeD)
    moreover have "distinct (drop c el)" using Suc.prems(1) by simp
    ultimately show False using \<open>drop c el = ?t # drop (Suc c) el\<close> by simp
  qed
  obtain rs where rs: "distribute el s (c + 1) (s * int k) ?sh = Some rs" "length rs = length shares"
      "sum_list rs = sum_list ?sh + s * int k"
      "\<forall>i < length shares. rs ! i = ?sh ! i + (if i \<in> set (take k (drop (c + 1) el)) then s else 0)"
    using Suc.IH [of ?sh "c + 1"] Suc.prems by auto
  have "sum_list rs = sum_list shares + s * int (Suc k)"
    using rs(3) sum_list_update_add [OF t, of s] by (simp add: distrib_left)
  moreover have "\<forall>i < length shares.
      rs ! i = shares ! i + (if i \<in> set (take (Suc k) (drop c el)) then s else 0)"
    using rs(4) fresh t by (auto simp: tk nth_list_update)
  ultimately show ?case using rs(1,2) step by auto
qed

text \<open>Exact shares, before the remainder is handed out.\<close>

lemma trunc_div_bounds:
  assumes "0 < t"
  shows "0 \<le> a \<Longrightarrow> 0 \<le> a - trunc_div a t * t \<and> a - trunc_div a t * t < t \<and> 0 \<le> trunc_div a t"
    and "a \<le> 0 \<Longrightarrow> 0 \<le> trunc_div a t * t - a \<and> trunc_div a t * t - a < t \<and> trunc_div a t \<le> 0"
    and "trunc_div 0 t = 0"
proof -
  show "trunc_div 0 t = 0" by (simp add: trunc_div_def)
  show "0 \<le> a - trunc_div a t * t \<and> a - trunc_div a t * t < t \<and> 0 \<le> trunc_div a t" if "0 \<le> a"
  proof (cases "a = 0")
    case False
    with that have "trunc_div a t = a div t" by (simp add: trunc_div_def)
    with that assms show ?thesis by (simp add: minus_div_mult_eq_mod pos_imp_zdiv_nonneg_iff)
  qed (simp add: trunc_div_def assms)
  show "0 \<le> trunc_div a t * t - a \<and> trunc_div a t * t - a < t \<and> trunc_div a t \<le> 0" if "a \<le> 0"
  proof (cases "a = 0")
    case False
    with that have e: "trunc_div a t = - ((- a) div t)" by (simp add: trunc_div_def)
    have "- ((- a) div t) * t - a = (- a) mod t" by (simp add: minus_div_mult_eq_mod [symmetric])
    with e that assms show ?thesis by (simp add: pos_imp_zdiv_nonneg_iff)
  qed (simp add: trunc_div_def assms)
qed

lemma sum_list_strict_bound:
  fixes f :: "int \<Rightarrow> int"
  assumes "\<And>r. r \<in> set rs \<Longrightarrow> 0 \<le> f r \<and> f r < t \<and> (r = 0 \<longrightarrow> f r = 0)"
    and "\<forall>r \<in> set rs. 0 \<le> r" and "0 < sum_list rs" and "0 < t"
  shows "0 \<le> sum_list (map f rs)
    \<and> sum_list (map f rs) < t * int (length (filter (\<lambda>r. 0 < r) rs))"
proof -
  have nn: "0 \<le> sum_list (map f rs)" using assms(1) by (auto intro!: sum_list_nonneg)
  have le: "sum_list (map f rs) \<le> (t - 1) * int (length (filter (\<lambda>r. 0 < r) rs))"
    using assms(1,2)
  proof (induction rs)
    case (Cons r rs)
    then have "sum_list (map f rs) \<le> (t - 1) * int (length (filter (\<lambda>r. 0 < r) rs))" by auto
    moreover have "f r \<le> (t - 1) * (if 0 < r then 1 else 0)"
      using Cons.prems(1) [of r] Cons.prems(2) by auto
    ultimately show ?case by (auto simp: distrib_left split: if_splits)
  qed simp
  have ne: "filter (\<lambda>r. 0 < r) rs \<noteq> []"
  proof
    assume "filter (\<lambda>r. 0 < r) rs = []"
    then have "\<forall>r \<in> set rs. r = 0" using assms(2) by (force simp: filter_empty_conv)
    then have "sum_list rs = 0" by (induction rs) auto
    with assms(3) show False by simp
  qed
  define n where "n = int (length (filter (\<lambda>r. 0 < r) rs))"
  from ne have "0 < n" by (simp add: n_def)
  with nn le show ?thesis unfolding n_def [symmetric] by (simp add: left_diff_distrib)
qed

lemma length_eligible: "length (eligible_indices rs) = length (filter (\<lambda>r. 0 < r) rs)"
proof -
  have "filter (\<lambda>r. 0 < r) rs = map ((!) rs) (eligible_indices rs)"
    by (simp add: eligible_indices_def filter_map [symmetric] o_def map_nth
        flip: filter_map [where f = "(!) rs" and P = "\<lambda>r. 0 < r", unfolded o_def])
  then show ?thesis by simp
qed

lemma sum_list_scaled_diff:
  shows "sum_list (map (\<lambda>r. a * r - g r * t) rs) = a * sum_list rs - sum_list (map g rs) * (t :: int)"
    and "sum_list (map (\<lambda>r. g r * t - a * r) rs) = sum_list (map g rs) * (t :: int) - a * sum_list rs"
  by (induction rs) (simp_all add: algebra_simps)

text \<open>The remainder has the sign of the amount and is smaller than the number of positive ratios.\<close>

lemma allocation_remainder:
  fixes a :: int and rs :: "int list"
  defines "t \<equiv> sum_list rs"
  defines "R \<equiv> a - sum_list (map (\<lambda>r. trunc_div (a * r) t) rs)"
  assumes nonneg: "\<forall>r \<in> set rs. 0 \<le> r" and pos: "0 < t"
  shows "0 \<le> a \<Longrightarrow> 0 \<le> R \<and> R < int (length (eligible_indices rs))"
    and "a \<le> 0 \<Longrightarrow> R \<le> 0 \<and> - R < int (length (eligible_indices rs))"
proof -
  let ?g = "\<lambda>r. trunc_div (a * r) t"
  have tR: "t * R = sum_list (map (\<lambda>r. a * r - ?g r * t) rs)"
    unfolding R_def sum_list_scaled_diff(1) by (simp add: t_def right_diff_distrib mult.commute)
  {
    assume a: "0 \<le> a"
    have "0 \<le> sum_list (map (\<lambda>r. a * r - ?g r * t) rs) \<and>
        sum_list (map (\<lambda>r. a * r - ?g r * t) rs) < t * int (length (filter (\<lambda>r. 0 < r) rs))"
      using nonneg pos a trunc_div_bounds(1,3) [OF pos]
      by (intro sum_list_strict_bound) (auto simp: t_def)
    then show "0 \<le> R \<and> R < int (length (eligible_indices rs))"
      using pos by (simp add: tR [symmetric] length_eligible zero_le_mult_iff)
  }
  {
    assume a: "a \<le> 0"
    have "0 \<le> sum_list (map (\<lambda>r. ?g r * t - a * r) rs) \<and>
        sum_list (map (\<lambda>r. ?g r * t - a * r) rs) < t * int (length (filter (\<lambda>r. 0 < r) rs))"
      using nonneg pos a trunc_div_bounds(2,3) [OF pos]
      by (intro sum_list_strict_bound) (auto simp: t_def mult_nonpos_nonneg)
    moreover have "sum_list (map (\<lambda>r. ?g r * t - a * r) rs) = t * (- R)"
      unfolding R_def sum_list_scaled_diff(2) by (simp add: t_def right_diff_distrib mult.commute)
    ultimately have "0 \<le> t * (- R)" and "t * (- R) < t * int (length (filter (\<lambda>r. 0 < r) rs))"
      by (simp_all only:)
    then have "0 \<le> - R" and "- R < int (length (filter (\<lambda>r. 0 < r) rs))"
      using pos mult_less_cancel_left_pos [OF pos] by (auto simp only: zero_le_mult_iff)
    then show "R \<le> 0 \<and> - R < int (length (eligible_indices rs))" by (simp add: length_eligible)
  }
qed

lemma eligible_indices_props:
  "distinct (eligible_indices rs)"
  "i \<in> set (eligible_indices rs) \<longleftrightarrow> i < length rs \<and> 0 < rs ! i"
  by (auto simp: eligible_indices_def)

lemma allocate_minor_correct:
  assumes nonneg: "\<forall>r \<in> set rs. 0 \<le> r" and pos: "0 < sum_list rs"
    and safe: "\<forall>r \<in> set rs. isSafeInteger (a * r)"
  shows "\<exists>xs. allocate_minor a rs = Some (Inr xs) \<and> length xs = length rs \<and> sum_list xs = a
    \<and> (\<forall>i < length rs. (rs ! i = 0 \<longrightarrow> xs ! i = 0)
        \<and> \<bar>xs ! i * sum_list rs - a * rs ! i\<bar> \<le> sum_list rs
        \<and> (0 \<le> a \<longrightarrow> 0 \<le> xs ! i) \<and> (a \<le> 0 \<longrightarrow> xs ! i \<le> 0))"
proof -
  let ?t = "sum_list rs" and ?el = "eligible_indices rs"
  let ?sh = "map (\<lambda>r. trunc_div (a * r) ?t) rs"
  define R where "R = a - sum_list ?sh"
  define s :: int where "s = (if R \<ge> 0 then 1 else -1)"
  define k where "k = nat \<bar>R\<bar>"
  have s0: "s \<noteq> 0" by (simp add: s_def)
  have Rk: "R = s * int k" by (simp add: s_def k_def)
  have "k \<le> length ?el"
    using allocation_remainder [OF nonneg pos, of a, folded R_def] by (cases "0 \<le> a") (auto simp: k_def)
  then obtain xs where xs: "distribute ?el s 0 (s * int k) ?sh = Some xs" "length xs = length rs"
      "sum_list xs = sum_list ?sh + s * int k"
      "\<forall>i < length rs. xs ! i = ?sh ! i + (if i \<in> set (take k ?el) then s else 0)"
    using distribute_steps [OF eligible_indices_props(1) [of rs] _ s0, where c = 0 and k = k and shares = ?sh]
    by (auto simp: eligible_indices_props)
  have "allocate_minor a rs = Some (Inr xs)"
  proof -
    have "rs \<noteq> []" "\<not> (\<exists>r \<in> set rs. r < 0)" "\<not> ?t \<le> 0" using nonneg pos by auto
    moreover have "allocation_shares a rs = Inr ?sh" using safe by (simp add: allocation_shares_def)
    ultimately show ?thesis
      using xs(1) by (simp add: allocate_minor_def Let_def flip: R_def s_def Rk)
  qed
  moreover have "sum_list xs = a" using xs(3) by (simp add: R_def flip: Rk)
  moreover have "(rs ! i = 0 \<longrightarrow> xs ! i = 0) \<and> \<bar>xs ! i * ?t - a * rs ! i\<bar> \<le> ?t
      \<and> (0 \<le> a \<longrightarrow> 0 \<le> xs ! i) \<and> (a \<le> 0 \<longrightarrow> xs ! i \<le> 0)" if i: "i < length rs" for i
  proof -
    have r: "0 \<le> rs ! i" using nonneg i by simp
    have x: "xs ! i = trunc_div (a * rs ! i) ?t + (if i \<in> set (take k ?el) then s else 0)"
      using xs(4) i by simp
    have el: "i \<in> set (take k ?el) \<Longrightarrow> 0 < rs ! i \<and> R \<noteq> 0"
      by (auto simp: k_def eligible_indices_props dest: in_set_takeD)
    note rem = allocation_remainder [OF nonneg pos, of a, folded R_def]
    show ?thesis
    proof (cases "0 \<le> a")
      case True
      with rem have "i \<in> set (take k ?el) \<Longrightarrow> s = 1" by (simp add: s_def)
      moreover have "0 \<le> a * rs ! i" using True r by simp
      ultimately show ?thesis
        using trunc_div_bounds(1) [OF pos, of "a * rs ! i"] trunc_div_bounds(3) [OF pos] el x True rem
        by (auto simp: distrib_right abs_le_iff)
    next
      case False
      with rem el have "i \<in> set (take k ?el) \<Longrightarrow> s = -1" by (auto simp: s_def)
      moreover have "a * rs ! i \<le> 0" using False r by (simp add: mult_nonpos_nonneg)
      ultimately show ?thesis
        using trunc_div_bounds(2) [OF pos, of "a * rs ! i"] trunc_div_bounds(3) [OF pos] el x False
        by (auto simp: left_diff_distrib abs_le_iff)
    qed
  qed
  ultimately show ?thesis using xs(2) by blast
qed

lemma member_le_sum_list:
  assumes "\<forall>x \<in> set xs. (0::int) \<le> x" and "x \<in> set xs"
  shows "x \<le> sum_list xs"
  using assms
proof (induction xs)
  case (Cons y ys)
  have "0 \<le> sum_list ys" using Cons.prems(1) by (simp add: sum_list_nonneg)
  with Cons show ?case by auto
qed simp

lemma sum_list_le_member:
  assumes "\<forall>x \<in> set xs. x \<le> (0::int)" and "x \<in> set xs"
  shows "sum_list xs \<le> x"
proof -
  have "- x \<le> sum_list (map uminus xs)" using assms by (intro member_le_sum_list) auto
  then show ?thesis by (simp add: uminus_sum_list_map [symmetric, unfolded o_def, simplified])
qed

lemma same_sign_safe:
  assumes "sum_list xs = a" and "isSafeInteger a"
    and "\<forall>x \<in> set xs. (0 \<le> a \<longrightarrow> 0 \<le> x) \<and> (a \<le> 0 \<longrightarrow> x \<le> 0)" and "x \<in> set xs"
  shows "isSafeInteger x"
  using assms member_le_sum_list [of xs x] sum_list_le_member [of xs x]
  by (cases "0 \<le> a") (auto simp: isSafeInteger_def MAX_SAFE_def)

end
