(* ===== verification/Money_Values.thy ===== *)
theory Money_Values
  imports Minor_Units
begin

text \<open>
  \<open>domain/value-objects/{currency,money,exchange-rate,currency-conversion}.ts\<close> and
  \<open>application/services/currency/currency-converter.ts\<close>.

  The package \<open>dinero.js\<close> is a parameter: a record of the functions the code calls, its
  currency registry included, and \<open>dinero_spec\<close>, which states what its documentation says
  of them: a snapshot returns what a value was built from, and sums, differences and integer
  multiples of values of one currency and scale are exact. Comparisons are those of the
  amounts of values of one currency and scale. Formatting (\<open>Intl\<close>) is not modelled.
\<close>

section \<open>Characters and text\<close>

definition upper_char :: "char \<Rightarrow> char" where
  "upper_char c = (let n = of_char c :: nat in if 97 \<le> n \<and> n \<le> 122 then char_of (n - 32) else c)"

definition toUpperCase :: "string \<Rightarrow> string" where
  "toUpperCase s = map upper_char s"

definition lower_char :: "char \<Rightarrow> char" where
  "lower_char c = (let n = of_char c :: nat in if 65 \<le> n \<and> n \<le> 90 then char_of (n + 32) else c)"

definition is_space :: "char \<Rightarrow> bool" where
  "is_space c \<longleftrightarrow> of_char c \<in> {9::nat, 10, 11, 12, 13, 32}"

definition trim :: "string \<Rightarrow> string" where
  "trim s = rev (dropWhile is_space (rev (dropWhile is_space s)))"

definition is_digit :: "char \<Rightarrow> bool" where
  "is_digit c \<longleftrightarrow> (48::nat) \<le> of_char c \<and> of_char c \<le> (57::nat)"

definition digit_value :: "char \<Rightarrow> int" where
  "digit_value c = int (of_char c) - 48"

definition parse_digits :: "string \<Rightarrow> int" where
  "parse_digits s = foldl (\<lambda>n c. n * 10 + digit_value c) 0 s"

section \<open>Currencies\<close>

datatype currency_base = Base int | Bases "int list"

record currency =
  cur_code :: string
  cur_base :: currency_base
  cur_exponent :: nat

record 'd dinero =
  registry :: "string \<Rightarrow> currency option"
  dinero_of :: "int \<Rightarrow> currency \<Rightarrow> 'd"
  snapshot_amount :: "'d \<Rightarrow> int"
  snapshot_scale :: "'d \<Rightarrow> nat"
  snapshot_currency :: "'d \<Rightarrow> string"
  dinero_add :: "'d \<Rightarrow> 'd \<Rightarrow> 'd"
  dinero_subtract :: "'d \<Rightarrow> 'd \<Rightarrow> 'd"
  dinero_multiply :: "'d \<Rightarrow> int \<Rightarrow> 'd"
  dinero_equal :: "'d \<Rightarrow> 'd \<Rightarrow> bool"
  dinero_greater :: "'d \<Rightarrow> 'd \<Rightarrow> bool"

definition same_unit :: "'d dinero \<Rightarrow> 'd \<Rightarrow> 'd \<Rightarrow> bool" where
  "same_unit L x y \<longleftrightarrow> snapshot_scale L x = snapshot_scale L y
    \<and> snapshot_currency L x = snapshot_currency L y"

definition dinero_spec :: "'d dinero \<Rightarrow> bool" where
  "dinero_spec L \<longleftrightarrow>
    (\<forall>k c. registry L k = Some c \<longrightarrow> cur_code c = k \<and> toUpperCase k = k)
    \<and> (\<forall>n c. snapshot_amount L (dinero_of L n c) = n \<and> snapshot_scale L (dinero_of L n c) = cur_exponent c
        \<and> snapshot_currency L (dinero_of L n c) = cur_code c)
    \<and> (\<forall>x y. same_unit L x y \<longrightarrow>
        snapshot_amount L (dinero_add L x y) = snapshot_amount L x + snapshot_amount L y
        \<and> same_unit L (dinero_add L x y) x
        \<and> snapshot_amount L (dinero_subtract L x y) = snapshot_amount L x - snapshot_amount L y
        \<and> same_unit L (dinero_subtract L x y) x
        \<and> dinero_equal L x y = (snapshot_amount L x = snapshot_amount L y)
        \<and> dinero_greater L x y = (snapshot_amount L x > snapshot_amount L y))
    \<and> (\<forall>x n. snapshot_amount L (dinero_multiply L x n) = snapshot_amount L x * n
        \<and> same_unit L (dinero_multiply L x n) x)"

definition resolve :: "'d dinero \<Rightarrow> string \<Rightarrow> error + currency" where
  "resolve L code = (case registry L (toUpperCase code) of None \<Rightarrow> Inl RangeError | Some c \<Rightarrow> Inr c)"

definition precision :: "'d dinero \<Rightarrow> string \<Rightarrow> error + nat" where
  "precision L code = map_sum id cur_exponent (resolve L code)"

definition minorUnitsPerMajor :: "'d dinero \<Rightarrow> string \<Rightarrow> error + int" where
  "minorUnitsPerMajor L code =
    map_sum id (\<lambda>c. case cur_base c of Bases bs \<Rightarrow> foldl (*) 1 bs | Base b \<Rightarrow> b ^ cur_exponent c)
      (resolve L code)"

definition normalize :: "'d dinero \<Rightarrow> string \<Rightarrow> error + string" where
  "normalize L code = map_sum id cur_code (resolve L code)"

section \<open>Money\<close>

record 'd money =
  mon_value :: 'd
  mon_code :: string

definition bindE :: "'e + 'a \<Rightarrow> ('a \<Rightarrow> 'e + 'b) \<Rightarrow> 'e + 'b" where
  "bindE r f = (case r of Inl e \<Rightarrow> Inl e | Inr x \<Rightarrow> f x)"

definition money_of :: "'d dinero \<Rightarrow> js_number \<Rightarrow> string \<Rightarrow> error + 'd money" where
  "money_of L minor currency =
    (case minor of
       JSNotInt \<Rightarrow> Inl TypeError
     | JSInt n \<Rightarrow> bindE (assertSafeMinor n) (\<lambda>_.
         bindE (resolve L currency) (\<lambda>c.
           Inr \<lparr>mon_value = dinero_of L n c, mon_code = cur_code c\<rparr>)))"

definition money_amount :: "'d dinero \<Rightarrow> 'd money \<Rightarrow> error + int" where
  "money_amount L m =
    bindE (precision L (mon_code m)) (\<lambda>exponent.
      if snapshot_scale L (mon_value m) \<noteq> exponent then Inl RangeError
      else Inr (snapshot_amount L (mon_value m)))"

definition assertSameCurrency :: "'d money \<Rightarrow> 'd money \<Rightarrow> error + unit" where
  "assertSameCurrency m n = (if mon_code m \<noteq> mon_code n then Inl TypeError else Inr ())"

definition money_add :: "'d dinero \<Rightarrow> 'd money \<Rightarrow> 'd money \<Rightarrow> error + 'd money" where
  "money_add L m n =
    bindE (assertSameCurrency m n) (\<lambda>_.
    bindE (money_amount L m) (\<lambda>a.
    bindE (money_amount L n) (\<lambda>b.
    bindE (assertSafeMinor (a + b)) (\<lambda>_.
      Inr \<lparr>mon_value = dinero_add L (mon_value m) (mon_value n), mon_code = mon_code m\<rparr>))))"

definition money_subtract :: "'d dinero \<Rightarrow> 'd money \<Rightarrow> 'd money \<Rightarrow> error + 'd money" where
  "money_subtract L m n =
    bindE (assertSameCurrency m n) (\<lambda>_.
    bindE (money_amount L m) (\<lambda>a.
    bindE (money_amount L n) (\<lambda>b.
    bindE (assertSafeMinor (a - b)) (\<lambda>_.
      Inr \<lparr>mon_value = dinero_subtract L (mon_value m) (mon_value n), mon_code = mon_code m\<rparr>))))"

definition money_multiply :: "'d dinero \<Rightarrow> 'd money \<Rightarrow> js_number \<Rightarrow> error + 'd money" where
  "money_multiply L m factor =
    (case factor of
       JSNotInt \<Rightarrow> Inl TypeError
     | JSInt k \<Rightarrow> bindE (money_amount L m) (\<lambda>a.
         bindE (assertSafeMinor (a * k)) (\<lambda>_.
           Inr \<lparr>mon_value = dinero_multiply L (mon_value m) k, mon_code = mon_code m\<rparr>)))"

definition money_divide :: "'d dinero \<Rightarrow> 'd money \<Rightarrow> js_number \<Rightarrow> error + 'd money" where
  "money_divide L m divisor =
    (case divisor of
       JSNotInt \<Rightarrow> Inl TypeError
     | JSInt d \<Rightarrow> bindE (money_amount L m) (\<lambda>a.
         bindE (divideMinor a d) (\<lambda>q. money_of L (JSInt q) (mon_code m))))"

definition money_percentage :: "'d dinero \<Rightarrow> 'd money \<Rightarrow> js_number \<Rightarrow> error + 'd money" where
  "money_percentage L m basisPoints =
    (case basisPoints of
       JSNotInt \<Rightarrow> Inl TypeError
     | JSInt b \<Rightarrow> bindE (money_amount L m) (\<lambda>a.
         bindE (divideMinorBig (a * b) 10000) (\<lambda>q. money_of L (JSInt q) (mon_code m))))"

fun mapE :: "('a \<Rightarrow> 'e + 'b) \<Rightarrow> 'a list \<Rightarrow> 'e + 'b list" where
  "mapE f [] = Inr []"
| "mapE f (x # xs) = bindE (f x) (\<lambda>y. bindE (mapE f xs) (\<lambda>ys. Inr (y # ys)))"

text \<open>
  The code checks the ratios before it reads the amount; the order only matters for which
  \<open>RangeError\<close> is thrown. \<open>None\<close> would be a loop that does not end.
\<close>

definition money_allocate :: "'d dinero \<Rightarrow> 'd money \<Rightarrow> int list \<Rightarrow> (error + 'd money list) option" where
  "money_allocate L m ratios =
    (if ratios = [] \<or> (\<exists>r \<in> set ratios. r < 0) \<or> sum_list ratios \<le> 0 then Some (Inl RangeError)
     else case money_amount L m of
         Inl e \<Rightarrow> Some (Inl e)
       | Inr amount \<Rightarrow> map_option (\<lambda>r. bindE r (mapE (\<lambda>share. money_of L (JSInt share) (mon_code m))))
           (allocate_minor amount ratios))"

definition money_equals :: "'d dinero \<Rightarrow> 'd money \<Rightarrow> 'd money \<Rightarrow> bool" where
  "money_equals L m n \<longleftrightarrow> mon_code m = mon_code n \<and> dinero_equal L (mon_value m) (mon_value n)"

definition money_isGreaterThan :: "'d dinero \<Rightarrow> 'd money \<Rightarrow> 'd money \<Rightarrow> error + bool" where
  "money_isGreaterThan L m n =
    bindE (assertSameCurrency m n) (\<lambda>_. Inr (dinero_greater L (mon_value m) (mon_value n)))"

section \<open>What the operations denote\<close>

text \<open>\<open>m\<close> is \<open>n\<close> minor units of the registered currency \<open>code\<close>.\<close>

definition denotes :: "'d dinero \<Rightarrow> 'd money \<Rightarrow> int \<Rightarrow> string \<Rightarrow> bool" where
  "denotes L m n code \<longleftrightarrow> (\<exists>c. registry L code = Some c \<and> toUpperCase code = code \<and> cur_code c = code
    \<and> mon_code m = code \<and> snapshot_scale L (mon_value m) = cur_exponent c
    \<and> snapshot_currency L (mon_value m) = code \<and> snapshot_amount L (mon_value m) = n
    \<and> isSafeInteger n)"

definition yields :: "'d dinero \<Rightarrow> error + 'd money \<Rightarrow> int \<Rightarrow> string \<Rightarrow> bool" where
  "yields L r n code \<longleftrightarrow>
    (if isSafeInteger n then \<exists>m. r = Inr m \<and> denotes L m n code else r = Inl RangeError)"

lemma bindE_simps [simp]: "bindE (Inl e) f = Inl e" "bindE (Inr x) f = f x"
  by (simp_all add: bindE_def)

lemma bindE_assertSafe [simp]:
  "bindE (assertSafeMinor n) f = (if isSafeInteger n then f () else Inl RangeError)"
  by (simp add: assertSafeMinor_def)

lemma denotes_amount: "denotes L m n code \<Longrightarrow> money_amount L m = Inr n"
  by (auto simp: denotes_def money_amount_def precision_def resolve_def)

lemma denotes_safe: "denotes L m n code \<Longrightarrow> isSafeInteger n"
  by (auto simp: denotes_def)

lemma dinero_spec_of:
  assumes "dinero_spec L"
  shows "snapshot_amount L (dinero_of L n c) = n" and "snapshot_scale L (dinero_of L n c) = cur_exponent c"
    and "snapshot_currency L (dinero_of L n c) = cur_code c"
  using assms by (simp_all add: dinero_spec_def)

lemma dinero_spec_registry: "dinero_spec L \<Longrightarrow> registry L k = Some c \<Longrightarrow> cur_code c = k \<and> toUpperCase k = k"
  by (simp add: dinero_spec_def)

lemma money_of_yields:
  assumes "dinero_spec L" and "denotes L m k code"
  shows "yields L (money_of L (JSInt n) code) n code"
proof -
  obtain c where c: "registry L code = Some c" "toUpperCase code = code" "cur_code c = code"
    using assms(2) by (auto simp: denotes_def)
  with dinero_spec_of [OF assms(1), of n c] show ?thesis
    by (simp add: yields_def money_of_def resolve_def denotes_def)
qed

lemma denotes_same_unit: "denotes L m a code \<Longrightarrow> denotes L n b code \<Longrightarrow>
    same_unit L (mon_value m) (mon_value n) \<and> mon_code m = mon_code n"
  by (auto simp: denotes_def same_unit_def)

lemma denotes_moved:
  assumes "denotes L m a code" and "same_unit L v (mon_value m)" and "snapshot_amount L v = n"
    and "isSafeInteger n"
  shows "denotes L \<lparr>mon_value = v, mon_code = mon_code m\<rparr> n code"
  using assms by (auto simp: denotes_def same_unit_def)

lemma dinero_spec_sums:
  assumes "dinero_spec L" and "same_unit L x y"
  shows "snapshot_amount L (dinero_add L x y) = snapshot_amount L x + snapshot_amount L y"
    and "same_unit L (dinero_add L x y) x"
    and "snapshot_amount L (dinero_subtract L x y) = snapshot_amount L x - snapshot_amount L y"
    and "same_unit L (dinero_subtract L x y) x"
    and "snapshot_amount L (dinero_multiply L x k) = snapshot_amount L x * k"
    and "same_unit L (dinero_multiply L x k) x"
  using assms by (simp_all add: dinero_spec_def)

lemma snapshot_denotes: "denotes L m a code \<Longrightarrow> snapshot_amount L (mon_value m) = a"
  by (auto simp: denotes_def)

text \<open>
  C14. Arithmetic on money of one currency is exact integer arithmetic: a sum, a difference
  and a product are the integer ones, and a quotient or a percentage is the nearest integer;
  each returns money of the same currency exactly when the result is within \<open>2^53 - 1\<close>, and
  otherwise throws a \<open>RangeError\<close>. Division by zero throws.
\<close>

theorem money_arithmetic:
  assumes "dinero_spec L" and m: "denotes L m a code" and n: "denotes L n b code"
  shows "yields L (money_add L m n) (a + b) code
    \<and> yields L (money_subtract L m n) (a - b) code
    \<and> yields L (money_multiply L m (JSInt k)) (a * k) code
    \<and> yields L (money_percentage L m (JSInt k)) (rounded_quotient (a * k) 10000) code
    \<and> (k \<noteq> 0 \<longrightarrow> yields L (money_divide L m (JSInt k)) (rounded_quotient a k) code)
    \<and> money_divide L m (JSInt 0) = Inl RangeError"
proof (intro conjI impI)
  note unit = denotes_same_unit [OF m n]
  note sums = dinero_spec_sums [OF assms(1) conjunct1 [OF unit]]
  note amounts = denotes_amount [OF m] denotes_amount [OF n] snapshot_denotes [OF m] snapshot_denotes [OF n]
  note moved = denotes_moved [OF m]
  show "yields L (money_add L m n) (a + b) code"
    using unit sums amounts moved by (simp add: yields_def money_add_def assertSameCurrency_def)
  show "yields L (money_subtract L m n) (a - b) code"
    using unit sums amounts moved by (simp add: yields_def money_subtract_def assertSameCurrency_def)
  show "yields L (money_multiply L m (JSInt k)) (a * k) code"
    using sums amounts moved by (simp add: yields_def money_multiply_def)
  have code: "mon_code m = code" using m by (auto simp: denotes_def)
  note of_yields = money_of_yields [OF assms(1) m]
  show "yields L (money_percentage L m (JSInt k)) (rounded_quotient (a * k) 10000) code"
    using of_yields [of "rounded_quotient (a * k) 10000"] amounts
    by (auto simp: yields_def money_percentage_def divideMinorBig_def isSafeInteger_def code Let_def)
  show "yields L (money_divide L m (JSInt k)) (rounded_quotient a k) code" if "k \<noteq> 0"
    using of_yields [of "rounded_quotient a k"] amounts that
    by (simp add: money_divide_def divideMinor_eq code)
  show "money_divide L m (JSInt 0) = Inl RangeError"
    using amounts by (simp add: money_divide_def divideMinor_def)
qed

lemma mapE_yields:
  assumes "\<And>x. x \<in> set xs \<Longrightarrow> \<exists>m. f x = Inr m \<and> P m x"
  shows "\<exists>ms. mapE f xs = Inr ms \<and> list_all2 P ms xs"
  using assms by (induction xs) fastforce+

text \<open>
  C15. Allocating an amount over non-negative integer ratios with a positive sum always ends
  and loses nothing: as many shares as ratios, adding up to the amount, a zero ratio gets
  nothing, and every share is within one minor unit of its exact proportion and has the
  amount's sign.
\<close>

theorem money_allocate_exact:
  assumes "dinero_spec L" and m: "denotes L m a code"
    and "\<forall>r \<in> set ratios. 0 \<le> r \<and> isSafeInteger (a * r)" and pos: "0 < sum_list ratios"
  shows "\<exists>ms xs. money_allocate L m ratios = Some (Inr ms)
    \<and> list_all2 (\<lambda>s x. denotes L s x code) ms xs
    \<and> length xs = length ratios \<and> sum_list xs = a
    \<and> (\<forall>i < length ratios. (ratios ! i = 0 \<longrightarrow> xs ! i = 0)
        \<and> \<bar>xs ! i * sum_list ratios - a * ratios ! i\<bar> \<le> sum_list ratios
        \<and> (0 \<le> a \<longrightarrow> 0 \<le> xs ! i) \<and> (a \<le> 0 \<longrightarrow> xs ! i \<le> 0))"
proof -
  obtain xs where xs: "allocate_minor a ratios = Some (Inr xs)" "length xs = length ratios" "sum_list xs = a"
    and each: "\<forall>i < length ratios. (ratios ! i = 0 \<longrightarrow> xs ! i = 0)
        \<and> \<bar>xs ! i * sum_list ratios - a * ratios ! i\<bar> \<le> sum_list ratios
        \<and> (0 \<le> a \<longrightarrow> 0 \<le> xs ! i) \<and> (a \<le> 0 \<longrightarrow> xs ! i \<le> 0)"
    using allocate_minor_correct [of ratios a] assms(3) pos by blast
  have code: "mon_code m = code" using m by (auto simp: denotes_def)
  have "\<forall>x \<in> set xs. (0 \<le> a \<longrightarrow> 0 \<le> x) \<and> (a \<le> 0 \<longrightarrow> x \<le> 0)"
    using each xs(2) by (auto simp: in_set_conv_nth)
  then have "isSafeInteger x" if "x \<in> set xs" for x
    using same_sign_safe [OF xs(3) denotes_safe [OF m]] that by blast
  then have "\<exists>s. money_of L (JSInt x) (mon_code m) = Inr s \<and> denotes L s x code" if "x \<in> set xs" for x
    using money_of_yields [OF assms(1) m, of x] that by (auto simp: yields_def code)
  then have "\<exists>ms. mapE (\<lambda>share. money_of L (JSInt share) (mon_code m)) xs = Inr ms
      \<and> list_all2 (\<lambda>s x. denotes L s x code) ms xs"
    by (rule mapE_yields)
  then obtain ms where ms: "mapE (\<lambda>share. money_of L (JSInt share) (mon_code m)) xs = Inr ms"
      "list_all2 (\<lambda>s x. denotes L s x code) ms xs"
    by blast
  have "\<not> (ratios = [] \<or> (\<exists>r \<in> set ratios. r < 0) \<or> sum_list ratios \<le> 0)"
    using assms(3) pos by auto
  then have "money_allocate L m ratios = Some (Inr ms)"
    unfolding money_allocate_def denotes_amount [OF m] by (simp only: if_False sum.case xs(1) option.map bindE_simps ms(1))
  with ms(2) xs(2,3) each show ?thesis by (intro exI [of _ ms] exI [of _ xs] conjI)
qed

section \<open>Exchange rates and conversion\<close>

record exchange_rate =
  rate_from :: string
  rate_to :: string
  rate_text :: string
  rate_numerator :: int
  rate_denominator :: int

text \<open>\<open>/^\d+(\.\d+)?$/\<close> and \<open>text.split('.')\<close>: the units and the fraction.\<close>

definition decimal_parts :: "string \<Rightarrow> (string \<times> string) option" where
  "decimal_parts t =
    (let units = takeWhile is_digit t; rest = dropWhile is_digit t
     in if units = [] then None
        else case rest of
            [] \<Rightarrow> Some (units, [])
          | c # fraction \<Rightarrow>
              if c = CHR ''.'' \<and> fraction \<noteq> [] \<and> list_all is_digit fraction
              then Some (units, fraction) else None)"

definition decimalText :: "string \<Rightarrow> error + string" where
  "decimalText rate =
    (let t = trim rate
     in if decimal_parts t = None then Inl TypeError
        else if length t > 40 then Inl RangeError
        else Inr t)"

definition exchange_rate_of :: "'d dinero \<Rightarrow> string \<Rightarrow> string \<Rightarrow> string \<Rightarrow> error + exchange_rate" where
  "exchange_rate_of L from to rate =
    bindE (decimalText rate) (\<lambda>t.
      case decimal_parts t of
        None \<Rightarrow> Inl TypeError
      | Some (units, fraction) \<Rightarrow>
          let numerator = parse_digits (units @ fraction)
          in if numerator = 0 then Inl RangeError
             else bindE (normalize L from) (\<lambda>f. bindE (normalize L to) (\<lambda>t'.
               Inr \<lparr>rate_from = f, rate_to = t', rate_text = t, rate_numerator = numerator,
                    rate_denominator = 10 ^ length fraction\<rparr>)))"

definition identity_rate :: "'d dinero \<Rightarrow> string \<Rightarrow> error + exchange_rate" where
  "identity_rate L currency = map_sum id
    (\<lambda>code. \<lparr>rate_from = code, rate_to = code, rate_text = ''1'', rate_numerator = 1,
       rate_denominator = 1\<rparr>) (normalize L currency)"

definition applyRate :: "'d dinero \<Rightarrow> 'd money \<Rightarrow> exchange_rate \<Rightarrow> string \<Rightarrow> error + int" where
  "applyRate L m rate target =
    bindE (minorUnitsPerMajor L target) (\<lambda>ut.
    bindE (minorUnitsPerMajor L (mon_code m)) (\<lambda>us.
    bindE (money_amount L m) (\<lambda>a.
      divideMinorBig (a * (rate_numerator rate * ut)) (rate_denominator rate * us))))"

record 'd conversion =
  conv_source :: "'d money"
  conv_converted :: "'d money"
  conv_rate :: exchange_rate

definition convert ::
  "'d dinero \<Rightarrow> (string \<Rightarrow> string \<Rightarrow> ('w, exchange_rate option) io) \<Rightarrow> 'd money \<Rightarrow> string
    \<Rightarrow> ('w, 'd conversion) io" where
  "convert L rateFor m to =
    andThen (liftResult (normalize L to)) (\<lambda>target.
      if mon_code m = target
      then liftResult (map_sum id (\<lambda>r. \<lparr>conv_source = m, conv_converted = m, conv_rate = r\<rparr>)
             (identity_rate L (mon_code m)))
      else andThen (rateFor (mon_code m) target) (\<lambda>found.
        case found of
          None \<Rightarrow> throw (PayableError ''EXCHANGE_RATE_NOT_FOUND'')
        | Some rate \<Rightarrow>
            if rate_from rate \<noteq> mon_code m \<or> rate_to rate \<noteq> target
            then throw (PayableError ''EXCHANGE_RATE_PAIR_MISMATCH'')
            else liftResult (bindE (applyRate L m rate target) (\<lambda>n.
              bindE (money_of L (JSInt n) target) (\<lambda>c.
                Inr \<lparr>conv_source = m, conv_converted = c, conv_rate = rate\<rparr>)))))"

lemma parse_digits_append:
  "parse_digits (us @ fs) = parse_digits us * 10 ^ length fs + parse_digits fs"
proof -
  have g: "foldl (\<lambda>n c. n * 10 + digit_value c) k fs
      = k * 10 ^ length fs + foldl (\<lambda>n c. n * 10 + digit_value c) 0 fs" for k
  proof (induction fs rule: rev_induct)
    case (snoc c fs)
    then show ?case by (simp add: algebra_simps)
  qed simp
  show ?thesis unfolding parse_digits_def foldl_append by (rule g)
qed

lemma parse_digits_nonneg: "list_all is_digit s \<Longrightarrow> 0 \<le> parse_digits s"
proof (induction s rule: rev_induct)
  case (snoc c s)
  then have "0 \<le> parse_digits s" "0 \<le> digit_value c"
    by (auto simp: digit_value_def is_digit_def)
  then show ?case by (simp add: parse_digits_def)
qed (simp add: parse_digits_def)

lemma decimal_parts_digits:
  assumes p: "decimal_parts t = Some (us, fs)"
  shows "list_all is_digit us \<and> list_all is_digit fs
    \<and> t = us @ (if fs = [] then [] else CHR ''.'' # fs)"
proof -
  have t: "t = takeWhile is_digit t @ dropWhile is_digit t" by simp
  have u: "list_all is_digit (takeWhile is_digit t)" by (auto simp: list_all_iff dest: set_takeWhileD)
  show ?thesis
  proof (cases "dropWhile is_digit t")
    case Nil
    with p have "us = takeWhile is_digit t" "fs = []"
      by (auto simp: decimal_parts_def Let_def split: if_splits)
    with t u Nil show ?thesis by simp
  next
    case (Cons c r)
    with p have "us = takeWhile is_digit t" "fs = r" "c = CHR ''.''" "r \<noteq> []" "list_all is_digit r"
      by (auto simp: decimal_parts_def Let_def split: if_splits)
    with t u Cons show ?thesis by simp
  qed
qed

text \<open>
  A parsed exchange rate is positive and is the number its text writes: digits before the
  point, plus the digits after it over a power of ten; its currencies are registered.
\<close>

theorem exchange_rate_exact:
  assumes "exchange_rate_of L from to rate = Inr r"
  shows "\<exists>units fraction. trim rate = units @ (if fraction = [] then [] else CHR ''.'' # fraction)
    \<and> list_all is_digit units \<and> list_all is_digit fraction
    \<and> rate_numerator r = parse_digits units * rate_denominator r + parse_digits fraction
    \<and> rate_denominator r = 10 ^ length fraction \<and> 0 < rate_numerator r
    \<and> length (rate_text r) \<le> 40 \<and> normalize L from = Inr (rate_from r) \<and> normalize L to = Inr (rate_to r)"
proof -
  obtain us fs where p: "decimal_parts (trim rate) = Some (us, fs)"
    and r: "rate_numerator r = parse_digits (us @ fs)" "rate_numerator r \<noteq> 0"
      "rate_denominator r = 10 ^ length fs" "rate_text r = trim rate" "length (trim rate) \<le> 40"
      "normalize L from = Inr (rate_from r)" "normalize L to = Inr (rate_to r)"
    using assms
    by (auto simp: exchange_rate_of_def decimalText_def bindE_def Let_def split: sum.splits option.splits if_splits)
  note d = decimal_parts_digits [OF p]
  have "0 \<le> rate_numerator r" using d r(1) by (simp add: parse_digits_nonneg)
  with r d show ?thesis by (intro exI [of _ us] exI [of _ fs]) (simp add: parse_digits_append)
qed

lemma divideMinorBig_Inr:
  "divideMinorBig x d = Inr n \<Longrightarrow> d \<noteq> 0 \<and> n = rounded_quotient x d \<and> isSafeInteger n"
  by (auto simp: divideMinorBig_def Let_def isSafeInteger_def split: if_splits)

lemma normalized_code:
  assumes "dinero_spec L" and "normalize L to = Inr target"
  shows "\<exists>c. registry L target = Some c \<and> cur_code c = target \<and> toUpperCase target = target"
proof -
  obtain c where c: "registry L (toUpperCase to) = Some c" "cur_code c = target"
    using assms(2) by (auto simp: normalize_def resolve_def split: option.splits)
  with dinero_spec_registry [OF assms(1) c(1)] show ?thesis by auto
qed

lemma money_of_amount:
  assumes "dinero_spec L" and "normalize L to = Inr target" and "money_of L (JSInt n) target = Inr x"
  shows "money_amount L x = Inr n"
proof -
  obtain c where c: "registry L target = Some c" "cur_code c = target" "toUpperCase target = target"
    using normalized_code [OF assms(1,2)] by blast
  with assms(3) dinero_spec_of [OF assms(1), of n c] show ?thesis
    by (auto simp: money_of_def resolve_def money_amount_def precision_def split: if_splits)
qed

text \<open>
  C16. A conversion that returns used the pair it was asked for and rounds the exact product
  to the nearest minor unit of the target: twice the error is at most one unit. Converting to
  the money's own currency returns it unchanged without asking for a rate.
\<close>

theorem convert_nearest:
  assumes "dinero_spec L" and m: "denotes L m a code"
    and target: "normalize L to = Inr target"
    and us: "minorUnitsPerMajor L code = Inr us" and ut: "minorUnitsPerMajor L target = Inr ut"
    and run: "convert L rateFor m to w = (Inr c, w')"
  shows "conv_source c = m \<and>
    (if code = target then conv_converted c = m \<and> w' = w
     else rateFor code target w = (Inr (Some (conv_rate c)), w')
       \<and> rate_from (conv_rate c) = code \<and> rate_to (conv_rate c) = target
       \<and> (\<exists>n. money_amount L (conv_converted c) = Inr n \<and>
            2 * \<bar>n * (rate_denominator (conv_rate c) * us) - a * (rate_numerator (conv_rate c) * ut)\<bar>
              \<le> \<bar>rate_denominator (conv_rate c) * us\<bar>))"
proof -
  have code: "mon_code m = code" using m by (auto simp: denotes_def)
  note amount = denotes_amount [OF m]
  have "normalize L code = Inr code"
    using m by (auto simp: denotes_def normalize_def resolve_def)
  then have id: "\<exists>r. identity_rate L code = Inr r" by (simp add: identity_rate_def)
  show ?thesis
  proof (cases "code = target")
    case True
    with run id show ?thesis by (auto simp: convert_def target code andThen_liftResult)
  next
    case False
    then obtain rate n x where r: "rateFor code target w = (Inr (Some rate), w')"
        "rate_from rate = code" "rate_to rate = target" "applyRate L m rate target = Inr n"
        "money_of L (JSInt n) target = Inr x"
        "c = \<lparr>conv_source = m, conv_converted = x, conv_rate = rate\<rparr>"
      using run
      by (auto simp: convert_def target code andThen_liftResult andThen_def bindE_def
          split: prod.splits sum.splits option.splits if_splits)
    have "divideMinorBig (a * (rate_numerator rate * ut)) (rate_denominator rate * us) = Inr n"
      using r(4) by (simp add: applyRate_def ut us code amount)
    then have d: "rate_denominator rate * us \<noteq> 0"
      and n: "n = rounded_quotient (a * (rate_numerator rate * ut)) (rate_denominator rate * us)"
      using divideMinorBig_Inr by blast+
    show ?thesis
      using False r money_of_amount [OF assms(1) target r(5)] rounded_quotient_nearest(1) [OF d]
      by (simp add: n)
  qed
qed

section \<open>An instance of the package\<close>

text \<open>Two currencies and exact arithmetic; it meets \<open>dinero_spec\<close>.\<close>

definition example_registry :: "string \<Rightarrow> currency option" where
  "example_registry k =
    (if k = ''USD'' then Some \<lparr>cur_code = ''USD'', cur_base = Base 10, cur_exponent = 2\<rparr>
     else if k = ''JPY'' then Some \<lparr>cur_code = ''JPY'', cur_base = Base 10, cur_exponent = 0\<rparr>
     else None)"

definition example_dinero :: "(int \<times> nat \<times> string) dinero" where
  "example_dinero =
    \<lparr>registry = example_registry,
     dinero_of = (\<lambda>n c. (n, cur_exponent c, cur_code c)),
     snapshot_amount = fst, snapshot_scale = fst \<circ> snd, snapshot_currency = snd \<circ> snd,
     dinero_add = (\<lambda>(a, u) (b, _). (a + b, u)),
     dinero_subtract = (\<lambda>(a, u) (b, _). (a - b, u)),
     dinero_multiply = (\<lambda>(a, u) k. (a * k, u)),
     dinero_equal = (\<lambda>(a, _) (b, _). a = b),
     dinero_greater = (\<lambda>(a, _) (b, _). a > b)\<rparr>"

lemma upper_USD: "toUpperCase ''USD'' = ''USD''" "toUpperCase ''JPY'' = ''JPY''" "toUpperCase ''jpy'' = ''JPY''"
  by code_simp+

lemma example_dinero_spec: "dinero_spec example_dinero"
  by (auto simp: dinero_spec_def example_dinero_def example_registry_def same_unit_def upper_USD
      split: if_splits)

definition example_money :: "int \<Rightarrow> (int \<times> nat \<times> string) money" where
  "example_money n = \<lparr>mon_value = (n, 2, ''USD''), mon_code = ''USD''\<rparr>"

lemma example_denotes: "isSafeInteger n \<Longrightarrow> denotes example_dinero (example_money n) n ''USD''"
  by (simp add: denotes_def example_dinero_def example_registry_def example_money_def upper_USD)

theorem money_arithmetic_witness:
  "yields example_dinero (money_add example_dinero (example_money 250) (example_money 100)) 350 ''USD''
   \<and> yields example_dinero (money_divide example_dinero (example_money 250) (JSInt 4)) 63 ''USD''"
  using money_arithmetic [OF example_dinero_spec example_denotes example_denotes, of 250 100 4]
  by (simp add: isSafeInteger_def MAX_SAFE_def rounded_quotient_def)

theorem money_allocate_witness:
  "\<exists>ms xs. money_allocate example_dinero (example_money 100) [1, 0, 2] = Some (Inr ms)
    \<and> list_all2 (\<lambda>s x. denotes example_dinero s x ''USD'') ms xs \<and> sum_list xs = 100 \<and> xs ! 1 = 0"
  using money_allocate_exact [OF example_dinero_spec example_denotes, of 100 "[1, 0, 2]"]
  by (fastforce simp: isSafeInteger_def MAX_SAFE_def)

theorem exchange_rate_witness:
  "\<exists>r. exchange_rate_of example_dinero ''USD'' ''JPY'' ''151.5'' = Inr r \<and> 0 < rate_numerator r
    \<and> rate_denominator r = 10"
proof -
  have "exchange_rate_of example_dinero ''USD'' ''JPY'' ''151.5'' = Inr
      \<lparr>rate_from = ''USD'', rate_to = ''JPY'', rate_text = ''151.5'', rate_numerator = 1515,
       rate_denominator = 10\<rparr>"
    by (simp add: exchange_rate_of_def decimalText_def decimal_parts_def trim_def is_space_def
        is_digit_def parse_digits_def digit_value_def normalize_def resolve_def upper_USD
        example_dinero_def example_registry_def Let_def of_char_def)
  with exchange_rate_exact [OF this] show ?thesis by simp
qed

definition example_rate :: exchange_rate where
  "example_rate = \<lparr>rate_from = ''USD'', rate_to = ''JPY'', rate_text = ''151.5'',
     rate_numerator = 1515, rate_denominator = 10\<rparr>"

theorem convert_witness:
  "\<exists>c. convert example_dinero (\<lambda>_ _. ret (Some example_rate)) (example_money 333) ''jpy'' ()
      = (Inr c, ()) \<and> money_amount example_dinero (conv_converted c) = Inr 504"
proof -
  define c where "c = \<lparr>conv_source = example_money 333,
    conv_converted = \<lparr>mon_value = (504, 0, ''JPY''), mon_code = ''JPY''\<rparr>, conv_rate = example_rate\<rparr>"
  have denotes: "denotes example_dinero (example_money 333) 333 ''USD''"
    by (rule example_denotes) (simp add: isSafeInteger_def MAX_SAFE_def)
  have target: "normalize example_dinero ''jpy'' = Inr ''JPY''"
    by (simp add: normalize_def resolve_def upper_USD example_dinero_def example_registry_def)
  have units: "minorUnitsPerMajor example_dinero ''USD'' = Inr 100"
      "minorUnitsPerMajor example_dinero ''JPY'' = Inr 1"
    by (simp_all add: minorUnitsPerMajor_def resolve_def upper_USD example_dinero_def example_registry_def)
  have amount: "money_amount example_dinero (example_money 333) = Inr 333"
    by (rule denotes_amount [OF denotes])
  have run: "convert example_dinero (\<lambda>_ _. ret (Some example_rate)) (example_money 333) ''jpy'' ()
      = (Inr c, ())"
    unfolding c_def by code_simp
  have rate: "conv_rate c = example_rate" by (simp add: c_def)
  obtain n where n: "money_amount example_dinero (conv_converted c) = Inr n"
      "2 * \<bar>n * 1000 - 504495\<bar> \<le> 1000"
    using convert_nearest [OF example_dinero_spec denotes target units run]
    by (simp only: rate) (auto simp: example_rate_def)
  have "n * 1000 - 504495 \<le> 500" "- (n * 1000 - 504495) \<le> 500"
    using n(2) abs_ge_self [of "n * 1000 - 504495"] abs_ge_minus_self [of "n * 1000 - 504495"]
    by simp_all
  then have "n = 504" by simp
  with n(1) run show ?thesis by blast
qed

end
