(* ===== verification/Payment_Tables.thy ===== *)
theory Payment_Tables
  imports Status_Machines Idempotency_Service Money_Values "HOL-Library.List_Lexorder" "HOL-Library.Char_ord"
    "HOL-Library.Product_Lexorder"
begin

text \<open>
  The payments and refunds tables: the operations of \<open>KnexRepository\<close>
  (\<open>infrastructure/storage/knex/knex-repository.ts\<close>), \<open>KnexPaymentRepository\<close> and
  \<open>KnexRefundRepository\<close> the actions use. A row is what \<open>toEntity\<close> makes of it: amounts in
  minor units, an absent date or reference \<open>None\<close>; a new row's random id is an argument.
  The state also holds the idempotency records.
\<close>

datatype collection_method = Cash | Bank_transfer | Cheque | Money_order | Mobile_money | Card_terminal | Other_method

record payment =
  pay_id :: ident
  pay_tenant :: tenant
  pay_customerId :: "ident option"
  pay_provider :: "string option"
  pay_providerPaymentId :: "ident option"
  pay_status :: payment_status
  pay_currency :: string
  pay_amount :: int
  pay_refundedAmount :: int
  pay_capturedAmount :: int
  pay_authorizedAt :: "instant option"
  pay_authorizationExpiresAt :: "instant option"
  pay_reference :: "string option"
  pay_description :: "string option"
  pay_collectionMethod :: "collection_method option"
  pay_occurredAt :: "instant option"
  pay_externalReference :: "string option"
  pay_recordedBy :: "string option"
  pay_createdAt :: instant
  pay_updatedAt :: instant

record refund =
  ref_id :: ident
  ref_tenant :: tenant
  ref_paymentId :: ident
  ref_provider :: "string option"
  ref_providerRefundId :: "ident option"
  ref_status :: refund_status
  ref_currency :: string
  ref_amount :: int
  ref_reason :: "string option"
  ref_collectionMethod :: "collection_method option"
  ref_occurredAt :: "instant option"
  ref_externalReference :: "string option"
  ref_recordedBy :: "string option"
  ref_createdAt :: instant
  ref_updatedAt :: instant

text \<open>A \<open>Money\<close> as the actions see it: what \<open>amount()\<close> and \<open>currency()\<close> return.\<close>

record cash =
  cash_amount :: int
  cash_code :: string

definition cash_of :: "'d dinero \<Rightarrow> int \<Rightarrow> string \<Rightarrow> error + cash" where
  "cash_of L n code =
    map_sum id (\<lambda>m. \<lparr>cash_amount = n, cash_code = mon_code m\<rparr>) (money_of L (JSInt n) code)"

text \<open>
  What the idempotency records of the payment actions store: rows, of which replays read the id,
  and the result of an authorization with the checkout session the customer is sent to.
\<close>

record checkout_session =
  cs_id :: string
  cs_url :: string
  cs_html :: "string option"

datatype stored = S_payment payment | S_refund refund | S_authorization payment "checkout_session option"
  | S_reference ident

fun stored_id :: "stored \<Rightarrow> ident" where
  "stored_id (S_payment p) = pay_id p"
| "stored_id (S_refund r) = ref_id r"
| "stored_id (S_reference i) = i"
| "stored_id (S_authorization p _) = pay_id p"

record pay_db = "stored idem_db" +
  payments :: "payment list"
  refunds :: "refund list"

section \<open>The base repository\<close>

definition tenantMatches :: "tenant \<Rightarrow> tenant \<Rightarrow> bool" where
  "tenantMatches tenantId t \<longleftrightarrow> tenantId = None \<or> t = tenantId"

text \<open>\<open>scopedWhere\<close>: the tenant restricts the lookup only when one is given.\<close>

definition scopedPayment :: "ident \<Rightarrow> tenant \<Rightarrow> payment \<Rightarrow> bool" where
  "scopedPayment i tenantId p \<longleftrightarrow> pay_id p = i \<and> tenantMatches tenantId (pay_tenant p)"

definition scopedRefund :: "ident \<Rightarrow> tenant \<Rightarrow> refund \<Rightarrow> bool" where
  "scopedRefund i tenantId r \<longleftrightarrow> ref_id r = i \<and> tenantMatches tenantId (ref_tenant r)"

text \<open>\<open>findById\<close> and \<open>findByIdForUpdate\<close>, which differ in the row lock only.\<close>

definition findPayment :: "ident \<Rightarrow> tenant \<Rightarrow> ('x pay_db_scheme, payment option) io" where
  "findPayment i tenantId = readState (\<lambda>w. find (scopedPayment i tenantId) (payments w))"

definition findRefund :: "ident \<Rightarrow> tenant \<Rightarrow> ('x pay_db_scheme, refund option) io" where
  "findRefund i tenantId = readState (\<lambda>w. find (scopedRefund i tenantId) (refunds w))"

definition MAX_LIST_LIMIT :: nat where "MAX_LIST_LIMIT = 500"
definition DEFAULT_LIST_LIMIT :: nat where "DEFAULT_LIST_LIMIT = 100"

text \<open>\<open>manyWhere\<close> without options: newest first, at most a hundred.\<close>

definition listRefundsByPayment :: "ident \<Rightarrow> tenant \<Rightarrow> ('x pay_db_scheme, refund list) io" where
  "listRefundsByPayment paymentId tenantId = readState (\<lambda>w.
     take (min DEFAULT_LIST_LIMIT MAX_LIST_LIMIT)
       (rev (sort_key (\<lambda>r. (ref_createdAt r, ref_id r))
         (filter (\<lambda>r. ref_paymentId r = paymentId \<and> tenantMatches tenantId (ref_tenant r)) (refunds w)))))"

record refund_patch =
  rpa_status :: refund_status
  rpa_providerRefundId :: "ident option"

text \<open>An update that matches no row ends in \<open>findByIdOrFail\<close>, which throws.\<close>

definition patchRefund :: "refund_patch \<Rightarrow> instant \<Rightarrow> refund \<Rightarrow> refund" where
  "patchRefund patch now r = r\<lparr>ref_status := rpa_status patch,
     ref_providerRefundId := (case rpa_providerRefundId patch of None \<Rightarrow> ref_providerRefundId r | Some x \<Rightarrow> Some x),
     ref_updatedAt := now\<rparr>"

definition updateRefund :: "ident \<Rightarrow> refund_patch \<Rightarrow> ('x pay_db_scheme, refund) io" where
  "updateRefund i patch = (\<lambda>w.
    let w' = w\<lparr>refunds := map (\<lambda>r. if scopedRefund i None r then patchRefund patch (idem_now w) r else r) (refunds w)\<rparr>
    in case find (scopedRefund i None) (refunds w') of
         Some r \<Rightarrow> (Inr r, w')
       | None \<Rightarrow> (Inl (ForeignError ''row missing after write''), w'))"

definition createRefund :: "refund \<Rightarrow> ('x pay_db_scheme, refund) io" where
  "createRefund r = (\<lambda>w. let row = r\<lparr>ref_createdAt := idem_now w, ref_updatedAt := idem_now w\<rparr>
     in (Inr row, w\<lparr>refunds := refunds w @ [row]\<rparr>))"

definition findPaymentByProviderId ::
  "string \<Rightarrow> ident \<Rightarrow> tenant \<Rightarrow> ('x pay_db_scheme, payment option) io" where
  "findPaymentByProviderId provider providerPaymentId t = readState (\<lambda>w.
     find (\<lambda>p. pay_provider p = Some provider \<and> pay_providerPaymentId p = Some providerPaymentId
         \<and> tenantMatches t (pay_tenant p)) (payments w))"

text \<open>
  \<open>create\<close> stamps the row; the table's unique key on the provider's id refuses a second row
  of one provider payment, whatever its tenant.
\<close>

definition provider_taken :: "payment \<Rightarrow> payment list \<Rightarrow> bool" where
  "provider_taken p rows \<longleftrightarrow> pay_provider p \<noteq> None \<and> pay_providerPaymentId p \<noteq> None
    \<and> (\<exists>q \<in> set rows. pay_provider q = pay_provider p \<and> pay_providerPaymentId q = pay_providerPaymentId p)"

definition createPayment :: "payment \<Rightarrow> ('x pay_db_scheme, payment) io" where
  "createPayment p = (\<lambda>w. let row = p\<lparr>pay_createdAt := idem_now w, pay_updatedAt := idem_now w\<rparr> in
     if provider_taken row (payments w) then (Inl (ForeignError ''UNIQUE_VIOLATION''), w)
     else (Inr row, w\<lparr>payments := payments w @ [row]\<rparr>))"

section \<open>Conditional updates of payments\<close>

text \<open>The number of rows an update touched decides its answer.\<close>

definition updatePaymentsWhere ::
  "(payment \<Rightarrow> bool) \<Rightarrow> (payment \<Rightarrow> payment) \<Rightarrow> ('x pay_db_scheme, bool) io" where
  "updatePaymentsWhere P f = (\<lambda>w. (Inr (\<exists>p \<in> set (payments w). P p),
     w\<lparr>payments := map (\<lambda>p. if P p then (f p)\<lparr>pay_updatedAt := idem_now w\<rparr> else p) (payments w)\<rparr>))"

definition updateRefundedAmountIfUnchanged ::
  "ident \<Rightarrow> int \<Rightarrow> int \<Rightarrow> payment_status \<Rightarrow> tenant \<Rightarrow> ('x pay_db_scheme, bool) io" where
  "updateRefundedAmountIfUnchanged i expected refundedAmount status tenantId =
    updatePaymentsWhere (\<lambda>p. scopedPayment i tenantId p \<and> pay_refundedAmount p = expected)
      (\<lambda>p. p\<lparr>pay_refundedAmount := refundedAmount, pay_status := status\<rparr>)"

definition updateStatusIfUnchanged ::
  "ident \<Rightarrow> payment_status \<Rightarrow> (payment \<Rightarrow> payment) \<Rightarrow> tenant \<Rightarrow> ('x pay_db_scheme, bool) io" where
  "updateStatusIfUnchanged i expected patch tenantId =
    updatePaymentsWhere (\<lambda>p. scopedPayment i tenantId p \<and> pay_status p = expected) patch"

section \<open>The ledger\<close>

definition live :: "refund \<Rightarrow> bool" where
  "live r \<longleftrightarrow> ref_status r \<in> {R_pending, R_succeeded}"

definition refunded_total :: "ident \<Rightarrow> refund list \<Rightarrow> int" where
  "refunded_total i rs = sum_list (map ref_amount (filter (\<lambda>r. ref_paymentId r = i \<and> live r) rs))"

text \<open>
  What holds of the two tables in every state: ids are unique, refund amounts positive, and
  each payment's refunded amount is what its pending and succeeded refunds add up to, not more
  than the payment, and in accord with its status.
\<close>

definition status_matches :: "payment \<Rightarrow> bool" where
  "status_matches p \<longleftrightarrow> (case pay_status p of
      P_refunded \<Rightarrow> pay_refundedAmount p = pay_amount p
    | P_partially_refunded \<Rightarrow> 0 < pay_refundedAmount p \<and> pay_refundedAmount p < pay_amount p
    | _ \<Rightarrow> pay_refundedAmount p = 0)"

definition ledger_ok :: "'x pay_db_scheme \<Rightarrow> bool" where
  "ledger_ok w \<longleftrightarrow> distinct (map pay_id (payments w)) \<and> distinct (map ref_id (refunds w))
    \<and> (\<forall>r \<in> set (refunds w). 0 < ref_amount r)
    \<and> (\<forall>p \<in> set (payments w). pay_refundedAmount p = refunded_total (pay_id p) (refunds w)
        \<and> pay_refundedAmount p \<le> pay_amount p \<and> status_matches p)"

lemma refunded_total_simps [simp]:
  "refunded_total i [] = 0"
  "refunded_total i (r # rs) = (if ref_paymentId r = i \<and> live r then ref_amount r else 0) + refunded_total i rs"
  "refunded_total i (xs @ ys) = refunded_total i xs + refunded_total i ys"
  by (simp_all add: refunded_total_def)

lemma refunded_total_nonneg: "\<forall>r \<in> set rs. 0 < ref_amount r \<Longrightarrow> 0 \<le> refunded_total i rs"
  by (induction rs) auto

lemma refunded_total_map:
  assumes "\<And>r. r \<in> set rs \<Longrightarrow> ref_paymentId (f r) = ref_paymentId r \<and> ref_amount (f r) = ref_amount r
      \<and> (ref_paymentId r = i \<longrightarrow> live (f r) = live r)"
  shows "refunded_total i (map f rs) = refunded_total i rs"
  using assms by (induction rs) auto

text \<open>Changing the row of one refund changes the totals by that refund alone.\<close>

lemma refunded_total_update:
  assumes "distinct (map ref_id rs)" and "r \<in> set rs" and "ref_paymentId (f r) = ref_paymentId r"
    and "ref_amount (f r) = ref_amount r"
  shows "refunded_total i (map (\<lambda>x. if ref_id x = ref_id r then f x else x) rs)
    = refunded_total i rs + (if ref_paymentId r = i \<and> live (f r) then ref_amount r else 0)
      - (if ref_paymentId r = i \<and> live r then ref_amount r else 0)"
  using assms(1,2)
proof (induction rs)
  case (Cons x rs)
  show ?case
  proof (cases "ref_id x = ref_id r")
    case True
    then have "x = r" using Cons.prems by force
    moreover have "map (\<lambda>x. if ref_id x = ref_id r then f x else x) rs = rs"
      using Cons.prems(1) True by (intro map_idI) (metis distinct.simps(2) image_eqI list.set_map list.simps(9))
    ultimately show ?thesis using assms(3,4) by simp
  next
    case False
    with Cons show ?thesis by auto
  qed
qed simp

lemma ledger_okD:
  assumes "ledger_ok w"
  shows "distinct (map pay_id (payments w))" and "distinct (map ref_id (refunds w))"
    and "\<forall>r \<in> set (refunds w). 0 < ref_amount r"
    and "p \<in> set (payments w) \<Longrightarrow> pay_refundedAmount p = refunded_total (pay_id p) (refunds w)"
    and "p \<in> set (payments w) \<Longrightarrow> pay_refundedAmount p \<le> pay_amount p"
    and "p \<in> set (payments w) \<Longrightarrow> 0 \<le> pay_refundedAmount p"
  using assms by (auto simp: ledger_ok_def refunded_total_nonneg)

text \<open>The tables of payments and refunds are all the ledger reads.\<close>

lemma ledger_ok_cong: "payments w' = payments w \<Longrightarrow> refunds w' = refunds w \<Longrightarrow> ledger_ok w' = ledger_ok w"
  by (simp add: ledger_ok_def)

lemma find_payment_unique:
  assumes "ledger_ok w" and "find (scopedPayment i t) (payments w) = Some p"
  shows "p \<in> set (payments w)" "pay_id p = i" "tenantMatches t (pay_tenant p)"
    and "q \<in> set (payments w) \<Longrightarrow> pay_id q = i \<Longrightarrow> q = p"
  using find_SomeD [OF assms(2)] ledger_okD(1) [OF assms(1)]
  by (auto simp: scopedPayment_def distinct_map dest: inj_onD)

lemma find_payment_found:
  assumes "ledger_ok w" and "p \<in> set (payments w)" and "pay_id p = i" and "tenantMatches t (pay_tenant p)"
  shows "findPayment i t w = (Inr (Some p), w)"
proof -
  obtain q where "find (scopedPayment i t) (payments w) = Some q"
    using assms(2-) by (cases "find (scopedPayment i t) (payments w)") (auto dest: find_NoneD simp: scopedPayment_def)
  moreover from find_payment_unique(4) [OF assms(1) this assms(2,3)] have "q = p" by simp
  ultimately show ?thesis by (simp add: findPayment_def)
qed

text \<open>The conditional update of a payment that is there, and one that matches nothing.\<close>

lemma updateRefundedAmount_eq:
  assumes ok: "ledger_ok w" and p: "p \<in> set (payments w)" "pay_id p = i" "tenantMatches t (pay_tenant p)"
  shows "updateRefundedAmountIfUnchanged i e r s t w =
    (if pay_refundedAmount p = e
     then (Inr True, w\<lparr>payments := map (\<lambda>q. if q = p
              then p\<lparr>pay_refundedAmount := r, pay_status := s, pay_updatedAt := idem_now w\<rparr> else q) (payments w)\<rparr>)
     else (Inr False, w))"
proof -
  have same: "scopedPayment i t q \<longleftrightarrow> q = p" if "q \<in> set (payments w)" for q
    using that p ledger_okD(1) [OF ok] by (auto simp: scopedPayment_def distinct_map dest: inj_onD)
  have "map (\<lambda>q. if scopedPayment i t q \<and> pay_refundedAmount q = e
      then (q\<lparr>pay_refundedAmount := r, pay_status := s\<rparr>)\<lparr>pay_updatedAt := idem_now w\<rparr> else q) (payments w)
    = map (\<lambda>q. if q = p \<and> pay_refundedAmount p = e
      then p\<lparr>pay_refundedAmount := r, pay_status := s, pay_updatedAt := idem_now w\<rparr> else q) (payments w)"
    by (rule map_cong) (auto simp: same)
  moreover have "(\<exists>q \<in> set (payments w). scopedPayment i t q \<and> pay_refundedAmount q = e) \<longleftrightarrow> pay_refundedAmount p = e"
    using p(1) same by blast
  moreover have "w\<lparr>payments := map (\<lambda>q. q) (payments w)\<rparr> = w" by (cases w) simp
  ultimately show ?thesis
    unfolding updateRefundedAmountIfUnchanged_def updatePaymentsWhere_def
    by (cases "pay_refundedAmount p = e") (simp_all only:, simp_all)
qed

lemma patchRefund_simps [simp]:
  "ref_id (patchRefund u n r) = ref_id r" "ref_paymentId (patchRefund u n r) = ref_paymentId r"
  "ref_amount (patchRefund u n r) = ref_amount r" "ref_status (patchRefund u n r) = rpa_status u"
  "ref_currency (patchRefund u n r) = ref_currency r" "ref_tenant (patchRefund u n r) = ref_tenant r"
  by (simp_all add: patchRefund_def)

lemma updateRefund_eq:
  assumes "distinct (map ref_id (refunds w))" and "r \<in> set (refunds w)" and "ref_id r = i"
  shows "updateRefund i u w = (Inr (patchRefund u (idem_now w) r),
    w\<lparr>refunds := map (\<lambda>x. if ref_id x = i then patchRefund u (idem_now w) x else x) (refunds w)\<rparr>)"
proof -
  let ?f = "\<lambda>x. if ref_id x = i then patchRefund u (idem_now w) x else x"
  have "map ref_id (map ?f (refunds w)) = map ref_id (refunds w)" by simp
  then have "distinct (map ref_id (map ?f (refunds w)))" using assms(1) by (rule ssubst)
  then have "find (\<lambda>y. ref_id y = ref_id (?f r)) (map ?f (refunds w)) = Some (?f r)"
    using assms(2) by (intro find_Some_iff_distinct) simp_all
  moreover have "scopedRefund i None = (\<lambda>y. ref_id y = i)" by (auto simp: scopedRefund_def tenantMatches_def)
  ultimately show ?thesis using assms(3) by (simp add: updateRefund_def Let_def)
qed

text \<open>One payment and the refunds change together: what is left to check of the ledger.\<close>

lemma ledger_change:
  assumes ok: "ledger_ok w" and p: "p \<in> set (payments w)"
    and pays: "payments w' = map (\<lambda>q. if q = p then p' else q) (payments w)" and "pay_id p' = pay_id p"
    and "distinct (map ref_id (refunds w'))" and "\<forall>r \<in> set (refunds w'). 0 < ref_amount r"
    and "\<And>i. i \<noteq> pay_id p \<Longrightarrow> refunded_total i (refunds w') = refunded_total i (refunds w)"
    and "pay_refundedAmount p' = refunded_total (pay_id p) (refunds w')"
    and "pay_refundedAmount p' \<le> pay_amount p'" and "status_matches p'"
  shows "ledger_ok w'"
proof -
  have ids: "map pay_id (payments w') = map pay_id (payments w)" using pays assms(4) by simp
  have other: "pay_id q \<noteq> pay_id p" if "q \<in> set (payments w)" "q \<noteq> p" for q
    using that p ledger_okD(1) [OF ok] by (auto simp: distinct_map dest: inj_onD)
  have "pay_refundedAmount q' = refunded_total (pay_id q') (refunds w')
      \<and> pay_refundedAmount q' \<le> pay_amount q' \<and> status_matches q'" if q': "q' \<in> set (payments w')" for q'
  proof (cases "q' = p'")
    case False
    then have "q' \<in> set (payments w)" "q' \<noteq> p" using q' pays by (auto split: if_splits)
    with other assms(7) [of "pay_id q'"] ok show ?thesis by (auto simp: ledger_ok_def)
  qed (use assms in simp)
  moreover have "distinct (map pay_id (payments w'))" using ledger_okD(1) [OF ok] ids by simp
  ultimately show ?thesis using assms(5,6) unfolding ledger_ok_def by blast
qed

lemma refunded_total_member:
  assumes "\<forall>r \<in> set rs. 0 < ref_amount r" and "r \<in> set rs" and "live r"
  shows "ref_amount r \<le> refunded_total (ref_paymentId r) rs"
  using assms
proof (induction rs)
  case (Cons x rs)
  then show ?case using refunded_total_nonneg [of rs "ref_paymentId r"] by (auto split: if_splits)
qed simp

end
