(* ===== verification/Request_Keys.thy ===== *)
theory Request_Keys
  imports Money_Values
begin

text \<open>
  \<open>domain/value-objects/idempotency-key.ts\<close>: the keys derived from a request. A string is
  the list of the bytes of its UTF-8 encoding, which is what \<open>encodeURIComponent\<close> escapes;
  its \<open>URIError\<close> on a lone surrogate is not modelled.
\<close>

section \<open>Percent encoding\<close>

definition unreserved :: "char \<Rightarrow> bool" where
  "unreserved c \<longleftrightarrow> (let n = of_char c :: nat in (48 \<le> n \<and> n \<le> 57) \<or> (65 \<le> n \<and> n \<le> 90)
     \<or> (97 \<le> n \<and> n \<le> 122) \<or> c \<in> set ''-_.!~*()'' \<or> n = 39)"

definition hex_digit :: "nat \<Rightarrow> char" where
  "hex_digit n = (if n < 10 then char_of (48 + n) else char_of (55 + n))"

definition hex_value :: "char \<Rightarrow> nat" where
  "hex_value c = (let n = of_char c in if n < 65 then n - 48 else n - 55)"

definition encode_char :: "char \<Rightarrow> string" where
  "encode_char c = (if unreserved c then [c]
     else [CHR ''%'', hex_digit (of_char c div 16), hex_digit (of_char c mod 16)])"

definition encodeURIComponent :: "string \<Rightarrow> string" where
  "encodeURIComponent s = concat (map encode_char s)"

fun decode_component :: "string \<Rightarrow> string" where
  "decode_component [] = []"
| "decode_component (c # s) =
    (if c = CHR ''%'' then
       (case s of a # b # r \<Rightarrow> char_of (16 * hex_value a + hex_value b) # decode_component r | _ \<Rightarrow> [])
     else c # decode_component s)"

lemma hex_digit_ok: "n < 16 \<Longrightarrow> unreserved (hex_digit n) \<and> hex_value (hex_digit n) = n"
  by (auto simp: hex_digit_def unreserved_def hex_value_def Let_def of_char_of)

lemma percent_reserved: "\<not> unreserved (CHR ''%'')" "\<not> unreserved (CHR '':'')"
  by code_simp+

lemma space_reserved: "unreserved c \<Longrightarrow> \<not> is_space c"
  by (auto simp: unreserved_def is_space_def Let_def)

lemma nibbles: "of_char c div 16 < (16::nat)" "of_char c mod 16 < (16::nat)"
proof -
  have "of_char c < (16::nat) * 16" using nat_of_char_less_256 [of c] by simp
  then show "of_char c div 16 < (16::nat)" by (rule less_mult_imp_div_less)
qed simp

lemma encode_char_chars: "x \<in> set (encode_char c) \<Longrightarrow> unreserved x \<or> x = CHR ''%''"
  using nibbles [of c] by (auto simp: encode_char_def hex_digit_ok split: if_splits)

lemma encode_chars: "x \<in> set (encodeURIComponent s) \<Longrightarrow> unreserved x \<or> x = CHR ''%''"
  by (auto simp: encodeURIComponent_def dest: encode_char_chars)

lemma decode_encode: "decode_component (encodeURIComponent s) = s"
proof (induction s)
  case Nil
  then show ?case by (simp add: encodeURIComponent_def)
next
  case (Cons c s)
  have "decode_component (encode_char c @ r) = c # decode_component r" for r
    using nibbles [of c] percent_reserved(1)
    by (auto simp: encode_char_def hex_digit_ok mult.commute [of 16] char_of_char)
  with Cons show ?case by (simp add: encodeURIComponent_def)
qed

lemma encode_inject: "encodeURIComponent s = encodeURIComponent t \<longleftrightarrow> s = t"
  by (metis decode_encode)

section \<open>Joining segments\<close>

fun join_colon :: "string list \<Rightarrow> string" where
  "join_colon [] = []"
| "join_colon [x] = x"
| "join_colon (x # y # zs) = x @ CHR '':'' # join_colon (y # zs)"

lemma split_at_colon:
  assumes "x @ xs = y @ ys" and "CHR '':'' \<notin> set x" and "CHR '':'' \<notin> set y"
    and "xs = [] \<or> hd xs = CHR '':''" and "ys = [] \<or> hd ys = CHR '':''"
  shows "x = y \<and> xs = ys"
proof -
  have t: "takeWhile (\<lambda>c. c \<noteq> CHR '':'') (u @ us) = u"
    if "CHR '':'' \<notin> set u" "us = [] \<or> hd us = CHR '':''" for u us
  proof -
    have "takeWhile (\<lambda>c. c \<noteq> CHR '':'') us = []" using that(2) by (cases us) auto
    moreover have "\<forall>c \<in> set u. c \<noteq> CHR '':''" using that(1) by auto
    ultimately show ?thesis by (simp add: takeWhile_append)
  qed
  have "x = y" using t [OF assms(2,4)] t [OF assms(3,5)] assms(1) by simp
  with assms(1) show ?thesis by simp
qed

definition colon_free :: "string list \<Rightarrow> bool" where
  "colon_free segs \<longleftrightarrow> (\<forall>x \<in> set segs. CHR '':'' \<notin> set x)"

lemma join_colon_Cons: "join_colon (x # xs) = x @ (if xs = [] then [] else CHR '':'' # join_colon xs)"
  by (cases xs) simp_all

lemma join_colon_inject:
  assumes "join_colon xs = join_colon ys" and "colon_free xs" and "colon_free ys"
    and "xs \<noteq> []" and "ys \<noteq> []"
  shows "xs = ys"
  using assms
proof (induction xs arbitrary: ys)
  case (Cons x xs)
  then obtain y zs where ys: "ys = y # zs" by (cases ys) auto
  let ?rest = "\<lambda>s. if s = [] then [] else CHR '':'' # join_colon s"
  have "x = y \<and> ?rest xs = ?rest zs"
    by (rule split_at_colon) (use Cons.prems ys in \<open>auto simp: join_colon_Cons colon_free_def\<close>)
  moreover have "xs = zs"
  proof (cases "xs = [] \<or> zs = []")
    case True
    with calculation show ?thesis by (auto split: if_splits)
  next
    case False
    with calculation Cons ys show ?thesis by (auto simp: colon_free_def)
  qed
  ultimately show ?case using ys by simp
qed simp

lemma trim_id: "\<forall>c \<in> set s. \<not> is_space c \<Longrightarrow> trim s = s"
proof -
  assume a: "\<forall>c \<in> set s. \<not> is_space c"
  have d: "dropWhile is_space t = t" if "\<forall>c \<in> set t. \<not> is_space c" for t
    using that by (cases t) auto
  show ?thesis using a by (simp add: trim_def d)
qed

lemma join_colon_chars: "c \<in> set (join_colon xs) \<Longrightarrow> c = CHR '':'' \<or> (\<exists>x \<in> set xs. c \<in> set x)"
  by (induction xs rule: join_colon.induct) auto

section \<open>The keys\<close>

definition digit_char :: "nat \<Rightarrow> char" where
  "digit_char n = char_of (48 + n)"

fun show_nat :: "nat \<Rightarrow> string" where
  "show_nat n = (if n < 10 then [digit_char n] else show_nat (n div 10) @ [digit_char (n mod 10)])"

declare show_nat.simps [simp del]

definition show_int :: "int \<Rightarrow> string" where
  "show_int n = (if n < 0 then CHR ''-'' # show_nat (nat (- n)) else show_nat (nat n))"

definition segment :: "string \<Rightarrow> string" where
  "segment v = encodeURIComponent v"

definition tenantSegment :: "tenant \<Rightarrow> string" where
  "tenantSegment v = segment (case v of None \<Rightarrow> [] | Some t \<Rightarrow> t)"

definition amountSegment :: "js_number \<Rightarrow> error + string" where
  "amountSegment v = (case v of
      JSInt n \<Rightarrow> if isSafeInteger n then Inr (segment (show_int n)) else Inl TypeError
    | JSNotInt \<Rightarrow> Inl TypeError)"

definition currencySegment :: "string \<Rightarrow> string" where
  "currencySegment v = segment (toUpperCase v)"

definition key_of :: "string \<Rightarrow> error + string" where
  "key_of value = (let normalized = trim value in
     if length normalized = 0 then Inl TypeError
     else if length normalized > 512 then Inl TypeError
     else Inr normalized)"

text \<open>An optional part that is absent, null or empty adds no segment.\<close>

definition optional_segment :: "string option \<Rightarrow> string list" where
  "optional_segment v = (case v of None \<Rightarrow> [] | Some s \<Rightarrow> if s = [] then [] else [segment s])"

record billable_parts =
  kp_tenant :: tenant
  kp_provider :: string
  kp_billableType :: string
  kp_billableId :: string

definition billable_segments :: "('z) billable_parts_scheme \<Rightarrow> string list" where
  "billable_segments p = [tenantSegment (kp_tenant p), segment (kp_provider p),
     segment (kp_billableType p), segment (kp_billableId p)]"

record charge_parts = billable_parts +
  kp_reference :: string
  kp_amount :: js_number
  kp_currency :: string

record checkout_parts = billable_parts +
  kp_price :: string
  kp_subscriptionName :: string
  kp_checkoutReference :: "string option"

record refund_parts =
  rp_tenant :: tenant
  rp_provider :: string
  rp_paymentId :: string
  rp_amount :: js_number
  rp_currency :: string
  rp_reference :: "string option"

record operation_parts =
  op_tenant :: tenant
  op_operation :: string
  op_provider :: string
  op_subscriptionId :: string
  op_discriminator :: "string option"
  op_nonce :: "string option"

definition forCheckout :: "checkout_parts \<Rightarrow> error + string" where
  "forCheckout p = key_of (join_colon (''checkout'' # billable_segments p @
     [segment (kp_price p), segment (kp_subscriptionName p)] @ optional_segment (kp_checkoutReference p)))"

definition forCharge :: "charge_parts \<Rightarrow> error + string" where
  "forCharge p = bindE (amountSegment (kp_amount p)) (\<lambda>amount.
     key_of (join_colon (''charge'' # billable_segments p @
       [segment (kp_reference p), amount, currencySegment (kp_currency p)])))"

definition forSubscription :: "billable_parts \<Rightarrow> string \<Rightarrow> string \<Rightarrow> error + string" where
  "forSubscription p subscriptionName price = key_of (join_colon (''subscription'' #
     billable_segments p @ [segment subscriptionName, segment price]))"

definition forRefund :: "refund_parts \<Rightarrow> error + string" where
  "forRefund p = bindE (amountSegment (rp_amount p)) (\<lambda>amount.
     key_of (join_colon ([''refund'', tenantSegment (rp_tenant p), segment (rp_provider p),
       segment (rp_paymentId p), amount, currencySegment (rp_currency p)]
       @ optional_segment (rp_reference p))))"

definition forSubscriptionOperation :: "operation_parts \<Rightarrow> error + string" where
  "forSubscriptionOperation p = key_of (join_colon ([''subscription'', segment (op_operation p),
     tenantSegment (op_tenant p), segment (op_provider p), segment (op_subscriptionId p)]
     @ optional_segment (op_discriminator p) @ optional_segment (op_nonce p)))"

definition forWebhook :: "string \<Rightarrow> string \<Rightarrow> error + string" where
  "forWebhook provider providerEventId =
    key_of (join_colon [''webhook'', segment provider, segment providerEventId])"

definition forCustomer :: "billable_parts \<Rightarrow> error + string" where
  "forCustomer p = key_of (join_colon (''customer'' # billable_segments p))"

definition forBillingPortal :: "billable_parts \<Rightarrow> error + string" where
  "forBillingPortal p = key_of (join_colon (''portal'' # billable_segments p))"

section \<open>Keys determine their requests\<close>

lemma digit_char_ok: "d < 10 \<Longrightarrow> is_digit (digit_char d) \<and> digit_value (digit_char d) = int d"
  by (simp add: is_digit_def digit_value_def digit_char_def of_char_of)

lemma show_nat_ok: "list_all is_digit (show_nat n) \<and> parse_digits (show_nat n) = int n"
proof (induction n rule: show_nat.induct)
  case (1 n)
  show ?case
  proof (cases "n < 10")
    case True
    then show ?thesis using digit_char_ok [of n] by (simp add: show_nat.simps parse_digits_def)
  next
    case False
    then have s: "show_nat n = show_nat (n div 10) @ [digit_char (n mod 10)]" by (simp add: show_nat.simps)
    have "parse_digits [digit_char (n mod 10)] = int (n mod 10)"
      using digit_char_ok [of "n mod 10"] by (simp add: parse_digits_def)
    moreover have "int (n div 10) * 10 + int (n mod 10) = int n"
      by (simp add: zdiv_int zmod_int)
    ultimately show ?thesis
      using 1 [OF False] digit_char_ok [of "n mod 10"] by (simp add: s parse_digits_append)
  qed
qed

lemma show_nat_inject: "show_nat m = show_nat n \<Longrightarrow> m = n"
  by (metis of_nat_eq_iff show_nat_ok)

lemma show_nat_no_minus: "show_nat m \<noteq> CHR ''-'' # s"
proof
  assume "show_nat m = CHR ''-'' # s"
  with show_nat_ok [of m] have "is_digit (CHR ''-'')" by simp
  then show False by (simp add: is_digit_def)
qed

lemma show_int_inject: "show_int m = show_int n \<longleftrightarrow> m = n"
  using show_nat_no_minus show_nat_no_minus [THEN not_sym]
  by (auto simp: show_int_def dest!: show_nat_inject split: if_splits)

definition clean :: "string list \<Rightarrow> bool" where
  "clean segs \<longleftrightarrow> (\<forall>x \<in> set segs. \<forall>c \<in> set x. unreserved c \<or> c = CHR ''%'')"

lemma clean_simps [simp]: "clean []"
  "clean (x # xs) \<longleftrightarrow> (\<forall>c \<in> set x. unreserved c \<or> c = CHR ''%'') \<and> clean xs"
  "clean (xs @ ys) \<longleftrightarrow> clean xs \<and> clean ys"
  by (auto simp: clean_def)

lemma segment_clean [simp]: "c \<in> set (segment v) \<Longrightarrow> unreserved c \<or> c = CHR ''%''"
  by (auto simp: segment_def dest: encode_chars)

lemma segment_inject [simp]: "segment v = segment w \<longleftrightarrow> v = w"
  by (simp add: segment_def encode_inject)

lemma optional_clean [simp]: "clean (optional_segment v)"
  by (cases v) (auto simp: optional_segment_def dest: segment_clean)

lemma not_space: "\<not> is_space (CHR ''%'')" "\<not> is_space (CHR '':'')"
  by code_simp+

lemma key_of_join:
  assumes "clean segs" and "key_of (join_colon segs) = Inr k"
  shows "k = join_colon segs"
proof -
  have "\<not> is_space c" if "c \<in> set (join_colon segs)" for c
    using join_colon_chars [OF that] assms(1) space_reserved not_space
    unfolding clean_def by blast
  then have "trim (join_colon segs) = join_colon segs" by (intro trim_id) blast
  with assms(2) show ?thesis by (auto simp: key_of_def Let_def split: if_splits)
qed

lemma equal_keys:
  assumes "key_of (join_colon xs) = Inr k" and "key_of (join_colon ys) = Inr k"
    and "clean xs" and "clean ys" and "xs \<noteq> []" and "ys \<noteq> []"
  shows "xs = ys"
proof (rule join_colon_inject)
  show "join_colon xs = join_colon ys" using assms key_of_join by metis
  show "colon_free xs" "colon_free ys"
    using assms(3,4) percent_reserved by (auto simp: clean_def colon_free_def)
qed (use assms in auto)

text \<open>What a key keeps of an optional tenant and of an optional reference.\<close>

definition tenant_key :: "tenant \<Rightarrow> string" where
  "tenant_key t = (case t of None \<Rightarrow> [] | Some s \<Rightarrow> s)"

definition given :: "string option \<Rightarrow> string option" where
  "given v = (if v = Some [] then None else v)"

lemma tenantSegment_inject [simp]: "tenantSegment t = tenantSegment u \<longleftrightarrow> tenant_key t = tenant_key u"
  by (simp add: tenantSegment_def tenant_key_def)

lemma optional_inject [simp]: "optional_segment v = optional_segment w \<longleftrightarrow> given v = given w"
  by (auto simp: optional_segment_def given_def split: option.splits)

lemma amountSegment_Inr: "amountSegment a = Inr s \<longleftrightarrow>
    (\<exists>n. a = JSInt n \<and> isSafeInteger n \<and> s = segment (show_int n))"
  by (auto simp: amountSegment_def split: js_number.splits if_splits)

lemma tenantSegment_clean [simp]: "c \<in> set (tenantSegment v) \<Longrightarrow> unreserved c \<or> c = CHR ''%''"
  by (simp add: tenantSegment_def)

lemma currencySegment_clean [simp]: "c \<in> set (currencySegment v) \<Longrightarrow> unreserved c \<or> c = CHR ''%''"
  by (simp add: currencySegment_def)

lemma prefix_clean [simp]:
  "clean [''charge'']" "clean [''refund'']" "clean [''checkout'']"
  by code_simp+

text \<open>
  C17. A charge key determines its request: two charges with the same key have the same
  tenant (an absent tenant being the empty one), provider, customer, reference, amount and
  currency up to case. The same holds for refund keys, an absent reference being the empty
  one, and no charge shares a key with a refund. Separators inside the parts cannot mix them up.
\<close>

theorem charge_and_refund_keys_injective:
  "(forCharge p = Inr k \<and> forCharge q = Inr k \<longrightarrow>
      tenant_key (kp_tenant p) = tenant_key (kp_tenant q) \<and> kp_provider p = kp_provider q
      \<and> kp_billableType p = kp_billableType q \<and> kp_billableId p = kp_billableId q
      \<and> kp_reference p = kp_reference q \<and> kp_amount p = kp_amount q
      \<and> toUpperCase (kp_currency p) = toUpperCase (kp_currency q))
   \<and> (forRefund r = Inr k \<and> forRefund s = Inr k \<longrightarrow>
      tenant_key (rp_tenant r) = tenant_key (rp_tenant s) \<and> rp_provider r = rp_provider s
      \<and> rp_paymentId r = rp_paymentId s \<and> rp_amount r = rp_amount s
      \<and> toUpperCase (rp_currency r) = toUpperCase (rp_currency s)
      \<and> given (rp_reference r) = given (rp_reference s))
   \<and> \<not> (forCharge p = Inr k \<and> forRefund r = Inr k)"
proof -
  let ?c = "\<lambda>p n. ''charge'' # billable_segments p @
       [segment (kp_reference p), segment (show_int n), currencySegment (kp_currency p)]"
  let ?r = "\<lambda>p n. [''refund'', tenantSegment (rp_tenant p), segment (rp_provider p),
       segment (rp_paymentId p), segment (show_int n), currencySegment (rp_currency p)]
       @ optional_segment (rp_reference p)"
  have c: "\<exists>n. kp_amount p = JSInt n \<and> key_of (join_colon (?c p n)) = Inr k" if "forCharge p = Inr k" for p
    using that by (auto simp: forCharge_def bindE_def amountSegment_Inr split: sum.splits)
  have r: "\<exists>n. rp_amount p = JSInt n \<and> key_of (join_colon (?r p n)) = Inr k" if "forRefund p = Inr k" for p
    using that by (auto simp: forRefund_def bindE_def amountSegment_Inr split: sum.splits)
  have clean_c: "clean (?c p n)" for p n using prefix_clean(1) by (auto simp: billable_segments_def)
  have clean_r: "clean (?r p n)" for p n using prefix_clean(2) by auto
  have cc: "?c p m = ?c q n" if "key_of (join_colon (?c p m)) = Inr k" "key_of (join_colon (?c q n)) = Inr k" for p q m n
    by (rule equal_keys [OF that clean_c clean_c]) simp_all
  have rr: "?r p m = ?r q n" if "key_of (join_colon (?r p m)) = Inr k" "key_of (join_colon (?r q n)) = Inr k" for p q m n
    by (rule equal_keys [OF that clean_r clean_r]) simp_all
  have cr: "?c p m = ?r q n" if "key_of (join_colon (?c p m)) = Inr k" "key_of (join_colon (?r q n)) = Inr k" for p q m n
    by (rule equal_keys [OF that clean_c clean_r]) simp_all
  have charge: "tenant_key (kp_tenant p) = tenant_key (kp_tenant q) \<and> kp_provider p = kp_provider q
      \<and> kp_billableType p = kp_billableType q \<and> kp_billableId p = kp_billableId q
      \<and> kp_reference p = kp_reference q \<and> kp_amount p = kp_amount q
      \<and> toUpperCase (kp_currency p) = toUpperCase (kp_currency q)"
    if pq: "forCharge p = Inr k" "forCharge q = Inr k"
  proof -
    obtain m n where "kp_amount p = JSInt m" "kp_amount q = JSInt n" "?c p m = ?c q n"
      using c [OF pq(1)] c [OF pq(2)] cc by blast
    then show ?thesis by (simp add: billable_segments_def show_int_inject currencySegment_def)
  qed
  have refund: "tenant_key (rp_tenant r) = tenant_key (rp_tenant s) \<and> rp_provider r = rp_provider s
      \<and> rp_paymentId r = rp_paymentId s \<and> rp_amount r = rp_amount s
      \<and> toUpperCase (rp_currency r) = toUpperCase (rp_currency s)
      \<and> given (rp_reference r) = given (rp_reference s)"
    if rs: "forRefund r = Inr k" "forRefund s = Inr k"
  proof -
    obtain m n where "rp_amount r = JSInt m" "rp_amount s = JSInt n" "?r r m = ?r s n"
      using r [OF rs(1)] r [OF rs(2)] rr by blast
    then show ?thesis by (simp add: show_int_inject currencySegment_def)
  qed
  have "\<not> (forCharge p = Inr k \<and> forRefund r = Inr k)"
  proof
    assume "forCharge p = Inr k \<and> forRefund r = Inr k"
    then obtain m n where "?c p m = ?r r n" using c [of p] r [of r] cr by blast
    then show False by simp
  qed
  with charge refund show ?thesis by blast
qed

definition example_charge :: "string \<Rightarrow> string \<Rightarrow> charge_parts" where
  "example_charge billable reference = \<lparr>kp_tenant = None, kp_provider = ''s'', kp_billableType = ''u'',
     kp_billableId = billable, kp_reference = reference, kp_amount = JSInt 5, kp_currency = ''usd''\<rparr>"

theorem charge_keys_witness:
  "forCharge (example_charge ''a:b'' ''c'') = Inr ''charge::s:u:a%3Ab:c:5:USD''
    \<and> forCharge (example_charge ''a'' ''b:c'') \<noteq> Inr ''charge::s:u:a%3Ab:c:5:USD''"
proof -
  have k: "forCharge (example_charge ''a:b'' ''c'') = Inr ''charge::s:u:a%3Ab:c:5:USD''"
    by code_simp
  with charge_and_refund_keys_injective [of "example_charge ''a:b'' ''c''" "''charge::s:u:a%3Ab:c:5:USD''"
      "example_charge ''a'' ''b:c''"]
  show ?thesis by (auto simp: example_charge_def)
qed

end
