(* ===== verification/Refunds.thy ===== *)
theory Refunds
  imports Payment_Tables Request_Keys
begin

text \<open>
  \<open>application/actions/refunds/\<close> and the refund part of
  \<open>application/builders/local-refund-actions.ts\<close>. A refund is reserved in the tables, asked of
  the provider and then finalized or released. The provider, the audit log and the outbox
  are given actions on the state; the steps of other clients between a locked read and the
  conditional update are \<open>env\<close>; random ids (refund, correlation, lock token) are arguments.
\<close>

section \<open>Authorization\<close>

record authorization_context =
  ac_actorType :: "string option"
  ac_actorId :: "string option"
  ac_allowed :: "bool option"

definition isAuthorized :: "authorization_context \<Rightarrow> bool" where
  "isAuthorized c \<longleftrightarrow> ac_allowed c = Some True
    \<and> (case ac_actorId c of None \<Rightarrow> False | Some a \<Rightarrow> a \<noteq> [])"

definition no_context :: authorization_context where
  "no_context = \<lparr>ac_actorType = None, ac_actorId = None, ac_allowed = None\<rparr>"

definition assertAuthorized :: "bool \<Rightarrow> authorization_context option \<Rightarrow> ('w, unit) io" where
  "assertAuthorized enabled context =
    (if \<not> enabled then ret ()
     else guardE (isAuthorized (or_else context no_context)) (PayableError ''AUTHORIZATION_DENIED''))"

section \<open>The provider's part and the dependencies\<close>

record provider_refund =
  pr_providerPaymentId :: ident
  pr_amount :: cash
  pr_reason :: "string option"
  pr_reference :: "string option"

record refund_result =
  rr_providerRefundId :: ident
  rr_status :: string
  rr_amount :: cash

record refund_evidence =
  ev_action :: string
  ev_tenant :: tenant
  ev_correlation :: string
  ev_actorType :: "string option"
  ev_actorId :: "string option"
  ev_resourceId :: ident
  ev_before :: "int \<times> payment_status"
  ev_after :: "int \<times> payment_status"
  ev_refundId :: ident
  ev_amount :: int

record ('w, 'd) refund_deps =
  rd_authorizationEnabled :: bool
  rd_tenant :: tenant
  rd_providerName :: string
  rd_hasStorage :: bool
  rd_supportsRefunds :: bool
  rd_idempotency :: "idem_config option"
  rd_hash :: "ident \<times> int \<times> string \<Rightarrow> string"
  rd_json :: "stored \<Rightarrow> stored"
  rd_dinero :: "'d dinero"
  rd_refund :: "provider_refund \<Rightarrow> string \<Rightarrow> string \<Rightarrow> ('w, refund_result) io"
  rd_audit :: "refund_evidence \<Rightarrow> ('w, unit) io"

record refund_input =
  ri_paymentId :: ident
  ri_amount :: "cash option"
  ri_reason :: "string option"
  ri_reference :: "string option"
  ri_authorization :: "authorization_context option"

record reservation =
  rs_refundId :: ident
  rs_requested :: int
  rs_beforeRefunded :: int
  rs_beforeStatus :: payment_status
  rs_afterRefunded :: int
  rs_afterStatus :: payment_status

record refundable =
  rf_id :: ident
  rf_providerPaymentId :: ident
  rf_currency :: string

section \<open>Reserving\<close>

definition new_refund ::
  "ident \<Rightarrow> tenant \<Rightarrow> ident \<Rightarrow> string option \<Rightarrow> refund_status \<Rightarrow> string \<Rightarrow> int \<Rightarrow> string option \<Rightarrow> refund" where
  "new_refund i tenant paymentId provider status currency amount reason =
    \<lparr>ref_id = i, ref_tenant = tenant, ref_paymentId = paymentId, ref_provider = provider,
     ref_providerRefundId = None, ref_status = status, ref_currency = currency, ref_amount = amount,
     ref_reason = reason, ref_collectionMethod = None, ref_occurredAt = None,
     ref_externalReference = None, ref_recordedBy = None, ref_createdAt = 0, ref_updatedAt = 0\<rparr>"

definition interference :: "('w \<Rightarrow> 'w) \<Rightarrow> ('w, unit) io" where
  "interference f = (\<lambda>w. (Inr (), f w))"

definition requested_of :: "refund_input \<Rightarrow> int \<Rightarrow> int" where
  "requested_of input remaining = (case ri_amount input of None \<Rightarrow> remaining | Some m \<Rightarrow> cash_amount m)"

definition tryReserve ::
  "('x pay_db_scheme, 'd) refund_deps \<Rightarrow> ('x pay_db_scheme \<Rightarrow> 'x pay_db_scheme) \<Rightarrow> ident \<Rightarrow> ident
    \<Rightarrow> refund_input \<Rightarrow> ('x pay_db_scheme, reservation option) io" where
  "tryReserve d env newId paymentId input = atomically
    (andThen (findPayment paymentId (rd_tenant d)) (\<lambda>found. case found of
       None \<Rightarrow> throw (PayableError ''PAYMENT_NOT_FOUND'')
     | Some fresh \<Rightarrow>
         let remaining = pay_amount fresh - pay_refundedAmount fresh;
             requested = requested_of input remaining;
             refundedAmount = pay_refundedAmount fresh + requested in
         andThen (guardE (\<not> (remaining \<le> 0 \<or> requested > remaining)) (PayableError ''REFUND_EXCEEDS_REMAINING'')) (\<lambda>_.
         andThen (liftResult (payment_to (pay_status fresh)
             (if refundedAmount \<ge> pay_amount fresh then PE_refund else PE_partially_refund))) (\<lambda>updated.
         andThen (interference env) (\<lambda>_.
         andThen (updateRefundedAmountIfUnchanged (pay_id fresh) (pay_refundedAmount fresh) refundedAmount
             updated (rd_tenant d)) (\<lambda>reserved.
         if \<not> reserved then ret None
         else andThen (createRefund (new_refund newId (rd_tenant d) (pay_id fresh) (Some (rd_providerName d))
                  R_pending (pay_currency fresh) requested (ri_reason input))) (\<lambda>refund.
              ret (Some \<lparr>rs_refundId = ref_id refund, rs_requested = requested,
                 rs_beforeRefunded = pay_refundedAmount fresh, rs_beforeStatus = pay_status fresh,
                 rs_afterRefunded = refundedAmount, rs_afterStatus = updated\<rparr>))))))))"

definition MAX_RESERVATION_ATTEMPTS :: nat where "MAX_RESERVATION_ATTEMPTS = 3"

text \<open>The loops count their remaining attempts down; attempt number \<open>n\<close> meets \<open>env n\<close>.\<close>

fun reserveAttempts ::
  "('x pay_db_scheme, 'd) refund_deps \<Rightarrow> (nat \<Rightarrow> 'x pay_db_scheme \<Rightarrow> 'x pay_db_scheme) \<Rightarrow> (nat \<Rightarrow> ident)
    \<Rightarrow> ident \<Rightarrow> refund_input \<Rightarrow> nat \<Rightarrow> ('x pay_db_scheme, reservation) io" where
  "reserveAttempts d env ids paymentId input 0 = throw (PayableError ''REFUND_RESERVATION_CONFLICT'')"
| "reserveAttempts d env ids paymentId input (Suc n) =
    andThen (tryReserve d (env n) (ids n) paymentId input) (\<lambda>r. case r of
        Some reservation \<Rightarrow> ret reservation
      | None \<Rightarrow> reserveAttempts d env ids paymentId input n)"

definition reserve where
  "reserve d env ids paymentId input = reserveAttempts d env ids paymentId input MAX_RESERVATION_ATTEMPTS"

section \<open>Releasing\<close>

definition release_status :: "(ident \<times> refund_status) option \<Rightarrow> refund_patch" where
  "release_status providerResult = (case providerResult of
      None \<Rightarrow> \<lparr>rpa_status = R_failed, rpa_providerRefundId = None\<rparr>
    | Some (i, s) \<Rightarrow> \<lparr>rpa_status = s, rpa_providerRefundId = Some i\<rparr>)"

definition tryRelease ::
  "('x pay_db_scheme \<Rightarrow> 'x pay_db_scheme) \<Rightarrow> tenant \<Rightarrow> ident \<Rightarrow> reservation \<Rightarrow> refund_patch
    \<Rightarrow> ('x pay_db_scheme, bool) io" where
  "tryRelease env tenant paymentId reservation patch = atomically
    (andThen (findPayment paymentId tenant) (\<lambda>found. case found of
       None \<Rightarrow> andThen (updateRefund (rs_refundId reservation) patch) (\<lambda>_. ret True)
     | Some fresh \<Rightarrow>
         let refundedAmount = max 0 (pay_refundedAmount fresh - rs_requested reservation);
             status = (if refundedAmount \<le> 0 then P_succeeded else P_partially_refunded) in
         andThen (interference env) (\<lambda>_.
         andThen (updateRefundedAmountIfUnchanged (pay_id fresh) (pay_refundedAmount fresh) refundedAmount
             status tenant) (\<lambda>reverted.
         if reverted then andThen (updateRefund (rs_refundId reservation) patch) (\<lambda>_. ret True)
         else ret False))))"

definition MAX_RELEASE_ATTEMPTS :: nat where "MAX_RELEASE_ATTEMPTS = 3"

fun releaseAttempts ::
  "(nat \<Rightarrow> 'x pay_db_scheme \<Rightarrow> 'x pay_db_scheme) \<Rightarrow> tenant \<Rightarrow> ident \<Rightarrow> reservation
    \<Rightarrow> (ident \<times> refund_status) option \<Rightarrow> nat \<Rightarrow> ('x pay_db_scheme, unit) io" where
  "releaseAttempts env tenant paymentId reservation providerResult 0 =
    andThen (updateRefund (rs_refundId reservation)
        \<lparr>rpa_status = R_pending, rpa_providerRefundId = map_option fst providerResult\<rparr>)
      (\<lambda>_. throw (PayableError ''REFUND_RELEASE_CONFLICT''))"
| "releaseAttempts env tenant paymentId reservation providerResult (Suc n) =
    andThen (tryRelease (env n) tenant paymentId reservation (release_status providerResult)) (\<lambda>released.
      if released then ret () else releaseAttempts env tenant paymentId reservation providerResult n)"

definition releaseRefundReservation where
  "releaseRefundReservation env tenant paymentId reservation providerResult =
    releaseAttempts env tenant paymentId reservation providerResult MAX_RELEASE_ATTEMPTS"

section \<open>Settling with the provider\<close>

definition assertRefundResponse ::
  "ident \<Rightarrow> cash \<Rightarrow> refund_result \<Rightarrow> ('x pay_db_scheme, unit) io" where
  "assertRefundResponse refundId reserved response =
    (if cash_amount (rr_amount response) = cash_amount reserved
        \<and> cash_code (rr_amount response) = cash_code reserved
     then ret ()
     else andThen (updateRefund refundId \<lparr>rpa_status = R_pending,
              rpa_providerRefundId = Some (rr_providerRefundId response)\<rparr>)
            (\<lambda>_. throw (PayableError ''REFUND_PROVIDER_RESPONSE_MISMATCH'')))"

definition refundEvidence ::
  "('w, 'd) refund_deps \<Rightarrow> refund_input \<Rightarrow> string \<Rightarrow> ident \<Rightarrow> reservation \<Rightarrow> refund_evidence" where
  "refundEvidence d input correlation paymentId r = \<lparr>ev_action = ''payment.refunded'',
     ev_tenant = rd_tenant d, ev_correlation = correlation,
     ev_actorType = Option.bind (ri_authorization input) ac_actorType,
     ev_actorId = Option.bind (ri_authorization input) ac_actorId, ev_resourceId = paymentId,
     ev_before = (rs_beforeRefunded r, rs_beforeStatus r), ev_after = (rs_afterRefunded r, rs_afterStatus r),
     ev_refundId = rs_refundId r, ev_amount = rs_requested r\<rparr>"

text \<open>The provider call inside its \<open>try\<close>, with the release of its \<open>catch\<close>.\<close>

definition callProvider ::
  "('x pay_db_scheme, 'd) refund_deps \<Rightarrow> (nat \<Rightarrow> 'x pay_db_scheme \<Rightarrow> 'x pay_db_scheme) \<Rightarrow> refundable
    \<Rightarrow> refund_input \<Rightarrow> string \<Rightarrow> string \<Rightarrow> reservation \<Rightarrow> ('x pay_db_scheme, refund_result) io" where
  "callProvider d env payment input key correlation reservation = catching
    (andThen (liftResult (cash_of (rd_dinero d) (rs_requested reservation) (rf_currency payment))) (\<lambda>amount.
       rd_refund d \<lparr>pr_providerPaymentId = rf_providerPaymentId payment, pr_amount = amount,
           pr_reason = ri_reason input, pr_reference = ri_reference input\<rparr> correlation key))
    (\<lambda>e. andThen (releaseRefundReservation env (rd_tenant d) (rf_id payment) reservation None) (\<lambda>_. throw e))"

definition finalizeRefund ::
  "('x pay_db_scheme, 'd) refund_deps \<Rightarrow> refundable \<Rightarrow> refund_input \<Rightarrow> string \<Rightarrow> reservation
    \<Rightarrow> refund_result \<Rightarrow> refund_status \<Rightarrow> ('x pay_db_scheme, refund) io" where
  "finalizeRefund d payment input correlation reservation dto status = atomically
    (andThen (updateRefund (rs_refundId reservation)
        \<lparr>rpa_status = status, rpa_providerRefundId = Some (rr_providerRefundId dto)\<rparr>) (\<lambda>finalized.
     andThen (rd_audit d (refundEvidence d input correlation (rf_id payment) reservation)) (\<lambda>_.
     ret finalized)))"

definition settleResponse ::
  "('x pay_db_scheme, 'd) refund_deps \<Rightarrow> (nat \<Rightarrow> 'x pay_db_scheme \<Rightarrow> 'x pay_db_scheme) \<Rightarrow> refundable
    \<Rightarrow> refund_input \<Rightarrow> string \<Rightarrow> reservation \<Rightarrow> refund_result \<Rightarrow> ('x pay_db_scheme, refund) io" where
  "settleResponse d env payment input correlation reservation dto =
    andThen (assertRefundResponse (rs_refundId reservation)
        \<lparr>cash_amount = rs_requested reservation, cash_code = rf_currency payment\<rparr> dto) (\<lambda>_.
    andThen (liftResult (resolveInitialRefundStatus (rr_status dto))) (\<lambda>status.
    if status = R_failed \<or> status = R_canceled
    then andThen (releaseRefundReservation env (rd_tenant d) (rf_id payment) reservation
             (Some (rr_providerRefundId dto, status))) (\<lambda>_.
         andThen (findRefund (rs_refundId reservation) (rd_tenant d)) (\<lambda>found. case found of
             None \<Rightarrow> throw (PayableError ''REFUND_NOT_FOUND'')
           | Some refund \<Rightarrow> ret refund))
    else finalizeRefund d payment input correlation reservation dto status))"

definition settleRefund ::
  "('x pay_db_scheme, 'd) refund_deps \<Rightarrow> (nat \<Rightarrow> 'x pay_db_scheme \<Rightarrow> 'x pay_db_scheme) \<Rightarrow> (nat \<Rightarrow> ident)
    \<Rightarrow> refundable \<Rightarrow> refund_input \<Rightarrow> string \<Rightarrow> string \<Rightarrow> ('x pay_db_scheme, refund) io" where
  "settleRefund d env ids payment input key correlation =
    andThen (reserve d env ids (rf_id payment) input) (\<lambda>reservation.
    andThen (callProvider d env payment input key correlation reservation)
      (settleResponse d env payment input correlation reservation))"

section \<open>The action\<close>

definition refund_execution ::
  "('x pay_db_scheme, 'd) refund_deps \<Rightarrow> string \<Rightarrow> payment \<Rightarrow> int \<Rightarrow> string
    \<Rightarrow> ('x pay_db_scheme, refund) io \<Rightarrow> ('x pay_db_scheme, stored) idem_execution" where
  "refund_execution d key payment requested token run = \<lparr>ex_key = key, ex_storageKey = None,
     ex_legacyStorageKeys = [], ex_scope = ''refund'', ex_operation = ''refund'',
     ex_requestHash = rd_hash d (pay_id payment, requested, pay_currency payment),
     ex_resourceType = Some ''refund'', ex_resourceId = None, ex_tenant = rd_tenant d,
     ex_retryFailed = Some False, ex_reclaimStaleProcessing = None, ex_lockTtl = None,
     ex_reconciliationRequired = False, ex_isFailureOutcomeUncertain = None, ex_token = token,
     ex_run = andThen run (\<lambda>r. ret (Some (S_refund r))),
     ex_revive = Some (\<lambda>response. case response of
         None \<Rightarrow> throw TypeError
       | Some s \<Rightarrow> andThen (findRefund (stored_id s) (rd_tenant d)) (\<lambda>fresh.
           ret (Some (or_else (map_option S_refund fresh) s))))\<rparr>"

definition checkRefund ::
  "('x pay_db_scheme, 'd) refund_deps \<Rightarrow> refund_input \<Rightarrow> ('x pay_db_scheme, payment \<times> ident \<times> int) io" where
  "checkRefund d input =
    andThen (assertAuthorized (rd_authorizationEnabled d) (ri_authorization input)) (\<lambda>_.
    andThen (guardE (case ri_amount input of None \<Rightarrow> True | Some m \<Rightarrow> \<not> cash_amount m \<le> 0)
        (PayableError ''REFUND_AMOUNT_INVALID'')) (\<lambda>_.
    andThen (guardE (rd_hasStorage d) (PayableError ''PAYMENT_STORAGE_REQUIRED'')) (\<lambda>_.
    andThen (findPayment (ri_paymentId input) (rd_tenant d)) (\<lambda>found.
    case Option.bind found (\<lambda>p. map_option (Pair p) (pay_providerPaymentId p)) of
      None \<Rightarrow> throw (PayableError ''PAYMENT_NOT_FOUND'')
    | Some (payment, providerPaymentId) \<Rightarrow>
        if providerPaymentId = [] then throw (PayableError ''PAYMENT_NOT_FOUND'') else
        andThen (guardE (pay_status payment = P_succeeded \<or> pay_status payment = P_partially_refunded)
            (PayableError ''PAYMENT_NOT_REFUNDABLE'')) (\<lambda>_.
        andThen (listRefundsByPayment (pay_id payment) (rd_tenant d)) (\<lambda>existing.
        andThen (guardE (\<forall>r \<in> set existing. ref_status r \<noteq> R_pending)
            (PayableError ''REFUND_RECONCILIATION_REQUIRED'')) (\<lambda>_.
        andThen (guardE (case ri_amount input of None \<Rightarrow> True | Some m \<Rightarrow> cash_code m = pay_currency payment)
            (PayableError ''REFUND_CURRENCY_MISMATCH'')) (\<lambda>_.
        let remaining = pay_amount payment - pay_refundedAmount payment;
            requested = requested_of input remaining in
        andThen (guardE (\<not> (remaining \<le> 0 \<or> requested > remaining)) (PayableError ''REFUND_EXCEEDS_REMAINING'')) (\<lambda>_.
        andThen (guardE (rd_supportsRefunds d) (PayableError ''PROVIDER_CAPABILITY_NOT_SUPPORTED'')) (\<lambda>_.
        ret (payment, providerPaymentId, requested)))))))))))"

text \<open>\<open>handle\<close>; the refund is optional because a stored response could be null.\<close>

definition refundPayment ::
  "('x pay_db_scheme, 'd) refund_deps \<Rightarrow> (nat \<Rightarrow> 'x pay_db_scheme \<Rightarrow> 'x pay_db_scheme) \<Rightarrow> (nat \<Rightarrow> ident)
    \<Rightarrow> string \<Rightarrow> string \<Rightarrow> refund_input \<Rightarrow> ('x pay_db_scheme, stored option) io" where
  "refundPayment d env ids correlation token input =
    andThen (checkRefund d input) (\<lambda>(payment, providerPaymentId, requested).
    andThen (liftResult (forRefund \<lparr>rp_tenant = rd_tenant d, rp_provider = rd_providerName d,
        rp_paymentId = providerPaymentId, rp_amount = JSInt requested, rp_currency = pay_currency payment,
        rp_reference = ri_reference input\<rparr>)) (\<lambda>key.
    let run = settleRefund d env ids \<lparr>rf_id = pay_id payment, rf_providerPaymentId = providerPaymentId,
          rf_currency = pay_currency payment\<rparr> input key correlation in
    case rd_idempotency d of
      None \<Rightarrow> andThen run (\<lambda>r. ret (Some (S_refund r)))
    | Some config \<Rightarrow> execute (knex_idem_store (rd_json d)) idem_now config
        (refund_execution d key payment requested token run)))"

section \<open>The ledger under interference\<close>

text \<open>
  The rely condition: whatever others do keeps the ledger, keeps the refunds with an id of
  this call as they are, and neither deletes a payment nor changes its tenant or amount.
\<close>

definition own :: "ident set \<Rightarrow> 'x pay_db_scheme \<Rightarrow> refund list" where
  "own S w = filter (\<lambda>r. ref_id r \<in> S) (refunds w)"

definition rely :: "ident set \<Rightarrow> 'x pay_db_scheme \<Rightarrow> 'x pay_db_scheme \<Rightarrow> bool" where
  "rely S w w' \<longleftrightarrow> (ledger_ok w \<longrightarrow> ledger_ok w') \<and> own S w' = own S w
    \<and> (\<forall>p \<in> set (payments w). \<exists>p' \<in> set (payments w'). pay_id p' = pay_id p
        \<and> pay_tenant p' = pay_tenant p \<and> pay_amount p' = pay_amount p)"

definition unreserved_state :: "ident set \<Rightarrow> 'x pay_db_scheme \<Rightarrow> bool" where
  "unreserved_state S w \<longleftrightarrow> ledger_ok w \<and> own S w = []"

definition held :: "ident set \<Rightarrow> tenant \<Rightarrow> ident \<Rightarrow> reservation \<Rightarrow> 'x pay_db_scheme \<Rightarrow> bool" where
  "held S t i rs w \<longleftrightarrow> ledger_ok w
    \<and> (\<exists>r. own S w = [r] \<and> ref_id r = rs_refundId rs \<and> ref_status r = R_pending
        \<and> ref_paymentId r = i \<and> ref_amount r = rs_requested rs)
    \<and> (\<exists>p \<in> set (payments w). pay_id p = i \<and> tenantMatches t (pay_tenant p))"

lemma rely_stable:
  "rely S w w' \<Longrightarrow> ledger_ok w \<Longrightarrow> ledger_ok w'"
  "rely S w w' \<Longrightarrow> unreserved_state S w \<Longrightarrow> unreserved_state S w'"
  "rely S w w' \<Longrightarrow> held S t i rs w \<Longrightarrow> held S t i rs w'"
  unfolding rely_def unreserved_state_def held_def by (auto, metis)

lemma interference_andThen: "andThen (interference f) g w = g () (f w)"
  by (simp add: andThen_def interference_def)

text \<open>Adding a live refund and its amount to the payment.\<close>

lemma ledger_reserve:
  assumes ok: "ledger_ok w" and p: "p \<in> set (payments w)" and q: "0 < q" "pay_refundedAmount p + q \<le> pay_amount p"
    and s: "s = (if pay_refundedAmount p + q \<ge> pay_amount p then P_refunded else P_partially_refunded)"
    and r: "ref_paymentId r = pay_id p" "ref_amount r = q" "live r" "ref_id r \<notin> ref_id ` set (refunds w)"
    and w': "payments w' = map (\<lambda>x. if x = p
        then p\<lparr>pay_refundedAmount := pay_refundedAmount p + q, pay_status := s, pay_updatedAt := now\<rparr> else x) (payments w)"
      "refunds w' = refunds w @ [r]"
  shows "ledger_ok w'"
proof (rule ledger_change [OF ok p w'(1)])
  show "distinct (map ref_id (refunds w'))" using ledger_okD(2) [OF ok] r(4) w'(2) by auto
  show "\<forall>r \<in> set (refunds w'). 0 < ref_amount r" using ledger_okD(3) [OF ok] r(2) q(1) w'(2) by auto
qed (use ledger_okD(4-6) [OF ok p] p q r s w'(2) in \<open>auto simp: status_matches_def\<close>)

text \<open>Taking a live refund's amount off the payment as it fails or is canceled.\<close>

lemma ledger_release:
  assumes ok: "ledger_ok w" and p: "p \<in> set (payments w)"
    and r: "r \<in> set (refunds w)" "ref_paymentId r = pay_id p" "live r"
    and u: "\<not> live (patchRefund u now r)"
    and s: "s = (if pay_refundedAmount p - ref_amount r \<le> 0 then P_succeeded else P_partially_refunded)"
    and w': "payments w' = map (\<lambda>x. if x = p
        then p\<lparr>pay_refundedAmount := pay_refundedAmount p - ref_amount r, pay_status := s, pay_updatedAt := now\<rparr> else x) (payments w)"
      "refunds w' = map (\<lambda>x. if ref_id x = ref_id r then patchRefund u now x else x) (refunds w)"
  shows "ledger_ok w'"
proof -
  have total: "refunded_total i (refunds w') = refunded_total i (refunds w) - (if i = pay_id p then ref_amount r else 0)" for i
    using refunded_total_update [OF ledger_okD(2) [OF ok] r(1), of "patchRefund u now" i] r u w'(2) by auto
  have le: "ref_amount r \<le> pay_refundedAmount p"
    using refunded_total_member [OF ledger_okD(3) [OF ok] r(1,3)] ledger_okD(4) [OF ok p] r(2) by simp
  have pos: "0 < ref_amount r" using ledger_okD(3) [OF ok] r(1) by simp
  have ids: "map ref_id (refunds w') = map ref_id (refunds w)" using w'(2) by simp
  show ?thesis
  proof (rule ledger_change [OF ok p w'(1)])
    show "distinct (map ref_id (refunds w'))" using ledger_okD(2) [OF ok] ids by simp
    show "\<forall>r \<in> set (refunds w'). 0 < ref_amount r" using ledger_okD(3) [OF ok] w'(2) by auto
  qed (use ledger_okD(4-6) [OF ok p] p pos le s total in \<open>auto simp: status_matches_def\<close>)
qed

text \<open>A refund that stays pending or becomes succeeded leaves every total alone.\<close>

lemma ledger_still_live:
  assumes ok: "ledger_ok w" and r: "r \<in> set (refunds w)" "live r" and u: "live (patchRefund u now r)"
  shows "ledger_ok (w\<lparr>refunds := map (\<lambda>x. if ref_id x = ref_id r then patchRefund u now x else x) (refunds w)\<rparr>)"
    (is "ledger_ok ?w")
proof -
  have "refunded_total i (refunds ?w) = refunded_total i (refunds w)" for i
    using refunded_total_update [OF ledger_okD(2) [OF ok] r(1), of "patchRefund u now" i] r u by auto
  moreover have "map ref_id (refunds ?w) = map ref_id (refunds w)" by simp
  ultimately show ?thesis using ok by (auto simp: ledger_ok_def simp del: map_map)
qed

lemma own_member: "own S w = [r] \<Longrightarrow> r \<in> set (refunds w) \<and> ref_id r \<in> S"
  by (auto simp: own_def filter_eq_Cons_iff)

lemma heldE:
  assumes "held S t i rs w"
  obtains r p where "ledger_ok w" "own S w = [r]" "r \<in> set (refunds w)" "ref_id r = rs_refundId rs" "rs_refundId rs \<in> S"
    "live r" "ref_status r = R_pending" "ref_paymentId r = i" "ref_amount r = rs_requested rs" "p \<in> set (payments w)" "pay_id p = i"
    "tenantMatches t (pay_tenant p)"
  using assms by (fastforce simp: held_def live_def dest: own_member)

lemma payment_refund_target:
  "payment_to x (if b then PE_refund else PE_partially_refund) = Inr s \<Longrightarrow>
    s = (if b then P_refunded else P_partially_refunded)"
  by (cases x; cases b; simp add: machine_defs payment_map_def)

definition positive_request :: "refund_input \<Rightarrow> bool" where
  "positive_request input \<longleftrightarrow> (case ri_amount input of None \<Rightarrow> True | Some m \<Rightarrow> 0 < cash_amount m)"

lemma rely_payment:
  assumes "rely S w w'" and "p \<in> set (payments w)"
  obtains p' where "p' \<in> set (payments w')" "pay_id p' = pay_id p" "pay_tenant p' = pay_tenant p"
    "pay_amount p' = pay_amount p"
  using assms unfolding rely_def by blast

lemma table_andThen:
  "andThen (updateRefundedAmountIfUnchanged i e r s t) f w = (case updateRefundedAmountIfUnchanged i e r s t w of
      (Inl x, w') \<Rightarrow> (Inl x, w') | (Inr b, w') \<Rightarrow> f b w')"
  "andThen (findPayment i t) g w = g (find (scopedPayment i t) (payments w)) w"
  "andThen (createRefund x) h w = h (x\<lparr>ref_createdAt := idem_now w, ref_updatedAt := idem_now w\<rparr>)
     (w\<lparr>refunds := refunds w @ [x\<lparr>ref_createdAt := idem_now w, ref_updatedAt := idem_now w\<rparr>]\<rparr>)"
  "andThen (interference env) k w = k () (env w)"
  by (simp_all add: andThen_def findPayment_def createRefund_def interference_def Let_def)

lemma tryReserve_step:
  assumes st: "unreserved_state S w" and i: "newId \<in> S" and env: "\<And>v. rely S v (env v)"
    and pos: "positive_request input" and run: "tryReserve d env newId i input w = (r, w')"
  shows "case r of Inr (Some rs) \<Rightarrow> held S (rd_tenant d) i rs w' | _ \<Rightarrow> unreserved_state S w'"
proof (cases "find (scopedPayment i (rd_tenant d)) (payments w)")
  case None
  with run st show ?thesis
    by (auto simp: tryReserve_def atomically_def findPayment_def)
next
  case (Some p)
  let ?rem = "pay_amount p - pay_refundedAmount p"
  let ?q = "requested_of input ?rem"
  let ?new = "pay_refundedAmount p + ?q"
  have ok: "ledger_ok w" using st by (simp add: unreserved_state_def)
  note p = find_payment_unique(1-3) [OF ok Some]
  note defs = tryReserve_def atomically_def table_andThen Some Let_def andThen_guardE andThen_liftResult
  consider (refused) "?rem \<le> 0 \<or> ?q > ?rem"
    | (illegal) e where "\<not> (?rem \<le> 0 \<or> ?q > ?rem)"
        "payment_to (pay_status p) (if ?new \<ge> pay_amount p then PE_refund else PE_partially_refund) = Inl e"
    | (go) s where "\<not> (?rem \<le> 0 \<or> ?q > ?rem)"
        "payment_to (pay_status p) (if ?new \<ge> pay_amount p then PE_refund else PE_partially_refund) = Inr s"
    by (cases "payment_to (pay_status p) (if ?new \<ge> pay_amount p then PE_refund else PE_partially_refund)") blast+
  then show ?thesis
  proof cases
    case refused
    then have "(r, w') = (Inl (PayableError ''REFUND_EXCEEDS_REMAINING''), w)"
      unfolding run [symmetric] by (cases "?rem \<le> 0") (simp_all add: defs)
    with st show ?thesis by simp
  next
    case illegal
    then have "(r, w') = (Inl e, w)" unfolding run [symmetric] by (simp add: defs)
    with st show ?thesis by simp
  next
    case go
    define w1 where "w1 = env w"
    have st1: "unreserved_state S w1" and ok1: "ledger_ok w1"
      using rely_stable(1,2) [OF env] st ok by (simp_all add: w1_def)
    obtain p1 where p1: "p1 \<in> set (payments w1)" "pay_id p1 = i" "tenantMatches (rd_tenant d) (pay_tenant p1)"
        "pay_amount p1 = pay_amount p"
      using rely_payment [OF env p(1)] p(2,3) unfolding w1_def by metis
    note upd = updateRefundedAmount_eq [OF ok1 p1(1-3)]
    show ?thesis
    proof (cases "pay_refundedAmount p1 = pay_refundedAmount p")
      case False
      then have "(r, w') = (Inr None, w1)" unfolding run [symmetric] using go p(2)
        by (simp add: defs w1_def [symmetric] upd)
      with st1 show ?thesis by simp
    next
      case True
      define row where "row = (new_refund newId (rd_tenant d) (pay_id p) (Some (rd_providerName d)) R_pending
          (pay_currency p) ?q (ri_reason input))\<lparr>ref_createdAt := idem_now w1, ref_updatedAt := idem_now w1\<rparr>"
      define w2 where "w2 = w1\<lparr>payments := map (\<lambda>x. if x = p1 then p1\<lparr>pay_refundedAmount := ?new, pay_status := s,
          pay_updatedAt := idem_now w1\<rparr> else x) (payments w1), refunds := refunds w1 @ [row]\<rparr>"
      have q: "0 < ?q" using pos go(1) by (auto simp: positive_request_def requested_of_def split: option.splits)
      have res: "r = Inr (Some \<lparr>rs_refundId = newId, rs_requested = ?q, rs_beforeRefunded = pay_refundedAmount p,
            rs_beforeStatus = pay_status p, rs_afterRefunded = ?new, rs_afterStatus = s\<rparr>)" "w' = w2"
        using run go True p(2)
        by (auto simp: defs w1_def [symmetric] upd w2_def row_def new_refund_def)
      have row: "ref_id row = newId" "ref_paymentId row = i" "ref_amount row = ?q" "ref_status row = R_pending"
        using p(2) by (simp_all add: row_def new_refund_def)
      have fresh: "newId \<notin> ref_id ` set (refunds w1)"
        using st1 i by (auto simp: unreserved_state_def own_def filter_empty_conv)
      have "ledger_ok w2"
        using ledger_reserve [OF ok1 p1(1) q, of s row w2 "idem_now w1"] go(1) p1 True row fresh
          payment_refund_target [OF go(2)]
        by (simp add: w2_def live_def)
      moreover have "own S w2 = [row]" using st1 i row(1) by (simp add: w2_def own_def unreserved_state_def)
      moreover have "\<exists>x \<in> set (payments w2). pay_id x = i \<and> tenantMatches (rd_tenant d) (pay_tenant x)"
        using p1 by (auto simp: w2_def intro!: bexI [of _ p1])
      ultimately show ?thesis using row res by (simp add: held_def)
    qed
  qed
qed

lemma held_update:
  assumes h: "held S t i rs w" and st: "rpa_status u \<in> {R_pending, R_succeeded}"
  shows "\<exists>r w'. updateRefund (rs_refundId rs) u w = (Inr r, w') \<and> ledger_ok w'"
proof -
  obtain r where r: "ledger_ok w" "r \<in> set (refunds w)" "ref_id r = rs_refundId rs" "live r"
    using h by (rule heldE) blast
  with ledger_still_live [OF r(1,2,4), of u "idem_now w"] st updateRefund_eq [OF ledger_okD(2) [OF r(1)] r(2,3)]
  show ?thesis by (simp add: live_def)
qed

lemma tryRelease_step:
  assumes h: "held S t i rs w" and env: "\<And>v. rely S v (env v)"
    and u: "rpa_status u \<in> {R_failed, R_canceled}" and run: "tryRelease env t i rs u w = (r, w')"
  shows "case r of Inr True \<Rightarrow> ledger_ok w' | _ \<Rightarrow> held S t i rs w'"
proof -
  obtain p where p: "ledger_ok w" "p \<in> set (payments w)" "pay_id p = i" "tenantMatches t (pay_tenant p)"
    using h by (rule heldE) blast
  define w1 where "w1 = env w"
  have h1: "held S t i rs w1" using rely_stable(3) [OF env h] by (simp add: w1_def)
  then have ok1: "ledger_ok w1" by (simp add: held_def)
  obtain row p1 where row: "row \<in> set (refunds w1)" "ref_id row = rs_refundId rs" "live row"
      "ref_paymentId row = i" "ref_amount row = rs_requested rs"
    and p1: "p1 \<in> set (payments w1)" "pay_id p1 = i" "tenantMatches t (pay_tenant p1)"
    using h1 by (rule heldE) blast
  define new where "new = max 0 (pay_refundedAmount p - rs_requested rs)"
  define s where "s = (if new \<le> 0 then P_succeeded else P_partially_refunded)"
  let ?w2 = "w1\<lparr>payments := map (\<lambda>x. if x = p1 then p1\<lparr>pay_refundedAmount := new, pay_status := s,
        pay_updatedAt := idem_now w1\<rparr> else x) (payments w1)\<rparr>"
  have found: "find (scopedPayment i t) (payments w) = Some p"
    using find_payment_found [OF p] by (simp add: findPayment_def)
  note upd = updateRefundedAmount_eq [OF ok1 p1, of "pay_refundedAmount p" new s]
  have step: "tryRelease env t i rs u w =
    (if pay_refundedAmount p1 = pay_refundedAmount p
     then atomically (\<lambda>_. andThen (updateRefund (rs_refundId rs) u) (\<lambda>_. ret True) ?w2) w else (Inr False, w1))"
    using p(3) by (simp add: tryRelease_def table_andThen found Let_def w1_def [symmetric]
        new_def [symmetric] s_def [symmetric] upd atomically_def)
  show ?thesis
  proof (cases "pay_refundedAmount p1 = pay_refundedAmount p")
    case False
    then have "(r, w') = (Inr False, w1)" using run step by simp
    with h1 show ?thesis by simp
  next
    case True
    have le: "rs_requested rs \<le> pay_refundedAmount p1"
      using refunded_total_member [OF ledger_okD(3) [OF ok1] row(1,3)] ledger_okD(4) [OF ok1 p1(1)] row p1(2) by simp
    have upd2: "updateRefund (rs_refundId rs) u ?w2 = (Inr (patchRefund u (idem_now w1) row),
        ?w2\<lparr>refunds := map (\<lambda>x. if ref_id x = rs_refundId rs then patchRefund u (idem_now w1) x else x) (refunds w1)\<rparr>)"
      using updateRefund_eq [of ?w2 row "rs_refundId rs" u] ledger_okD(2) [OF ok1] row(1,2) by simp
    let ?w3 = "?w2\<lparr>refunds := map (\<lambda>x. if ref_id x = rs_refundId rs then patchRefund u (idem_now w1) x else x) (refunds w1)\<rparr>"
    have "(r, w') = (Inr True, ?w3)"
      unfolding run [symmetric] step using True
      by (simp add: atomically_def andThen_def upd2)
    moreover have "ledger_ok ?w3"
      using ledger_release [OF ok1 p1(1) row(1), of u "idem_now w1" s ?w3] row p1(2) True u le new_def s_def
      by (auto simp: live_def)
    ultimately show ?thesis by simp
  qed
qed

lemma release_leads:
  assumes env: "\<And>n v. rely S v (env n v)" and s: "\<And>x s. res = Some (x, s) \<Longrightarrow> s \<in> {R_failed, R_canceled}"
  shows "leads (held S t i rs) (releaseRefundReservation env t i rs res) ledger_ok"
proof -
  have "leads (held S t i rs) (releaseAttempts env t i rs res n) ledger_ok" for n
  proof (induction n)
    case 0
    show ?case
    proof (rule leadsI)
      fix w r w'
      assume "held S t i rs w" and run: "releaseAttempts env t i rs res 0 w = (r, w')"
      from held_update [OF this(1), of "\<lparr>rpa_status = R_pending, rpa_providerRefundId = map_option fst res\<rparr>"] run
      show "ledger_ok w'" by (auto simp: andThen_def)
    qed
  next
    case (Suc n)
    have u: "rpa_status (release_status res) \<in> {R_failed, R_canceled}"
      using s by (auto simp: release_status_def split: option.split)
    show ?case
    proof (rule leadsI)
      fix w r w'
      assume h: "held S t i rs w" and run: "releaseAttempts env t i rs res (Suc n) w = (r, w')"
      obtain o1 w1 where step: "tryRelease (env n) t i rs (release_status res) w = (o1, w1)"
        by (cases "tryRelease (env n) t i rs (release_status res) w")
      from tryRelease_step [OF h env u this] run step leadsD [OF Suc, of w1 r w'] show "ledger_ok w'"
        by (auto simp: andThen_def held_def split: sum.splits bool.splits if_splits)
    qed
  qed
  then show ?thesis unfolding releaseRefundReservation_def .
qed

lemma held_update_leads:
  assumes "rpa_status u \<in> {R_pending, R_succeeded}"
  shows "leads (held S t i rs) (updateRefund (rs_refundId rs) u) ledger_ok"
proof (rule leadsI)
  fix w r w'
  assume "held S t i rs w" and "updateRefund (rs_refundId rs) u w = (r, w')"
  with held_update [OF this(1) assms] show "ledger_ok w'" by auto
qed

lemma reserve_triple:
  assumes env: "\<And>n v. rely S v (env n v)" and ids: "range ids \<subseteq> S" and pos: "positive_request input"
  shows "triple (unreserved_state S) (reserve d env ids i input) (held S (rd_tenant d) i) (\<lambda>_. ledger_ok)"
proof -
  have "triple (unreserved_state S) (reserveAttempts d env ids i input n) (held S (rd_tenant d) i) (\<lambda>_. ledger_ok)" for n
  proof (induction n)
    case 0
    show ?case by (rule tripleI) (auto simp: unreserved_state_def)
  next
    case (Suc n)
    have id: "ids n \<in> S" using ids by blast
    show ?case
    proof (rule tripleI)
      fix w rs w'
      assume st: "unreserved_state S w" and run: "reserveAttempts d env ids i input (Suc n) w = (Inr rs, w')"
      then obtain x w1 where step: "tryReserve d (env n) (ids n) i input w = (Inr x, w1)"
          "(case x of Some reservation \<Rightarrow> ret reservation | None \<Rightarrow> reserveAttempts d env ids i input n) w1 = (Inr rs, w')"
        by (auto simp: andThen_Inr_iff)
      from tryReserve_step [OF st id env pos step(1)] step(2) tripleD_ok [OF Suc]
      show "held S (rd_tenant d) i rs w'" by (auto split: option.splits)
    next
      fix w e w'
      assume st: "unreserved_state S w" and run: "reserveAttempts d env ids i input (Suc n) w = (Inl e, w')"
      obtain r w1 where step: "tryReserve d (env n) (ids n) i input w = (r, w1)"
        by (cases "tryReserve d (env n) (ids n) i input w")
      from tryReserve_step [OF st id env pos this] run step tripleD_err [OF Suc]
      show "ledger_ok w'" by (auto simp: andThen_def unreserved_state_def split: sum.splits option.splits)
    qed
  qed
  then show ?thesis unfolding reserve_def .
qed

lemma callProvider_triple:
  assumes env: "\<And>n v. rely S v (env n v)" and prov: "\<And>a c k v. rely S v (snd (rd_refund d a c k v))"
  shows "triple (held S (rd_tenant d) (rf_id p) rs) (callProvider d env p input key c rs)
    (\<lambda>_. held S (rd_tenant d) (rf_id p) rs) (\<lambda>_. ledger_ok)"
proof -
  let ?H = "held S (rd_tenant d) (rf_id p) rs"
  have "triple ?H (andThen (liftResult (cash_of L q u)) (\<lambda>amount. rd_refund d (f amount) c key)) (\<lambda>_. ?H) (\<lambda>_. ?H)" for L q u f
    unfolding triple_leads leads_preserves
    by (intro preserves_rules preservesI) (rule rely_stable(3) [OF prov])
  moreover have "triple ?H (andThen (releaseRefundReservation env (rd_tenant d) (rf_id p) rs None) (\<lambda>_. throw e)) (\<lambda>_. ?H) (\<lambda>_. ledger_ok)" for e
    by (rule triple_andThen [where R = "\<lambda>_. ledger_ok"])
      (auto simp: triple_leads intro!: tripleI release_leads [OF env])
  ultimately show ?thesis unfolding callProvider_def by (rule triple_catching)
qed

lemma finalize_triple:
  assumes s: "st \<in> {R_pending, R_succeeded}" and audit: "\<And>e v. rely S v (snd (rd_audit d e v))"
  shows "leads (held S t i rs) (finalizeRefund d p input c rs dto st) ledger_ok"
  unfolding triple_leads [symmetric] finalizeRefund_def
proof (rule triple_atomically [where R = "\<lambda>_ _. True"])
  let ?u = "\<lparr>rpa_status = st, rpa_providerRefundId = Some (rr_providerRefundId dto)\<rparr>"
  have a: "leads ledger_ok (andThen (rd_audit d e) (\<lambda>_. ret x)) ledger_ok" for e and x :: refund
    unfolding leads_preserves by (intro preserves_rules preservesI) (rule rely_stable(1) [OF audit])
  have u: "leads (held S t i rs) (updateRefund (rs_refundId rs) ?u) ledger_ok"
    using s by (intro held_update_leads) simp
  have "leads (held S t i rs) (andThen (updateRefund (rs_refundId rs) ?u) (\<lambda>finalized.
      andThen (rd_audit d (refundEvidence d input c (rf_id p) rs)) (\<lambda>_. ret finalized))) ledger_ok"
    by (rule leads_andThen [OF u a])
  then show "triple (held S t i rs) (andThen (updateRefund (rs_refundId rs) ?u) (\<lambda>finalized.
      andThen (rd_audit d (refundEvidence d input c (rf_id p) rs)) (\<lambda>_. ret finalized))) (\<lambda>_. ledger_ok) (\<lambda>_ _. True)"
    unfolding triple_leads [symmetric] by (rule triple_weaken) simp_all
qed (auto simp: held_def)

lemma resolved_status:
  "resolveInitialRefundStatus s = Inr st \<Longrightarrow> \<not> (st = R_failed \<or> st = R_canceled) \<Longrightarrow> st \<in> {R_pending, R_succeeded}"
  by (cases st) auto

lemma settleResponse_leads:
  assumes env: "\<And>n v. rely S v (env n v)" and audit: "\<And>e v. rely S v (snd (rd_audit d e v))"
  shows "leads (held S (rd_tenant d) (rf_id p) rs) (settleResponse d env p input c rs dto) ledger_ok"
proof -
  let ?H = "held S (rd_tenant d) (rf_id p) rs"
  have "leads ?H (updateRefund (rs_refundId rs) \<lparr>rpa_status = R_pending, rpa_providerRefundId = x\<rparr>) ledger_ok" for x
    by (rule held_update_leads) simp
  then have "triple ?H (andThen (updateRefund (rs_refundId rs) \<lparr>rpa_status = R_pending, rpa_providerRefundId = x\<rparr>)
      (\<lambda>_. throw e)) (\<lambda>_. ?H) (\<lambda>_. ledger_ok)" for x e
    by (intro triple_andThen [where R = "\<lambda>_. ledger_ok"]) (auto simp: triple_leads intro!: tripleI)
  then have check: "triple ?H (assertRefundResponse (rs_refundId rs) m dto) (\<lambda>_. ?H) (\<lambda>_. ledger_ok)" for m
    unfolding assertRefundResponse_def by (auto intro: tripleI)
  have fail: "leads ?H (andThen (releaseRefundReservation env (rd_tenant d) (rf_id p) rs (Some (x, st))) (\<lambda>_.
      andThen (findRefund (rs_refundId rs) (rd_tenant d)) (\<lambda>found. case found of
          None \<Rightarrow> throw (PayableError ''REFUND_NOT_FOUND'') | Some refund \<Rightarrow> ret refund))) ledger_ok"
    if "st = R_failed \<or> st = R_canceled" for x st
    unfolding findRefund_def
    by (rule leads_andThen [OF release_leads [OF env]]) (use that in \<open>auto simp: leads_preserves intro!: preserves_rules\<close>)
  show ?thesis
    unfolding settleResponse_def triple_leads [symmetric]
  proof (rule triple_andThen [OF check], rule triple_andThen [where R = "\<lambda>st w. ?H w \<and> resolveInitialRefundStatus (rr_status dto) = Inr st"])
    show "triple ?H (liftResult (resolveInitialRefundStatus (rr_status dto)))
        (\<lambda>st w. ?H w \<and> resolveInitialRefundStatus (rr_status dto) = Inr st) (\<lambda>_. ledger_ok)"
      by (rule tripleI) (auto simp: held_def)
  next
    fix st
    let ?P = "\<lambda>w. ?H w \<and> resolveInitialRefundStatus (rr_status dto) = Inr st"
    show "triple ?P (if st = R_failed \<or> st = R_canceled
        then andThen (releaseRefundReservation env (rd_tenant d) (rf_id p) rs (Some (rr_providerRefundId dto, st))) (\<lambda>_.
          andThen (findRefund (rs_refundId rs) (rd_tenant d)) (\<lambda>found. case found of
            None \<Rightarrow> throw (PayableError ''REFUND_NOT_FOUND'') | Some refund \<Rightarrow> ret refund))
        else finalizeRefund d p input c rs dto st) (\<lambda>_. ledger_ok) (\<lambda>_. ledger_ok)"
    proof (cases "st = R_failed \<or> st = R_canceled")
      case True
      with fail [of st] show ?thesis by (auto simp: triple_leads leads_def)
    next
      case False
      then have "st \<in> {R_pending, R_succeeded}" by (cases st) auto
      from finalize_triple [where d = d, OF this audit] False show ?thesis by (auto simp: triple_leads leads_def)
    qed
  qed
qed

lemma settleRefund_leads:
  assumes env: "\<And>n v. rely S v (env n v)" and ids: "range ids \<subseteq> S" and pos: "positive_request input"
    and prov: "\<And>a c k v. rely S v (snd (rd_refund d a c k v))" and audit: "\<And>e v. rely S v (snd (rd_audit d e v))"
  shows "leads (unreserved_state S) (settleRefund d env ids p input key c) ledger_ok"
  unfolding settleRefund_def triple_leads [symmetric]
  by (rule triple_andThen [OF reserve_triple [OF env ids pos]], rule triple_andThen [OF callProvider_triple [OF env prov]])
    (simp add: triple_leads settleResponse_leads [OF env audit])

lemma blind_ledger:
  "row_blind (ledger_ok :: 'x pay_db_scheme \<Rightarrow> bool)" "row_blind (unreserved_state S :: 'x pay_db_scheme \<Rightarrow> bool)"
proof -
  have "ledger_ok (put_row k t r w) = ledger_ok w" for k t r and w :: "'x pay_db_scheme"
    by (rule ledger_ok_cong) (simp_all add: put_row_def)
  then show "row_blind (ledger_ok :: 'x pay_db_scheme \<Rightarrow> bool)" "row_blind (unreserved_state S :: 'x pay_db_scheme \<Rightarrow> bool)"
    by (simp_all add: row_blind_def unreserved_state_def own_def put_row_def)
qed

lemma rely_refl [simp]: "rely S w w"
  by (auto simp: rely_def)

lemma checkRefund_state:
  assumes "checkRefund d input w = (r, w')"
  shows "w' = w" and "\<And>x. r = Inr x \<Longrightarrow> positive_request input"
proof -
  have "preserves (\<lambda>u. u = w) (checkRefund d input)"
    unfolding checkRefund_def Let_def listRefundsByPayment_def assertAuthorized_def findPayment_def
    by (intro preserves_rules)
  then show "w' = w" using assms by (auto dest: preservesE)
  show "positive_request input" if "r = Inr x" for x
    using assms that
    by (auto simp: checkRefund_def andThen_Inr_iff guardE_def positive_request_def split: option.splits if_splits)
qed

text \<open>
  C5. The refund action keeps the ledger. Whatever the provider answers (an error, a
  mismatching amount, an unknown status), whatever fails on the way, and whatever other
  clients and the provider do to the tables between the steps, as long as they keep the
  ledger and the refunds this call creates themselves: every payment's refunded amount is
  afterwards the sum of its pending and succeeded refunds, not more than the payment, and
  agrees with its status.
\<close>

theorem refundPayment_keeps_ledger:
  assumes "ledger_ok w" and "\<And>n. ids n \<notin> ref_id ` set (refunds w)"
    and env: "\<And>n v. rely (range ids) v (env n v)"
    and prov: "\<And>a c k v. rely (range ids) v (snd (rd_refund d a c k v))"
    and audit: "\<And>e v. rely (range ids) v (snd (rd_audit d e v))"
  shows "ledger_ok (snd (refundPayment d env ids correlation token input w))"
proof -
  let ?S = "range ids"
  have st: "unreserved_state ?S w" using assms(1,2) by (force simp: unreserved_state_def own_def filter_empty_conv)
  have run: "leads (unreserved_state ?S) (andThen (settleRefund d env ids q input key c) (\<lambda>r. ret (Some (S_refund r)))) ledger_ok"
    if "positive_request input" for q key c
    by (rule leads_andThen [OF settleRefund_leads [OF env _ that prov audit]]) (auto simp: leads_preserves)
  have exec: "leads (unreserved_state ?S) (execute (knex_idem_store (rd_json d)) idem_now cfg
      (refund_execution d key p n token (settleRefund d env ids q input key c))) ledger_ok"
    if "positive_request input" for cfg key p n q c
  proof (rule execute_leads [OF blind_ledger(2,1)])
    show "preserves ledger_ok (f v)"
      if "ex_revive (refund_execution d key p n token (settleRefund d env ids q input key c)) = Some f" for f v
      using that by (auto simp: refund_execution_def findRefund_def intro!: preserves_rules split: option.split)
  qed (use run [OF that] in \<open>simp_all add: refund_execution_def unreserved_state_def\<close>)
  obtain r w1 where check: "checkRefund d input w = (r, w1)" by (cases "checkRefund d input w")
  note checked = checkRefund_state [OF check]
  show ?thesis
  proof (cases r)
    case (Inl e)
    with check checked(1) assms(1) show ?thesis by (simp add: refundPayment_def andThen_def)
  next
    case (Inr x)
    obtain p i n where x: "x = (p, i, n)" by (cases x)
    have pos: "positive_request input" using checked(2) Inr by blast
    show ?thesis
      using check checked(1) Inr x assms(1) run [OF pos, unfolded leads_def, rule_format, OF st]
        exec [OF pos, unfolded leads_def, rule_format, OF st]
      by (auto simp: refundPayment_def andThen_Inr andThen_liftResult Let_def split: sum.split option.split)
  qed
qed

section \<open>Examples\<close>

definition example_payment :: "payment_status \<Rightarrow> int \<Rightarrow> payment" where
  "example_payment st refunded = \<lparr>pay_id = ''p1'', pay_tenant = Some ''t'', pay_customerId = Some ''c1'',
     pay_provider = Some ''stripe'', pay_providerPaymentId = Some ''pi_1'', pay_status = st,
     pay_currency = ''USD'', pay_amount = 100, pay_refundedAmount = refunded, pay_capturedAmount = 0,
     pay_authorizedAt = None, pay_authorizationExpiresAt = None, pay_reference = None, pay_description = None,
     pay_collectionMethod = None, pay_occurredAt = None, pay_externalReference = None, pay_recordedBy = None,
     pay_createdAt = 0, pay_updatedAt = 0\<rparr>"

definition example_pay_db :: "payment list \<Rightarrow> refund list \<Rightarrow> pay_db" where
  "example_pay_db ps rs = \<lparr>idem_rows = Map.empty, idem_now = 5, payments = ps, refunds = rs\<rparr>"

definition example_deps ::
  "(provider_refund \<Rightarrow> error + refund_result) \<Rightarrow> (pay_db, int \<times> nat \<times> string) refund_deps" where
  "example_deps answer = \<lparr>rd_authorizationEnabled = False, rd_tenant = Some ''t'', rd_providerName = ''stripe'',
     rd_hasStorage = True, rd_supportsRefunds = True, rd_idempotency = None, rd_hash = (\<lambda>_. []), rd_json = id,
     rd_dinero = example_dinero, rd_refund = (\<lambda>a c k. liftResult (answer a)), rd_audit = (\<lambda>_. ret ())\<rparr>"

definition example_refund_input :: "int \<Rightarrow> refund_input" where
  "example_refund_input n = \<lparr>ri_paymentId = ''p1'', ri_amount = Some \<lparr>cash_amount = n, cash_code = ''USD''\<rparr>,
     ri_reason = None, ri_reference = None, ri_authorization = None\<rparr>"

definition accepted :: "provider_refund \<Rightarrow> error + refund_result" where
  "accepted a = Inr \<lparr>rr_providerRefundId = ''re_1'', rr_status = ''succeeded'', rr_amount = pr_amount a\<rparr>"

lemma example_ledger: "ledger_ok (example_pay_db [example_payment P_succeeded 0] [])"
  by (simp add: ledger_ok_def example_pay_db_def example_payment_def status_matches_def)

theorem refundPayment_keeps_ledger_witness:
  "let w = snd (refundPayment (example_deps accepted) (\<lambda>_ v. v) (\<lambda>_. ''r1'') ''c'' ''k'' (example_refund_input 30)
        (example_pay_db [example_payment P_succeeded 0] []))
   in ledger_ok w \<and> map pay_refundedAmount (payments w) = [30] \<and> map pay_status (payments w) = [P_partially_refunded]
    \<and> map ref_status (refunds w) = [R_succeeded]"
proof -
  let ?w = "snd (refundPayment (example_deps accepted) (\<lambda>_ v. v) (\<lambda>_. ''r1'') ''c'' ''k'' (example_refund_input 30)
        (example_pay_db [example_payment P_succeeded 0] []))"
  have "ledger_ok ?w"
    by (rule refundPayment_keeps_ledger [OF example_ledger])
      (simp_all add: example_pay_db_def example_deps_def)
  moreover have "map pay_refundedAmount (payments ?w) = [30] \<and> map pay_status (payments ?w) = [P_partially_refunded]
    \<and> map ref_status (refunds ?w) = [R_succeeded]"
    by code_simp
  ultimately show ?thesis by (simp add: Let_def)
qed

end
