(* ===== verification/Local_Payments.thy ===== *)
theory Local_Payments
  imports Refunds
begin

text \<open>
  \<open>application/builders/local-payment-actions.ts\<close> and \<open>local-refund-actions.ts\<close>: payments
  and refunds recorded by hand, without a provider. Random ids are arguments; the audit log
  and the outbox are given actions on the state, and \<open>env\<close> is what other clients do
  between a locked read and the conditional update.
\<close>

record local_evidence =
  le_action :: string
  le_tenant :: tenant
  le_correlation :: string
  le_actorType :: "string option"
  le_actorId :: "string option"
  le_paymentId :: ident
  le_before :: "(int \<times> payment_status) option"
  le_after :: "int \<times> payment_status"
  le_refund :: "(ident \<times> int) option"

record local_event =
  lv_eventType :: string
  lv_tenant :: tenant
  lv_correlation :: string
  lv_dedupeKey :: string

record 'w local_deps =
  ld_authorizationEnabled :: bool
  ld_tenant :: tenant
  ld_hasStorage :: bool
  ld_idempotency :: "idem_config option"
  ld_json :: "stored \<Rightarrow> stored"
  ld_customer :: "ident \<Rightarrow> tenant \<Rightarrow> ('w, ident option) io"
  ld_audit :: "local_evidence \<Rightarrow> ('w, unit) io"
  ld_outbox :: "local_event \<Rightarrow> ('w, unit) io"

text \<open>An optional text that is absent or blank is stored as null.\<close>

definition trimmed :: "string option \<Rightarrow> string option" where
  "trimmed v = (case v of None \<Rightarrow> None | Some s \<Rightarrow> if trim s = [] then None else Some (trim s))"

definition local_storage :: "'w local_deps \<Rightarrow> ('w, unit) io" where
  "local_storage d = guardE (ld_hasStorage d) (PayableError ''PAYMENT_STORAGE_REQUIRED'')"

text \<open>An execution of the idempotency service as the local actions set it up.\<close>

definition local_execution ::
  "'w local_deps \<Rightarrow> string \<Rightarrow> string \<Rightarrow> string \<Rightarrow> string \<Rightarrow> string \<Rightarrow> ident option \<Rightarrow> string
    \<Rightarrow> ('w, stored) io \<Rightarrow> (stored option \<Rightarrow> ('w, stored option) io) \<Rightarrow> ('w, stored) idem_execution" where
  "local_execution d key scope operation hash resource resourceId token run again =
    \<lparr>ex_key = key, ex_storageKey = None, ex_legacyStorageKeys = [], ex_scope = scope,
     ex_operation = operation, ex_requestHash = hash, ex_resourceType = Some resource,
     ex_resourceId = resourceId, ex_tenant = ld_tenant d, ex_retryFailed = Some False,
     ex_reclaimStaleProcessing = None, ex_lockTtl = None, ex_reconciliationRequired = True,
     ex_isFailureOutcomeUncertain = None, ex_token = token,
     ex_run = andThen run (\<lambda>s. ret (Some s)), ex_revive = Some again\<rparr>"

text \<open>The protected run, or the run itself without a service or with no (or an empty) key.\<close>

definition run_local ::
  "'x pay_db_scheme local_deps \<Rightarrow> string option \<Rightarrow> (string \<Rightarrow> ('x pay_db_scheme, stored) idem_execution)
    \<Rightarrow> ('x pay_db_scheme, stored) io \<Rightarrow> ('x pay_db_scheme, stored option) io" where
  "run_local d key ex run = (case (ld_idempotency d, key) of
      (Some config, Some k) \<Rightarrow> if k = [] then andThen run (\<lambda>s. ret (Some s))
        else execute (knex_idem_store (ld_json d)) idem_now config (ex k)
    | _ \<Rightarrow> andThen run (\<lambda>s. ret (Some s)))"

section \<open>Payments\<close>

record local_payment_input =
  lp_customerId :: ident
  lp_amount :: cash
  lp_succeeded :: bool
  lp_collectionMethod :: collection_method
  lp_occurredAt :: "instant option"
  lp_externalReference :: "string option"
  lp_description :: "string option"
  lp_authorization :: "authorization_context option"
  lp_idempotencyKey :: "string option"

definition validateLocalPayment :: "local_payment_input \<Rightarrow> ('w, unit) io" where
  "validateLocalPayment input =
    andThen (guardE (\<not> cash_amount (lp_amount input) \<le> 0) (PayableError ''PAYMENT_AMOUNT_INVALID'')) (\<lambda>_.
    guardE (\<not> (lp_collectionMethod input = Other_method \<and> trimmed (lp_externalReference input) = None
        \<and> trimmed (lp_description input) = None)) (PayableError ''PAYMENT_COLLECTION_EVIDENCE_REQUIRED''))"

definition local_payment_row :: "'w local_deps \<Rightarrow> local_payment_input \<Rightarrow> ident \<Rightarrow> ident \<Rightarrow> instant \<Rightarrow> payment" where
  "local_payment_row d input newId customer now = \<lparr>pay_id = newId, pay_tenant = ld_tenant d,
     pay_customerId = Some customer, pay_provider = None, pay_providerPaymentId = None,
     pay_status = (if lp_succeeded input then P_succeeded else P_pending),
     pay_currency = cash_code (lp_amount input), pay_amount = cash_amount (lp_amount input),
     pay_refundedAmount = 0, pay_capturedAmount = 0, pay_authorizedAt = None,
     pay_authorizationExpiresAt = None, pay_reference = None, pay_description = trimmed (lp_description input),
     pay_collectionMethod = Some (lp_collectionMethod input),
     pay_occurredAt = Some (or_else (lp_occurredAt input) now),
     pay_externalReference = trimmed (lp_externalReference input),
     pay_recordedBy = Option.bind (lp_authorization input) ac_actorId, pay_createdAt = now, pay_updatedAt = now\<rparr>"

definition local_evidence_of ::
  "'w local_deps \<Rightarrow> authorization_context option \<Rightarrow> string \<Rightarrow> string \<Rightarrow> ident
    \<Rightarrow> (int \<times> payment_status) option \<Rightarrow> (int \<times> payment_status) \<Rightarrow> (ident \<times> int) option \<Rightarrow> local_evidence" where
  "local_evidence_of d auth action correlation i before after refund =
    \<lparr>le_action = action, le_tenant = ld_tenant d, le_correlation = correlation,
     le_actorType = Option.bind auth ac_actorType, le_actorId = Option.bind auth ac_actorId,
     le_paymentId = i, le_before = before, le_after = after, le_refund = refund\<rparr>"

definition local_event_of :: "'w local_deps \<Rightarrow> string \<Rightarrow> string \<Rightarrow> ident \<Rightarrow> local_event" where
  "local_event_of d eventType correlation i = \<lparr>lv_eventType = eventType, lv_tenant = ld_tenant d,
     lv_correlation = correlation, lv_dedupeKey = eventType @ '':'' @ i\<rparr>"

definition persistLocalPayment ::
  "'x pay_db_scheme local_deps \<Rightarrow> ident \<Rightarrow> string \<Rightarrow> local_payment_input \<Rightarrow> ('x pay_db_scheme, payment) io" where
  "persistLocalPayment d newId correlation input =
    andThen (local_storage d) (\<lambda>_.
    andThen (ld_customer d (lp_customerId input) (ld_tenant d)) (\<lambda>found. case found of
      None \<Rightarrow> throw (PayableError ''CUSTOMER_NOT_FOUND'')
    | Some customer \<Rightarrow> atomically
        (andThen (readState idem_now) (\<lambda>now.
         andThen (createPayment (local_payment_row d input newId customer now)) (\<lambda>payment.
         andThen (ld_audit d (local_evidence_of d (lp_authorization input) ''payment.local_recorded'' correlation
             (pay_id payment) None (0, pay_status payment) None)) (\<lambda>_.
         andThen (ld_outbox d (local_event_of d ''payment.local_recorded'' correlation (pay_id payment))) (\<lambda>_.
         ret payment)))))))"

definition recordLocalPayment ::
  "'x pay_db_scheme local_deps \<Rightarrow> (local_payment_input \<Rightarrow> string) \<Rightarrow> ident \<Rightarrow> string \<Rightarrow> string \<Rightarrow> local_payment_input
    \<Rightarrow> ('x pay_db_scheme, stored option) io" where
  "recordLocalPayment d hash newId correlation token input =
    andThen (assertAuthorized (ld_authorizationEnabled d) (lp_authorization input)) (\<lambda>_.
    andThen (validateLocalPayment input) (\<lambda>_.
    let run = andThen (persistLocalPayment d newId correlation input) (\<lambda>p. ret (S_payment p)) in
    run_local d (lp_idempotencyKey input)
      (\<lambda>k. local_execution d k ''local-payment'' ''record'' (hash input) ''payment'' None token run
        (\<lambda>response. case response of
            None \<Rightarrow> throw TypeError
          | Some s \<Rightarrow> andThen (local_storage d) (\<lambda>_.
              andThen (findPayment (stored_id s) (ld_tenant d)) (\<lambda>found.
              ret (Some (or_else (map_option S_payment found) s)))))) run))"

definition updatePaymentStatus :: "ident \<Rightarrow> payment_status \<Rightarrow> tenant \<Rightarrow> ('x pay_db_scheme, payment) io" where
  "updatePaymentStatus i status t =
    andThen (updatePaymentsWhere (scopedPayment i t) (\<lambda>p. p\<lparr>pay_status := status\<rparr>)) (\<lambda>_.
    andThen (findPayment i t) (\<lambda>found. case found of
      None \<Rightarrow> throw (ForeignError ''row missing after write'') | Some p \<Rightarrow> ret p))"

definition transitionLocalPayment ::
  "'x pay_db_scheme local_deps \<Rightarrow> string \<Rightarrow> ident \<Rightarrow> payment_event \<Rightarrow> authorization_context option
    \<Rightarrow> ('x pay_db_scheme, payment) io" where
  "transitionLocalPayment d correlation i event auth =
    andThen (local_storage d) (\<lambda>_. atomically
    (andThen (findPayment i (ld_tenant d)) (\<lambda>found. case found of
       None \<Rightarrow> throw (PayableError ''PAYMENT_STATE_INVALID'')
     | Some payment \<Rightarrow>
         if pay_provider payment \<noteq> None \<or> pay_status payment \<noteq> P_pending
         then throw (PayableError ''PAYMENT_STATE_INVALID'') else
         andThen (liftResult (payment_to (pay_status payment) event)) (\<lambda>status.
         andThen (updatePaymentStatus i status (ld_tenant d)) (\<lambda>updated.
         let action = (if event = PE_cancel then ''payment.local_voided'' else ''payment.local_succeeded'') in
         andThen (ld_audit d (local_evidence_of d auth action correlation i
             (Some (pay_refundedAmount payment, pay_status payment)) (pay_refundedAmount payment, status) None)) (\<lambda>_.
         andThen (ld_outbox d (local_event_of d action correlation i)) (\<lambda>_.
         ret updated)))))))"

definition settleLocalPayment ::
  "'x pay_db_scheme local_deps \<Rightarrow> (ident \<times> string \<Rightarrow> string) \<Rightarrow> string \<Rightarrow> string \<Rightarrow> payment_event \<Rightarrow> ident
    \<Rightarrow> authorization_context option \<Rightarrow> string option \<Rightarrow> ('x pay_db_scheme, stored option) io" where
  "settleLocalPayment d hash correlation token event i auth key =
    andThen (assertAuthorized (ld_authorizationEnabled d) auth) (\<lambda>_.
    let operation = (if event = PE_cancel then ''void'' else ''succeed'');
        run = andThen (transitionLocalPayment d correlation i event auth) (\<lambda>p. ret (S_payment p)) in
    run_local d key
      (\<lambda>k. local_execution d k ''local-payment'' operation (hash (i, operation)) ''payment'' (Some i) token run
        (\<lambda>_. andThen (local_storage d) (\<lambda>_.
          andThen (findPayment i (ld_tenant d)) (\<lambda>found. case found of
            None \<Rightarrow> throw (PayableError ''PAYMENT_NOT_FOUND'') | Some p \<Rightarrow> ret (Some (S_payment p)))))) run)"

definition succeedLocalPayment where
  "succeedLocalPayment d hash correlation token = settleLocalPayment d hash correlation token PE_succeed"

definition voidLocalPayment where
  "voidLocalPayment d hash correlation token = settleLocalPayment d hash correlation token PE_cancel"

section \<open>Refunds\<close>

record local_refund_input =
  lr_amount :: "cash option"
  lr_collectionMethod :: collection_method
  lr_occurredAt :: "instant option"
  lr_externalReference :: "string option"
  lr_confirmedExternally :: "bool option"
  lr_reason :: "string option"
  lr_authorization :: "authorization_context option"
  lr_idempotencyKey :: "string option"

definition local_refund_row ::
  "'w local_deps \<Rightarrow> local_refund_input \<Rightarrow> ident \<Rightarrow> payment \<Rightarrow> int \<Rightarrow> instant \<Rightarrow> refund" where
  "local_refund_row d input newId payment amount now =
    (new_refund newId (ld_tenant d) (pay_id payment) None R_succeeded (pay_currency payment) amount
       (trimmed (lr_reason input)))\<lparr>ref_collectionMethod := Some (lr_collectionMethod input),
       ref_occurredAt := Some (or_else (lr_occurredAt input) now),
       ref_externalReference := trimmed (lr_externalReference input),
       ref_recordedBy := Option.bind (lr_authorization input) ac_actorId\<rparr>"

definition checkLocalRefund :: "local_refund_input \<Rightarrow> payment \<Rightarrow> error + int" where
  "checkLocalRefund input payment =
    (if pay_provider payment \<noteq> None \<and> lr_confirmedExternally input \<noteq> Some True
     then Inl (PayableError ''LOCAL_REFUND_EXTERNAL_CONFIRMATION_REQUIRED'')
     else if pay_provider payment \<noteq> None \<and> trimmed (lr_externalReference input) = None
     then Inl (PayableError ''LOCAL_REFUND_EXTERNAL_REFERENCE_REQUIRED'')
     else if pay_status payment \<noteq> P_succeeded \<and> pay_status payment \<noteq> P_partially_refunded
     then Inl (PayableError ''PAYMENT_NOT_REFUNDABLE'')
     else if (case lr_amount input of None \<Rightarrow> False | Some m \<Rightarrow> cash_code m \<noteq> pay_currency payment)
     then Inl (PayableError ''REFUND_CURRENCY_MISMATCH'')
     else let remaining = pay_amount payment - pay_refundedAmount payment;
              amount = (case lr_amount input of None \<Rightarrow> remaining | Some m \<Rightarrow> cash_amount m) in
          if amount \<le> 0 \<or> amount > remaining then Inl (PayableError ''REFUND_EXCEEDS_REMAINING'')
          else Inr amount)"

definition tryPersistRefund ::
  "'x pay_db_scheme local_deps \<Rightarrow> ('x pay_db_scheme \<Rightarrow> 'x pay_db_scheme) \<Rightarrow> ident \<Rightarrow> string \<Rightarrow> ident
    \<Rightarrow> local_refund_input \<Rightarrow> ('x pay_db_scheme, refund option) io" where
  "tryPersistRefund d env newId correlation paymentId input =
    andThen (local_storage d) (\<lambda>_. atomically
    (andThen (findPayment paymentId (ld_tenant d)) (\<lambda>found. case found of
       None \<Rightarrow> throw (PayableError ''PAYMENT_NOT_FOUND'')
     | Some payment \<Rightarrow>
         andThen (liftResult (checkLocalRefund input payment)) (\<lambda>amount.
         let refundedAmount = pay_refundedAmount payment + amount in
         andThen (liftResult (payment_to (pay_status payment)
             (if refundedAmount = pay_amount payment then PE_refund else PE_partially_refund))) (\<lambda>status.
         andThen (interference env) (\<lambda>_.
         andThen (updateRefundedAmountIfUnchanged paymentId (pay_refundedAmount payment) refundedAmount
             status (ld_tenant d)) (\<lambda>updated.
         if \<not> updated then ret None
         else andThen (readState idem_now) (\<lambda>now.
              andThen (createRefund (local_refund_row d input newId payment amount now)) (\<lambda>refund.
              andThen (ld_audit d (local_evidence_of d (lr_authorization input) ''payment.local_refunded'' correlation
                  paymentId (Some (pay_refundedAmount payment, pay_status payment)) (refundedAmount, status)
                  (Some (ref_id refund, ref_amount refund)))) (\<lambda>_.
              andThen (ld_outbox d (local_event_of d ''refund.local_recorded'' correlation (ref_id refund))) (\<lambda>_.
              ret (Some refund))))))))))))"

fun persistRefundAttempts ::
  "'x pay_db_scheme local_deps \<Rightarrow> (nat \<Rightarrow> 'x pay_db_scheme \<Rightarrow> 'x pay_db_scheme) \<Rightarrow> (nat \<Rightarrow> ident) \<Rightarrow> string
    \<Rightarrow> ident \<Rightarrow> local_refund_input \<Rightarrow> nat \<Rightarrow> ('x pay_db_scheme, refund) io" where
  "persistRefundAttempts d env ids correlation paymentId input 0 =
    throw (PayableError ''REFUND_RESERVATION_CONFLICT'')"
| "persistRefundAttempts d env ids correlation paymentId input (Suc n) =
    andThen (tryPersistRefund d (env n) (ids n) correlation paymentId input) (\<lambda>r. case r of
        Some refund \<Rightarrow> ret refund
      | None \<Rightarrow> persistRefundAttempts d env ids correlation paymentId input n)"

definition recordLocalRefund ::
  "'x pay_db_scheme local_deps \<Rightarrow> (ident \<times> local_refund_input \<Rightarrow> string)
    \<Rightarrow> (nat \<Rightarrow> 'x pay_db_scheme \<Rightarrow> 'x pay_db_scheme) \<Rightarrow> (nat \<Rightarrow> ident) \<Rightarrow> string \<Rightarrow> string \<Rightarrow> ident \<Rightarrow> local_refund_input
    \<Rightarrow> ('x pay_db_scheme, stored option) io" where
  "recordLocalRefund d hash env ids correlation token paymentId input =
    andThen (assertAuthorized (ld_authorizationEnabled d) (lr_authorization input)) (\<lambda>_.
    let run = andThen (persistRefundAttempts d env ids correlation paymentId input MAX_RESERVATION_ATTEMPTS)
          (\<lambda>r. ret (S_refund r)) in
    run_local d (lr_idempotencyKey input)
      (\<lambda>k. local_execution d k ''local-refund'' ''record'' (hash (paymentId, input)) ''refund'' None token run
        (\<lambda>response. case response of
            None \<Rightarrow> throw TypeError
          | Some s \<Rightarrow> andThen (local_storage d) (\<lambda>_.
              andThen (findRefund (stored_id s) (ld_tenant d)) (\<lambda>found.
              ret (Some (or_else (map_option S_refund found) s)))))) run)"

section \<open>The ledger\<close>

definition tables_kept :: "('x pay_db_scheme, 'a) io \<Rightarrow> bool" where
  "tables_kept m \<longleftrightarrow> (\<forall>v. payments (snd (m v)) = payments v \<and> refunds (snd (m v)) = refunds v)"

definition fresh_payment :: "ident \<Rightarrow> 'x pay_db_scheme \<Rightarrow> bool" where
  "fresh_payment i w \<longleftrightarrow> ledger_ok w \<and> i \<notin> pay_id ` set (payments w) \<and> (\<forall>r \<in> set (refunds w). ref_paymentId r \<noteq> i)"

lemma tables_kept_preserves:
  assumes "tables_kept (m :: ('x pay_db_scheme, 'a) io)"
  shows "preserves ledger_ok m" "preserves (fresh_payment i) m" "preserves (unreserved_state S) m"
proof -
  have "ledger_ok (snd (m v)) = ledger_ok v" for v
    using assms by (intro ledger_ok_cong) (simp_all add: tables_kept_def)
  then show "preserves ledger_ok m" "preserves (fresh_payment i) m" "preserves (unreserved_state S) m"
    using assms by (simp_all add: preserves_def fresh_payment_def unreserved_state_def own_def tables_kept_def)
qed

lemma tables_kept_rules [intro]:
  "tables_kept m \<Longrightarrow> (\<And>x. tables_kept (f x)) \<Longrightarrow> tables_kept (andThen m f)"
  "tables_kept (ret x)" "tables_kept (throw e)" "tables_kept (readState g)"
  by (auto simp: tables_kept_def andThen_def split: prod.split sum.split) (metis snd_conv)+

lemma blind_fresh: "row_blind (fresh_payment i :: 'x pay_db_scheme \<Rightarrow> bool)"
  using blind_ledger(1) by (auto simp: row_blind_def fresh_payment_def put_row_def)

lemma run_local_leads:
  assumes "row_blind P" "row_blind Q" and "\<And>w. P w \<Longrightarrow> Q w"
    and "leads P run Q" and "\<And>v. preserves Q (again v)"
  shows "leads P (run_local d key (\<lambda>k. local_execution d k scope operation hash resource i token run again) run) Q"
proof -
  have run: "leads P (andThen run (\<lambda>s. ret (Some s))) Q"
    using assms(4) by (rule leads_andThen) (auto simp: leads_preserves)
  moreover have "leads P (execute (knex_idem_store (ld_json d)) idem_now config
      (local_execution d k scope operation hash resource i token run again)) Q" for config k
    by (rule execute_leads [OF assms(1,2,3)]) (use assms(5) run in \<open>auto simp: local_execution_def\<close>)
  ultimately show ?thesis
    by (auto simp: run_local_def split: option.split)
qed

lemma refunded_total_none: "\<forall>r \<in> set rs. ref_paymentId r \<noteq> i \<Longrightarrow> refunded_total i rs = 0"
  by (induction rs) auto

lemma create_leads:
  assumes "pay_id p = i" "pay_refundedAmount p = 0" "0 \<le> pay_amount p"
    and "pay_status p \<notin> {P_refunded, P_partially_refunded}"
  shows "leads (fresh_payment i) (createPayment p) ledger_ok"
  using assms
  by (cases "pay_status p")
    (auto simp: leads_def fresh_payment_def createPayment_def Let_def ledger_ok_def refunded_total_none status_matches_def)

lemma persistLocalPayment_leads:
  assumes kept: "\<And>c t. tables_kept (ld_customer d c t)" "\<And>e. tables_kept (ld_audit d e)" "\<And>e. tables_kept (ld_outbox d e)"
    and pos: "0 < cash_amount (lp_amount input)"
  shows "leads (fresh_payment i) (persistLocalPayment d i correlation input) ledger_ok"
proof -
  have weak: "fresh_payment i w \<Longrightarrow> ledger_ok w" for w by (simp add: fresh_payment_def)
  have "leads (fresh_payment i) (andThen (createPayment (local_payment_row d input i c now)) (\<lambda>payment.
      andThen (ld_audit d (f payment)) (\<lambda>_. andThen (ld_outbox d (g payment)) (\<lambda>_. ret payment)))) ledger_ok" for c now f g
    by (rule leads_andThen [OF create_leads])
      (use pos in \<open>auto simp: local_payment_row_def leads_preserves intro!: tables_kept_preserves(1) kept\<close>)
  then have tx: "leads (fresh_payment i) (atomically (andThen (readState idem_now) (\<lambda>now.
      andThen (createPayment (local_payment_row d input i c now)) (\<lambda>payment.
      andThen (ld_audit d (f payment)) (\<lambda>_. andThen (ld_outbox d (g payment)) (\<lambda>_. ret payment)))))) ledger_ok" for c f g
    by (rule leads_atomically [OF leads_readState weak])
  show ?thesis
    unfolding persistLocalPayment_def local_storage_def
  proof (rule leads_guardE [OF weak], assumption, rule leads_andThen [where R = "fresh_payment i"])
    show "leads (fresh_payment i) (ld_customer d (lp_customerId input) (ld_tenant d)) (fresh_payment i)"
      unfolding leads_preserves by (rule tables_kept_preserves(2) [OF kept(1)])
  next
    fix found :: "ident option"
    show "leads (fresh_payment i) (case found of
      None \<Rightarrow> throw (PayableError ''CUSTOMER_NOT_FOUND'')
    | Some customer \<Rightarrow> atomically
        (andThen (readState idem_now) (\<lambda>now.
         andThen (createPayment (local_payment_row d input i customer now)) (\<lambda>payment.
         andThen (ld_audit d (local_evidence_of d (lp_authorization input) ''payment.local_recorded'' correlation
             (pay_id payment) None (0, pay_status payment) None)) (\<lambda>_.
         andThen (ld_outbox d (local_event_of d ''payment.local_recorded'' correlation (pay_id payment))) (\<lambda>_.
         ret payment)))))) ledger_ok"
      using tx leads_weaken [OF preserves_throw weak] by (cases found) simp_all
  qed (rule weak)
qed

lemma atomically_snd: "I w \<Longrightarrow> I (snd (m w)) \<Longrightarrow> I (snd (atomically m w))"
  by (cases "m w") (simp add: atomically_def split: sum.split)

lemma updatePaymentStatus_leads:
  assumes ok: "ledger_ok w" and p: "find (scopedPayment i t) (payments w) = Some p"
    and s: "pay_status p = P_pending" "status \<in> {P_succeeded, P_canceled}"
  shows "ledger_ok (snd (updatePaymentStatus i status t w))"
proof -
  note p' = find_payment_unique [OF ok p]
  let ?w = "w\<lparr>payments := map (\<lambda>q. if scopedPayment i t q then q\<lparr>pay_status := status, pay_updatedAt := idem_now w\<rparr> else q) (payments w)\<rparr>"
  have same: "scopedPayment i t q \<longleftrightarrow> q = p" if "q \<in> set (payments w)" for q
    using find_SomeD [OF p] p'(4) [OF that] by (auto simp: scopedPayment_def)
  have pays: "map (\<lambda>q. if scopedPayment i t q then q\<lparr>pay_status := status, pay_updatedAt := idem_now w\<rparr> else q) (payments w) = map (\<lambda>q. if q = p then p\<lparr>pay_status := status, pay_updatedAt := idem_now w\<rparr> else q) (payments w)"
    using same by (intro map_cong) auto
  have "pay_refundedAmount p = 0" using ok p'(1) s(1) by (auto simp: ledger_ok_def status_matches_def)
  then have "ledger_ok ?w"
    using s(2) ledger_okD(5,6) [OF ok p'(1)]
    by (intro ledger_change [OF ok p'(1), where p' = "p\<lparr>pay_status := status, pay_updatedAt := idem_now w\<rparr>"])
      (auto simp: status_matches_def pays ledger_okD [OF ok] p'(1))
  then show ?thesis
    by (simp add: updatePaymentStatus_def updatePaymentsWhere_def andThen_def findPayment_def split: option.split)
qed

lemma transitionLocalPayment_leads:
  assumes kept: "\<And>e. tables_kept (ld_audit d e)" "\<And>e. tables_kept (ld_outbox d e)" and e: "event \<in> {PE_succeed, PE_cancel}"
  shows "preserves ledger_ok (transitionLocalPayment d correlation i event auth)"
proof (rule preservesI)
  fix w :: "'a pay_db_scheme"
  assume ok: "ledger_ok w"
  have evidence: "preserves ledger_ok (andThen (ld_audit d a) (\<lambda>_. andThen (ld_outbox d b) (\<lambda>_. ret x)))" for a b and x :: payment
    by (intro tables_kept_preserves tables_kept_rules kept)
  show "ledger_ok (snd (transitionLocalPayment d correlation i event auth w))"
  proof (cases "find (scopedPayment i (ld_tenant d)) (payments w)")
    case None
    with ok show ?thesis
      by (simp add: transitionLocalPayment_def local_storage_def andThen_guardE atomically_def table_andThen)
  next
    case (Some p)
    show ?thesis
    proof (cases "pay_provider p = None \<and> pay_status p = P_pending")
      case False
      with ok Some show ?thesis
        by (auto simp: transitionLocalPayment_def local_storage_def andThen_guardE atomically_def table_andThen)
    next
      case True
      define status where "status = (if event = PE_cancel then P_canceled else P_succeeded)"
      have to: "payment_to P_pending event = Inr status"
        using e by (auto simp: status_def machine_defs payment_map_def)
      have upd: "ledger_ok (snd (updatePaymentStatus i status (ld_tenant d) w))"
        using updatePaymentStatus_leads [OF ok Some] True by (simp add: status_def)
      have body: "ledger_ok (snd (andThen (updatePaymentStatus i status (ld_tenant d)) (\<lambda>updated.
          andThen (ld_audit d a) (\<lambda>_. andThen (ld_outbox d b) (\<lambda>_. ret updated))) w))" for a b
        using upd preservesD [OF evidence]
        by (cases "updatePaymentStatus i status (ld_tenant d) w") (simp add: andThen_def split: sum.split)
      show ?thesis
      proof (cases "ld_hasStorage d")
        case True
        show ?thesis
          unfolding transitionLocalPayment_def local_storage_def andThen_guardE if_True if_P [OF True]
          by (rule atomically_snd [where I = ledger_ok, OF ok]) (simp add: table_andThen andThen_liftResult Let_def Some to body
              \<open>pay_provider p = None \<and> pay_status p = P_pending\<close>)
      qed (simp add: transitionLocalPayment_def local_storage_def andThen_guardE ok)
    qed
  qed
qed

lemma checkLocalRefund_amount:
  assumes "checkLocalRefund input p = Inr n"
  shows "0 < n" and "n \<le> pay_amount p - pay_refundedAmount p"
  using assms by (auto simp: checkLocalRefund_def Let_def split: if_splits option.splits)

lemma payment_refund_full_target:
  "payment_to x (if b then PE_refund else PE_partially_refund) = Inr s \<Longrightarrow> a = b \<Longrightarrow>
    s = (if a then P_refunded else P_partially_refunded)"
  using payment_refund_target by blast

lemma tryPersistRefund_step:
  assumes st: "unreserved_state S w" and i: "newId \<in> S" and env: "\<And>v. rely S v (env v)"
    and kept: "\<And>e. tables_kept (ld_audit d e)" "\<And>e. tables_kept (ld_outbox d e)"
    and run: "tryPersistRefund d env newId correlation i input w = (r, w')"
  shows "ledger_ok w' \<and> (r = Inr None \<longrightarrow> unreserved_state S w')"
proof (cases "ld_hasStorage d")
  case False
  with run st show ?thesis by (auto simp: tryPersistRefund_def local_storage_def andThen_guardE unreserved_state_def)
next
  case storage: True
  have ok: "ledger_ok w" using st by (simp add: unreserved_state_def)
  note defs = tryPersistRefund_def local_storage_def atomically_def table_andThen andThen_guardE andThen_liftResult storage
  show ?thesis
  proof (cases "find (scopedPayment i (ld_tenant d)) (payments w)")
    case None
    with run st ok show ?thesis by (auto simp: defs)
  next
    case (Some p)
    note p = find_payment_unique(1-3) [OF ok Some]
    show ?thesis
    proof (cases "checkLocalRefund input p")
      case (Inl e)
      with run ok Some show ?thesis by (auto simp: defs)
    next
      case (Inr n)
      note n = checkLocalRefund_amount [OF Inr]
      let ?new = "pay_refundedAmount p + n"
      show ?thesis
      proof (cases "payment_to (pay_status p) (if ?new = pay_amount p then PE_refund else PE_partially_refund)")
        case (Inl e)
        with run ok Some Inr have "(r, w') = (Inl e, w)" by (simp add: defs Let_def)
        with ok show ?thesis by simp
      next
        case (Inr s)
        define w1 where "w1 = env w"
        have st1: "unreserved_state S w1" and ok1: "ledger_ok w1"
          using rely_stable(1,2) [OF env] st ok by (simp_all add: w1_def)
        obtain p1 where p1: "p1 \<in> set (payments w1)" "pay_id p1 = i" "tenantMatches (ld_tenant d) (pay_tenant p1)"
            "pay_amount p1 = pay_amount p"
          using rely_payment [OF env p(1)] p(2,3) unfolding w1_def by metis
        note upd = updateRefundedAmount_eq [OF ok1 p1(1-3)]
        show ?thesis
        proof (cases "pay_refundedAmount p1 = pay_refundedAmount p")
          case False
          then have "(r, w') = (Inr None, w1)" unfolding run [symmetric] using Some \<open>checkLocalRefund input p = Inr n\<close> Inr
            by (simp add: defs Let_def w1_def [symmetric] upd)
          with st1 ok1 show ?thesis by simp
        next
          case True
          define row where "row = (local_refund_row d input newId p n (idem_now w1))\<lparr>ref_createdAt := idem_now w1, ref_updatedAt := idem_now w1\<rparr>"
          define w2 where "w2 = w1\<lparr>payments := map (\<lambda>x. if x = p1 then p1\<lparr>pay_refundedAmount := ?new, pay_status := s,
              pay_updatedAt := idem_now w1\<rparr> else x) (payments w1), refunds := refunds w1 @ [row]\<rparr>"
          have row: "ref_id row = newId" "ref_paymentId row = i" "ref_amount row = n" "ref_status row = R_succeeded"
            using p(2) by (simp_all add: row_def local_refund_row_def new_refund_def)
          have fresh: "newId \<notin> ref_id ` set (refunds w1)"
            using st1 i by (auto simp: unreserved_state_def own_def filter_empty_conv)
          have ok2: "ledger_ok w2"
            using ledger_reserve [OF ok1 p1(1) n(1), of s row w2 "idem_now w1"] n(2) p1 True row fresh
              payment_refund_full_target [OF Inr, of "pay_refundedAmount p1 + n \<ge> pay_amount p1"]
            by (auto simp: w2_def live_def)
          have "preserves ledger_ok (andThen (ld_audit d a) (\<lambda>_. andThen (ld_outbox d b) (\<lambda>_. ret (Some x))))" for a b and x :: refund
            by (intro tables_kept_preserves tables_kept_rules kept)
          from preservesD [OF this ok2]
          have keep: "andThen (ld_audit d a) (\<lambda>_. andThen (ld_outbox d b) (\<lambda>_. ret (Some x))) w2 = (r2, w3) \<Longrightarrow> ledger_ok w3"
            for a b r2 w3 and x :: refund by (metis snd_conv)
          have some: "r2 \<noteq> Inr None"
            if "andThen (ld_audit d a) (\<lambda>_. andThen (ld_outbox d b) (\<lambda>_. ret (Some x))) w2 = (r2, w3)" for a b r2 w3 and x :: refund
            using that by (auto simp: andThen_Inr_iff)
          obtain a b where body: "tryPersistRefund d env newId correlation i input w
              = atomically (\<lambda>_. andThen (ld_audit d a) (\<lambda>_. andThen (ld_outbox d b) (\<lambda>_. ret (Some row))) w2) w"
            using Some \<open>checkLocalRefund input p = Inr n\<close> Inr True
            by (simp add: defs Let_def w1_def [symmetric] upd w2_def row_def)
          show ?thesis
            using run ok keep some unfolding body
            by (auto simp: atomically_def split: prod.splits sum.splits)
        qed
      qed
    qed
  qed
qed

lemma persistRefundAttempts_leads:
  assumes ids: "range ids \<subseteq> S" and env: "\<And>n v. rely S v (env n v)"
    and kept: "\<And>e. tables_kept (ld_audit d e)" "\<And>e. tables_kept (ld_outbox d e)"
  shows "leads (unreserved_state S) (persistRefundAttempts d env ids correlation i input n) ledger_ok"
proof (induction n)
  case 0
  show ?case by (simp add: leads_def unreserved_state_def)
next
  case (Suc n)
  have id: "ids n \<in> S" using ids by blast
  show ?case
  proof (rule leadsI)
    fix w r w'
    assume st: "unreserved_state S w" and run: "persistRefundAttempts d env ids correlation i input (Suc n) w = (r, w')"
    obtain o1 w1 where step: "tryPersistRefund d (env n) (ids n) correlation i input w = (o1, w1)"
      by (cases "tryPersistRefund d (env n) (ids n) correlation i input w")
    from tryPersistRefund_step [OF st id env kept step] run step leadsD [OF Suc] show "ledger_ok w'"
      by (auto simp: andThen_def split: sum.splits option.splits)
  qed
qed

lemma revive_preserves_tables:
  "preserves ledger_ok (case response of None \<Rightarrow> throw TypeError
      | Some s \<Rightarrow> andThen (local_storage d) (\<lambda>_. andThen (findPayment (stored_id s) t) (\<lambda>found. ret (f s found))))"
  "preserves ledger_ok (case response of None \<Rightarrow> throw TypeError
      | Some s \<Rightarrow> andThen (local_storage d) (\<lambda>_. andThen (findRefund (stored_id s) t) (\<lambda>found. ret (g s found))))"
  "preserves ledger_ok (andThen (local_storage d) (\<lambda>_. andThen (findPayment i t) (\<lambda>found. case found of
      None \<Rightarrow> throw e | Some p \<Rightarrow> ret (h p))))"
  unfolding local_storage_def findPayment_def findRefund_def by (intro preserves_rules)+

lemma assertAuthorized_state [simp]: "snd (assertAuthorized b c w) = w"
  by (simp add: assertAuthorized_def guardE_def)

text \<open>
  C26. The actions that record payments and refunds by hand keep the ledger, on every
  path and with or without the idempotency service: recording a payment under a fresh id,
  succeeding or voiding one, and recording a refund against interference of other clients,
  of a payment of a provider too.
\<close>

theorem local_actions_keep_ledger:
  assumes ok: "ledger_ok w"
    and kept: "\<And>c t. tables_kept (ld_customer d c t)" "\<And>e. tables_kept (ld_audit d e)" "\<And>e. tables_kept (ld_outbox d e)"
    and fresh: "newId \<notin> pay_id ` set (payments w)" "\<forall>r \<in> set (refunds w). ref_paymentId r \<noteq> newId"
    and ids: "\<And>n. ids n \<notin> ref_id ` set (refunds w)" and env: "\<And>n v. rely (range ids) v (env n v)"
  shows "ledger_ok (snd (recordLocalPayment d hash newId correlation token input w))
    \<and> ledger_ok (snd (succeedLocalPayment d hash' correlation token i auth key w))
    \<and> ledger_ok (snd (voidLocalPayment d hash' correlation token i auth key w))
    \<and> ledger_ok (snd (recordLocalRefund d hash'' env ids correlation token i refund_input w))"
proof (intro conjI)
  have st: "fresh_payment newId w" using ok fresh by (simp add: fresh_payment_def)
  have "leads (fresh_payment newId) (recordLocalPayment d hash newId correlation token input) ledger_ok"
    unfolding recordLocalPayment_def validateLocalPayment_def Let_def andThen_assoc
    by (intro leads_pure_andThen [OF assertAuthorized_state] leads_guardE run_local_leads blind_ledger blind_fresh
        revive_preserves_tables leads_andThen [OF persistLocalPayment_leads [OF kept]])
      (auto simp: fresh_payment_def leads_preserves)
  then show "ledger_ok (snd (recordLocalPayment d hash newId correlation token input w))"
    using st by (simp add: leads_def)
  have settle: "preserves ledger_ok (settleLocalPayment d hash' correlation token ev i auth key)"
    if "ev \<in> {PE_succeed, PE_cancel}" for ev
    unfolding settleLocalPayment_def Let_def leads_preserves [symmetric]
    by (intro leads_pure_andThen [OF assertAuthorized_state] run_local_leads blind_ledger revive_preserves_tables
        leads_andThen [where R = ledger_ok]) (auto simp: leads_preserves intro!: transitionLocalPayment_leads kept that)
  show "ledger_ok (snd (succeedLocalPayment d hash' correlation token i auth key w))"
    "ledger_ok (snd (voidLocalPayment d hash' correlation token i auth key w))"
    using preservesD [OF settle ok] by (simp_all add: succeedLocalPayment_def voidLocalPayment_def)
  have st: "unreserved_state (range ids) w" using ok ids by (force simp: unreserved_state_def own_def filter_empty_conv)
  have "leads (unreserved_state (range ids)) (recordLocalRefund d hash'' env ids correlation token i refund_input) ledger_ok"
    unfolding recordLocalRefund_def Let_def
    by (intro leads_pure_andThen [OF assertAuthorized_state] run_local_leads blind_ledger revive_preserves_tables
        leads_andThen [OF persistRefundAttempts_leads [OF _ env kept(2,3)]])
      (auto simp: unreserved_state_def leads_preserves)
  then show "ledger_ok (snd (recordLocalRefund d hash'' env ids correlation token i refund_input w))"
    using st by (simp add: leads_def)
qed

definition example_local_deps :: "pay_db local_deps" where
  "example_local_deps = \<lparr>ld_authorizationEnabled = False, ld_tenant = Some ''t'', ld_hasStorage = True,
     ld_idempotency = None, ld_json = id, ld_customer = (\<lambda>c t. ret (Some c)), ld_audit = (\<lambda>_. ret ()),
     ld_outbox = (\<lambda>_. ret ())\<rparr>"

definition example_local_refund :: "int \<Rightarrow> local_refund_input" where
  "example_local_refund n = \<lparr>lr_amount = Some \<lparr>cash_amount = n, cash_code = ''USD''\<rparr>, lr_collectionMethod = Cash,
     lr_occurredAt = None, lr_externalReference = Some ''receipt'', lr_confirmedExternally = Some True,
     lr_reason = None, lr_authorization = None, lr_idempotencyKey = None\<rparr>"

theorem local_actions_keep_ledger_witness:
  "let w = snd (recordLocalRefund example_local_deps (\<lambda>_. []) (\<lambda>_ v. v) (\<lambda>_. ''r1'') ''c'' ''k'' ''p1''
        (example_local_refund 100) (example_pay_db [example_payment P_succeeded 0] []))
   in ledger_ok w \<and> map pay_refundedAmount (payments w) = [100] \<and> map pay_status (payments w) = [P_refunded]"
proof -
  let ?w = "snd (recordLocalRefund example_local_deps (\<lambda>_. []) (\<lambda>_ v. v) (\<lambda>_. ''r1'') ''c'' ''k'' ''p1''
        (example_local_refund 100) (example_pay_db [example_payment P_succeeded 0] []))"
  have "ledger_ok ?w"
    using local_actions_keep_ledger [OF example_ledger, of example_local_deps "[]" "\<lambda>_. ''r1''" "\<lambda>_ v. v"]
    by (simp add: example_local_deps_def tables_kept_def example_pay_db_def example_payment_def)
  moreover have "map pay_refundedAmount (payments ?w) = [100] \<and> map pay_status (payments ?w) = [P_refunded]"
    by code_simp
  ultimately show ?thesis by (simp add: Let_def)
qed

end
