(* ===== verification/Settlement.thy ===== *)
theory Settlement
  imports Local_Payments
begin

text \<open>
  \<open>application/actions/payments/settle-authorization.action.ts\<close>: capturing and voiding an
  authorized payment. The provider's capture and void, the lock driver, the audit log and the
  event bus are given actions on the state; the correlation id and the lock token are
  arguments. An event carries what the code puts in it.
\<close>

datatype settlement = Capture | Void

record payment_allocation =
  al_reference :: string
  al_amount :: cash

record settlement_input =
  si_amount :: "cash option"
  si_allocations :: "payment_allocation list option"
  si_reference :: string
  si_authorization :: "authorization_context option"

record capture_request =
  cr_providerPaymentId :: ident
  cr_amount :: cash
  cr_allocations :: "payment_allocation list option"

record settlement_result =
  sr_providerPaymentId :: ident
  sr_status :: payment_status
  sr_amount :: cash

record settlement_evidence =
  se_action :: string
  se_correlation :: string
  se_actorType :: "string option"
  se_actorId :: "string option"
  se_paymentId :: ident
  se_before :: payment_status
  se_after :: payment_status
  se_capturedAmount :: "int option"
  se_provider :: "string option"

record settlement_event =
  sv_operation :: settlement
  sv_paymentId :: ident
  sv_customerId :: "ident option"
  sv_amount :: cash
  sv_correlation :: string
  sv_occurredAt :: instant

text \<open>A capability with its operation, when the provider object has it.\<close>

record ('w, 'd) settle_deps =
  sd_authorizationEnabled :: bool
  sd_tenant :: tenant
  sd_hasStorage :: bool
  sd_idempotency :: "idem_config option"
  sd_json :: "stored \<Rightarrow> stored"
  sd_hash :: "ident \<times> settlement \<times> settlement_input \<Rightarrow> string"
  sd_withLock :: "(string \<Rightarrow> ('w, stored option) io \<Rightarrow> ('w, stored option) io) option"
  sd_dinero :: "'d dinero"
  sd_hasCapture :: bool
  sd_capture :: "(capture_request \<Rightarrow> string \<Rightarrow> string \<Rightarrow> ('w, settlement_result) io) option"
  sd_captureNative :: bool
  sd_hasVoid :: bool
  sd_void :: "(ident \<Rightarrow> string \<Rightarrow> string \<Rightarrow> ('w, settlement_result) io) option"
  sd_voidNative :: bool
  sd_audit :: "settlement_evidence \<Rightarrow> ('w, unit) io"
  sd_emit :: "settlement_event \<Rightarrow> ('w, unit) io"

section \<open>Validation\<close>

definition settlement_evidence_of ::
  "settlement_input \<Rightarrow> string \<Rightarrow> string \<Rightarrow> payment \<Rightarrow> payment_status \<Rightarrow> payment_status \<Rightarrow> int option \<Rightarrow> settlement_evidence" where
  "settlement_evidence_of input action correlation p before after captured = \<lparr>se_action = action,
     se_correlation = correlation, se_actorType = Option.bind (si_authorization input) ac_actorType,
     se_actorId = Option.bind (si_authorization input) ac_actorId, se_paymentId = pay_id p,
     se_before = before, se_after = after, se_capturedAmount = captured, se_provider = pay_provider p\<rparr>"

definition authorization_expired :: "instant \<Rightarrow> payment \<Rightarrow> bool" where
  "authorization_expired now p \<longleftrightarrow> (case pay_authorizationExpiresAt p of None \<Rightarrow> False | Some t \<Rightarrow> t \<le> now)"

definition allocations_valid :: "cash \<Rightarrow> payment_allocation list option \<Rightarrow> bool" where
  "allocations_valid amount allocations \<longleftrightarrow> (case allocations of None \<Rightarrow> True | Some as \<Rightarrow>
     (\<forall>a \<in> set as. trim (al_reference a) \<noteq> [] \<and> 0 < cash_amount (al_amount a)
        \<and> cash_code (al_amount a) = cash_code amount)
     \<and> foldl (\<lambda>total a. total + cash_amount (al_amount a)) 0 as = cash_amount amount)"

text \<open>The amount to capture: the requested one, else all of the payment.\<close>

definition capture_amount :: "('w, 'd) settle_deps \<Rightarrow> settlement_input \<Rightarrow> payment \<Rightarrow> error + cash" where
  "capture_amount d input p = (case si_amount input of
      Some m \<Rightarrow> Inr m | None \<Rightarrow> cash_of (sd_dinero d) (pay_amount p) (pay_currency p))"

definition expireAuthorization ::
  "('x pay_db_scheme, 'd) settle_deps \<Rightarrow> settlement_input \<Rightarrow> string \<Rightarrow> payment \<Rightarrow> ('x pay_db_scheme, unit) io" where
  "expireAuthorization d input correlation p =
    andThen (updateStatusIfUnchanged (pay_id p) P_authorized (\<lambda>q. q\<lparr>pay_status := P_failed\<rparr>) (sd_tenant d)) (\<lambda>expired.
    andThen (if expired then sd_audit d (settlement_evidence_of input ''payment.authorization_expired'' correlation
          p P_authorized P_failed None) else ret ()) (\<lambda>_.
    throw (PayableError ''PAYMENT_AUTHORIZATION_EXPIRED'')))"

definition validateSettlement ::
  "('x pay_db_scheme, 'd) settle_deps \<Rightarrow> string \<Rightarrow> payment \<Rightarrow> settlement \<Rightarrow> settlement_input \<Rightarrow> bool
    \<Rightarrow> ('x pay_db_scheme, unit) io" where
  "validateSettlement d correlation p operation input validateState =
    andThen (guardE (trim (si_reference input) \<noteq> []) (PayableError ''PAYMENT_SETTLEMENT_INVALID'')) (\<lambda>_.
    andThen (guardE (\<not> (validateState \<and> pay_status p \<noteq> P_authorized)) (PayableError ''PAYMENT_NOT_AUTHORIZED'')) (\<lambda>_.
    andThen (readState idem_now) (\<lambda>now.
    if validateState \<and> authorization_expired now p then expireAuthorization d input correlation p
    else if operation \<noteq> Capture then ret ()
    else andThen (liftResult (capture_amount d input p)) (\<lambda>amount.
      guardE (\<not> (cash_amount amount \<le> 0 \<or> cash_amount amount > pay_amount p
          \<or> cash_code amount \<noteq> pay_currency p \<or> \<not> allocations_valid amount (si_allocations input)))
        (PayableError ''PAYMENT_CAPTURE_INVALID'')))))"

section \<open>Settling under the lock\<close>

definition requireCapability :: "bool \<Rightarrow> 'a option \<Rightarrow> ('w, 'a) io" where
  "requireCapability has operation = (case operation of
      Some f \<Rightarrow> if has then ret f else throw (PayableError ''PROVIDER_CAPABILITY_NOT_SUPPORTED'')
    | None \<Rightarrow> throw (PayableError ''PROVIDER_CAPABILITY_NOT_SUPPORTED''))"

text \<open>The call to the provider: the captured amount and the provider's payment id it answers.\<close>

definition askProvider ::
  "('x pay_db_scheme, 'd) settle_deps \<Rightarrow> string \<Rightarrow> string \<Rightarrow> payment \<Rightarrow> ident \<Rightarrow> settlement \<Rightarrow> settlement_input
    \<Rightarrow> ('x pay_db_scheme, int \<times> ident) io" where
  "askProvider d correlation key p providerPaymentId operation input = (case operation of
     Capture \<Rightarrow>
       andThen (requireCapability (sd_hasCapture d) (sd_capture d)) (\<lambda>capture.
       andThen (liftResult (capture_amount d input p)) (\<lambda>amount.
       andThen (capture \<lparr>cr_providerPaymentId = providerPaymentId, cr_amount = amount,
           cr_allocations = si_allocations input\<rparr> correlation key) (\<lambda>result.
       if sr_status result \<noteq> P_succeeded then throw (PayableError ''PAYMENT_OUTCOME_UNKNOWN'')
       else ret (cash_amount (sr_amount result), sr_providerPaymentId result))))
   | Void \<Rightarrow>
       andThen (requireCapability (sd_hasVoid d) (sd_void d)) (\<lambda>void.
       andThen (void providerPaymentId correlation key) (\<lambda>result.
       if sr_status result \<noteq> P_canceled then throw (PayableError ''PAYMENT_OUTCOME_UNKNOWN'')
       else ret (pay_capturedAmount p, sr_providerPaymentId result))))"

definition next_status :: "settlement \<Rightarrow> payment_status" where
  "next_status operation = (case operation of Capture \<Rightarrow> P_succeeded | Void \<Rightarrow> P_canceled)"

definition storeSettlement ::
  "('x pay_db_scheme, 'd) settle_deps \<Rightarrow> string \<Rightarrow> payment \<Rightarrow> settlement \<Rightarrow> settlement_input \<Rightarrow> int \<Rightarrow> ident
    \<Rightarrow> ('x pay_db_scheme, payment) io" where
  "storeSettlement d correlation p operation input captured providerId = atomically
    (andThen (updateStatusIfUnchanged (pay_id p) P_authorized (\<lambda>q. q\<lparr>pay_status := next_status operation,
        pay_capturedAmount := captured, pay_providerPaymentId := Some providerId\<rparr>) (sd_tenant d)) (\<lambda>updated.
     andThen (guardE updated (PayableError ''PAYMENT_LIFECYCLE_CONFLICT'')) (\<lambda>_.
     andThen (findPayment (pay_id p) (sd_tenant d)) (\<lambda>found. case found of
       None \<Rightarrow> throw (PayableError ''PAYMENT_NOT_FOUND'')
     | Some current \<Rightarrow>
         andThen (sd_audit d (settlement_evidence_of input
             (case operation of Capture \<Rightarrow> ''payment.captured'' | Void \<Rightarrow> ''payment.voided'') correlation
             p (pay_status p) (pay_status current) (Some (pay_capturedAmount current)))) (\<lambda>_.
         ret current)))))"

definition finishSettlement ::
  "('x pay_db_scheme, 'd) settle_deps \<Rightarrow> string \<Rightarrow> payment \<Rightarrow> settlement \<Rightarrow> settlement_input \<Rightarrow> int \<Rightarrow> ident
    \<Rightarrow> ('x pay_db_scheme, payment) io" where
  "finishSettlement d correlation p operation input captured providerId =
    andThen (storeSettlement d correlation p operation input captured providerId) (\<lambda>settled.
    andThen (liftResult (cash_of (sd_dinero d)
        (case operation of Capture \<Rightarrow> captured | Void \<Rightarrow> pay_amount p) (pay_currency p))) (\<lambda>amount.
    andThen (readState idem_now) (\<lambda>now.
    andThen (sd_emit d \<lparr>sv_operation = operation, sv_paymentId = pay_id p,
        sv_customerId = pay_customerId p, sv_amount = amount, sv_correlation = correlation,
        sv_occurredAt = now\<rparr>) (\<lambda>_.
    ret settled))))"

definition mutateAuthorization ::
  "('x pay_db_scheme, 'd) settle_deps \<Rightarrow> string \<Rightarrow> ident \<Rightarrow> settlement \<Rightarrow> settlement_input \<Rightarrow> string
    \<Rightarrow> ('x pay_db_scheme, payment) io" where
  "mutateAuthorization d correlation paymentId operation input key =
    andThen (guardE (sd_hasStorage d) (PayableError ''PAYMENT_STORAGE_REQUIRED'')) (\<lambda>_.
    andThen (findPayment paymentId (sd_tenant d)) (\<lambda>found.
    case Option.bind found (\<lambda>p. map_option (Pair p) (pay_providerPaymentId p)) of
      None \<Rightarrow> throw (PayableError ''PAYMENT_NOT_FOUND'')
    | Some (p, providerPaymentId) \<Rightarrow>
        if providerPaymentId = [] then throw (PayableError ''PAYMENT_NOT_FOUND'') else
        andThen (validateSettlement d correlation p operation input True) (\<lambda>_.
        andThen (askProvider d correlation key p providerPaymentId operation input) (\<lambda>(captured, providerId).
        finishSettlement d correlation p operation input captured providerId))))"

section \<open>The action\<close>

definition operation_name :: "settlement \<Rightarrow> string" where
  "operation_name operation = (case operation of Capture \<Rightarrow> ''capture'' | Void \<Rightarrow> ''void'')"

definition settlement_key :: "('w, 'd) settle_deps \<Rightarrow> payment \<Rightarrow> ident \<Rightarrow> settlement \<Rightarrow> settlement_input \<Rightarrow> error + string" where
  "settlement_key d p providerPaymentId operation input = key_of (join_colon [operation_name operation,
     tenantSegment (sd_tenant d), segment (or_else (pay_provider p) []), segment providerPaymentId,
     segment (si_reference input)])"

definition settlement_native :: "('w, 'd) settle_deps \<Rightarrow> settlement \<Rightarrow> bool" where
  "settlement_native d operation = (case operation of
      Capture \<Rightarrow> sd_capture d \<noteq> None \<and> sd_captureNative d | Void \<Rightarrow> sd_void d \<noteq> None \<and> sd_voidNative d)"

definition settlement_execution ::
  "('x pay_db_scheme, 'd) settle_deps \<Rightarrow> payment \<Rightarrow> ident \<Rightarrow> settlement \<Rightarrow> settlement_input \<Rightarrow> string \<Rightarrow> string \<Rightarrow> ident
    \<Rightarrow> ('x pay_db_scheme, stored option) io \<Rightarrow> ('x pay_db_scheme, stored) idem_execution" where
  "settlement_execution d initial providerPaymentId operation input key token paymentId run =
    \<lparr>ex_key = key, ex_storageKey = Some (join_colon [''payment-lifecycle'', tenantSegment (sd_tenant d),
       segment (or_else (pay_provider initial) []), segment providerPaymentId]),
     ex_legacyStorageKeys = [], ex_scope = ''payment'', ex_operation = operation_name operation,
     ex_requestHash = sd_hash d (paymentId, operation, input), ex_resourceType = Some ''payment'',
     ex_resourceId = Some paymentId, ex_tenant = sd_tenant d,
     ex_retryFailed = Some (settlement_native d operation), ex_reclaimStaleProcessing = None,
     ex_lockTtl = None, ex_reconciliationRequired = \<not> settlement_native d operation,
     ex_isFailureOutcomeUncertain = None, ex_token = token, ex_run = run,
     ex_revive = Some (\<lambda>response. andThen (findPayment paymentId (sd_tenant d)) (\<lambda>found.
         ret (case found of Some p \<Rightarrow> Some (S_payment p) | None \<Rightarrow> response)))\<rparr>"

definition settleAuthorization ::
  "('x pay_db_scheme, 'd) settle_deps \<Rightarrow> string \<Rightarrow> string \<Rightarrow> ident \<Rightarrow> settlement \<Rightarrow> settlement_input
    \<Rightarrow> ('x pay_db_scheme, stored option) io" where
  "settleAuthorization d correlation token paymentId operation input =
    andThen (assertAuthorized (sd_authorizationEnabled d) (si_authorization input)) (\<lambda>_.
    andThen (guardE (sd_hasStorage d) (PayableError ''PAYMENT_STORAGE_REQUIRED'')) (\<lambda>_.
    case sd_idempotency d of None \<Rightarrow> throw (PayableError ''PAYMENT_IDEMPOTENCY_REQUIRED'') | Some config \<Rightarrow>
    (case sd_withLock d of None \<Rightarrow> throw (PayableError ''PAYMENT_DISTRIBUTED_LOCK_REQUIRED'') | Some withLock \<Rightarrow>
    andThen (findPayment paymentId (sd_tenant d)) (\<lambda>found.
    case Option.bind found (\<lambda>p. map_option (Pair p) (pay_providerPaymentId p)) of
      None \<Rightarrow> throw (PayableError ''PAYMENT_NOT_FOUND'')
    | Some (initial, providerPaymentId) \<Rightarrow>
        if providerPaymentId = [] then throw (PayableError ''PAYMENT_NOT_FOUND'') else
        andThen (case operation of
            Capture \<Rightarrow> andThen (requireCapability (sd_hasCapture d) (sd_capture d)) (\<lambda>_. ret ())
          | Void \<Rightarrow> andThen (requireCapability (sd_hasVoid d) (sd_void d)) (\<lambda>_. ret ())) (\<lambda>_.
        andThen (validateSettlement d correlation initial operation input False) (\<lambda>_.
        andThen (liftResult (settlement_key d initial providerPaymentId operation input)) (\<lambda>key.
        execute (knex_idem_store (sd_json d)) idem_now config
          (settlement_execution d initial providerPaymentId operation input key token paymentId
            (withLock (join_colon [''payment-lifecycle'', or_else (sd_tenant d) [], or_else (pay_provider initial) ''null'',
                providerPaymentId])
              (andThen (mutateAuthorization d correlation paymentId operation input key) (\<lambda>p.
               ret (Some (S_payment p)))))))))))))"

section \<open>What the provider is asked\<close>

definition valid_settlement :: "tenant \<Rightarrow> ident \<Rightarrow> ident \<Rightarrow> 'x pay_db_scheme \<Rightarrow> payment option" where
  "valid_settlement t i providerId w = (case find (scopedPayment i t) (payments w) of
      None \<Rightarrow> None
    | Some p \<Rightarrow> if pay_status p = P_authorized \<and> \<not> authorization_expired (idem_now w) p
        \<and> pay_providerPaymentId p = Some providerId then Some p else None)"

definition valid_capture :: "tenant \<Rightarrow> ident \<Rightarrow> capture_request \<Rightarrow> 'x pay_db_scheme \<Rightarrow> bool" where
  "valid_capture t i r w \<longleftrightarrow> (case valid_settlement t i (cr_providerPaymentId r) w of
      None \<Rightarrow> False
    | Some p \<Rightarrow> 0 < cash_amount (cr_amount r) \<and> cash_amount (cr_amount r) \<le> pay_amount p
        \<and> cash_code (cr_amount r) = pay_currency p \<and> allocations_valid (cr_amount r) (cr_allocations r))"

text \<open>A provider that refuses, with an error of its own, every request that is not valid.\<close>

definition guarded_capture where
  "guarded_capture t i f = (\<lambda>r c k w. if valid_capture t i r w then f r c k w else (Inl (ForeignError ''refused''), w))"

definition guarded_void where
  "guarded_void t i f = (\<lambda>r c k w. if valid_settlement t i r w \<noteq> None then f r c k w else (Inl (ForeignError ''refused''), w))"

definition guarded_deps :: "ident \<Rightarrow> ('x pay_db_scheme, 'd) settle_deps \<Rightarrow> ('x pay_db_scheme, 'd) settle_deps" where
  "guarded_deps i d = d\<lparr>sd_capture := map_option (guarded_capture (sd_tenant d) i) (sd_capture d),
     sd_void := map_option (guarded_void (sd_tenant d) i) (sd_void d)\<rparr>"

lemma guarded_deps_simps [simp]:
  "sd_tenant (guarded_deps i d) = sd_tenant d" "sd_dinero (guarded_deps i d) = sd_dinero d"
  "sd_audit (guarded_deps i d) = sd_audit d" "sd_emit (guarded_deps i d) = sd_emit d"
  "sd_hasStorage (guarded_deps i d) = sd_hasStorage d" "sd_idempotency (guarded_deps i d) = sd_idempotency d"
  "sd_json (guarded_deps i d) = sd_json d" "sd_hash (guarded_deps i d) = sd_hash d"
  "sd_withLock (guarded_deps i d) = sd_withLock d" "sd_hasCapture (guarded_deps i d) = sd_hasCapture d"
  "sd_hasVoid (guarded_deps i d) = sd_hasVoid d" "sd_captureNative (guarded_deps i d) = sd_captureNative d"
  "sd_voidNative (guarded_deps i d) = sd_voidNative d"
  "sd_authorizationEnabled (guarded_deps i d) = sd_authorizationEnabled d"
  "sd_capture (guarded_deps i d) = map_option (guarded_capture (sd_tenant d) i) (sd_capture d)"
  "sd_void (guarded_deps i d) = map_option (guarded_void (sd_tenant d) i) (sd_void d)"
  by (simp_all add: guarded_deps_def)

lemma guarded_same [simp]:
  "capture_amount (guarded_deps i d) = capture_amount d"
  "expireAuthorization (guarded_deps i d) = expireAuthorization d"
  "validateSettlement (guarded_deps i d) = validateSettlement d"
  "storeSettlement (guarded_deps i d) = storeSettlement d"
  "finishSettlement (guarded_deps i d) = finishSettlement d"
  "settlement_key (guarded_deps i d) = settlement_key d"
  "settlement_native (guarded_deps i d) = settlement_native d"
  "settlement_execution (guarded_deps i d) = settlement_execution d"
proof -
  show a: "capture_amount (guarded_deps i d) = capture_amount d"
    by (intro ext) (unfold capture_amount_def guarded_deps_simps, rule refl)
  show e: "expireAuthorization (guarded_deps i d) = expireAuthorization d"
    by (intro ext) (unfold expireAuthorization_def guarded_deps_simps, rule refl)
  show "validateSettlement (guarded_deps i d) = validateSettlement d"
    by (intro ext) (unfold validateSettlement_def a e, rule refl)
  show st: "storeSettlement (guarded_deps i d) = storeSettlement d"
    by (intro ext) (unfold storeSettlement_def guarded_deps_simps, rule refl)
  show "finishSettlement (guarded_deps i d) = finishSettlement d"
    by (intro ext) (unfold finishSettlement_def guarded_deps_simps st, rule refl)
  show "settlement_key (guarded_deps i d) = settlement_key d"
    by (intro ext) (unfold settlement_key_def guarded_deps_simps, rule refl)
  show n: "settlement_native (guarded_deps i d) = settlement_native d"
    by (intro ext) (simp add: settlement_native_def split: settlement.split)
  show "settlement_execution (guarded_deps i d) = settlement_execution d"
    by (intro ext) (unfold settlement_execution_def guarded_deps_simps n, rule refl)
qed

lemma validateSettlement_ok:
  assumes "validateSettlement d c p operation input True w = (Inr (), w')"
  shows "w' = w" and "pay_status p = P_authorized" and "\<not> authorization_expired (idem_now w) p"
    and "operation = Capture \<Longrightarrow> \<exists>amount. capture_amount d input p = Inr amount \<and> 0 < cash_amount amount
      \<and> cash_amount amount \<le> pay_amount p \<and> cash_code amount = pay_currency p
      \<and> allocations_valid amount (si_allocations input)"
proof -
  have "authorization_expired (idem_now w) p \<Longrightarrow> False"
    using assms by (auto simp: validateSettlement_def andThen_guardE expireAuthorization_def andThen_Inr_iff split: if_splits)
  moreover from this assms show "pay_status p = P_authorized"
    by (auto simp: validateSettlement_def andThen_guardE split: if_splits)
  ultimately show "w' = w" "\<not> authorization_expired (idem_now w) p"
    "operation = Capture \<Longrightarrow> \<exists>amount. capture_amount d input p = Inr amount \<and> 0 < cash_amount amount
      \<and> cash_amount amount \<le> pay_amount p \<and> cash_code amount = pay_currency p
      \<and> allocations_valid amount (si_allocations input)"
    using assms
    by (auto simp: validateSettlement_def andThen_guardE andThen_liftResult guardE_apply split: if_splits sum.splits)
qed

lemma askProvider_guarded:
  assumes "find (scopedPayment i (sd_tenant d)) (payments w) = Some p" and "pay_providerPaymentId p = Some pid"
    and "validateSettlement d c p operation input True w = (Inr (), w)"
  shows "askProvider (guarded_deps i d) c key p pid operation input w = askProvider d c key p pid operation input w"
proof -
  note ok = validateSettlement_ok [OF assms(3)]
  have valid: "valid_settlement (sd_tenant d) i pid w = Some p"
    using assms(1,2) ok by (simp add: valid_settlement_def)
  show ?thesis
  proof (cases operation)
    case Capture
    with ok(4) obtain amount where amount: "capture_amount d input p = Inr amount" "0 < cash_amount amount"
        "cash_amount amount \<le> pay_amount p" "cash_code amount = pay_currency p"
        "allocations_valid amount (si_allocations input)" by blast
    with Capture valid show ?thesis
      by (cases "sd_capture d"; cases "sd_hasCapture d")
        (simp_all add: askProvider_def requireCapability_def andThen_liftResult,
          simp add: andThen_def guarded_capture_def valid_capture_def)
  next
    case Void
    with valid show ?thesis
      by (cases "sd_void d"; cases "sd_hasVoid d")
        (simp_all add: askProvider_def requireCapability_def, simp add: andThen_def guarded_void_def)
  qed
qed

lemma mutate_guarded:
  "mutateAuthorization (guarded_deps i d) c i operation input key = mutateAuthorization d c i operation input key"
proof
  fix w
  show "mutateAuthorization (guarded_deps i d) c i operation input key w = mutateAuthorization d c i operation input key w"
  proof (cases "find (scopedPayment i (sd_tenant d)) (payments w)")
    case None
    then show ?thesis by (simp add: mutateAuthorization_def andThen_guardE table_andThen)
  next
    case (Some p)
    show ?thesis
    proof (cases "pay_providerPaymentId p")
      case None
      with Some show ?thesis by (simp add: mutateAuthorization_def andThen_guardE table_andThen)
    next
      case (Some pid)
      obtain r w1 where check: "validateSettlement d c p operation input True w = (r, w1)"
        by (cases "validateSettlement d c p operation input True w")
      let ?f = "\<lambda>(captured, providerId). finishSettlement d c p operation input captured providerId"
      have "andThen (validateSettlement d c p operation input True) (\<lambda>_. andThen (askProvider (guarded_deps i d) c key p pid operation input) ?f) w
          = andThen (validateSettlement d c p operation input True) (\<lambda>_. andThen (askProvider d c key p pid operation input) ?f) w"
      proof (cases r)
        case (Inr u)
        with check validateSettlement_ok(1) [of d c p operation input w w1]
          askProvider_guarded [OF \<open>find _ _ = Some p\<close> Some] show ?thesis by (simp add: andThen_def)
      qed (use check in \<open>simp add: andThen_def\<close>)
      with \<open>find _ _ = Some p\<close> Some show ?thesis
        by (simp add: mutateAuthorization_def andThen_guardE table_andThen)
    qed
  qed
qed

lemma require_guarded:
  "andThen (requireCapability b (map_option g x)) (\<lambda>_. ret ()) = andThen (requireCapability b x) (\<lambda>_. ret ())"
  by (simp add: requireCapability_def split: option.split)

text \<open>
  C27. The provider is only ever asked to settle what may be settled: a provider that refuses
  every capture or void of a payment that is not authorized now, is past its expiry, has
  another provider id or, for a capture, whose amount is not positive, exceeds the payment,
  is in another currency or does not equal the sum of its well-formed allocations, makes no
  difference to the action, in any state and for any lock driver.
\<close>

theorem settlement_requests_valid:
  "settleAuthorization (guarded_deps i d) correlation token i operation input
    = settleAuthorization d correlation token i operation input"
  unfolding settleAuthorization_def guarded_deps_simps guarded_same mutate_guarded require_guarded ..

section \<open>The ledger\<close>

lemma status_update_ledger:
  assumes ok: "ledger_ok w" and f: "\<And>p. pay_id (f p) = pay_id p" "\<And>p. pay_amount (f p) = pay_amount p"
      "\<And>p. pay_refundedAmount (f p) = pay_refundedAmount p" "\<And>p. pay_status (f p) \<in> {P_succeeded, P_canceled, P_failed}"
  shows "ledger_ok (snd (updateStatusIfUnchanged i P_authorized f t w))"
proof -
  let ?P = "\<lambda>p. scopedPayment i t p \<and> pay_status p = P_authorized"
  let ?g = "\<lambda>p. if ?P p then (f p)\<lparr>pay_updatedAt := idem_now w\<rparr> else p"
  have ids: "map pay_id (map ?g (payments w)) = map pay_id (payments w)" using f(1) by simp
  have "status_matches (?g p) \<and> pay_refundedAmount (?g p) \<le> pay_amount (?g p)
      \<and> pay_refundedAmount (?g p) = refunded_total (pay_id (?g p)) (refunds w)" if "p \<in> set (payments w)" for p
  proof (cases "?P p")
    case True
    then have "pay_refundedAmount p = 0" using ok that by (auto simp: ledger_ok_def status_matches_def)
    with True ok that f(1-3) f(4) [of p] show ?thesis
      by (auto simp: ledger_ok_def status_matches_def split: payment_status.split)
  qed (use ok that in \<open>auto simp: ledger_ok_def\<close>)
  then have "\<forall>p \<in> set (map ?g (payments w)). pay_refundedAmount p = refunded_total (pay_id p) (refunds w)
      \<and> pay_refundedAmount p \<le> pay_amount p \<and> status_matches p"
    by (simp only: set_map ball_simps(9)) blast
  moreover have "distinct (map pay_id (map ?g (payments w)))" using ledger_okD(1) [OF ok] ids by (simp only:)
  moreover define ps where "ps = map ?g (payments w)"
  moreover have "payments (w\<lparr>payments := ps\<rparr>) = ps" "refunds (w\<lparr>payments := ps\<rparr>) = refunds w" by simp_all
  ultimately have "ledger_ok (w\<lparr>payments := map ?g (payments w)\<rparr>)"
    using ledger_okD(2,3) [OF ok] unfolding ledger_ok_def by (simp only:)
  then show ?thesis by (simp only: updateStatusIfUnchanged_def updatePaymentsWhere_def snd_conv)
qed

lemma status_update_preserves:
  "(\<And>p. pay_id (f p) = pay_id p) \<Longrightarrow> (\<And>p. pay_amount (f p) = pay_amount p) \<Longrightarrow>
   (\<And>p. pay_refundedAmount (f p) = pay_refundedAmount p) \<Longrightarrow> (\<And>p. pay_status (f p) \<in> {P_succeeded, P_canceled, P_failed}) \<Longrightarrow>
   preserves ledger_ok (updateStatusIfUnchanged i P_authorized f t)"
  by (rule preservesI) (rule status_update_ledger)

lemma preserves_settlement [preserves_rules]:
  "preserves I m \<Longrightarrow> preserves I n \<Longrightarrow> preserves I (case s of Capture \<Rightarrow> m | Void \<Rightarrow> n)"
  by (cases s) simp_all

lemma findPayment_preserves [preserves_rules]: "preserves I (findPayment i t)"
  unfolding findPayment_def by (rule preserves_readState)

lemma requireCapability_preserves [preserves_rules]: "preserves I (requireCapability b x)"
  unfolding requireCapability_def by (intro preserves_rules)

lemma mutateAuthorization_preserves:
  assumes cap: "\<And>f r c k. sd_capture d = Some f \<Longrightarrow> preserves ledger_ok (f r c k)"
    and void: "\<And>f r c k. sd_void d = Some f \<Longrightarrow> preserves ledger_ok (f r c k)"
    and audit: "\<And>e. preserves ledger_ok (sd_audit d e)" and emit: "\<And>e. preserves ledger_ok (sd_emit d e)"
  shows "preserves ledger_ok (mutateAuthorization d c i operation input key)"
proof -
  have validate: "preserves ledger_ok (validateSettlement d c p operation input True)" for p
    unfolding validateSettlement_def expireAuthorization_def
    by (intro preserves_rules status_update_preserves audit) simp_all
  have finish: "preserves ledger_ok (finishSettlement d c p operation input captured providerId)" for p captured providerId
    unfolding finishSettlement_def storeSettlement_def
    by (intro preserves_rules status_update_preserves audit emit) (simp_all add: next_status_def split: settlement.split)
  have ask: "preserves ledger_ok (askProvider d c key p pid operation input)" for p pid
  proof (cases operation)
    case Capture
    show ?thesis
    proof (cases "sd_capture d")
      case None
      then show ?thesis by (simp add: Capture askProvider_def requireCapability_def preserves_throw)
    next
      case (Some f)
      then have "preserves ledger_ok (f r c' k)" for r c' k by (rule cap)
      with Some show ?thesis unfolding askProvider_def Capture settlement.case requireCapability_def option.case
        by (cases "sd_hasCapture d") (auto intro!: preserves_rules)
    qed
  next
    case Void
    show ?thesis
    proof (cases "sd_void d")
      case None
      then show ?thesis by (simp add: Void askProvider_def requireCapability_def preserves_throw)
    next
      case (Some f)
      then have "preserves ledger_ok (f r c' k)" for r c' k by (rule void)
      with Some show ?thesis unfolding askProvider_def Void settlement.case requireCapability_def option.case
        by (cases "sd_hasVoid d") (auto intro!: preserves_rules)
    qed
  qed
  show ?thesis
    unfolding mutateAuthorization_def by (intro preserves_rules validate finish ask)
qed

text \<open>
  C28. Capturing and voiding keep the ledger on every path, when the provider, the lock driver,
  the audit log and the event bus do: whatever the provider answers or throws and whatever
  it or other clients did to the tables meanwhile.
\<close>

theorem settleAuthorization_keeps_ledger:
  assumes ok: "ledger_ok w"
    and cap: "\<And>f r c k. sd_capture d = Some f \<Longrightarrow> preserves ledger_ok (f r c k)"
    and void: "\<And>f r c k. sd_void d = Some f \<Longrightarrow> preserves ledger_ok (f r c k)"
    and lock: "\<And>f k m. sd_withLock d = Some f \<Longrightarrow> preserves ledger_ok m \<Longrightarrow> preserves ledger_ok (f k m)"
    and audit: "\<And>e. preserves ledger_ok (sd_audit d e)" and emit: "\<And>e. preserves ledger_ok (sd_emit d e)"
  shows "ledger_ok (snd (settleAuthorization d correlation token i operation input w))"
proof -
  have mutate: "preserves ledger_ok (mutateAuthorization d correlation i operation input key)" for key
    by (rule mutateAuthorization_preserves) (fact cap void audit emit)+
  have validate: "preserves ledger_ok (validateSettlement d correlation p operation input False)" for p
    unfolding validateSettlement_def expireAuthorization_def
    by (intro preserves_rules status_update_preserves audit) simp_all
  have exec: "preserves ledger_ok (execute (knex_idem_store (sd_json d)) idem_now config
      (settlement_execution d p pid operation input key token i
        (withLock name (andThen (mutateAuthorization d correlation i operation input key) (\<lambda>p. ret (Some (S_payment p)))))))"
    if "sd_withLock d = Some withLock" for config p pid key withLock name
    unfolding leads_preserves [symmetric]
  proof (rule execute_leads [OF blind_ledger(1,1)])
    show "preserves ledger_ok (f v)"
      if "ex_revive (settlement_execution d p pid operation input key token i m) = Some f" for f v m
      using that by (auto simp: settlement_execution_def intro!: preserves_andThen findPayment_preserves)
    have "preserves ledger_ok (withLock name (andThen (mutateAuthorization d correlation i operation input key)
        (\<lambda>p. ret (Some (S_payment p)))))"
      by (rule lock [OF that]) (intro preserves_rules mutate)
    then show "leads ledger_ok (ex_run (settlement_execution d p pid operation input key token i
        (withLock name (andThen (mutateAuthorization d correlation i operation input key) (\<lambda>p. ret (Some (S_payment p))))))) ledger_ok"
      by (simp add: settlement_execution_def leads_preserves)
  qed simp
  have "preserves ledger_ok (settleAuthorization d correlation token i operation input)"
    unfolding settleAuthorization_def assertAuthorized_def
    by (intro preserves_rules validate exec)
  then show ?thesis using ok by (rule preservesD)
qed

lemma updateStatus_eq:
  assumes ok: "ledger_ok w" and p: "find (scopedPayment i t) (payments w) = Some p" and s: "pay_status p = st"
  shows "updateStatusIfUnchanged i st f t w
    = (Inr True, w\<lparr>payments := map (\<lambda>q. if q = p then (f p)\<lparr>pay_updatedAt := idem_now w\<rparr> else q) (payments w)\<rparr>)"
proof -
  note p' = find_payment_unique [OF ok p]
  have same: "scopedPayment i t q \<longleftrightarrow> q = p" if "q \<in> set (payments w)" for q
    using find_SomeD [OF p] p'(4) [OF that] by (auto simp: scopedPayment_def)
  have "map (\<lambda>q. if scopedPayment i t q \<and> pay_status q = st then (f q)\<lparr>pay_updatedAt := idem_now w\<rparr> else q) (payments w)
      = map (\<lambda>q. if q = p then (f p)\<lparr>pay_updatedAt := idem_now w\<rparr> else q) (payments w)"
    using same s by (intro map_cong) auto
  moreover have "\<exists>q \<in> set (payments w). scopedPayment i t q \<and> pay_status q = st"
    using p'(1) same s by blast
  ultimately show ?thesis unfolding updateStatusIfUnchanged_def updatePaymentsWhere_def by (simp only: simp_thms)
qed

text \<open>
  An authorization that expired is never settled: the first attempt marks the payment
  failed, touches nothing else and is refused with the expiry error, whatever the provider,
  and every later attempt finds it not authorized and changes nothing.
\<close>

theorem expired_authorization_fails:
  assumes ok: "ledger_ok w" and p: "find (scopedPayment i (sd_tenant d)) (payments w) = Some p"
    and ids: "pay_providerPaymentId p = Some pid" "pid \<noteq> []"
    and expired: "pay_status p = P_authorized" "authorization_expired (idem_now w) p"
    and input: "sd_hasStorage d" "trim (si_reference input) \<noteq> []" and audit: "\<And>e v. sd_audit d e v = (Inr (), v)"
  shows "\<exists>w'. mutateAuthorization d c i operation input key w = (Inl (PayableError ''PAYMENT_AUTHORIZATION_EXPIRED''), w')
    \<and> payments w' = map (\<lambda>q. if q = p then p\<lparr>pay_status := P_failed, pay_updatedAt := idem_now w\<rparr> else q) (payments w)
    \<and> refunds w' = refunds w \<and> ledger_ok w'
    \<and> mutateAuthorization d c i operation' input key w' = (Inl (PayableError ''PAYMENT_NOT_AUTHORIZED''), w')"
proof -
  let ?p = "p\<lparr>pay_status := P_failed, pay_updatedAt := idem_now w\<rparr>"
  define w' where "w' = w\<lparr>payments := map (\<lambda>q. if q = p then ?p else q) (payments w)\<rparr>"
  note p' = find_payment_unique [OF ok p]
  have upd: "updateStatusIfUnchanged i P_authorized (\<lambda>q. q\<lparr>pay_status := P_failed\<rparr>) (sd_tenant d) w = (Inr True, w')"
    using updateStatus_eq [OF ok p expired(1), of "\<lambda>q. q\<lparr>pay_status := P_failed\<rparr>"] by (simp add: w'_def)
  have "expireAuthorization d input c p w = (Inl (PayableError ''PAYMENT_AUTHORIZATION_EXPIRED''), w')"
    using p'(2) by (simp add: expireAuthorization_def andThen_def upd audit)
  then have "validateSettlement d c p operation input True w = (Inl (PayableError ''PAYMENT_AUTHORIZATION_EXPIRED''), w')"
    using expired input by (simp add: validateSettlement_def andThen_guardE)
  then have run: "mutateAuthorization d c i operation input key w = (Inl (PayableError ''PAYMENT_AUTHORIZATION_EXPIRED''), w')"
    using p ids input(1) by (simp add: mutateAuthorization_def andThen_guardE table_andThen andThen_Inl)
  have ok': "ledger_ok w'"
    using status_update_ledger [OF ok, of "\<lambda>q. q\<lparr>pay_status := P_failed\<rparr>" i "sd_tenant d"] upd by simp
  have "?p \<in> set (payments w')" using p'(1) by (auto simp: w'_def intro!: image_eqI [of _ _ p])
  then have "find (scopedPayment i (sd_tenant d)) (payments w') = Some ?p"
    using find_payment_found [OF ok', of ?p i "sd_tenant d"] p'(2,3) by (simp add: findPayment_def)
  moreover have "validateSettlement d c ?p operation' input True w' = (Inl (PayableError ''PAYMENT_NOT_AUTHORIZED''), w')"
    using input by (simp add: validateSettlement_def andThen_guardE)
  ultimately have "mutateAuthorization d c i operation' input key w' = (Inl (PayableError ''PAYMENT_NOT_AUTHORIZED''), w')"
    using ids input(1) by (simp add: mutateAuthorization_def andThen_guardE table_andThen andThen_Inl)
  with run ok' show ?thesis by (simp add: w'_def)
qed

section \<open>Examples\<close>

definition example_settle_deps :: "(pay_db, int \<times> nat \<times> string) settle_deps" where
  "example_settle_deps = \<lparr>sd_authorizationEnabled = False, sd_tenant = Some ''t'', sd_hasStorage = True,
     sd_idempotency = Some (idem_configure \<lparr>opt_lockTtl = None, opt_retryFailed = None, opt_completedTtl = None, opt_failedTtl = None\<rparr>),
     sd_json = id, sd_hash = (\<lambda>_. []), sd_withLock = Some (\<lambda>k m. m), sd_dinero = example_dinero,
     sd_hasCapture = True, sd_capture = Some (\<lambda>r c k. ret \<lparr>sr_providerPaymentId = cr_providerPaymentId r,
       sr_status = P_succeeded, sr_amount = cr_amount r\<rparr>), sd_captureNative = False,
     sd_hasVoid = False, sd_void = None, sd_voidNative = False, sd_audit = (\<lambda>_. ret ()), sd_emit = (\<lambda>_. ret ())\<rparr>"

definition example_capture :: "int \<Rightarrow> settlement_input" where
  "example_capture n = \<lparr>si_amount = Some \<lparr>cash_amount = n, cash_code = ''USD''\<rparr>, si_allocations = None,
     si_reference = ''order-1'', si_authorization = None\<rparr>"

lemma example_authorized_ledger: "ledger_ok (example_pay_db [example_payment P_authorized 0] [])"
  by (simp add: ledger_ok_def example_pay_db_def example_payment_def status_matches_def)

theorem settleAuthorization_keeps_ledger_witness:
  "let w = snd (settleAuthorization example_settle_deps ''c'' ''t'' ''p1'' Capture (example_capture 40)
        (example_pay_db [example_payment P_authorized 0] []))
   in ledger_ok w \<and> map pay_status (payments w) = [P_succeeded] \<and> map pay_capturedAmount (payments w) = [40]"
proof -
  let ?w = "snd (settleAuthorization example_settle_deps ''c'' ''t'' ''p1'' Capture (example_capture 40)
        (example_pay_db [example_payment P_authorized 0] []))"
  have "ledger_ok ?w"
    by (rule settleAuthorization_keeps_ledger [OF example_authorized_ledger])
      (auto simp: example_settle_deps_def intro: preserves_ret)
  moreover have "map pay_status (payments ?w) = [P_succeeded] \<and> map pay_capturedAmount (payments ?w) = [40]"
    by code_simp
  ultimately show ?thesis by (simp add: Let_def)
qed

theorem expired_authorization_fails_witness:
  "fst (mutateAuthorization example_settle_deps ''c'' ''p1'' Capture (example_capture 40) ''k''
      (example_pay_db [(example_payment P_authorized 0)\<lparr>pay_authorizationExpiresAt := Some 5\<rparr>] []))
    = Inl (PayableError ''PAYMENT_AUTHORIZATION_EXPIRED'')"
proof -
  let ?p = "(example_payment P_authorized 0)\<lparr>pay_authorizationExpiresAt := Some 5\<rparr>"
  have "ledger_ok (example_pay_db [?p] [])"
    by (simp add: ledger_ok_def example_pay_db_def example_payment_def status_matches_def)
  from expired_authorization_fails [OF this, of "''p1''" example_settle_deps ?p "''pi_1''" "example_capture 40"
      "''c''" Capture "''k''" Capture]
  show ?thesis
    by (auto simp: example_pay_db_def example_payment_def example_settle_deps_def example_capture_def
        scopedPayment_def tenantMatches_def authorization_expired_def trim_def is_space_def of_char_def)
qed

text \<open>
  The refund limit is the authorized amount, not the captured one: after an authorization
  of 100 was captured for 40, a refund of 100 is reserved, asked of the provider and, when
  the provider accepts it, recorded, so that more is refunded than was taken.
\<close>

theorem partial_capture_over_refund:
  "let w1 = snd (settleAuthorization example_settle_deps ''c'' ''t'' ''p1'' Capture (example_capture 40)
         (example_pay_db [example_payment P_authorized 0] []));
       w2 = snd (refundPayment (example_deps accepted) (\<lambda>_ v. v) (\<lambda>_. ''r1'') ''c'' ''k'' (example_refund_input 100) w1)
   in map pay_capturedAmount (payments w1) = [40] \<and> map pay_status (payments w1) = [P_succeeded]
    \<and> map pay_refundedAmount (payments w2) = [100] \<and> map pay_capturedAmount (payments w2) = [40]
    \<and> map ref_status (refunds w2) = [R_succeeded]"
  by code_simp

end
