(* ===== verification/Charges.thy ===== *)
theory Charges
  imports Settlement
begin

text \<open>
  \<open>application/actions/payments/charge.action.ts\<close> and \<open>authorize-payment.action.ts\<close>: taking
  a payment through the provider, at once or as an authorization to be captured later. The
  provider's calls, the synchronisation of the customer, the customers table, the audit log and
  the event bus are given actions on the state; ids of new rows, correlation ids, the nonce of a
  charge without reference and the lock token are arguments. \<open>providerData\<close> is opaque text.
\<close>

record billable =
  bl_type :: string
  bl_id :: string

record charge_input =
  ci_billable :: billable
  ci_amount :: cash
  ci_reference :: "string option"
  ci_description :: "string option"
  ci_paymentMethodId :: "string option"
  ci_offSession :: "bool option"
  ci_providerData :: "string option"
  ci_authorization :: "authorization_context option"

record charge_request =
  cq_providerCustomerId :: ident
  cq_amount :: cash
  cq_reference :: "string option"
  cq_description :: "string option"
  cq_paymentMethodId :: "string option"
  cq_offSession :: "bool option"
  cq_providerData :: "string option"

record charge_result =
  ch_providerPaymentId :: ident
  ch_status :: payment_status
  ch_amount :: cash

text \<open>What the request hash of a charge covers.\<close>

record charge_body =
  cb_billable :: billable
  cb_reference :: string
  cb_amount :: cash
  cb_paymentMethodId :: "string option"
  cb_offSession :: bool
  cb_fingerprint :: "string option"

record authorize_input =
  ai_billable :: billable
  ai_amount :: cash
  ai_reference :: string
  ai_description :: "string option"
  ai_paymentMethodId :: "string option"
  ai_successUrl :: "string option"
  ai_cancelUrl :: "string option"
  ai_providerData :: "string option"
  ai_authorization :: "authorization_context option"

record authorize_request =
  aq_providerCustomerId :: ident
  aq_amount :: cash
  aq_reference :: string
  aq_description :: "string option"
  aq_paymentMethodId :: "string option"
  aq_successUrl :: "string option"
  aq_cancelUrl :: "string option"
  aq_providerData :: "string option"

record authorize_result =
  ar_providerPaymentId :: "ident option"
  ar_status :: payment_status
  ar_amount :: cash
  ar_expiresAt :: "instant option"
  ar_checkout :: "checkout_session option"

record authorize_evidence =
  ae_tenant :: tenant
  ae_correlation :: string
  ae_actorType :: "string option"
  ae_actorId :: "string option"
  ae_action :: string
  ae_paymentId :: ident
  ae_status :: payment_status
  ae_expiresAt :: "instant option"
  ae_provider :: "string option"

record authorized_event =
  av_paymentId :: ident
  av_customerId :: "ident option"
  av_amount :: cash
  av_correlation :: string
  av_occurredAt :: instant

text \<open>A capability with its operation, when the provider object has it.\<close>

record 'w charge_deps =
  cd_authorizationEnabled :: bool
  cd_tenant :: tenant
  cd_providerName :: string
  cd_hasStorage :: bool
  cd_idempotency :: "idem_config option"
  cd_json :: "stored \<Rightarrow> stored"
  cd_sync :: "billable \<Rightarrow> ('w, ident) io"
  cd_findByBillable :: "string \<Rightarrow> string \<Rightarrow> tenant \<Rightarrow> ('w, ident option) io"
  cd_hasCharges :: bool
  cd_charge :: "(charge_request \<Rightarrow> string \<Rightarrow> string \<Rightarrow> ('w, charge_result) io) option"
  cd_chargeUnsupported :: bool
  cd_fingerprint :: "(charge_request \<Rightarrow> string option) option"
  cd_isUncertain :: "(error \<Rightarrow> bool) option"
  cd_chargeHash :: "charge_body \<Rightarrow> string"
  cd_hasAuthorize :: bool
  cd_authorize :: "(authorize_request \<Rightarrow> string \<Rightarrow> string \<Rightarrow> ('w, authorize_result) io) option"
  cd_authorizeNative :: bool
  cd_authorizeHash :: "ident \<times> authorize_request \<Rightarrow> string"
  cd_audit :: "authorize_evidence \<Rightarrow> ('w, unit) io"
  cd_emit :: "authorized_event \<Rightarrow> ('w, unit) io"

section \<open>Charging\<close>

definition blank :: "string option \<Rightarrow> bool" where
  "blank v \<longleftrightarrow> (case v of None \<Rightarrow> True | Some s \<Rightarrow> trim s = [])"

definition charge_request_of :: "charge_input \<Rightarrow> ident \<Rightarrow> charge_request" where
  "charge_request_of input providerCustomerId = \<lparr>cq_providerCustomerId = providerCustomerId,
     cq_amount = ci_amount input, cq_reference = ci_reference input, cq_description = ci_description input,
     cq_paymentMethodId = ci_paymentMethodId input, cq_offSession = ci_offSession input,
     cq_providerData = ci_providerData input\<rparr>"

text \<open>A charge without a reference gets one of its own, so that no retry matches it.\<close>

definition dedupReference :: "string \<Rightarrow> charge_input \<Rightarrow> string" where
  "dedupReference nonce input = or_else (ci_reference input) (''nonce:'' @ nonce)"

definition charge_key :: "'w charge_deps \<Rightarrow> string \<Rightarrow> charge_input \<Rightarrow> error + string" where
  "charge_key d nonce input = forCharge \<lparr>kp_tenant = cd_tenant d, kp_provider = cd_providerName d,
     kp_billableType = bl_type (ci_billable input), kp_billableId = bl_id (ci_billable input),
     kp_reference = dedupReference nonce input, kp_amount = JSInt (cash_amount (ci_amount input)),
     kp_currency = cash_code (ci_amount input)\<rparr>"

definition charge_row ::
  "'w charge_deps \<Rightarrow> charge_input \<Rightarrow> ident \<Rightarrow> ident \<Rightarrow> charge_result \<Rightarrow> payment" where
  "charge_row d input newId customer dto = \<lparr>pay_id = newId, pay_tenant = cd_tenant d,
     pay_customerId = Some customer, pay_provider = Some (cd_providerName d),
     pay_providerPaymentId = Some (ch_providerPaymentId dto), pay_status = ch_status dto,
     pay_currency = cash_code (ch_amount dto), pay_amount = cash_amount (ch_amount dto),
     pay_refundedAmount = 0, pay_capturedAmount = 0, pay_authorizedAt = None,
     pay_authorizationExpiresAt = None, pay_reference = ci_reference input,
     pay_description = ci_description input, pay_collectionMethod = None, pay_occurredAt = None,
     pay_externalReference = None, pay_recordedBy = None, pay_createdAt = 0, pay_updatedAt = 0\<rparr>"

text \<open>The call to the provider and the row it leaves; a payment already recorded is returned.\<close>

definition runCharge ::
  "'x pay_db_scheme charge_deps \<Rightarrow> (charge_request \<Rightarrow> string \<Rightarrow> string \<Rightarrow> ('x pay_db_scheme, charge_result) io)
    \<Rightarrow> string \<Rightarrow> ident \<Rightarrow> charge_input \<Rightarrow> ident \<Rightarrow> ident \<Rightarrow> string \<Rightarrow> ('x pay_db_scheme, payment) io" where
  "runCharge d charge correlation newId input providerCustomerId customer key =
    andThen (charge (charge_request_of input providerCustomerId) correlation key) (\<lambda>dto.
    if cash_code (ch_amount dto) \<noteq> cash_code (ci_amount input)
    then throw (PayableError ''PAYMENT_CURRENCY_MISMATCH'')
    else andThen (findPaymentByProviderId (cd_providerName d) (ch_providerPaymentId dto) (cd_tenant d)) (\<lambda>recovered.
      case recovered of
        Some payment \<Rightarrow> ret payment
      | None \<Rightarrow> createPayment (charge_row d input newId customer dto)))"

definition charge_execution ::
  "'x pay_db_scheme charge_deps \<Rightarrow> string \<Rightarrow> string \<Rightarrow> charge_input \<Rightarrow> ident \<Rightarrow> string
    \<Rightarrow> ('x pay_db_scheme, payment) io \<Rightarrow> ('x pay_db_scheme, stored) idem_execution" where
  "charge_execution d nonce key input providerCustomerId token run =
    \<lparr>ex_key = key, ex_storageKey = None, ex_legacyStorageKeys = [], ex_scope = ''payment'',
     ex_operation = ''charge'',
     ex_requestHash = cd_chargeHash d \<lparr>cb_billable = ci_billable input,
       cb_reference = dedupReference nonce input, cb_amount = ci_amount input,
       cb_paymentMethodId = ci_paymentMethodId input, cb_offSession = or_else (ci_offSession input) False,
       cb_fingerprint = (case cd_fingerprint d of None \<Rightarrow> None
          | Some f \<Rightarrow> f (charge_request_of input providerCustomerId))\<rparr>,
     ex_resourceType = Some ''payment'', ex_resourceId = None, ex_tenant = cd_tenant d,
     ex_retryFailed = Some (\<not> cd_chargeUnsupported d), ex_reclaimStaleProcessing = None,
     ex_lockTtl = None, ex_reconciliationRequired = cd_chargeUnsupported d,
     ex_isFailureOutcomeUncertain = cd_isUncertain d, ex_token = token,
     ex_run = andThen run (\<lambda>p. ret (Some (S_payment p))),
     ex_revive = Some (\<lambda>response. case response of
         None \<Rightarrow> throw TypeError
       | Some s \<Rightarrow> andThen (findPayment (stored_id s) (cd_tenant d)) (\<lambda>fresh.
           ret (Some (or_else (map_option S_payment fresh) s))))\<rparr>"

definition prepareCharge ::
  "'w charge_deps \<Rightarrow> charge_input
    \<Rightarrow> ('w, (charge_request \<Rightarrow> string \<Rightarrow> string \<Rightarrow> ('w, charge_result) io) \<times> ident \<times> ident) io" where
  "prepareCharge d input =
    andThen (assertAuthorized (cd_authorizationEnabled d) (ci_authorization input)) (\<lambda>_.
    andThen (guardE (\<not> cash_amount (ci_amount input) \<le> 0) (PayableError ''PAYMENT_AMOUNT_INVALID'')) (\<lambda>_.
    andThen (requireCapability (cd_hasCharges d) (cd_charge d)) (\<lambda>charge.
    andThen (guardE (\<not> (cd_chargeUnsupported d \<and> cd_idempotency d = None))
      (PayableError ''PAYMENT_IDEMPOTENCY_REQUIRED'')) (\<lambda>_.
    andThen (guardE (\<not> (cd_chargeUnsupported d \<and> blank (ci_reference input)))
      (PayableError ''PAYMENT_REFERENCE_REQUIRED'')) (\<lambda>_.
    andThen (guardE (cd_hasStorage d) (PayableError ''PAYMENT_STORAGE_REQUIRED'')) (\<lambda>_.
    andThen (cd_sync d (ci_billable input)) (\<lambda>providerCustomerId.
    andThen (cd_findByBillable d (bl_type (ci_billable input)) (bl_id (ci_billable input)) (cd_tenant d)) (\<lambda>found.
    case found of
      None \<Rightarrow> throw (PayableError ''CUSTOMER_NOT_FOUND'')
    | Some customer \<Rightarrow> ret (charge, providerCustomerId, customer)))))))))"

definition chargePayment ::
  "'x pay_db_scheme charge_deps \<Rightarrow> string \<Rightarrow> string \<Rightarrow> ident \<Rightarrow> string \<Rightarrow> charge_input
    \<Rightarrow> ('x pay_db_scheme, stored option) io" where
  "chargePayment d nonce correlation newId token input =
    andThen (prepareCharge d input) (\<lambda>(charge, providerCustomerId, customer).
    andThen (liftResult (charge_key d nonce input)) (\<lambda>key.
    let run = runCharge d charge correlation newId input providerCustomerId customer key in
    case cd_idempotency d of
      None \<Rightarrow> andThen run (\<lambda>p. ret (Some (S_payment p)))
    | Some config \<Rightarrow> execute (knex_idem_store (cd_json d)) idem_now config
        (charge_execution d nonce key input providerCustomerId token run)))"

section \<open>Authorizing\<close>

definition authorize_request_of :: "authorize_input \<Rightarrow> ident \<Rightarrow> authorize_request" where
  "authorize_request_of input providerCustomerId = \<lparr>aq_providerCustomerId = providerCustomerId,
     aq_amount = ai_amount input, aq_reference = ai_reference input, aq_description = ai_description input,
     aq_paymentMethodId = ai_paymentMethodId input, aq_successUrl = ai_successUrl input,
     aq_cancelUrl = ai_cancelUrl input, aq_providerData = ai_providerData input\<rparr>"

definition authorize_key :: "'w charge_deps \<Rightarrow> ident \<Rightarrow> authorize_input \<Rightarrow> error + string" where
  "authorize_key d customer input = key_of (join_colon [''authorize'', tenantSegment (cd_tenant d),
     segment (cd_providerName d), segment customer, segment (ai_reference input)])"

definition authorize_row ::
  "'w charge_deps \<Rightarrow> authorize_input \<Rightarrow> ident \<Rightarrow> ident \<Rightarrow> ident option \<Rightarrow> authorize_result \<Rightarrow> instant \<Rightarrow> payment" where
  "authorize_row d input newId customer providerPaymentId dto now = \<lparr>pay_id = newId, pay_tenant = cd_tenant d,
     pay_customerId = Some customer, pay_provider = Some (cd_providerName d),
     pay_providerPaymentId = providerPaymentId, pay_status = ar_status dto,
     pay_currency = cash_code (ar_amount dto), pay_amount = cash_amount (ar_amount dto),
     pay_refundedAmount = 0, pay_capturedAmount = 0,
     pay_authorizedAt = (if ar_status dto = P_authorized then Some now else None),
     pay_authorizationExpiresAt = ar_expiresAt dto, pay_reference = Some (ai_reference input),
     pay_description = ai_description input, pay_collectionMethod = None, pay_occurredAt = None,
     pay_externalReference = None, pay_recordedBy = None, pay_createdAt = now, pay_updatedAt = now\<rparr>"

definition authorize_evidence_of ::
  "'w charge_deps \<Rightarrow> string \<Rightarrow> authorize_input \<Rightarrow> payment \<Rightarrow> authorize_evidence" where
  "authorize_evidence_of d correlation input p = \<lparr>ae_tenant = cd_tenant d, ae_correlation = correlation,
     ae_actorType = Option.bind (ai_authorization input) ac_actorType,
     ae_actorId = Option.bind (ai_authorization input) ac_actorId,
     ae_action = (if pay_status p = P_authorized then ''payment.authorized'' else ''payment.authorization_requested''),
     ae_paymentId = pay_id p, ae_status = pay_status p, ae_expiresAt = pay_authorizationExpiresAt p,
     ae_provider = pay_provider p\<rparr>"

definition storeAuthorization ::
  "'x pay_db_scheme charge_deps \<Rightarrow> string \<Rightarrow> ident \<Rightarrow> authorize_input \<Rightarrow> ident \<Rightarrow> ident option \<Rightarrow> authorize_result
    \<Rightarrow> ('x pay_db_scheme, payment) io" where
  "storeAuthorization d correlation newId input customer providerPaymentId dto = atomically
    (andThen (readState idem_now) (\<lambda>now.
     andThen (createPayment (authorize_row d input newId customer providerPaymentId dto now)) (\<lambda>created.
     andThen (cd_audit d (authorize_evidence_of d correlation input created)) (\<lambda>_. ret created))))"

text \<open>A provider's id that is absent or empty is not looked up.\<close>

definition recoverAuthorization ::
  "'x pay_db_scheme charge_deps \<Rightarrow> ident option \<Rightarrow> ('x pay_db_scheme, payment option) io" where
  "recoverAuthorization d providerPaymentId = (case providerPaymentId of
      None \<Rightarrow> ret None
    | Some i \<Rightarrow> if i = [] then ret None else findPaymentByProviderId (cd_providerName d) i (cd_tenant d))"

definition authorized_provider_id :: "authorize_result \<Rightarrow> ident option" where
  "authorized_provider_id dto = (case ar_providerPaymentId dto of
      Some i \<Rightarrow> Some i | None \<Rightarrow> map_option cs_id (ar_checkout dto))"

definition emitAuthorized ::
  "'x pay_db_scheme charge_deps \<Rightarrow> string \<Rightarrow> authorize_input \<Rightarrow> payment \<Rightarrow> ('x pay_db_scheme, unit) io" where
  "emitAuthorized d correlation input p =
    andThen (readState idem_now) (\<lambda>now.
    cd_emit d \<lparr>av_paymentId = pay_id p, av_customerId = pay_customerId p, av_amount = ai_amount input,
       av_correlation = correlation, av_occurredAt = now\<rparr>)"

definition runAuthorize ::
  "'x pay_db_scheme charge_deps \<Rightarrow> (authorize_request \<Rightarrow> string \<Rightarrow> string \<Rightarrow> ('x pay_db_scheme, authorize_result) io)
    \<Rightarrow> string \<Rightarrow> ident \<Rightarrow> authorize_input \<Rightarrow> ident \<Rightarrow> ident \<Rightarrow> string \<Rightarrow> ('x pay_db_scheme, stored) io" where
  "runAuthorize d authorize correlation newId input providerCustomerId customer key =
    andThen (authorize (authorize_request_of input providerCustomerId) correlation key) (\<lambda>dto.
    andThen (guardE (ar_amount dto = ai_amount input) (PayableError ''PAYMENT_AMOUNT_MISMATCH'')) (\<lambda>_.
    andThen (recoverAuthorization d (authorized_provider_id dto)) (\<lambda>recovered.
    andThen (guardE (case recovered of None \<Rightarrow> True | Some p \<Rightarrow> pay_customerId p = Some customer)
      (PayableError ''PAYMENT_PROVIDER_IDENTITY_CONFLICT'')) (\<lambda>_.
    case recovered of
      Some p \<Rightarrow> ret (S_authorization p (ar_checkout dto))
    | None \<Rightarrow>
        andThen (storeAuthorization d correlation newId input customer (authorized_provider_id dto) dto) (\<lambda>p.
        andThen (if pay_status p = P_authorized then emitAuthorized d correlation input p else ret ()) (\<lambda>_.
        ret (S_authorization p (ar_checkout dto))))))))"

definition authorize_execution ::
  "'x pay_db_scheme charge_deps \<Rightarrow> string \<Rightarrow> authorize_input \<Rightarrow> ident \<Rightarrow> ident \<Rightarrow> string
    \<Rightarrow> ('x pay_db_scheme, stored) io \<Rightarrow> ('x pay_db_scheme, stored) idem_execution" where
  "authorize_execution d key input providerCustomerId customer token run =
    \<lparr>ex_key = key, ex_storageKey = None, ex_legacyStorageKeys = [], ex_scope = ''payment'',
     ex_operation = ''authorize'',
     ex_requestHash = cd_authorizeHash d (customer, authorize_request_of input providerCustomerId),
     ex_resourceType = Some ''payment'', ex_resourceId = None, ex_tenant = cd_tenant d,
     ex_retryFailed = Some (cd_authorizeNative d), ex_reclaimStaleProcessing = None,
     ex_lockTtl = None, ex_reconciliationRequired = \<not> cd_authorizeNative d,
     ex_isFailureOutcomeUncertain = None, ex_token = token,
     ex_run = andThen run (\<lambda>s. ret (Some s)),
     ex_revive = Some (\<lambda>response. case response of
         Some (S_authorization p checkout) \<Rightarrow>
           andThen (findPayment (pay_id p) (cd_tenant d)) (\<lambda>fresh.
           ret (Some (S_authorization (or_else fresh p) checkout)))
       | _ \<Rightarrow> throw TypeError)\<rparr>"

definition authorizePayment ::
  "'x pay_db_scheme charge_deps \<Rightarrow> string \<Rightarrow> ident \<Rightarrow> string \<Rightarrow> authorize_input
    \<Rightarrow> ('x pay_db_scheme, stored option) io" where
  "authorizePayment d correlation newId token input =
    andThen (assertAuthorized (cd_authorizationEnabled d) (ai_authorization input)) (\<lambda>_.
    andThen (guardE (\<not> (cash_amount (ai_amount input) \<le> 0 \<or> trim (ai_reference input) = []))
      (PayableError ''PAYMENT_AUTHORIZATION_INVALID'')) (\<lambda>_.
    andThen (guardE (cd_hasStorage d) (PayableError ''PAYMENT_STORAGE_REQUIRED'')) (\<lambda>_.
    case cd_idempotency d of None \<Rightarrow> throw (PayableError ''PAYMENT_IDEMPOTENCY_REQUIRED'') | Some config \<Rightarrow>
    andThen (requireCapability (cd_hasAuthorize d) (cd_authorize d)) (\<lambda>authorize.
    andThen (cd_sync d (ai_billable input)) (\<lambda>providerCustomerId.
    andThen (cd_findByBillable d (bl_type (ai_billable input)) (bl_id (ai_billable input)) (cd_tenant d)) (\<lambda>found.
    case found of None \<Rightarrow> throw (PayableError ''CUSTOMER_NOT_FOUND'') | Some customer \<Rightarrow>
    andThen (liftResult (authorize_key d customer input)) (\<lambda>key.
    execute (knex_idem_store (cd_json d)) idem_now config
      (authorize_execution d key input providerCustomerId customer token
        (runAuthorize d authorize correlation newId input providerCustomerId customer key)))))))))"

section \<open>The ledger\<close>

text \<open>What a provider answers to a charge of a positive amount: an amount that is not negative,
  and a status that is not a refund's.\<close>

definition charge_answer :: "charge_result \<Rightarrow> bool" where
  "charge_answer dto \<longleftrightarrow> 0 \<le> cash_amount (ch_amount dto) \<and> ch_status dto \<notin> {P_refunded, P_partially_refunded}"

definition sound_charge :: "ident \<Rightarrow> 'x pay_db_scheme charge_deps \<Rightarrow> bool" where
  "sound_charge i d \<longleftrightarrow> (\<forall>f r c k. cd_charge d = Some f \<and> 0 < cash_amount (cq_amount r) \<longrightarrow>
     triple (fresh_payment i) (f r c k) (\<lambda>dto w. fresh_payment i w \<and> charge_answer dto) (\<lambda>_. fresh_payment i))"

definition sound_authorize :: "ident \<Rightarrow> 'x pay_db_scheme charge_deps \<Rightarrow> bool" where
  "sound_authorize i d \<longleftrightarrow> (\<forall>f r c k. cd_authorize d = Some f \<longrightarrow>
     triple (fresh_payment i) (f r c k)
       (\<lambda>dto w. fresh_payment i w \<and> ar_status dto \<notin> {P_refunded, P_partially_refunded}) (\<lambda>_. fresh_payment i))"

lemma fresh_weak: "fresh_payment i w \<Longrightarrow> ledger_ok w" by (simp add: fresh_payment_def)

lemma fresh_leads [intro]: "preserves (fresh_payment i) m \<Longrightarrow> leads (fresh_payment i) m ledger_ok"
  by (erule leads_weaken) (rule fresh_weak)

lemma findByProviderId_state [simp]: "snd (findPaymentByProviderId a b t w) = w"
  by (simp add: findPaymentByProviderId_def)

lemma leads_known:
  assumes "triple P m (\<lambda>x w. R w \<and> C x) (\<lambda>_. Q)" and "\<And>x. C x \<Longrightarrow> leads R (f x) Q"
  shows "leads P (andThen m f) Q"
  unfolding triple_leads [symmetric]
proof (rule triple_andThen [OF assms(1)])
  fix x
  show "triple (\<lambda>w. R w \<and> C x) (f x) (\<lambda>_. Q) (\<lambda>_. Q)"
    using assms(2) [of x] unfolding triple_leads by (cases "C x") (auto simp: leads_def)
qed

lemma leads_keeps:
  "preserves P m \<Longrightarrow> (\<And>x. leads P (f x) Q) \<Longrightarrow> (\<And>w. P w \<Longrightarrow> Q w) \<Longrightarrow> leads P (andThen m f) Q"
  unfolding leads_preserves [symmetric] by (rule leads_andThen)

lemma runCharge_leads:
  assumes "triple (fresh_payment i) (charge (charge_request_of input pc) correlation key)
      (\<lambda>dto w. fresh_payment i w \<and> charge_answer dto) (\<lambda>_. fresh_payment i)"
  shows "leads (fresh_payment i) (runCharge d charge correlation i input pc customer key) ledger_ok"
  unfolding runCharge_def
proof (rule leads_known)
  show "triple (fresh_payment i) (charge (charge_request_of input pc) correlation key)
      (\<lambda>dto w. fresh_payment i w \<and> charge_answer dto) (\<lambda>_. ledger_ok)"
    by (rule triple_weaken [OF assms]) (auto intro: fresh_weak)
next
  fix dto :: charge_result
  assume dto: "charge_answer dto"
  have "leads (fresh_payment i) (createPayment (charge_row d input i customer dto)) ledger_ok"
    using dto by (intro create_leads) (auto simp: charge_row_def charge_answer_def)
  then have "leads (fresh_payment i) (case r of Some payment \<Rightarrow> ret payment
      | None \<Rightarrow> createPayment (charge_row d input i customer dto)) ledger_ok" for r
    by (cases r) (auto simp: leads_def fresh_weak)
  then show "leads (fresh_payment i) (if cash_code (ch_amount dto) \<noteq> cash_code (ci_amount input)
      then throw (PayableError ''PAYMENT_CURRENCY_MISMATCH'')
      else andThen (findPaymentByProviderId (cd_providerName d) (ch_providerPaymentId dto) (cd_tenant d)) (\<lambda>r.
        case r of Some payment \<Rightarrow> ret payment | None \<Rightarrow> createPayment (charge_row d input i customer dto))) ledger_ok"
    by (auto intro!: leads_if leads_pure_andThen fresh_weak preserves_throw)
qed

lemma storeAuthorization_leads:
  assumes "ar_status dto \<notin> {P_refunded, P_partially_refunded}" "0 \<le> cash_amount (ar_amount dto)"
    and audit: "\<And>e. preserves ledger_ok (cd_audit d e)"
  shows "leads (fresh_payment i) (storeAuthorization d correlation i input customer pid dto) ledger_ok"
proof -
  have "leads (fresh_payment i) (createPayment (authorize_row d input i customer pid dto now)) ledger_ok" for now
    using assms(1,2) by (intro create_leads) (auto simp: authorize_row_def)
  then show ?thesis unfolding storeAuthorization_def
    by (intro leads_atomically leads_readState leads_andThen [where R = ledger_ok])
      (auto simp: leads_preserves fresh_weak intro!: audit)
qed

lemma runAuthorize_leads:
  assumes ask: "\<And>r c k. triple (fresh_payment i) (authorize r c k)
       (\<lambda>dto w. fresh_payment i w \<and> ar_status dto \<notin> {P_refunded, P_partially_refunded}) (\<lambda>_. fresh_payment i)"
    and pos: "0 < cash_amount (ai_amount input)"
    and audit: "\<And>e. preserves ledger_ok (cd_audit d e)" and emit: "\<And>e. preserves ledger_ok (cd_emit d e)"
  shows "leads (fresh_payment i) (runAuthorize d authorize correlation i input pc customer key) ledger_ok"
  unfolding runAuthorize_def
proof (rule leads_known)
  show "triple (fresh_payment i) (authorize (authorize_request_of input pc) correlation key)
      (\<lambda>dto w. fresh_payment i w \<and> ar_status dto \<notin> {P_refunded, P_partially_refunded}) (\<lambda>_. ledger_ok)"
    by (rule triple_weaken [OF ask]) (auto intro: fresh_weak)
next
  fix dto :: authorize_result
  assume dto: "ar_status dto \<notin> {P_refunded, P_partially_refunded}"
  have emit': "preserves ledger_ok (andThen (if b then emitAuthorized d correlation input p else ret ()) (\<lambda>_. ret x))"
    for b p and x :: stored
    unfolding emitAuthorized_def by (intro preserves_rules emit)
  have store: "leads (fresh_payment i) (andThen (storeAuthorization d correlation i input customer pid dto) (\<lambda>p.
      andThen (if pay_status p = P_authorized then emitAuthorized d correlation input p else ret ()) (\<lambda>_.
      ret (S_authorization p (ar_checkout dto))))) ledger_ok" if "ar_amount dto = ai_amount input" for pid
    by (rule leads_andThen [OF storeAuthorization_leads emit' [folded leads_preserves]])
      (use dto pos that audit in auto)
  have rec: "snd (recoverAuthorization d pid w) = w" for pid and w :: "'a pay_db_scheme"
    by (simp add: recoverAuthorization_def split: option.split)
  show "leads (fresh_payment i) (andThen (guardE (ar_amount dto = ai_amount input) (PayableError ''PAYMENT_AMOUNT_MISMATCH'')) (\<lambda>_.
    andThen (recoverAuthorization d (authorized_provider_id dto)) (\<lambda>recovered.
    andThen (guardE (case recovered of None \<Rightarrow> True | Some p \<Rightarrow> pay_customerId p = Some customer)
      (PayableError ''PAYMENT_PROVIDER_IDENTITY_CONFLICT'')) (\<lambda>_.
    case recovered of
      Some p \<Rightarrow> ret (S_authorization p (ar_checkout dto))
    | None \<Rightarrow>
        andThen (storeAuthorization d correlation i input customer (authorized_provider_id dto) dto) (\<lambda>p.
        andThen (if pay_status p = P_authorized then emitAuthorized d correlation input p else ret ()) (\<lambda>_.
        ret (S_authorization p (ar_checkout dto)))))))) ledger_ok"
  proof (intro leads_guardE leads_pure_andThen rec fresh_weak)
    fix recovered :: "payment option"
    assume "ar_amount dto = ai_amount input"
    from store [OF this] show "leads (fresh_payment i) (case recovered of
      Some p \<Rightarrow> ret (S_authorization p (ar_checkout dto))
    | None \<Rightarrow>
        andThen (storeAuthorization d correlation i input customer (authorized_provider_id dto) dto) (\<lambda>p.
        andThen (if pay_status p = P_authorized then emitAuthorized d correlation input p else ret ()) (\<lambda>_.
        ret (S_authorization p (ar_checkout dto))))) ledger_ok"
      by (cases recovered) (auto simp: leads_def fresh_weak)
  qed assumption+
qed

lemma requireCapability_state [simp]: "snd (requireCapability b x w) = w"
  by (simp add: requireCapability_def split: option.split)

lemma requireCapability_triple:
  "triple (fresh_payment i) (requireCapability has operation) (\<lambda>x w. fresh_payment i w \<and> operation = Some x) (\<lambda>_. ledger_ok)"
  by (rule tripleI) (auto simp: requireCapability_def fresh_weak split: option.splits if_splits)

lemma prepareCharge_charge:
  "prepareCharge d input w = (Inr x, w') \<Longrightarrow> cd_charge d = Some (fst x) \<and> 0 < cash_amount (ci_amount input)"
  by (auto simp: prepareCharge_def andThen_Inr_iff requireCapability_def guardE_def split: option.splits if_splits)

lemma chargePayment_leads:
  fixes d :: "'x pay_db_scheme charge_deps"
  assumes sync: "\<And>b. preserves (fresh_payment i) (cd_sync d b)"
    and customer: "\<And>a b t. preserves (fresh_payment i) (cd_findByBillable d a b t)" and charge: "sound_charge i d"
  shows "leads (fresh_payment i) (chargePayment d nonce correlation i token input) ledger_ok"
proof -
  let ?P = "fresh_payment i :: 'x pay_db_scheme \<Rightarrow> bool"
  have keeps: "preserves ?P (prepareCharge d input)"
    unfolding prepareCharge_def assertAuthorized_def by (intro preserves_rules requireCapability_preserves sync customer)
  have prep: "triple ?P (prepareCharge d input) (\<lambda>x w. ?P w \<and> (cd_charge d = Some (fst x) \<and> 0 < cash_amount (ci_amount input))) (\<lambda>_. ledger_ok)"
    by (rule tripleI) (metis keeps preservesE prepareCharge_charge, metis keeps preservesE fresh_weak)
  have run: "leads ?P (andThen (runCharge d c correlation i input pc customer key) (\<lambda>p. ret (Some (S_payment p)))) ledger_ok"
    if "cd_charge d = Some c \<and> 0 < cash_amount (ci_amount input)" for c pc customer key
    using charge that by (intro leads_andThen [OF runCharge_leads, where Q = ledger_ok])
      (auto simp: sound_charge_def leads_def charge_request_of_def)
  have exec: "leads ?P (execute (knex_idem_store (cd_json d)) idem_now config (charge_execution d nonce key input pc token
        (runCharge d c correlation i input pc customer key))) ledger_ok"
    if "cd_charge d = Some c \<and> 0 < cash_amount (ci_amount input)" for config c pc customer key
  proof (rule execute_leads [OF blind_fresh blind_ledger(1)])
    show "preserves ledger_ok (f v)" if "ex_revive (charge_execution d nonce key input pc token m) = Some f" for f v m
      using that by (auto simp: charge_execution_def intro!: preserves_option preserves_andThen findPayment_preserves)
  qed (use run [OF that] in \<open>auto simp: charge_execution_def fresh_weak\<close>)
  show ?thesis
    unfolding chargePayment_def Let_def
  proof (rule leads_known [OF prep], unfold case_prod_beta, intro leads_liftResult fresh_weak)
    fix x :: "_ \<times> ident \<times> ident" and key
    assume c: "cd_charge d = Some (fst x) \<and> 0 < cash_amount (ci_amount input)"
    show "leads ?P (case cd_idempotency d of
        None \<Rightarrow> andThen (runCharge d (fst x) correlation i input (fst (snd x)) (snd (snd x)) key) (\<lambda>p. ret (Some (S_payment p)))
      | Some config \<Rightarrow> execute (knex_idem_store (cd_json d)) idem_now config (charge_execution d nonce key input (fst (snd x))
          token (runCharge d (fst x) correlation i input (fst (snd x)) (snd (snd x)) key))) ledger_ok"
      using run [OF c] exec [OF c] by (cases "cd_idempotency d") simp_all
  qed assumption+
qed

lemma authorizePayment_leads:
  fixes d :: "'x pay_db_scheme charge_deps"
  assumes sync: "\<And>b. preserves (fresh_payment i) (cd_sync d b)"
    and customer: "\<And>a b t. preserves (fresh_payment i) (cd_findByBillable d a b t)" and ask: "sound_authorize i d"
    and audit: "\<And>e. preserves ledger_ok (cd_audit d e)" and emit: "\<And>e. preserves ledger_ok (cd_emit d e)"
  shows "leads (fresh_payment i) (authorizePayment d correlation i token input) ledger_ok"
proof -
  let ?P = "fresh_payment i :: 'x pay_db_scheme \<Rightarrow> bool"
  have run: "leads ?P (andThen (runAuthorize d f correlation i input pc customer key) (\<lambda>s. ret (Some s))) ledger_ok"
    if "cd_authorize d = Some f" "0 < cash_amount (ai_amount input)" for f pc customer key
    using that ask by (intro leads_andThen [OF runAuthorize_leads, where Q = ledger_ok] audit emit)
      (auto simp: sound_authorize_def leads_def)
  have exec: "leads ?P (execute (knex_idem_store (cd_json d)) idem_now config (authorize_execution d key input pc customer token
        (runAuthorize d f correlation i input pc customer key))) ledger_ok"
    if "cd_authorize d = Some f" "0 < cash_amount (ai_amount input)" for config f pc customer key
  proof (rule execute_leads [OF blind_fresh blind_ledger(1)])
    show "preserves ledger_ok (g v)" if "ex_revive (authorize_execution d key input pc customer token m) = Some g" for g v m
      using that by (auto simp: authorize_execution_def intro!: preserves_option preserves_andThen findPayment_preserves
          split: stored.split option.split)
  qed (use run [OF that] in \<open>auto simp: authorize_execution_def fresh_weak\<close>)
  have ask: "leads ?P (andThen (cd_sync d (ai_billable input)) (\<lambda>pc.
      andThen (cd_findByBillable d (bl_type (ai_billable input)) (bl_id (ai_billable input)) (cd_tenant d)) (\<lambda>found.
      case found of None \<Rightarrow> throw (PayableError ''CUSTOMER_NOT_FOUND'') | Some customer \<Rightarrow>
      andThen (liftResult (authorize_key d customer input)) (\<lambda>key.
      execute (knex_idem_store (cd_json d)) idem_now config
        (authorize_execution d key input pc customer token (runAuthorize d f correlation i input pc customer key)))))) ledger_ok"
    if "cd_authorize d = Some f" "0 < cash_amount (ai_amount input)" for f config
  proof (rule leads_keeps [OF sync], rule leads_keeps [OF customer])
    fix pc and found :: "ident option"
    show "leads ?P (case found of None \<Rightarrow> throw (PayableError ''CUSTOMER_NOT_FOUND'') | Some customer \<Rightarrow>
      andThen (liftResult (authorize_key d customer input)) (\<lambda>key.
      execute (knex_idem_store (cd_json d)) idem_now config
        (authorize_execution d key input pc customer token (runAuthorize d f correlation i input pc customer key)))) ledger_ok"
      using exec [OF that] by (cases found) (auto intro!: leads_liftResult fresh_weak)
  qed (simp_all add: fresh_weak)
  show ?thesis
    unfolding authorizePayment_def
  proof (intro leads_pure_andThen [OF assertAuthorized_state] leads_guardE fresh_weak)
    assume "\<not> (cash_amount (ai_amount input) \<le> 0 \<or> trim (ai_reference input) = [])"
    then have pos: "0 < cash_amount (ai_amount input)" by simp
    show "leads ?P (case cd_idempotency d of None \<Rightarrow> throw (PayableError ''PAYMENT_IDEMPOTENCY_REQUIRED'') | Some config \<Rightarrow>
      andThen (requireCapability (cd_hasAuthorize d) (cd_authorize d)) (\<lambda>authorize.
      andThen (cd_sync d (ai_billable input)) (\<lambda>pc.
      andThen (cd_findByBillable d (bl_type (ai_billable input)) (bl_id (ai_billable input)) (cd_tenant d)) (\<lambda>found.
      case found of None \<Rightarrow> throw (PayableError ''CUSTOMER_NOT_FOUND'') | Some customer \<Rightarrow>
      andThen (liftResult (authorize_key d customer input)) (\<lambda>key.
      execute (knex_idem_store (cd_json d)) idem_now config
        (authorize_execution d key input pc customer token
          (runAuthorize d authorize correlation i input pc customer key))))))) ledger_ok"
      by (cases "cd_idempotency d") (simp_all add: fresh_leads preserves_throw leads_known [OF requireCapability_triple ask [OF _ pos]])
  qed assumption+
qed

text \<open>
  C33. Charging and authorizing keep the ledger of payments and refunds on every path, with or
  without the idempotency service: whatever the provider, the customer's synchronisation, the
  audit log and the event bus do to the rest of the tables, the row of the new payment (under a
  fresh id) starts with nothing refunded.
\<close>

theorem charging_keeps_ledger:
  assumes st: "fresh_payment i w"
    and sync: "\<And>b. preserves (fresh_payment i) (cd_sync d b)"
    and customer: "\<And>a b t. preserves (fresh_payment i) (cd_findByBillable d a b t)"
    and charge: "sound_charge i d" and authorize: "sound_authorize i d"
    and audit: "\<And>e. preserves ledger_ok (cd_audit d e)" and emit: "\<And>e. preserves ledger_ok (cd_emit d e)"
  shows "ledger_ok (snd (chargePayment d nonce correlation i token input w))
    \<and> ledger_ok (snd (authorizePayment d correlation i token request w))"
  using chargePayment_leads [OF sync customer charge, of nonce correlation token input]
    authorizePayment_leads [OF sync customer authorize audit emit, of correlation token request] st
  unfolding leads_def by blast

section \<open>Charging at most once\<close>

text \<open>Another process of the service: what goes into the request, its key and its record is the same.\<close>

definition same_service :: "'x pay_db_scheme charge_deps \<Rightarrow> 'x pay_db_scheme charge_deps \<Rightarrow> bool" where
  "same_service d d' \<longleftrightarrow> cd_tenant d' = cd_tenant d \<and> cd_providerName d' = cd_providerName d
    \<and> cd_chargeHash d' = cd_chargeHash d \<and> cd_fingerprint d' = cd_fingerprint d \<and> cd_json d' = cd_json d
    \<and> cd_chargeUnsupported d' = cd_chargeUnsupported d \<and> cd_idempotency d' \<noteq> None"

lemma runCharge_rows:
  assumes "\<And>r c k u. idem_rows (snd (charge r c k u)) = idem_rows u"
  shows "idem_rows (snd (runCharge d charge c i input pc customer k u)) = idem_rows u"
  using assms [of "charge_request_of input pc" c k u]
  by (auto simp: runCharge_def andThen_def createPayment_def findPaymentByProviderId_def Let_def
      split: prod.split sum.split option.split)

lemma andThen_state: "snd (andThen m (\<lambda>x. ret (f x)) w) = snd (m w)"
  by (simp add: andThen_def split: prod.split sum.split)

lemma charge_execution_simps [simp]:
  "ex_key (charge_execution d n key input pc token run) = key"
  "ex_legacyStorageKeys (charge_execution d n key input pc token run) = []"
  "ex_tenant (charge_execution d n key input pc token run) = cd_tenant d"
  "scopedKey (charge_execution d n key input pc token run) = ''payment:'' @ key"
  "ex_run (charge_execution d n key input pc token run) = andThen run (\<lambda>p. ret (Some (S_payment p)))"
  "ex_isFailureOutcomeUncertain (charge_execution d n key input pc token run) = cd_isUncertain d"
  "ex_reconciliationRequired (charge_execution d n key input pc token run) = cd_chargeUnsupported d"
  by (simp_all add: charge_execution_def scopedKey_def or_else_def)

text \<open>With a reference, the request and its key do not depend on the nonce.\<close>

lemma same_charge_request:
  assumes "same_service d d'" and "ci_reference input = Some reference"
  shows "ex_requestHash (charge_execution d' n' key' input pc token' run')
      = ex_requestHash (charge_execution d n key input pc token run)"
    and "charge_key d' n' input = charge_key d n input"
  using assms by (simp_all add: charge_execution_def charge_key_def same_service_def dedupReference_def or_else_def)

definition charge_record :: "'x pay_db_scheme charge_deps \<Rightarrow> string \<Rightarrow> 'x pay_db_scheme \<Rightarrow> stored idem_record option" where
  "charge_record d key w = knex_row w (''payment:'' @ key) (cd_tenant d)"

lemma charge_record_of:
  "record_of knex_row w (charge_execution d n key input pc token run) = charge_record d key w"
  by (simp add: record_of_def charge_record_def)

text \<open>A retry of a charge: the same request, from any process, with the record still there.\<close>

definition retry_of ::
  "'x pay_db_scheme charge_deps \<Rightarrow> string \<Rightarrow> charge_input \<Rightarrow> ident \<Rightarrow> 'x pay_db_scheme
    \<Rightarrow> 'x pay_db_scheme charge_deps \<Rightarrow> 'x pay_db_scheme \<Rightarrow> 'x pay_db_scheme \<Rightarrow> bool" where
  "retry_of d key input pc w' d' z z1 \<longleftrightarrow> same_service d d'
    \<and> (\<exists>charge' customer'. prepareCharge d' input z = (Inr (charge', pc, customer'), z1))
    \<and> charge_record d key z1 = charge_record d key w'"

lemma retry_execute:
  assumes retry: "retry_of d key input pc w' d' z z1" and reference: "ci_reference input = Some reference"
    and key: "charge_key d n input = Inr key"
  obtains config' charge' customer' where
    "\<And>c' i' token'. chargePayment d' n' c' i' token' input z = execute (knex_idem_store (cd_json d)) idem_now config'
      (charge_execution d' n' key input pc token' (runCharge d' charge' c' i' input pc customer' key)) z1"
proof -
  obtain charge' customer' where prep: "prepareCharge d' input z = (Inr (charge', pc, customer'), z1)"
    and same: "same_service d d'"
    using retry by (auto simp: retry_of_def)
  obtain config' where config: "cd_idempotency d' = Some config'" using same by (auto simp: same_service_def)
  show ?thesis
  proof (rule that)
    show "chargePayment d' n' c' i' token' input z = execute (knex_idem_store (cd_json d)) idem_now config'
      (charge_execution d' n' key input pc token' (runCharge d' charge' c' i' input pc customer' key)) z1" for c' i' token'
      using prep config same same_charge_request(2) [OF same reference, of n' n] key
      by (simp add: chargePayment_def andThen_def [of "prepareCharge _ _"] prep andThen_liftResult Let_def same_service_def)
  qed
qed

lemma charge_revive:
  "revive (charge_execution d n key input pc token run) (Some s) w
    = (Inr (Some (or_else (map_option S_payment (find (scopedPayment (stored_id s) (cd_tenant d)) (payments w))) s)), w)"
  by (simp add: revive_def charge_execution_def findPayment_def)


section \<open>Examples\<close>

definition example_charge_deps :: "pay_db charge_deps" where
  "example_charge_deps = \<lparr>cd_authorizationEnabled = False, cd_tenant = Some ''t'', cd_providerName = ''stripe'',
     cd_hasStorage = True,
     cd_idempotency = Some (idem_configure \<lparr>opt_lockTtl = None, opt_retryFailed = None, opt_completedTtl = None, opt_failedTtl = None\<rparr>),
     cd_json = id, cd_sync = (\<lambda>b. ret ''cus_1''), cd_findByBillable = (\<lambda>a b t. ret (Some ''c1'')), cd_hasCharges = True,
     cd_charge = Some (\<lambda>r c k. ret \<lparr>ch_providerPaymentId = ''pi_1'', ch_status = P_succeeded, ch_amount = cq_amount r\<rparr>),
     cd_chargeUnsupported = True, cd_fingerprint = None, cd_isUncertain = None, cd_chargeHash = (\<lambda>_. ''h''),
     cd_hasAuthorize = True,
     cd_authorize = Some (\<lambda>r c k. ret \<lparr>ar_providerPaymentId = Some ''pi_2'', ar_status = P_authorized,
        ar_amount = aq_amount r, ar_expiresAt = None, ar_checkout = None\<rparr>),
     cd_authorizeNative = True, cd_authorizeHash = (\<lambda>_. ''h''), cd_audit = (\<lambda>_. ret ()), cd_emit = (\<lambda>_. ret ())\<rparr>"

definition example_charge_input :: charge_input where
  "example_charge_input = \<lparr>ci_billable = \<lparr>bl_type = ''user'', bl_id = ''1''\<rparr>,
     ci_amount = \<lparr>cash_amount = 100, cash_code = ''USD''\<rparr>, ci_reference = Some ''order'', ci_description = None,
     ci_paymentMethodId = None, ci_offSession = None, ci_providerData = None, ci_authorization = None\<rparr>"

definition example_authorize_input :: authorize_input where
  "example_authorize_input = \<lparr>ai_billable = \<lparr>bl_type = ''user'', bl_id = ''1''\<rparr>,
     ai_amount = \<lparr>cash_amount = 100, cash_code = ''USD''\<rparr>, ai_reference = ''order'', ai_description = None,
     ai_paymentMethodId = None, ai_successUrl = None, ai_cancelUrl = None, ai_providerData = None,
     ai_authorization = None\<rparr>"

definition example_charge_result :: payment where
  "example_charge_result = charge_row example_charge_deps example_charge_input ''p1'' ''c1''
     \<lparr>ch_providerPaymentId = ''pi_1'', ch_status = P_succeeded, ch_amount = ci_amount example_charge_input\<rparr>
     \<lparr>pay_createdAt := 5, pay_updatedAt := 5\<rparr>"

lemma example_charge_run:
  "fst (chargePayment example_charge_deps ''n'' ''c'' ''p1'' ''t1'' example_charge_input (example_pay_db [] []))
     = Inr (Some (S_payment example_charge_result))"
  "payments (snd (chargePayment example_charge_deps ''n'' ''c'' ''p1'' ''t1'' example_charge_input (example_pay_db [] [])))
     = [example_charge_result]"
  "idem_now (snd (chargePayment example_charge_deps ''n'' ''c'' ''p1'' ''t1'' example_charge_input (example_pay_db [] [])))
     = 5"
  by code_simp+

theorem charging_keeps_ledger_witness:
  "let w = snd (authorizePayment example_charge_deps ''c'' ''p1'' ''k'' example_authorize_input (example_pay_db [] []))
   in ledger_ok w \<and> map pay_status (payments w) = [P_authorized] \<and> map pay_amount (payments w) = [100]"
proof -
  let ?w = "snd (authorizePayment example_charge_deps ''c'' ''p1'' ''k'' example_authorize_input (example_pay_db [] []))"
  have "ledger_ok ?w"
    by (rule charging_keeps_ledger [THEN conjunct2])
      (auto simp: example_charge_deps_def sound_charge_def sound_authorize_def charge_answer_def triple_def
        fresh_payment_def ledger_ok_def example_pay_db_def preserves_ret)
  moreover have "map pay_status (payments ?w) = [P_authorized] \<and> map pay_amount (payments ?w) = [100]"
    by code_simp
  ultimately show ?thesis by (simp add: Let_def)
qed

lemma example_charge_key:
  "charge_key example_charge_deps ''n'' example_charge_input = Inr ''charge:t:stripe:user:1:order:100:USD''"
  by code_simp

definition example_retry_deps :: "pay_db charge_deps" where
  "example_retry_deps = example_charge_deps\<lparr>cd_charge := Some (\<lambda>r c k. throw (ForeignError ''called twice''))\<rparr>"

lemma example_prepare:
  "prepareCharge example_charge_deps example_charge_input w = (Inr (the (cd_charge example_charge_deps), ''cus_1'', ''c1''), w)"
  "prepareCharge example_retry_deps example_charge_input w = (Inr (the (cd_charge example_retry_deps), ''cus_1'', ''c1''), w)"
  by (simp_all add: prepareCharge_def example_retry_deps_def example_charge_deps_def assertAuthorized_def andThen_guardE
        requireCapability_def example_charge_input_def blank_def trim_def is_space_def of_char_def)


end
