(* ===== verification/Subscription_Machine.thy ===== *)
theory Subscription_Machine
  imports Status_Machines
begin

text \<open>
  \<open>domain/states/subscription-state-machine.ts\<close>: the subscription machine and
  \<open>reconcileSubscriptionStatus\<close>, which searches the map breadth first for the events that
  lead from the stored status to the one a provider reports. The queue loop is a
  \<open>function\<close> with a termination proof; the walk back over the predecessor map, which the
  code writes as an unbounded \<open>while\<close>, is a \<open>partial_function\<close>, so that not returning
  would be a value.
\<close>

datatype subscription_status =
    S_incomplete | S_incomplete_expired | S_trialing | S_active | S_past_due | S_canceled
  | S_unpaid | S_paused

datatype subscription_event =
    SE_start_trial | SE_activate | SE_mark_past_due | SE_mark_unpaid | SE_pause | SE_resume
  | SE_cancel | SE_expire

definition subscription_map :: "(subscription_status, subscription_event) transition_map" where
  "subscription_map = [
    (S_incomplete, [(SE_start_trial, S_trialing), (SE_activate, S_active),
      (SE_expire, S_incomplete_expired), (SE_cancel, S_canceled)]),
    (S_trialing, [(SE_activate, S_active), (SE_mark_past_due, S_past_due),
      (SE_mark_unpaid, S_unpaid), (SE_pause, S_paused), (SE_cancel, S_canceled)]),
    (S_active, [(SE_mark_past_due, S_past_due), (SE_mark_unpaid, S_unpaid),
      (SE_pause, S_paused), (SE_cancel, S_canceled)]),
    (S_past_due, [(SE_activate, S_active), (SE_mark_unpaid, S_unpaid), (SE_cancel, S_canceled)]),
    (S_unpaid, [(SE_activate, S_active), (SE_cancel, S_canceled)]),
    (S_paused, [(SE_resume, S_active), (SE_cancel, S_canceled)]),
    (S_canceled, [])]"

interpretation subscription: status_machine subscription_map
  by unfold_locales (auto simp: subscription_map_def)

definition subscription_to :: "subscription_status \<Rightarrow> subscription_event \<Rightarrow> error + subscription_status" where
  "subscription_to s e = applyTransition subscription_map s e"

definition isActiveSubscription :: "subscription_status \<Rightarrow> bool" where
  "isActiveSubscription s \<longleftrightarrow> s = S_active \<or> s = S_trialing"

lemma UNIV_subscription_status:
  "UNIV = {S_incomplete, S_incomplete_expired, S_trialing, S_active, S_past_due, S_canceled,
     S_unpaid, S_paused}"
  by (auto intro: subscription_status.exhaust)

instance subscription_status :: finite
  by standard (simp add: UNIV_subscription_status)

section \<open>The breadth-first search\<close>

type_synonym predecessors = "subscription_status \<Rightarrow> (subscription_status \<times> subscription_event) option"

text \<open>The walk from the target back to the start, pushing each event in front.\<close>

partial_function (option) walkBack ::
  "predecessors \<Rightarrow> subscription_status \<Rightarrow> subscription_status \<Rightarrow> subscription_event list
    \<Rightarrow> subscription_event list option" where
  "walkBack pred from cursor path =
    (if cursor = from then Some path
     else (case pred cursor of
         None \<Rightarrow> Some []
       | Some (s, e) \<Rightarrow> walkBack pred from s (e # path)))"

definition reconstructPath ::
  "predecessors \<Rightarrow> subscription_status \<Rightarrow> subscription_status \<Rightarrow> subscription_event list option" where
  "reconstructPath pred from to = walkBack pred from to []"

record search =
  bfs_visited :: "subscription_status list"
  bfs_queue :: "subscription_status list"
  bfs_predecessor :: predecessors

text \<open>The \<open>for\<close> loop over the outgoing edges of \<open>node\<close>; true when it met the target.\<close>

fun scanEdges ::
  "subscription_status \<Rightarrow> subscription_status \<Rightarrow> (subscription_event \<times> subscription_status) list
    \<Rightarrow> search \<Rightarrow> bool \<times> search" where
  "scanEdges to node [] st = (False, st)"
| "scanEdges to node ((event, next) # edges) st =
    (if next \<in> set (bfs_visited st) then scanEdges to node edges st
     else let st' = st\<lparr>bfs_visited := bfs_visited st @ [next],
                       bfs_predecessor := (bfs_predecessor st)(next \<mapsto> (node, event))\<rparr>
          in if next = to then (True, st')
             else scanEdges to node edges (st'\<lparr>bfs_queue := bfs_queue st' @ [next]\<rparr>))"

definition unvisited :: "search \<Rightarrow> nat" where
  "unvisited st = card (- set (bfs_visited st))"

lemma unvisited_add:
  assumes "x \<notin> set (bfs_visited st)"
  shows "unvisited (st\<lparr>bfs_visited := bfs_visited st @ [x], bfs_predecessor := p, bfs_queue := q\<rparr>) < unvisited st"
proof -
  have "- set (bfs_visited st @ [x]) \<subset> - set (bfs_visited st)" using assms by auto
  then show ?thesis by (simp add: unvisited_def psubset_card_mono)
qed

lemma scanEdges_measure:
  "scanEdges to node edges st = (False, st') \<Longrightarrow>
    length (bfs_queue st') + unvisited st' \<le> length (bfs_queue st) + unvisited st"
proof (induction edges arbitrary: st)
  case Nil
  then show ?case by simp
next
  case (Cons a edges)
  obtain e x where a: "a = (e, x)" by (cases a)
  show ?case
  proof (cases "x \<in> set (bfs_visited st)")
    case True
    with Cons a show ?thesis by simp
  next
    case False
    let ?st = "st\<lparr>bfs_visited := bfs_visited st @ [x],
      bfs_predecessor := (bfs_predecessor st)(x \<mapsto> (node, e)), bfs_queue := bfs_queue st @ [x]\<rparr>"
    have "scanEdges to node edges ?st = (False, st')"
      using Cons.prems False by (simp add: a Let_def split: if_splits)
    then have "length (bfs_queue st') + unvisited st' \<le> length (bfs_queue ?st) + unvisited ?st"
      by (rule Cons.IH)
    with unvisited_add [where p = "(bfs_predecessor st)(x \<mapsto> (node, e))"
        and q = "bfs_queue st @ [x]", OF False]
    show ?thesis by simp
  qed
qed

function searchQueue ::
  "subscription_status \<Rightarrow> subscription_status \<Rightarrow> search \<Rightarrow> subscription_event list option option" where
  "searchQueue from to st =
    (case bfs_queue st of
       [] \<Rightarrow> Some None
     | node # rest \<Rightarrow>
         (case scanEdges to node (transitions subscription_map node) (st\<lparr>bfs_queue := rest\<rparr>) of
            (True, st') \<Rightarrow> map_option Some (reconstructPath (bfs_predecessor st') from to)
          | (False, st') \<Rightarrow> searchQueue from to st'))"
  by pat_completeness auto
termination
  by (relation "measure (\<lambda>(_, _, st). length (bfs_queue st) + unvisited st)")
    (auto dest!: scanEdges_measure [OF sym] simp: unvisited_def)

text \<open>The outer option is termination, the inner one the code's \<open>null\<close>.\<close>

definition shortestEventPath ::
  "subscription_status \<Rightarrow> subscription_status \<Rightarrow> subscription_event list option option" where
  "shortestEventPath from to =
    (if from = to then Some (Some [])
     else searchQueue from to \<lparr>bfs_visited = [from], bfs_queue = [from], bfs_predecessor = Map.empty\<rparr>)"

record status_reconciliation =
  rec_status :: subscription_status
  rec_applied :: bool
  rec_events :: "subscription_event list"

definition reconcileSubscriptionStatus ::
  "subscription_status \<Rightarrow> subscription_status \<Rightarrow> status_reconciliation option" where
  "reconcileSubscriptionStatus current target =
    (case shortestEventPath current target of
       None \<Rightarrow> None
     | Some None \<Rightarrow> Some \<lparr>rec_status = current, rec_applied = False, rec_events = []\<rparr>
     | Some (Some es) \<Rightarrow> Some \<lparr>rec_status = target, rec_applied = True, rec_events = es\<rparr>)"

section \<open>What the search computes\<close>

lemma searchQueue_record:
  "searchQueue from to \<lparr>bfs_visited = v, bfs_queue = q, bfs_predecessor = p\<rparr> =
    (case q of
       [] \<Rightarrow> Some None
     | node # rest \<Rightarrow>
         (case scanEdges to node (transitions subscription_map node)
             \<lparr>bfs_visited = v, bfs_queue = rest, bfs_predecessor = p\<rparr> of
            (True, st') \<Rightarrow> map_option Some (reconstructPath (bfs_predecessor st') from to)
          | (False, st') \<Rightarrow> searchQueue from to st'))"
  by (subst searchQueue.simps) (simp split: list.split)

lemmas search_eval = shortestEventPath_def searchQueue_record reconstructPath_def walkBack.simps
  transitions_def subscription_map_def Let_def

lemma shortestEventPath_total: "shortestEventPath s t \<noteq> None"
  by (cases s; cases t; simp add: search_eval del: searchQueue.simps)

lemma shortestEventPath_valid:
  "shortestEventPath s t = Some (Some es) \<Longrightarrow> applyEvents subscription_map s es = Inr t"
  by (cases s; cases t;
      simp add: search_eval del: searchQueue.simps;
      clarsimp simp: applyTransition_def nextStatus_def transitions_def)

lemma shortestEventPath_shortest:
  "shortestEventPath s t = Some (Some es) \<Longrightarrow> \<forall>k < length es. t \<notin> set (level subscription_map s k)"
  by (cases s; cases t; simp add: search_eval del: searchQueue.simps;
      auto simp: less_Suc_eq transitions_def subscription_map_def)

fun reachable :: "subscription_status \<Rightarrow> subscription_status list" where
  "reachable S_incomplete = [S_incomplete, S_incomplete_expired, S_trialing, S_active, S_past_due,
     S_canceled, S_unpaid, S_paused]"
| "reachable S_incomplete_expired = [S_incomplete_expired]"
| "reachable S_trialing = [S_trialing, S_active, S_past_due, S_canceled, S_unpaid, S_paused]"
| "reachable S_canceled = [S_canceled]"
| "reachable _ = [S_active, S_past_due, S_canceled, S_unpaid, S_paused]"

lemma shortestEventPath_found: "shortestEventPath s t \<noteq> Some None \<longleftrightarrow> t \<in> set (reachable s)"
  by (cases s; cases t; simp add: search_eval del: searchQueue.simps)

lemma shortestEventPath_closed:
  assumes "shortestEventPath s t \<noteq> Some None" and "(e, u) \<in> set (transitions subscription_map t)"
  shows "shortestEventPath s u \<noteq> Some None"
  using assms unfolding shortestEventPath_found
  by (cases s) (auto simp: transitions_def subscription_map_def split: if_splits)

lemma shortestEventPath_found_iff: "shortestEventPath s t \<noteq> Some None \<longleftrightarrow> moves subscription_map s t"
proof
  assume "shortestEventPath s t \<noteq> Some None"
  with shortestEventPath_total [of s t] obtain es where "shortestEventPath s t = Some (Some es)"
    by auto
  then show "moves subscription_map s t"
    by (auto simp: moves_iff_applyEvents dest: shortestEventPath_valid)
next
  assume "moves subscription_map s t"
  then have "t \<in> {t. shortestEventPath s t \<noteq> Some None}"
  proof (rule subscription.moves_closed)
    show "s \<in> {t. shortestEventPath s t \<noteq> Some None}" by (simp add: shortestEventPath_def)
  next
    fix x e y
    assume "x \<in> {t. shortestEventPath s t \<noteq> Some None}"
      and "(e, y) \<in> set (transitions subscription_map x)"
    with shortestEventPath_closed show "y \<in> {t. shortestEventPath s t \<noteq> Some None}" by blast
  qed
  then show "shortestEventPath s t \<noteq> Some None" by simp
qed

text \<open>
  C13. Reconciling a subscription's status always returns; it applies the provider's status
  exactly when the machine can reach it from the stored one, and then the events it reports
  lead there and no shorter sequence does; otherwise the stored status stays and no event is
  reported.
\<close>

theorem reconcileSubscriptionStatus_correct:
  "\<exists>r. reconcileSubscriptionStatus c t = Some r
    \<and> (rec_applied r \<longleftrightarrow> moves subscription_map c t)
    \<and> rec_status r = (if rec_applied r then t else c)
    \<and> (rec_applied r \<longrightarrow> applyEvents subscription_map c (rec_events r) = Inr t
        \<and> (\<forall>es. applyEvents subscription_map c es = Inr t \<longrightarrow> length (rec_events r) \<le> length es))
    \<and> (\<not> rec_applied r \<longrightarrow> rec_events r = [])"
proof (cases "shortestEventPath c t")
  case None
  then show ?thesis using shortestEventPath_total by blast
next
  case (Some p)
  show ?thesis
  proof (cases p)
    case None
    with Some shortestEventPath_found_iff [of c t] show ?thesis
      by (auto simp: reconcileSubscriptionStatus_def)
  next
    case (Some es)
    with \<open>shortestEventPath c t = Some p\<close> have path: "shortestEventPath c t = Some (Some es)" by simp
    have "length es \<le> length fs" if "applyEvents subscription_map c fs = Inr t" for fs
      using shortestEventPath_shortest [OF path] applyEvents_level [OF that] by (meson not_le)
    with path shortestEventPath_valid [OF path] shortestEventPath_found_iff [of c t] show ?thesis
      by (auto simp: reconcileSubscriptionStatus_def)
  qed
qed

theorem reconcileSubscriptionStatus_witness:
  "moves subscription_map S_trialing S_paused \<and> \<not> moves subscription_map S_canceled S_active"
  using reconcileSubscriptionStatus_correct [of S_trialing S_paused]
    reconcileSubscriptionStatus_correct [of S_canceled S_active]
  by (auto simp: reconcileSubscriptionStatus_def search_eval simp del: searchQueue.simps)

end
