(* ===== verification/Subscription_Items.thy ===== *)
theory Subscription_Items
  imports Request_Keys "HOL-Library.List_Lexorder" "HOL-Library.Char_ord"
begin

text \<open>
  \<open>application/services/subscriptions/match-provider-subscription-items.ts\<close> and
  \<open>reconcile-provider-subscription-items.ts\<close>: which local item is which item of the
  provider. Provider items are objects with an identity, here their index in the input; a
  \<open>Set\<close> or a \<open>Map\<close> keeps the order of insertion, so both are lists. The order of
  \<open>localeCompare\<close> is that of collation keys, a parameter \<open>collate\<close>.
\<close>

record line_item =
  li_priceId :: string
  li_quantity :: int

record provider_item = line_item +
  pi_providerItemId :: "string option"

record subscription_item = line_item +
  it_id :: ident
  it_subscriptionId :: ident
  it_providerItemId :: "string option"
  it_createdAt :: instant
  it_updatedAt :: instant

text \<open>\<open>groupSubscriptionItems\<close>: the groups in the order their keys first appear.\<close>

fun add_to_group :: "'k \<Rightarrow> 'a \<Rightarrow> ('k \<times> 'a list) list \<Rightarrow> ('k \<times> 'a list) list" where
  "add_to_group k x [] = [(k, [x])]"
| "add_to_group k x ((k', xs) # gs) = (if k' = k then (k', xs @ [x]) # gs else (k', xs) # add_to_group k x gs)"

definition groupSubscriptionItems :: "'a list \<Rightarrow> ('a \<Rightarrow> 'k) \<Rightarrow> ('k \<times> 'a list) list" where
  "groupSubscriptionItems items key = foldl (\<lambda>gs x. add_to_group (key x) x gs) [] items"

definition price_and_quantity :: "'z line_item_scheme \<Rightarrow> string" where
  "price_and_quantity x = li_priceId x @ [char_of (0 :: nat)] @ show_int (li_quantity x)"

definition same_quantity :: "'z line_item_scheme list \<Rightarrow> bool" where
  "same_quantity xs \<longleftrightarrow> (\<forall>x \<in> set xs. \<forall>y \<in> set (take 1 xs). li_quantity x = li_quantity y)"

definition collation_key :: "(string \<Rightarrow> string) \<Rightarrow> provider_item \<Rightarrow> string" where
  "collation_key collate p = collate (case pi_providerItemId p of None \<Rightarrow> [] | Some i \<Rightarrow> i)"

type_synonym indexed_item = "nat \<times> provider_item"

text \<open>Whether a local group and the provider items of the same key are paired.\<close>

definition pairable :: "bool \<Rightarrow> nat \<Rightarrow> indexed_item list \<Rightarrow> bool" where
  "pairable duplicates_safe locals providers \<longleftrightarrow> locals = length providers
     \<and> (locals = 1 \<or> duplicates_safe \<and> (\<forall>p \<in> set providers. pi_providerItemId (snd p) \<noteq> None))"

section \<open>Reconciling stored items with a provider's\<close>

record item_matching =
  im_locals :: "subscription_item list"
  im_providers :: "indexed_item list"
  im_pairs :: "(subscription_item \<times> indexed_item) list"

text \<open>The closure \<open>reconcile\<close>: both items are no longer unmatched, and the pair is noted.\<close>

definition match_pair :: "subscription_item \<Rightarrow> indexed_item \<Rightarrow> item_matching \<Rightarrow> item_matching" where
  "match_pair l p s = \<lparr>im_locals = filter (\<lambda>x. it_id x \<noteq> it_id l) (im_locals s),
     im_providers = filter (\<lambda>x. fst x \<noteq> fst p) (im_providers s), im_pairs = im_pairs s @ [(l, p)]\<rparr>"

text \<open>An item whose provider id is absent or empty has no stable match.\<close>

definition stable_match :: "subscription_item list \<Rightarrow> indexed_item \<Rightarrow> item_matching \<Rightarrow> item_matching" where
  "stable_match locals p s = (case pi_providerItemId (snd p) of
      None \<Rightarrow> s
    | Some i \<Rightarrow> if i = [] then s else (case find (\<lambda>l. it_providerItemId l = Some i) locals of
        None \<Rightarrow> s
      | Some l \<Rightarrow> if it_id l \<in> it_id ` set (im_locals s) then match_pair l p s else s))"

definition match_group ::
  "(string \<Rightarrow> string) \<Rightarrow> (line_item \<Rightarrow> string) \<Rightarrow> (subscription_item list \<Rightarrow> bool)
    \<Rightarrow> string \<times> subscription_item list \<Rightarrow> item_matching \<Rightarrow> item_matching" where
  "match_group collate key safe g s =
    (let providers = filter (\<lambda>p. key (line_item.truncate (snd p)) = fst g) (im_providers s) in
     if \<not> pairable (safe (snd g)) (length (snd g)) providers then s
     else fold (\<lambda>(l, p). match_pair l p)
       (zip (sort_key (\<lambda>l. collate (it_id l)) (snd g)) (sort_key (\<lambda>p. collation_key collate (snd p)) providers)) s)"

definition match_groups ::
  "(string \<Rightarrow> string) \<Rightarrow> (line_item \<Rightarrow> string) \<Rightarrow> (subscription_item list \<Rightarrow> bool) \<Rightarrow> subscription_item list
    \<Rightarrow> item_matching \<Rightarrow> item_matching" where
  "match_groups collate key safe locals s =
    fold (match_group collate key safe)
      (groupSubscriptionItems (filter (\<lambda>l. it_id l \<in> it_id ` set (im_locals s) \<and> it_providerItemId l = None) locals)
        (\<lambda>l. key (line_item.truncate l))) s"

definition single_match :: "item_matching \<Rightarrow> item_matching" where
  "single_match s = (case (im_locals s, im_providers s) of ([l], [p]) \<Rightarrow> match_pair l p s | _ \<Rightarrow> s)"

definition item_pairs ::
  "(string \<Rightarrow> string) \<Rightarrow> subscription_item list \<Rightarrow> provider_item list \<Rightarrow> (subscription_item \<times> indexed_item) list" where
  "item_pairs collate locals providers =
    (let s0 = \<lparr>im_locals = locals, im_providers = enumerate 0 providers, im_pairs = []\<rparr>;
         s1 = fold (stable_match locals) (enumerate 0 providers) s0;
         s2 = match_groups collate price_and_quantity (\<lambda>_. True) locals s1;
         s3 = match_groups collate li_priceId same_quantity locals s2
     in im_pairs (single_match s3))"

record item_reconciliation =
  ir_itemId :: ident
  ir_providerItemId :: "string option"
  ir_priceId :: string
  ir_quantity :: int

definition reconciliation_of :: "subscription_item \<times> indexed_item \<Rightarrow> item_reconciliation" where
  "reconciliation_of m = (case m of (l, _, p) \<Rightarrow> \<lparr>ir_itemId = it_id l, ir_providerItemId = pi_providerItemId p,
     ir_priceId = li_priceId p, ir_quantity = li_quantity p\<rparr>)"

definition reconcileProviderSubscriptionItems ::
  "(string \<Rightarrow> string) \<Rightarrow> subscription_item list \<Rightarrow> provider_item list \<Rightarrow> item_reconciliation list" where
  "reconcileProviderSubscriptionItems collate locals providers =
    map reconciliation_of (item_pairs collate locals providers)"

section \<open>Matching line items with a provider's\<close>

text \<open>The map from local indices to provider items, and the provider items still available.\<close>

type_synonym line_matching = "(nat \<times> indexed_item) list \<times> indexed_item list"

definition match_line_group ::
  "(string \<Rightarrow> string) \<Rightarrow> (line_item \<Rightarrow> string) \<Rightarrow> (line_item list \<Rightarrow> bool)
    \<Rightarrow> string \<times> (nat \<times> line_item) list \<Rightarrow> line_matching \<Rightarrow> line_matching" where
  "match_line_group collate key safe g s =
    (let providers = filter (\<lambda>p. key (line_item.truncate (snd p)) = fst g) (snd s) in
     if \<not> pairable (safe (map snd (snd g))) (length (snd g)) providers then s
     else fold (\<lambda>(l, p) (m, available). (m @ [(fst l, p)], filter (\<lambda>x. fst x \<noteq> fst p) available))
       (zip (snd g) (sort_key (\<lambda>p. collation_key collate (snd p)) providers)) s)"

definition match_line_groups ::
  "(string \<Rightarrow> string) \<Rightarrow> (line_item \<Rightarrow> string) \<Rightarrow> (line_item list \<Rightarrow> bool) \<Rightarrow> line_item list
    \<Rightarrow> line_matching \<Rightarrow> line_matching" where
  "match_line_groups collate key safe locals s =
    fold (match_line_group collate key safe)
      (groupSubscriptionItems (filter (\<lambda>l. fst l \<notin> fst ` set (fst s)) (enumerate 0 locals)) (\<lambda>l. key (snd l))) s"

definition matchProviderSubscriptionItems ::
  "(string \<Rightarrow> string) \<Rightarrow> line_item list \<Rightarrow> provider_item list option \<Rightarrow> provider_item list" where
  "matchProviderSubscriptionItems collate locals providers =
    (let s0 = ([], enumerate 0 (case providers of None \<Rightarrow> [] | Some ps \<Rightarrow> ps));
         s1 = match_line_groups collate price_and_quantity (\<lambda>_. True) locals s0;
         s2 = match_line_groups collate li_priceId same_quantity locals s1
     in map (\<lambda>(i, l). line_item.extend l \<lparr>pi_providerItemId =
          Option.bind (map_of (fst s2) i) (\<lambda>p. pi_providerItemId (snd p))\<rparr>) (enumerate 0 locals))"

section \<open>Matchings\<close>

text \<open>Pairs that use no local item and no provider item twice.\<close>

definition matching :: "('l \<Rightarrow> 'i) \<Rightarrow> 'l set \<Rightarrow> indexed_item set \<Rightarrow> ('l \<times> indexed_item) list \<Rightarrow> bool" where
  "matching f L P ps \<longleftrightarrow> distinct (map (f \<circ> fst) ps) \<and> distinct (map (fst \<circ> snd) ps)
    \<and> fst ` set ps \<subseteq> L \<and> snd ` set ps \<subseteq> P"

lemma matching_append_zip:
  assumes m: "matching f L P ps" and len: "length ls = length qs"
    and "distinct (map f ls)" "distinct (map fst qs)" and sub: "set ls \<subseteq> L" "set qs \<subseteq> P"
    and "f ` set ls \<inter> f ` fst ` set ps = {}" and "fst ` set qs \<inter> fst ` snd ` set ps = {}"
  shows "matching f L P (ps @ zip ls qs)"
proof -
  have maps: "map fst (zip ls qs) = ls" "map snd (zip ls qs) = qs" using len by simp_all
  then have sets: "fst ` set (zip ls qs) = set ls" "snd ` set (zip ls qs) = set qs" by (metis set_map)+
  have "distinct (map f (map fst (ps @ zip ls qs)))" "distinct (map fst (map snd (ps @ zip ls qs)))"
    unfolding map_append maps using assms by (simp_all add: matching_def image_comp Int_commute)
  moreover have "fst ` set (ps @ zip ls qs) \<subseteq> L" "snd ` set (ps @ zip ls qs) \<subseteq> P"
    unfolding set_append image_Un sets using m sub by (simp_all add: matching_def)
  ultimately show ?thesis by (simp add: matching_def)
qed

lemma add_to_group_new: "k \<notin> fst ` set gs \<Longrightarrow> add_to_group k x gs = gs @ [(k, [x])]"
  by (induction gs) auto

lemma add_to_group_old:
  "distinct (map fst gs) \<Longrightarrow> k \<in> fst ` set gs \<Longrightarrow>
    add_to_group k x gs = map (\<lambda>(k', xs). (k', if k' = k then xs @ [x] else xs)) gs"
proof (induction gs)
  case (Cons g gs)
  obtain k' ys where g: "g = (k', ys)" by (cases g)
  show ?case
  proof (cases "k' = k")
    case True
    then have "map (\<lambda>(k', xs). (k', if k' = k then xs @ [x] else xs)) gs = gs"
      using Cons.prems(1) g by (intro map_idI) (auto simp: image_iff)
    with True g show ?thesis by simp
  next
    case False
    with Cons g show ?thesis by simp
  qed
qed simp

lemma groups_spec:
  "\<exists>ks. distinct ks \<and> set ks = key ` set items
    \<and> groupSubscriptionItems items key = map (\<lambda>k. (k, filter (\<lambda>x. key x = k) items)) ks"
proof (induction items rule: rev_induct)
  case (snoc x items)
  let ?gs = "groupSubscriptionItems items key"
  have step: "groupSubscriptionItems (items @ [x]) key = add_to_group (key x) x ?gs"
    by (simp add: groupSubscriptionItems_def)
  from snoc obtain ks where ks: "distinct ks" "set ks = key ` set items"
    and gs: "?gs = map (\<lambda>k. (k, filter (\<lambda>x. key x = k) items)) ks" by blast
  have fsts: "map fst ?gs = ks" by (simp add: gs comp_def)
  then have fst_set: "fst ` set ?gs = set ks" by (simp flip: set_map)
  show ?case
  proof (cases "key x \<in> set ks")
    case True
    then have "add_to_group (key x) x ?gs = map (\<lambda>k. (k, filter (\<lambda>y. key y = k) (items @ [x]))) ks"
      using add_to_group_old [of ?gs "key x" x] ks(1) fsts fst_set by (simp add: gs)
    with True ks show ?thesis unfolding step by (intro exI [of _ ks]) auto
  next
    case False
    have "filter (\<lambda>y. key y = k) [x] = []" if "k \<in> set ks" for k using that False by auto
    moreover have "filter (\<lambda>y. key y = key x) items = []" using False ks(2) unfolding filter_empty_conv by (metis imageI)
    ultimately have "add_to_group (key x) x ?gs = map (\<lambda>k. (k, filter (\<lambda>y. key y = k) (items @ [x]))) (ks @ [key x])"
      using add_to_group_new [of "key x" ?gs x] False fst_set by (simp add: gs)
    with False ks show ?thesis unfolding step by (intro exI [of _ "ks @ [key x]"]) auto
  qed
qed (simp add: groupSubscriptionItems_def)

lemma groups_distinct: "distinct (map fst (groupSubscriptionItems items key))"
  using groups_spec [of key items] by (auto simp: comp_def)

lemma groups_memberD:
  "(k, g) \<in> set (groupSubscriptionItems items key) \<Longrightarrow> g = filter (\<lambda>x. key x = k) items"
  using groups_spec [of key items] by auto


section \<open>What the reconciliation pairs\<close>

definition paired_ids :: "item_matching \<Rightarrow> ident set" where
  "paired_ids s = it_id ` fst ` set (im_pairs s)"

definition paired_indices :: "item_matching \<Rightarrow> nat set" where
  "paired_indices s = fst ` snd ` set (im_pairs s)"

text \<open>A pair is justified by the provider's id, or by the price of a local item without one.\<close>

definition justified :: "subscription_item \<times> indexed_item \<Rightarrow> bool" where
  "justified m \<longleftrightarrow> it_providerItemId (fst m) = pi_providerItemId (snd (snd m)) \<and> it_providerItemId (fst m) \<noteq> None
     \<or> it_providerItemId (fst m) = None \<and> li_priceId (fst m) = li_priceId (snd (snd m))"

text \<open>The items not yet matched are those in no pair.\<close>

definition consistent :: "subscription_item list \<Rightarrow> provider_item list \<Rightarrow> item_matching \<Rightarrow> bool" where
  "consistent locals providers s \<longleftrightarrow>
     matching it_id (set locals) (set (enumerate 0 providers)) (im_pairs s)
     \<and> im_locals s = filter (\<lambda>l. it_id l \<notin> paired_ids s) locals
     \<and> im_providers s = filter (\<lambda>p. fst p \<notin> paired_indices s) (enumerate 0 providers)"

lemma match_pairs_eq:
  "length ls = length qs \<Longrightarrow> fold (\<lambda>(l, p). match_pair l p) (zip ls qs) s =
    \<lparr>im_locals = filter (\<lambda>x. it_id x \<notin> it_id ` set ls) (im_locals s),
     im_providers = filter (\<lambda>x. fst x \<notin> fst ` set qs) (im_providers s), im_pairs = im_pairs s @ zip ls qs\<rparr>"
proof (induction ls qs arbitrary: s rule: list_induct2)
  case (Cons l ls q qs)
  then show ?case by (simp add: match_pair_def conj_commute)
qed simp

lemma consistent_step:
  assumes s: "consistent locals providers s" and len: "length ls = length qs"
    and "distinct (map it_id ls)" "distinct (map fst qs)" and "set ls \<subseteq> set locals"
    and "it_id ` set ls \<inter> paired_ids s = {}" and qs: "set qs \<subseteq> set (im_providers s)"
  shows "consistent locals providers (fold (\<lambda>(l, p). match_pair l p) (zip ls qs) s)"
proof -
  have fs: "fst ` set (zip ls qs) = set ls" "snd ` set (zip ls qs) = set qs"
    using len by (metis map_fst_zip map_snd_zip set_map)+
  have "matching it_id (set locals) (set (enumerate 0 providers)) (im_pairs s @ zip ls qs)"
  proof (rule matching_append_zip)
    show "set qs \<subseteq> set (enumerate 0 providers)" "fst ` set qs \<inter> fst ` snd ` set (im_pairs s) = {}"
      using s qs by (auto simp: consistent_def paired_indices_def)
  qed (use assms in \<open>auto simp: consistent_def paired_ids_def\<close>)
  then show ?thesis using s unfolding match_pairs_eq [OF len] consistent_def
    by (simp add: paired_ids_def paired_indices_def image_Un fs conj_commute)
qed

lemma match_pair_consistent:
  assumes "consistent locals providers s" and "l \<in> set locals" "it_id l \<notin> paired_ids s" and "p \<in> set (im_providers s)"
  shows "consistent locals providers (match_pair l p s)"
  using consistent_step [OF assms(1), of "[l]" "[p]"] assms(2-) by simp

lemma match_pair_pairs [simp]: "im_pairs (match_pair l p s) = im_pairs s @ [(l, p)]"
  by (simp add: match_pair_def)


text \<open>The first stage: by the provider's ids.\<close>

definition same_provider_id :: "subscription_item \<times> indexed_item \<Rightarrow> bool" where
  "same_provider_id m \<longleftrightarrow>
     it_providerItemId (fst m) = pi_providerItemId (snd (snd m)) \<and> it_providerItemId (fst m) \<noteq> None"

lemma stable_match_cases:
  assumes s: "consistent locals providers s"
  obtains "stable_match locals p s = s"
  | l where "stable_match locals p s = match_pair l p s" "l \<in> set locals" "it_id l \<notin> paired_ids s"
      "same_provider_id (l, p)"
proof (cases "pi_providerItemId (snd p)")
  case None
  then show ?thesis using that(1) by (simp add: stable_match_def)
next
  case (Some i)
  show ?thesis
  proof (cases "find (\<lambda>l. it_providerItemId l = Some i) locals")
    case None
    then show ?thesis using that(1) Some by (simp add: stable_match_def)
  next
    case l: (Some l)
    from find_SomeD [OF l] have lin: "l \<in> set locals" "it_providerItemId l = Some i" by simp_all
    have mem: "it_id l \<in> it_id ` set (im_locals s) \<longleftrightarrow> it_id l \<notin> paired_ids s"
      using s lin(1) by (auto simp: consistent_def)
    show ?thesis
    proof (cases "i = [] \<or> it_id l \<in> paired_ids s")
      case True
      then have "stable_match locals p s = s" using Some l mem by (auto simp: stable_match_def)
      then show ?thesis by (rule that(1))
    next
      case False
      show ?thesis
      proof (rule that(2))
        show "stable_match locals p s = match_pair l p s" using False Some l mem by (simp add: stable_match_def)
      qed (use False lin Some in \<open>simp_all add: same_provider_id_def\<close>)
    qed
  qed
qed

definition stable_stage :: "subscription_item list \<Rightarrow> provider_item list \<Rightarrow> item_matching \<Rightarrow> bool" where
  "stable_stage locals providers s \<longleftrightarrow>
     consistent locals providers s \<and> (\<forall>m \<in> set (im_pairs s). same_provider_id m)"

lemma stable_step:
  assumes "stable_stage locals providers s" and "p \<in> set (im_providers s)"
  shows "stable_stage locals providers (stable_match locals p s)"
    and "paired_indices (stable_match locals p s) \<subseteq> insert (fst p) (paired_indices s)"
    and "set (im_pairs s) \<subseteq> set (im_pairs (stable_match locals p s))"
proof -
  from assms have "consistent locals providers s" by (simp add: stable_stage_def)
  then have "stable_stage locals providers (stable_match locals p s)
      \<and> paired_indices (stable_match locals p s) \<subseteq> insert (fst p) (paired_indices s)
      \<and> set (im_pairs s) \<subseteq> set (im_pairs (stable_match locals p s))"
    by (cases rule: stable_match_cases [where p = p])
      (use assms match_pair_consistent in \<open>auto simp: stable_stage_def paired_indices_def\<close>)
  then show "stable_stage locals providers (stable_match locals p s)"
    and "paired_indices (stable_match locals p s) \<subseteq> insert (fst p) (paired_indices s)"
    and "set (im_pairs s) \<subseteq> set (im_pairs (stable_match locals p s))" by blast+
qed

lemma disjoint_grown: "A \<subseteq> insert x B \<Longrightarrow> x \<notin> C \<Longrightarrow> C \<inter> B = {} \<Longrightarrow> C \<inter> A = {}"
  by blast

lemma stable_fold:
  assumes "stable_stage locals providers s" and "set ps \<subseteq> set (enumerate 0 providers)"
    and "distinct (map fst ps)" and "fst ` set ps \<inter> paired_indices s = {}"
  shows "stable_stage locals providers (fold (stable_match locals) ps s)
    \<and> paired_indices (fold (stable_match locals) ps s) \<subseteq> fst ` set ps \<union> paired_indices s
    \<and> set (im_pairs s) \<subseteq> set (im_pairs (fold (stable_match locals) ps s))"
  using assms
proof (induction ps arbitrary: s)
  case (Cons p ps)
  then have p: "p \<in> set (im_providers s)" by (auto simp: stable_stage_def consistent_def)
  note step = stable_step [OF Cons.prems(1) p]
  have "fst p \<notin> fst ` set ps" "fst ` set ps \<inter> paired_indices s = {}" using Cons.prems(3,4) by simp_all
  with step(2) have "fst ` set ps \<inter> paired_indices (stable_match locals p s) = {}" by (rule disjoint_grown)
  moreover have "set ps \<subseteq> set (enumerate 0 providers)" "distinct (map fst ps)" using Cons.prems(2,3) by simp_all
  ultimately show ?case using Cons.IH [OF step(1)] step(2,3) unfolding fold_simps list.set image_insert by blast
qed simp

text \<open>An item whose provider id is on both sides once is paired by it.\<close>

lemma stable_found:
  assumes l: "l \<in> set locals" "it_providerItemId l = Some i" "i \<noteq> []"
    and only: "\<And>l'. l' \<in> set locals \<Longrightarrow> it_providerItemId l' = Some i \<Longrightarrow> l' = l"
    and p: "p \<in> set (enumerate 0 providers)" "pi_providerItemId (snd p) = Some i"
    and ids: "distinct (map it_id locals)"
    and once: "\<And>p'. p' \<in> set (enumerate 0 providers) \<Longrightarrow> pi_providerItemId (snd p') = Some i \<Longrightarrow> p' = p"
    and s: "stable_stage locals providers s" "im_pairs s = []"
  shows "(l, p) \<in> set (im_pairs (fold (stable_match locals) (enumerate 0 providers) s))"
proof -
  from p(1) obtain as bs where split: "enumerate 0 providers = as @ p # bs" by (meson split_list)
  then have dist: "distinct (map fst (as @ p # bs))" by (metis distinct_enumerate distinct_map enumerate_eq_zip map_fst_zip length_upt diff_zero distinct_upt add_0)
  have sub: "set (as @ p # bs) \<subseteq> set (enumerate 0 providers)" using split by simp
  let ?t = "fold (stable_match locals) as s"
  have t: "stable_stage locals providers ?t" "paired_indices ?t \<subseteq> fst ` set as"
    using stable_fold [OF s(1), of as] sub dist s(2) by (auto simp: paired_indices_def)
  then have pt: "p \<in> set (im_providers ?t)" using p(1) dist by (auto simp: stable_stage_def consistent_def)
  have "it_id l \<notin> paired_ids ?t"
  proof
    assume "it_id l \<in> paired_ids ?t"
    then obtain l' p' where m: "(l', p') \<in> set (im_pairs ?t)" "it_id l' = it_id l" by (auto simp: paired_ids_def)
    with t(1) have "l' \<in> set locals" "p' \<in> set (enumerate 0 providers)" "same_provider_id (l', p')"
      by (auto simp: stable_stage_def consistent_def matching_def)
    with m(2) l ids have "l' = l" by (auto simp: distinct_map dest: inj_onD)
    with \<open>same_provider_id (l', p')\<close> l(2) once [OF \<open>p' \<in> _\<close>] have "p' = p" by (simp add: same_provider_id_def)
    with m(1) have "fst p \<in> paired_indices ?t" unfolding paired_indices_def by (metis image_eqI snd_conv)
    with t(2) have "fst p \<in> fst ` set as" by blast
    with dist show False by simp
  qed
  moreover have "find (\<lambda>l. it_providerItemId l = Some i) locals = Some l"
  proof (cases "find (\<lambda>l. it_providerItemId l = Some i) locals")
    case None
    from find_NoneD [OF None l(1)] l(2) show ?thesis by simp
  next
    case (Some l')
    from find_SomeD [OF Some] only show ?thesis by (simp add: Some)
  qed
  moreover have "l \<in> set (im_locals ?t)" if "it_id l \<notin> paired_ids ?t"
    using that t(1) l(1) by (auto simp: stable_stage_def consistent_def)
  ultimately have found: "stable_match locals p ?t = match_pair l p ?t"
    using l(3) p(2) by (simp add: stable_match_def)
  note next_stage = stable_step [OF t(1) pt]
  have "fst p \<notin> fst ` set bs" "fst ` set bs \<inter> fst ` set as = {}" using dist by auto
  then have "fst ` set bs \<inter> paired_indices (stable_match locals p ?t) = {}"
    using t(2) by (intro disjoint_grown [OF next_stage(2)]) (assumption, rule Int_emptyI, blast)
  then have "set (im_pairs (match_pair l p ?t)) \<subseteq> set (im_pairs (fold (stable_match locals) bs (match_pair l p ?t)))"
    using stable_fold [OF next_stage(1), of bs] sub dist unfolding found by simp
  then show ?thesis unfolding split by (simp add: found)
qed


text \<open>The stages by price.\<close>

definition reconciled :: "subscription_item list \<Rightarrow> provider_item list \<Rightarrow> item_matching \<Rightarrow> bool" where
  "reconciled locals providers s \<longleftrightarrow> consistent locals providers s \<and> (\<forall>m \<in> set (im_pairs s). justified m)"

definition price_key :: "(line_item \<Rightarrow> string) \<Rightarrow> bool" where
  "price_key key \<longleftrightarrow> (\<forall>x y. key x = key y \<longrightarrow> li_priceId x = li_priceId y)"

lemma distinct_map_sort_key [simp]: "distinct (map f (sort_key k xs)) = distinct (map f xs)"
  by (simp add: distinct_map)

lemma zip_pairs_from: "m \<in> set (zip xs ys) \<Longrightarrow> fst m \<in> set xs \<and> snd m \<in> set ys"
  by (cases m) (auto dest: set_zip_leftD set_zip_rightD)

lemma distinct_map_fst_enumerate: "distinct (map fst (enumerate n xs))"
  by (simp add: enumerate_eq_zip)

lemma match_group_step:
  assumes key: "price_key key" and s: "reconciled locals providers s"
    and g: "set g \<subseteq> set locals" "distinct (map it_id g)" "it_id ` set g \<inter> paired_ids s = {}"
    and unbound: "\<And>l. l \<in> set g \<Longrightarrow> it_providerItemId l = None \<and> key (line_item.truncate l) = k"
    and s'_def: "s' = match_group collate key safe (k, g) s"
  shows "reconciled locals providers s' \<and> paired_ids s' \<subseteq> it_id ` set g \<union> paired_ids s
    \<and> set (im_pairs s) \<subseteq> set (im_pairs s')"
proof -
  define qs where "qs = filter (\<lambda>p. key (line_item.truncate (snd p)) = k) (im_providers s)"
  show ?thesis
  proof (cases "pairable (safe g) (length g) qs")
    case False
    then have "s' = s" by (simp add: s'_def match_group_def qs_def)
    with s show ?thesis by simp
  next
    case True
    let ?ls = "sort_key (\<lambda>l. collate (it_id l)) g" and ?qs = "sort_key (\<lambda>p. collation_key collate (snd p)) qs"
    from True have s': "s' = fold (\<lambda>(l, p). match_pair l p) (zip ?ls ?qs) s"
      by (simp add: s'_def match_group_def qs_def Let_def)
    from True have len: "length ?ls = length ?qs" by (simp add: pairable_def)
    have pairs: "im_pairs s' = im_pairs s @ zip ?ls ?qs" unfolding s' match_pairs_eq [OF len] by simp
    have c: "consistent locals providers s" using s by (simp add: reconciled_def)
    then have "distinct (map fst qs)"
      by (simp add: qs_def consistent_def filter_map_fst_distinct distinct_map_fst_enumerate)
    then have "consistent locals providers s'" unfolding s'
      using g by (intro consistent_step [OF c len]) (auto simp: qs_def)
    moreover have "justified m" if "m \<in> set (zip ?ls ?qs)" for m
    proof -
      from zip_pairs_from [OF that] have m: "fst m \<in> set g" "snd m \<in> set qs" by simp_all
      with unbound have "key (line_item.truncate (fst m)) = key (line_item.truncate (snd (snd m)))"
        by (simp add: qs_def)
      with key have "li_priceId (line_item.truncate (fst m)) = li_priceId (line_item.truncate (snd (snd m)))"
        unfolding price_key_def by blast
      with m unbound show ?thesis by (simp add: justified_def line_item.truncate_def)
    qed
    moreover have "paired_ids s' \<subseteq> it_id ` set g \<union> paired_ids s"
      by (auto simp: paired_ids_def pairs dest: zip_pairs_from)
    ultimately show ?thesis using s by (auto simp: reconciled_def pairs)
  qed
qed

lemma match_groups_fold:
  assumes key: "price_key key" and ids: "distinct (map it_id locals)" and "reconciled locals providers s"
    and "distinct (map fst gs)"
    and "\<And>k g. (k, g) \<in> set gs \<Longrightarrow> g = filter (\<lambda>l. key (line_item.truncate l) = k) ls"
    and "set ls \<subseteq> set locals" "distinct (map it_id ls)" and "\<And>l. l \<in> set ls \<Longrightarrow> it_providerItemId l = None"
    and "\<And>k g. (k, g) \<in> set gs \<Longrightarrow> it_id ` set g \<inter> paired_ids s = {}"
  shows "reconciled locals providers (fold (match_group collate key safe) gs s)
    \<and> set (im_pairs s) \<subseteq> set (im_pairs (fold (match_group collate key safe) gs s))"
  using assms(3,4,5,9)
proof (induction gs arbitrary: s)
  case (Cons g gs)
  obtain k xs where g: "g = (k, xs)" by (cases g)
  with Cons.prems(3) have xs: "xs = filter (\<lambda>l. key (line_item.truncate l) = k) ls" by simp
  let ?s = "match_group collate key safe (k, xs) s"
  have step: "reconciled locals providers ?s \<and> paired_ids ?s \<subseteq> it_id ` set xs \<union> paired_ids s
      \<and> set (im_pairs s) \<subseteq> set (im_pairs ?s)"
  proof (rule match_group_step [OF key Cons.prems(1) _ _ _ _ refl])
    show "it_id ` set xs \<inter> paired_ids s = {}" using Cons.prems(4) [of k xs] g by simp
    show "distinct (map it_id xs)" using assms(7) xs by (simp add: filter_map_fst_distinct)
  qed (use assms(6,8) xs in auto)
  have other: "it_id ` set xs' \<inter> paired_ids ?s = {}" if "(k', xs') \<in> set gs" for k' xs'
  proof -
    have "k' \<noteq> k" using Cons.prems(2) that g by (force simp: image_iff)
    moreover have "xs' = filter (\<lambda>l. key (line_item.truncate l) = k') ls" using Cons.prems(3) that by simp
    ultimately have "it_id ` set xs' \<inter> it_id ` set xs = {}"
      using xs assms(7) by (auto simp: distinct_map dest: inj_onD)
    moreover have "it_id ` set xs' \<inter> paired_ids s = {}" by (rule Cons.prems(4) [of k']) (simp add: that)
    ultimately show ?thesis using step by blast
  qed
  have "reconciled locals providers (fold (match_group collate key safe) gs ?s)
    \<and> set (im_pairs ?s) \<subseteq> set (im_pairs (fold (match_group collate key safe) gs ?s))"
  proof (rule Cons.IH)
    show "distinct (map fst gs)" using Cons.prems(2) by simp
    show "\<And>k g. (k, g) \<in> set gs \<Longrightarrow> g = filter (\<lambda>l. key (line_item.truncate l) = k) ls"
      using Cons.prems(3) by simp
  qed (use step other in auto)
  with step show ?case by (simp add: g) blast
qed simp

lemma match_groups_step:
  assumes key: "price_key key" and ids: "distinct (map it_id locals)" and s: "reconciled locals providers s"
  shows "reconciled locals providers (match_groups collate key safe locals s)
    \<and> set (im_pairs s) \<subseteq> set (im_pairs (match_groups collate key safe locals s))"
proof -
  let ?ls = "filter (\<lambda>l. it_id l \<in> it_id ` set (im_locals s) \<and> it_providerItemId l = None) locals"
  have free: "it_id ` set ?ls \<inter> paired_ids s = {}" using s by (auto simp: reconciled_def consistent_def)
  show ?thesis unfolding match_groups_def
  proof (rule match_groups_fold [OF key ids s groups_distinct])
    show "distinct (map it_id ?ls)" using ids by (rule filter_map_fst_distinct)
    show g: "g = filter (\<lambda>l. key (line_item.truncate l) = k) ?ls"
      if "(k, g) \<in> set (groupSubscriptionItems ?ls (\<lambda>l. key (line_item.truncate l)))" for k g
      using groups_memberD [OF that] .
    show "it_id ` set g \<inter> paired_ids s = {}"
      if "(k, g) \<in> set (groupSubscriptionItems ?ls (\<lambda>l. key (line_item.truncate l)))" for k g
      using free groups_memberD [OF that] by auto
  qed auto
qed

lemma show_int_no_nul: "CHR 0x00 \<notin> set (show_int n)"
proof -
  have "CHR 0x00 \<notin> set (show_nat m)" for m
    using show_nat_ok [of m] by (auto simp: list_all_iff is_digit_def)
  then show ?thesis by (simp add: show_int_def)
qed

lemma price_keys: "price_key price_and_quantity" "price_key li_priceId"
proof -
  have last: "takeWhile (\<lambda>c. c \<noteq> CHR 0x00) (rev (price_and_quantity x)) = rev (show_int (li_quantity x))" for x :: line_item
    using show_int_no_nul [of "li_quantity x"] by (simp add: price_and_quantity_def takeWhile_append char_of_def)
  then have "li_priceId x = li_priceId y" if "price_and_quantity x = price_and_quantity y" for x y :: line_item
  proof -
    have "rev (show_int (li_quantity x)) = rev (show_int (li_quantity y))" using last [of x] last [of y] that by simp
    then have "show_int (li_quantity x) = show_int (li_quantity y)" by simp
    with that show ?thesis by (simp add: price_and_quantity_def)
  qed
  then show "price_key price_and_quantity" unfolding price_key_def by blast
qed (simp add: price_key_def)


lemma all_paired:
  assumes c: "consistent locals providers s"
  shows "distinct (map it_id locals) \<Longrightarrow> im_locals s = [] \<Longrightarrow> length (im_pairs s) = length locals"
    and "im_providers s = [] \<Longrightarrow> length (im_pairs s) = length providers"
proof -
  from c have m: "matching it_id (set locals) (set (enumerate 0 providers)) (im_pairs s)" by (simp add: consistent_def)
  { assume "im_locals s = []"
    with c have "filter (\<lambda>l. it_id l \<notin> paired_ids s) locals = []" by (simp add: consistent_def)
    then have "it_id ` set locals \<subseteq> paired_ids s" by (auto simp: filter_empty_conv)
    moreover have "paired_ids s \<subseteq> it_id ` set locals" using m unfolding matching_def paired_ids_def by blast
    ultimately have "it_id ` set locals = set (map (it_id \<circ> fst) (im_pairs s))" by (auto simp: paired_ids_def image_comp)
    moreover assume "distinct (map it_id locals)"
    ultimately show "length (im_pairs s) = length locals"
      using m unfolding matching_def by (metis distinct_card length_map list.set_map) }
  { assume "im_providers s = []"
    with c have "filter (\<lambda>p. fst p \<notin> paired_indices s) (enumerate 0 providers) = []" by (simp add: consistent_def)
    then have "fst ` set (enumerate 0 providers) \<subseteq> paired_indices s" unfolding filter_empty_conv by blast
    moreover have "paired_indices s \<subseteq> fst ` set (enumerate 0 providers)"
      using m unfolding matching_def paired_indices_def by blast
    ultimately have "set (map fst (enumerate 0 providers)) = set (map (fst \<circ> snd) (im_pairs s))"
      unfolding paired_indices_def list.set_map image_comp by blast
    then show "length (im_pairs s) = length providers"
      using m distinct_map_fst_enumerate [of 0 providers] unfolding matching_def
      by (metis distinct_card length_map length_enumerate) }
qed

lemma single_match_step:
  assumes ids: "distinct (map it_id locals)" and s: "reconciled locals providers s"
  shows "single_match s = s \<or> (\<exists>m. im_pairs (single_match s) = im_pairs s @ [m]
    \<and> consistent locals providers (single_match s)
    \<and> length (im_pairs (single_match s)) = length locals \<and> length (im_pairs (single_match s)) = length providers)"
proof (cases "\<exists>l p. im_locals s = [l] \<and> im_providers s = [p]")
  case False
  then have "single_match s = s" by (auto simp: single_match_def split: list.split)
  then show ?thesis ..
next
  case True
  then obtain l p where lp: "im_locals s = [l]" "im_providers s = [p]" by blast
  have eq: "single_match s = match_pair l p s" using lp by (simp add: single_match_def)
  have c: "consistent locals providers s" using s by (simp add: reconciled_def)
  then have ls: "[l] = filter (\<lambda>l. it_id l \<notin> paired_ids s) locals" using lp by (simp add: consistent_def)
  have "l \<in> set [l]" by simp
  then have "l \<in> set locals" "it_id l \<notin> paired_ids s" unfolding ls by simp_all
  with match_pair_consistent [OF c] lp(2) have c': "consistent locals providers (match_pair l p s)" by simp
  have "im_locals (match_pair l p s) = []" "im_providers (match_pair l p s) = []"
    using lp by (simp_all add: match_pair_def)
  with all_paired [OF c'] ids c' show ?thesis unfolding eq by simp
qed



section \<open>What the line matching pairs\<close>

definition line_ok :: "line_item list \<Rightarrow> provider_item list \<Rightarrow> line_matching \<Rightarrow> bool" where
  "line_ok locals providers s \<longleftrightarrow>
     matching id {..<length locals} (set (enumerate 0 providers)) (fst s)
     \<and> snd s = filter (\<lambda>p. fst p \<notin> fst ` snd ` set (fst s)) (enumerate 0 providers)
     \<and> (\<forall>m \<in> set (fst s). li_priceId (locals ! fst m) = li_priceId (snd (snd m)))"

lemma match_lines_eq:
  "length ls = length qs \<Longrightarrow>
    fold (\<lambda>(l, p) (m, available). (m @ [(fst l, p)], filter (\<lambda>x. fst x \<noteq> fst p) available)) (zip ls qs) s =
    (fst s @ zip (map fst ls) qs, filter (\<lambda>x. fst x \<notin> fst ` set qs) (snd s))"
proof (induction ls qs arbitrary: s rule: list_induct2)
  case (Cons l ls q qs)
  then show ?case by (cases s) (simp add: conj_commute)
qed simp

lemma match_line_group_step:
  assumes key: "price_key key" and s: "line_ok locals providers s"
    and g: "set g \<subseteq> set (enumerate 0 locals)" "distinct (map fst g)" "fst ` set g \<inter> fst ` set (fst s) = {}"
    and k: "\<And>l. l \<in> set g \<Longrightarrow> key (snd l) = k"
    and s'_def: "s' = match_line_group collate key safe (k, g) s"
  shows "line_ok locals providers s' \<and> fst ` set (fst s') \<subseteq> fst ` set g \<union> fst ` set (fst s)
    \<and> set (fst s) \<subseteq> set (fst s')
    \<and> (\<forall>k'. k' \<noteq> k \<longrightarrow> filter (\<lambda>p. key (line_item.truncate (snd p)) = k') (snd s')
        = filter (\<lambda>p. key (line_item.truncate (snd p)) = k') (snd s))
    \<and> (\<forall>l p. g = [l] \<and> filter (\<lambda>p. key (line_item.truncate (snd p)) = k) (snd s) = [p] \<longrightarrow> (fst l, p) \<in> set (fst s'))"
proof -
  define qs where "qs = filter (\<lambda>p. key (line_item.truncate (snd p)) = k) (snd s)"
  show ?thesis
  proof (cases "pairable (safe (map snd g)) (length g) qs")
    case False
    then have "s' = s" by (simp add: s'_def match_line_group_def qs_def)
    moreover from False have "\<not> (length g = 1 \<and> length qs = 1)" by (auto simp: pairable_def)
    ultimately show ?thesis using s by (auto simp: qs_def)
  next
    case True
    let ?qs = "sort_key (\<lambda>p. collation_key collate (snd p)) qs"
    from True have len: "length g = length ?qs" by (simp add: pairable_def)
    from True have s': "s' = (fst s @ zip (map fst g) ?qs, filter (\<lambda>x. fst x \<notin> fst ` set ?qs) (snd s))"
      unfolding match_lines_eq [OF len, symmetric] by (simp add: s'_def match_line_group_def qs_def Let_def)
    from s have av: "snd s = filter (\<lambda>p. fst p \<notin> fst ` snd ` set (fst s)) (enumerate 0 providers)"
      and m: "matching id {..<length locals} (set (enumerate 0 providers)) (fst s)" by (simp_all add: line_ok_def)
    have zip2: "snd ` set (zip (map fst g) ?qs) = set qs" using len by (simp flip: set_map)
    have sub: "set qs \<subseteq> set (enumerate 0 providers)" "fst ` set qs \<inter> fst ` snd ` set (fst s) = {}"
      by (auto simp: qs_def av)
    have dist: "distinct (map fst qs)" "distinct (map fst (snd s))"
      by (simp_all add: qs_def av filter_map_fst_distinct distinct_map_fst_enumerate)
    have "matching id {..<length locals} (set (enumerate 0 providers)) (fst s @ zip (map fst g) ?qs)"
    proof (rule matching_append_zip [OF m])
      show "set (map fst g) \<subseteq> {..<length locals}" using g(1) by (auto simp: in_set_enumerate_eq)
    qed (use len g sub dist in auto)
    moreover have "li_priceId (locals ! fst x) = li_priceId (snd (snd x))" if x: "x \<in> set (zip (map fst g) ?qs)" for x
    proof -
      from zip_pairs_from [OF x] obtain l where l: "l \<in> set g" "fst x = fst l" and q: "snd x \<in> set qs" by auto
      then have "snd l = locals ! fst x" using g(1) by (auto simp: in_set_enumerate_eq)
      with k [OF l(1)] q have "key (locals ! fst x) = key (line_item.truncate (snd (snd x)))" by (simp add: qs_def)
      with key have "li_priceId (locals ! fst x) = li_priceId (line_item.truncate (snd (snd x)))"
        unfolding price_key_def by blast
      then show ?thesis by (simp add: line_item.truncate_def)
    qed
    ultimately have "line_ok locals providers s'"
      using s unfolding s' line_ok_def by (auto simp: zip2 image_Un av)
    moreover have "fst ` set (fst s') \<subseteq> fst ` set g \<union> fst ` set (fst s)"
      unfolding s' by (auto dest: zip_pairs_from)
    moreover have "filter (\<lambda>p. key (line_item.truncate (snd p)) = k') (snd s')
        = filter (\<lambda>p. key (line_item.truncate (snd p)) = k') (snd s)" if "k' \<noteq> k" for k'
    proof -
      have "fst p \<notin> fst ` set qs" if "p \<in> set (snd s)" "key (line_item.truncate (snd p)) = k'" for p
        using that \<open>k' \<noteq> k\<close> dist(2) by (auto simp: qs_def distinct_map dest: inj_onD)
      then show ?thesis unfolding s' by (simp, intro filter_cong) auto
    qed
    moreover have "(fst l, p) \<in> set (fst s')" if "g = [l]" "qs = [p]" for l p
      using that unfolding s' by simp
    ultimately show ?thesis by (auto simp: s' qs_def)
  qed
qed

lemma disjoint_union: "A \<subseteq> B \<union> C \<Longrightarrow> D \<inter> B = {} \<Longrightarrow> D \<inter> C = {} \<Longrightarrow> D \<inter> A = {}"
  by blast

lemma match_line_groups_fold:
  assumes key: "price_key key" and "line_ok locals providers s"
    and "distinct (map fst gs)"
    and "\<And>k g. (k, g) \<in> set gs \<Longrightarrow> g = filter (\<lambda>l. key (snd l) = k) ls"
    and ls: "set ls \<subseteq> set (enumerate 0 locals)" "distinct (map fst ls)"
    and "\<And>k g. (k, g) \<in> set gs \<Longrightarrow> fst ` set g \<inter> fst ` set (fst s) = {}"
    and run_def: "run = fold (match_line_group collate key safe) gs"
  shows "line_ok locals providers (run s) \<and> set (fst s) \<subseteq> set (fst (run s))
    \<and> (\<forall>k l p. (k, [l]) \<in> set gs \<and> filter (\<lambda>p. key (line_item.truncate (snd p)) = k) (snd s) = [p]
        \<longrightarrow> (fst l, p) \<in> set (fst (run s)))"
  using assms(2,3,4,7) unfolding run_def
proof (induction gs arbitrary: s)
  case (Cons g gs)
  obtain k xs where g: "g = (k, xs)" by (cases g)
  with Cons.prems(3) have xs: "xs = filter (\<lambda>l. key (snd l) = k) ls" by simp
  define s' where "s' = match_line_group collate key safe (k, xs) s"
  have dxs: "distinct (map fst xs)" using ls(2) xs by (simp add: filter_map_fst_distinct)
  have "set xs \<subseteq> set (enumerate 0 locals)" and "fst ` set xs \<inter> fst ` set (fst s) = {}"
    and "\<And>l. l \<in> set xs \<Longrightarrow> key (snd l) = k"
    using ls(1) xs Cons.prems(4) [of k xs] g by auto
  note step = match_line_group_step [OF key Cons.prems(1) this(1) dxs this(2,3) s'_def]
  have other: "fst ` set xs' \<inter> fst ` set (fst s') = {}" if "(k', xs') \<in> set gs" for k' xs'
  proof -
    have "k' \<noteq> k" using Cons.prems(2) that g by (force simp: image_iff)
    moreover have "xs' = filter (\<lambda>l. key (snd l) = k') ls" using Cons.prems(3) that by simp
    ultimately have "fst ` set xs' \<inter> fst ` set xs = {}"
      using xs ls(2) by (auto simp: distinct_map dest: inj_onD)
    moreover have "fst ` set xs' \<inter> fst ` set (fst s) = {}" by (rule Cons.prems(4) [of k']) (simp add: that)
    ultimately show ?thesis by (intro disjoint_union [OF step [THEN conjunct2, THEN conjunct1]])
  qed
  have dist: "distinct (map fst gs)" and new: "\<And>k' xs'. (k', xs') \<in> set gs \<Longrightarrow> k' \<noteq> k"
    using Cons.prems(2) g by (force simp: image_iff)+
  have lok: "line_ok locals providers s'" using step by blast
  have sel: "\<And>k g. (k, g) \<in> set gs \<Longrightarrow> g = filter (\<lambda>l. key (snd l) = k) ls"
    using Cons.prems(3) by (meson list.set_intros(2))
  let ?fin = "fold (match_line_group collate key safe) gs s'"
  have all: "line_ok locals providers ?fin \<and> set (fst s') \<subseteq> set (fst ?fin)
    \<and> (\<forall>k l p. (k, [l]) \<in> set gs \<and> filter (\<lambda>p. key (line_item.truncate (snd p)) = k) (snd s') = [p]
        \<longrightarrow> (fst l, p) \<in> set (fst ?fin))"
    by (rule Cons.IH) (fact lok dist sel other)+
  then have IH: "line_ok locals providers ?fin" "set (fst s') \<subseteq> set (fst ?fin)" by simp_all
  have "(fst l, p) \<in> set (fst (fold (match_line_group collate key safe) gs s'))"
    if "(k', [l]) \<in> set (g # gs)" "filter (\<lambda>p. key (line_item.truncate (snd p)) = k') (snd s) = [p]" for k' l p
  proof (cases "k' = k")
    case True
    with that(1) new g have "xs = [l]" by auto
    with step that(2) True have "(fst l, p) \<in> set (fst s')" by (cases l, cases p) simp
    with IH(2) show ?thesis by (rule subsetD)
  next
    case False
    with that(1) g have "(k', [l]) \<in> set gs" by auto
    moreover have "filter (\<lambda>p. key (line_item.truncate (snd p)) = k') (snd s') = [p]" using step False that(2) by simp
    ultimately show ?thesis using all [THEN conjunct2, THEN conjunct2, rule_format, of k' l p] by simp
  qed
  moreover have "set (fst s) \<subseteq> set (fst ?fin)" 
    by (rule order_trans [OF step [THEN conjunct2, THEN conjunct2, THEN conjunct1] IH(2)])
  ultimately show ?case using IH(1) unfolding g fold_simps s'_def [symmetric]
    by (intro conjI allI impI) (simp, simp, elim conjE, simp)
qed simp


lemma match_line_groups_step:
  assumes key: "price_key key" and s: "line_ok locals providers s"
    and ls_def: "ls = filter (\<lambda>l. fst l \<notin> fst ` set (fst s)) (enumerate 0 locals)"
  shows "line_ok locals providers (match_line_groups collate key safe locals s)
    \<and> set (fst s) \<subseteq> set (fst (match_line_groups collate key safe locals s))
    \<and> (\<forall>k l p. filter (\<lambda>l. key (snd l) = k) ls = [l] \<and> filter (\<lambda>p. key (line_item.truncate (snd p)) = k) (snd s) = [p]
        \<longrightarrow> (fst l, p) \<in> set (fst (match_line_groups collate key safe locals s)))"
proof -
  let ?gs = "groupSubscriptionItems ls (\<lambda>l. key (snd l))"
  have "(k, [l]) \<in> set ?gs" if "filter (\<lambda>l. key (snd l) = k) ls = [l]" for k l
  proof -
    have "l \<in> set (filter (\<lambda>l. key (snd l) = k) ls)" using that by simp
    then have "k \<in> (\<lambda>l. key (snd l)) ` set ls" by auto
    moreover obtain ks where ks: "set ks = (\<lambda>l. key (snd l)) ` set ls"
      and gs: "?gs = map (\<lambda>k. (k, filter (\<lambda>l. key (snd l) = k) ls)) ks"
      using groups_spec [of "\<lambda>l. key (snd l)" ls] by (elim exE conjE) (rule that)
    ultimately have "k \<in> set ks" by simp
    then show ?thesis unfolding gs list.set_map that [symmetric] by (rule imageI)
  qed
  moreover have "line_ok locals providers (fold (match_line_group collate key safe) ?gs s)
    \<and> set (fst s) \<subseteq> set (fst (fold (match_line_group collate key safe) ?gs s))
    \<and> (\<forall>k l p. (k, [l]) \<in> set ?gs \<and> filter (\<lambda>p. key (line_item.truncate (snd p)) = k) (snd s) = [p]
        \<longrightarrow> (fst l, p) \<in> set (fst (fold (match_line_group collate key safe) ?gs s)))"
  proof (rule match_line_groups_fold [OF key s groups_distinct])
    show "set ls \<subseteq> set (enumerate 0 locals)" "distinct (map fst ls)"
      by (auto simp: ls_def filter_map_fst_distinct distinct_map_fst_enumerate)
    show "g = filter (\<lambda>l. key (snd l) = k) ls" "fst ` set g \<inter> fst ` set (fst s) = {}" if "(k, g) \<in> set ?gs" for k g
      using groups_memberD [OF that] by (auto simp: ls_def)
  qed simp
  ultimately show ?thesis unfolding match_line_groups_def ls_def [symmetric] by blast
qed

lemma price_and_quantity_inject:
  "price_and_quantity x = price_and_quantity y \<longleftrightarrow> li_priceId x = li_priceId y \<and> li_quantity x = li_quantity y"
  for x y :: line_item
proof
  assume eq: "price_and_quantity x = price_and_quantity y"
  then have "li_priceId x = li_priceId y" using price_keys(1) unfolding price_key_def by blast
  moreover from eq this show_int_inject have "li_quantity x = li_quantity y" by (simp add: price_and_quantity_def)
  ultimately show "li_priceId x = li_priceId y \<and> li_quantity x = li_quantity y" ..
qed (simp add: price_and_quantity_def)

lemma filter_single:
  assumes "x \<in> set xs" and "distinct xs" and "P x" and "\<And>y. y \<in> set xs \<Longrightarrow> P y \<Longrightarrow> y = x"
  shows "filter P xs = [x]"
  using assms
proof (induction xs)
  case (Cons y ys)
  show ?case
  proof (cases "y = x")
    case True
    with Cons.prems(2) have "x \<notin> set ys" by simp
    then have "\<not> P z" if "z \<in> set ys" for z using that Cons.prems(4) by (metis list.set_intros(2))
    then have "filter P ys = []" unfolding filter_empty_conv by blast
    with True Cons.prems(3) show ?thesis by simp
  next
    case False
    have "\<not> P y" using False Cons.prems(4) by (metis list.set_intros(1))
    moreover have "x \<in> set ys" using False Cons.prems(1) by simp
    moreover have "filter P ys = [x]" using Cons.IH Cons.prems(2-4) \<open>x \<in> set ys\<close> by (metis distinct.simps(2) list.set_intros(2))
    ultimately show ?thesis by simp
  qed
qed simp

lemma matching_map_of:
  "matching id L P m \<Longrightarrow> (i, p) \<in> set m \<Longrightarrow> map_of m i = Some p"
  by (rule map_of_is_SomeI) (simp_all add: matching_def comp_def id_def)

text \<open>Whether two lines have the same price and quantity.\<close>

definition same_line :: "'y line_item_scheme \<Rightarrow> 'z line_item_scheme \<Rightarrow> bool" where
  "same_line x y \<longleftrightarrow> li_priceId x = li_priceId y \<and> li_quantity x = li_quantity y"

text \<open>
  C32. Matching line items with a provider's answers each line item unchanged, with the id of the
  provider item it is matched with: no provider item serves two lines, prices agree, and a line
  that is alone in its price and quantity on both sides is matched with its counterpart.
\<close>

theorem lines_matched:
  "\<exists>m. matching id {..<length locals} (set (enumerate 0 providers)) m
    \<and> matchProviderSubscriptionItems collate locals (Some providers) =
        map (\<lambda>i. line_item.extend (locals ! i) \<lparr>pi_providerItemId =
          Option.bind (map_of m i) (\<lambda>p. pi_providerItemId (snd p))\<rparr>) [0..<length locals]
    \<and> (\<forall>(i, p) \<in> set m. li_priceId (locals ! i) = li_priceId (snd p))
    \<and> (\<forall>i < length locals. \<forall>p \<in> set (enumerate 0 providers).
        {j. j < length locals \<and> same_line (locals ! j) (locals ! i)} = {i} \<and>
        {q \<in> set (enumerate 0 providers). same_line (snd q) (locals ! i)} = {p} \<longrightarrow> map_of m i = Some p)"
proof -
  define n where "n = length locals"
  let ?P = "set (enumerate 0 providers)"
  define s0 :: line_matching where "s0 = ([], enumerate 0 providers)"
  define s1 where "s1 = match_line_groups collate price_and_quantity (\<lambda>_. True) locals s0"
  define s2 where "s2 = match_line_groups collate li_priceId same_quantity locals s1"
  have s0: "line_ok locals providers s0" by (simp add: s0_def line_ok_def matching_def)
  note one = match_line_groups_step [OF price_keys(1) s0 refl, of collate "\<lambda>_. True", folded s1_def]
  then have s1: "line_ok locals providers s1" by blast
  note two = match_line_groups_step [OF price_keys(2) s1 refl, of collate same_quantity, folded s2_def]
  then have s2: "line_ok locals providers s2" by blast
  then have m: "matching id {..<n} ?P (fst s2)" by (simp add: line_ok_def n_def)
  have "matchProviderSubscriptionItems collate locals (Some providers) =
      map (\<lambda>(i, l). line_item.extend l \<lparr>pi_providerItemId =
        Option.bind (map_of (fst s2) i) (\<lambda>p. pi_providerItemId (snd p))\<rparr>) (enumerate 0 locals)"
    by (simp add: matchProviderSubscriptionItems_def s0_def s1_def s2_def Let_def)
  also have "\<dots> = map (\<lambda>i. line_item.extend (locals ! i) \<lparr>pi_providerItemId =
          Option.bind (map_of (fst s2) i) (\<lambda>p. pi_providerItemId (snd p))\<rparr>) [0..<n]"
    by (rule nth_equalityI) (simp_all add: n_def nth_enumerate_eq)
  finally have result: "matchProviderSubscriptionItems collate locals (Some providers) = \<dots>" .
  have "map_of (fst s2) i = Some p" if i: "i < n" and p: "p \<in> ?P"
    and once: "{j. j < n \<and> same_line (locals ! j) (locals ! i)} = {i}"
      "{q \<in> ?P. same_line (snd q) (locals ! i)} = {p}" for i p
  proof -
    let ?k = "price_and_quantity (locals ! i)"
    have "filter (\<lambda>l. price_and_quantity (snd l) = ?k) (enumerate 0 locals) = [(i, locals ! i)]"
    proof (rule filter_single [OF _ distinct_enumerate])
      show "(i, locals ! i) \<in> set (enumerate 0 locals)" using i by (simp add: in_set_enumerate_eq n_def)
      show "l = (i, locals ! i)" if l: "l \<in> set (enumerate 0 locals)" "price_and_quantity (snd l) = ?k" for l
      proof -
        have "fst l \<in> {j. j < n \<and> same_line (locals ! j) (locals ! i)}"
          using l by (simp add: in_set_enumerate_eq price_and_quantity_inject same_line_def n_def)
        with l(1) show ?thesis unfolding once(1) by (simp add: in_set_enumerate_eq prod_eq_iff)
      qed
    qed simp
    moreover have "filter (\<lambda>p. price_and_quantity (line_item.truncate (snd p)) = ?k) (enumerate 0 providers) = [p]"
    proof (rule filter_single [OF p distinct_enumerate])
      have eq: "price_and_quantity (line_item.truncate (snd q)) = ?k \<longleftrightarrow> same_line (snd q) (locals ! i)" for q :: indexed_item
        by (simp add: price_and_quantity_inject same_line_def line_item.truncate_def)
      show "price_and_quantity (line_item.truncate (snd p)) = ?k" unfolding eq using once(2) by blast
      show "q = p" if "q \<in> ?P" "price_and_quantity (line_item.truncate (snd q)) = ?k" for q
        using that once(2) unfolding eq by blast
    qed
    moreover have "snd s0 = enumerate 0 providers" "filter (\<lambda>l. fst l \<notin> fst ` set (fst s0)) (enumerate 0 locals) = enumerate 0 locals"
      by (simp_all add: s0_def)
    ultimately have "(fst (i, locals ! i), p) \<in> set (fst s1)" using one by metis
    then have "(i, p) \<in> set (fst s1)" by simp
    with two have "(i, p) \<in> set (fst s2)" by blast
    with matching_map_of [OF m] show ?thesis .
  qed
  moreover have "\<forall>(i, p) \<in> set (fst s2). li_priceId (locals ! i) = li_priceId (snd p)"
    using s2 by (auto simp: line_ok_def)
  ultimately show ?thesis using m result unfolding n_def by (intro exI [of _ "fst s2"]) blast
qed


definition example_provider_items :: "provider_item list" where
  "example_provider_items =
    [\<lparr>li_priceId = ''pro'', li_quantity = 2, pi_providerItemId = Some ''si_1''\<rparr>,
     \<lparr>li_priceId = ''pro'', li_quantity = 1, pi_providerItemId = Some ''si_2''\<rparr>,
     \<lparr>li_priceId = ''base'', li_quantity = 1, pi_providerItemId = Some ''si_3''\<rparr>]"

definition example_lines :: "line_item list" where
  "example_lines = [\<lparr>li_priceId = ''pro'', li_quantity = 1\<rparr>, \<lparr>li_priceId = ''base'', li_quantity = 4\<rparr>,
     \<lparr>li_priceId = ''pro'', li_quantity = 2\<rparr>]"

definition example_items :: "subscription_item list" where
  "example_items =
    [\<lparr>li_priceId = ''pro'', li_quantity = 1, it_id = ''a'', it_subscriptionId = ''s'', it_providerItemId = Some ''si_1'',
      it_createdAt = 0, it_updatedAt = 0\<rparr>,
     \<lparr>li_priceId = ''base'', li_quantity = 4, it_id = ''b'', it_subscriptionId = ''s'', it_providerItemId = None,
      it_createdAt = 0, it_updatedAt = 0\<rparr>]"

theorem lines_matched_witness:
  "map pi_providerItemId (matchProviderSubscriptionItems id example_lines (Some example_provider_items))
      = [Some ''si_2'', Some ''si_3'', Some ''si_1'']
    \<and> (\<exists>m :: (nat \<times> indexed_item) list. map_of m 0 = Some (1, example_provider_items ! 1))"
proof
  show "map pi_providerItemId (matchProviderSubscriptionItems id example_lines (Some example_provider_items))
      = [Some ''si_2'', Some ''si_3'', Some ''si_1'']" by code_simp
  have once: "{j. j < length example_lines \<and> same_line (example_lines ! j) (example_lines ! 0)} = {0}"
      "{q \<in> set (enumerate 0 example_provider_items). same_line (snd q) (example_lines ! 0)}
        = {(1, example_provider_items ! 1)}"
    by (auto simp: example_lines_def example_provider_items_def same_line_def nth_Cons' split: if_splits)
  have mem: "0 < length example_lines" "(1, example_provider_items ! 1) \<in> set (enumerate 0 example_provider_items)"
    by (simp_all add: example_lines_def example_provider_items_def)
  obtain m where m: "\<forall>i < length example_lines. \<forall>p \<in> set (enumerate 0 example_provider_items).
        {j. j < length example_lines \<and> same_line (example_lines ! j) (example_lines ! i)} = {i} \<and>
        {q \<in> set (enumerate 0 example_provider_items). same_line (snd q) (example_lines ! i)} = {p} \<longrightarrow> map_of m i = Some p"
    using lines_matched [of example_lines example_provider_items id] by (elim exE conjE) (rule that)
  from m [rule_format, OF mem conjI [OF once]]
  show "\<exists>m :: (nat \<times> indexed_item) list. map_of m 0 = Some (1, example_provider_items ! 1)" by blast
qed


end
