(* ===== verification/Audit_Chain.thy ===== *)
theory Audit_Chain
  imports Prelude "HOL-Library.Multiset" "HOL-Library.List_Lexorder" "HOL-Library.Char_ord"
    "HOL-Library.Product_Lexorder"
begin

text \<open>
  The hash-chained audit log: \<open>infrastructure/audit/audit-chain.ts\<close>, \<open>audit-service.ts\<close> and
  \<open>KnexAuditLogRepository\<close>. The digest of a payload (SHA-256 of its canonical JSON, or an
  HMAC of it when a key is configured) is a parameter \<open>H\<close>. JSON columns hold JSON values,
  which writing and parsing do not change. Between the read of the latest entry and the
  insert other clients may act: the environment \<open>env\<close>; the unique index on (tenant,
  sequence) then refuses the insert and the append is retried.
\<close>

record 'j audit_content =
  au_correlationId :: string
  au_actorType :: "string option"
  au_actorId :: "string option"
  au_action :: string
  au_resourceType :: string
  au_resourceId :: string
  au_before :: "'j option"
  au_after :: "'j option"
  au_metadata :: "'j option"
  au_ipAddress :: "string option"
  au_userAgent :: "string option"

record 'j audit_row =
  ar_id :: string
  ar_sequence :: "int option"
  ar_tenant :: string
  ar_content :: "'j audit_content"
  ar_previousHash :: "string option"
  ar_hash :: "string option"
  ar_createdAt :: instant

record 'j audit_entry =
  ae_id :: string
  ae_sequence :: int
  ae_tenant :: tenant
  ae_content :: "'j audit_content"
  ae_previousHash :: "string option"
  ae_hash :: "string option"
  ae_createdAt :: instant

record 'j audit_payload =
  pl_previousHash :: "string option"
  pl_sequence :: int
  pl_createdAt :: instant
  pl_tenant :: tenant
  pl_content :: "'j audit_content"

record 'j audit_db =
  audit_rows :: "'j audit_row list"
  audit_now :: instant

definition auditPayload ::
  "string option \<Rightarrow> int \<Rightarrow> instant \<Rightarrow> tenant \<Rightarrow> 'j audit_content \<Rightarrow> 'j audit_payload" where
  "auditPayload previousHash sequence createdAt tenant content =
    \<lparr>pl_previousHash = previousHash, pl_sequence = sequence, pl_createdAt = createdAt,
     pl_tenant = tenant, pl_content = content\<rparr>"

definition auditEntryHash ::
  "('j audit_payload \<Rightarrow> string) \<Rightarrow> string option \<Rightarrow> int \<Rightarrow> instant \<Rightarrow> tenant \<Rightarrow> 'j audit_content \<Rightarrow> string" where
  "auditEntryHash H previousHash sequence createdAt tenant content =
    H (auditPayload previousHash sequence createdAt tenant content)"

definition auditLinkValid ::
  "('j audit_payload \<Rightarrow> string) \<Rightarrow> string option \<Rightarrow> int \<Rightarrow> 'j audit_entry \<Rightarrow> bool" where
  "auditLinkValid H previousHash sequence entry \<longleftrightarrow>
    (if ae_previousHash entry \<noteq> previousHash then False
     else ae_hash entry = Some (auditEntryHash H previousHash sequence (ae_createdAt entry)
            (ae_tenant entry) (ae_content entry)))"

definition audit_tenant :: "tenant \<Rightarrow> string" where
  "audit_tenant t = (case t of None \<Rightarrow> [] | Some s \<Rightarrow> s)"

definition toEntity :: "'j audit_row \<Rightarrow> error + 'j audit_entry" where
  "toEntity r = (case ar_sequence r of
      None \<Rightarrow> Inl (PayableError ''AUDIT_SEQUENCE_INVALID'')
    | Some s \<Rightarrow> if s < 1 then Inl (PayableError ''AUDIT_SEQUENCE_INVALID'')
        else Inr \<lparr>ae_id = ar_id r, ae_sequence = s,
          ae_tenant = (if ar_tenant r = [] then None else Some (ar_tenant r)),
          ae_content = ar_content r, ae_previousHash = ar_previousHash r, ae_hash = ar_hash r,
          ae_createdAt = ar_createdAt r\<rparr>)"

definition seq_of :: "'j audit_row \<Rightarrow> int" where
  "seq_of r = (case ar_sequence r of None \<Rightarrow> 0 | Some s \<Rightarrow> s)"

text \<open>The hash and sequence of the tenant's last sequenced entry.\<close>

definition latestEntry :: "string \<Rightarrow> 'j audit_row list \<Rightarrow> (string option \<times> int) option" where
  "latestEntry t rows =
    (case rev (sort_key seq_of (filter (\<lambda>r. ar_tenant r = t \<and> ar_sequence r \<noteq> None) rows)) of
       [] \<Rightarrow> None
     | r # _ \<Rightarrow> Some (ar_hash r, seq_of r))"

definition appendEntry ::
  "('j audit_payload \<Rightarrow> string) \<Rightarrow> ('j audit_db \<Rightarrow> 'j audit_db) \<Rightarrow> string \<Rightarrow> tenant \<Rightarrow> 'j audit_content
    \<Rightarrow> ('j audit_db, 'j audit_entry) io" where
  "appendEntry H env new_id tenant content = (\<lambda>w.
    let latest = latestEntry (audit_tenant tenant) (audit_rows w);
        previousHash = (case latest of None \<Rightarrow> None | Some (h, _) \<Rightarrow> h);
        sequence = (case latest of None \<Rightarrow> 0 | Some (_, s) \<Rightarrow> s) + 1;
        createdAt = audit_now w;
        record = \<lparr>ar_id = new_id, ar_sequence = Some sequence, ar_tenant = audit_tenant tenant,
          ar_content = content, ar_previousHash = previousHash,
          ar_hash = Some (auditEntryHash H previousHash sequence createdAt tenant content),
          ar_createdAt = createdAt\<rparr>;
        w' = env w
    in if \<exists>r \<in> set (audit_rows w'). ar_tenant r = ar_tenant record \<and> ar_sequence r = ar_sequence record
       then (Inl (ForeignError ''UNIQUE_VIOLATION''), w')
       else (toEntity record, w'\<lparr>audit_rows := audit_rows w' @ [record]\<rparr>))"

definition isUniqueViolation :: "error \<Rightarrow> bool" where
  "isUniqueViolation e \<longleftrightarrow> e = ForeignError ''UNIQUE_VIOLATION''"

fun createAttempts ::
  "('j audit_payload \<Rightarrow> string) \<Rightarrow> (nat \<Rightarrow> 'j audit_db \<Rightarrow> 'j audit_db) \<Rightarrow> (nat \<Rightarrow> string) \<Rightarrow> tenant
    \<Rightarrow> 'j audit_content \<Rightarrow> nat \<Rightarrow> ('j audit_db, 'j audit_entry) io" where
  "createAttempts H env ids tenant content 0 = throw (PayableError ''AUDIT_CHAIN_CONTENTION'')"
| "createAttempts H env ids tenant content (Suc n) =
    catching (appendEntry H (env n) (ids n) tenant content)
      (\<lambda>e. if \<not> isUniqueViolation e then throw e else createAttempts H env ids tenant content n)"

definition MAX_CHAIN_RETRIES :: nat where
  "MAX_CHAIN_RETRIES = 50"

definition audit_create ::
  "('j audit_payload \<Rightarrow> string) \<Rightarrow> (nat \<Rightarrow> 'j audit_db \<Rightarrow> 'j audit_db) \<Rightarrow> (nat \<Rightarrow> string) \<Rightarrow> tenant
    \<Rightarrow> 'j audit_content \<Rightarrow> ('j audit_db, 'j audit_entry) io" where
  "audit_create H env ids tenant content = createAttempts H env ids tenant content MAX_CHAIN_RETRIES"

section \<open>Verification, page by page\<close>

definition MAX_AUDIT_LIST_LIMIT :: nat where
  "MAX_AUDIT_LIST_LIMIT = 1000"

definition chainPage :: "string \<Rightarrow> int \<Rightarrow> 'j audit_row list \<Rightarrow> 'j audit_row list" where
  "chainPage t after rows = take MAX_AUDIT_LIST_LIMIT
    (sort_key seq_of (filter (\<lambda>r. ar_tenant r = t \<and> ar_sequence r \<noteq> None \<and> seq_of r > after) rows))"

text \<open>The \<open>for\<close> loop over a page: \<open>None\<close> when a link is invalid, else the last hash and sequence.\<close>

fun verifyRows ::
  "('j audit_payload \<Rightarrow> string) \<Rightarrow> string option \<Rightarrow> int \<Rightarrow> 'j audit_row list
    \<Rightarrow> error + (string option \<times> int) option" where
  "verifyRows H previousHash after [] = Inr (Some (previousHash, after))"
| "verifyRows H previousHash after (r # rs) =
    (case toEntity r of
       Inl e \<Rightarrow> Inl e
     | Inr entry \<Rightarrow>
         if \<not> auditLinkValid H previousHash (seq_of r) entry then Inr None
         else verifyRows H (ae_hash entry) (seq_of r) rs)"

lemma verifyRows_after:
  "verifyRows H p a rs = Inr (Some (p', a')) \<Longrightarrow> a' = (if rs = [] then a else seq_of (last rs))"
  by (induction rs arbitrary: p a) (auto split: sum.splits if_splits)

function verifyLoop ::
  "('j audit_payload \<Rightarrow> string) \<Rightarrow> string \<Rightarrow> 'j audit_row list \<Rightarrow> string option \<Rightarrow> int \<Rightarrow> error + bool" where
  "verifyLoop H t db previousHash after =
    (let rows = chainPage t after db in
     if rows = [] then Inr True
     else case verifyRows H previousHash after rows of
         Inl e \<Rightarrow> Inl e
       | Inr None \<Rightarrow> Inr False
       | Inr (Some (p', a')) \<Rightarrow>
           if length rows < MAX_AUDIT_LIST_LIMIT then Inr True else verifyLoop H t db p' a')"
  by pat_completeness auto
termination
proof (relation "measure (\<lambda>(H, t, db, p, after). length (filter (\<lambda>r. ar_tenant r = t \<and> ar_sequence r \<noteq> None \<and> seq_of r > after) db))")
  fix H t and db :: "'j audit_row list" and p after rows x x2 y p' a'
  assume rows: "rows = chainPage t after db" "rows \<noteq> []" and x: "verifyRows H p after rows = Inr x2"
    "x2 = Some y" "(p', a') = y"
  let ?P = "\<lambda>a r. ar_tenant r = t \<and> ar_sequence r \<noteq> None \<and> seq_of r > a"
  have a': "a' = seq_of (last rows)" using verifyRows_after [of H p after rows p' a'] x rows(2) by auto
  have "last rows \<in> set rows" using rows(2) by simp
  then have l: "last rows \<in> set db" "?P after (last rows)"
    by (auto simp: rows(1) chainPage_def dest!: in_set_takeD)
  have "length (filter (?P a') db) < length (filter (?P after) db)"
  proof -
    have "filter (?P a') db = filter (\<lambda>r. seq_of r > a') (filter (?P after) db)"
      using l(2) a' by (auto intro!: filter_cong)
    moreover have "length (filter (\<lambda>r. seq_of r > a') (filter (?P after) db)) < length (filter (?P after) db)"
      using l a' by (intro length_filter_less [of "last rows"]) auto
    ultimately show ?thesis by simp
  qed
  then show "((H, t, db, p', a'), H, t, db, p, after) \<in> measure (\<lambda>(H, t, db, p, after).
      length (filter (\<lambda>r. ar_tenant r = t \<and> ar_sequence r \<noteq> None \<and> seq_of r > after) db))"
    by simp
qed simp

declare verifyLoop.simps [simp del]

definition verifyChain :: "('j audit_payload \<Rightarrow> string) \<Rightarrow> tenant \<Rightarrow> ('j audit_db, bool) io" where
  "verifyChain H tenant =
    (\<lambda>w. (verifyLoop H (audit_tenant tenant) (audit_rows w) None 0, w))"

section \<open>Backfilling legacy rows\<close>

fun backfillRows ::
  "('j audit_payload \<Rightarrow> string) \<Rightarrow> string option \<Rightarrow> int \<Rightarrow> 'j audit_row list \<Rightarrow> 'j audit_row list
    \<Rightarrow> error + 'j audit_row list" where
  "backfillRows H previousHash sequence [] db = Inr db"
| "backfillRows H previousHash sequence (r # rs) db =
    (case toEntity (r\<lparr>ar_sequence := Some (sequence + 1)\<rparr>) of
       Inl e \<Rightarrow> Inl e
     | Inr entry \<Rightarrow>
         let h = auditEntryHash H previousHash (sequence + 1) (ae_createdAt entry) (ae_tenant entry) (ae_content entry)
         in backfillRows H (Some h) (sequence + 1) rs
              (map (\<lambda>x. if ar_id x = ae_id entry
                 then x\<lparr>ar_sequence := Some (sequence + 1), ar_previousHash := previousHash, ar_hash := Some h\<rparr>
                 else x) db))"

definition backfillChain ::
  "('j audit_payload \<Rightarrow> string) \<Rightarrow> tenant \<Rightarrow> ('j audit_db, nat) io" where
  "backfillChain H tenant = atomically (\<lambda>w.
    let t = audit_tenant tenant;
        legacy = sort_key (\<lambda>r. (ar_createdAt r, ar_id r))
          (filter (\<lambda>r. ar_tenant r = t \<and> ar_sequence r = None) (audit_rows w))
    in if legacy = [] then (Inr 0, w)
       else let latest = latestEntry t (audit_rows w);
                previousHash = (case latest of None \<Rightarrow> None | Some (h, _) \<Rightarrow> h);
                sequence = (case latest of None \<Rightarrow> 0 | Some (_, s) \<Rightarrow> s)
            in case backfillRows H previousHash sequence legacy (audit_rows w) of
                 Inl e \<Rightarrow> (Inl e, w)
               | Inr rows \<Rightarrow> (Inr (length legacy), w\<lparr>audit_rows := rows\<rparr>))"

section \<open>Chains\<close>

definition entry_tenant :: "'j audit_row \<Rightarrow> tenant" where
  "entry_tenant r = (if ar_tenant r = [] then None else Some (ar_tenant r))"

definition row_valid :: "('j audit_payload \<Rightarrow> string) \<Rightarrow> string option \<Rightarrow> 'j audit_row \<Rightarrow> bool" where
  "row_valid H p r \<longleftrightarrow> ar_previousHash r = p \<and>
    ar_hash r = Some (auditEntryHash H p (seq_of r) (ar_createdAt r) (entry_tenant r) (ar_content r))"

fun links :: "('j audit_payload \<Rightarrow> string) \<Rightarrow> string option \<Rightarrow> 'j audit_row list \<Rightarrow> bool" where
  "links H p [] = True"
| "links H p (r # rs) = (row_valid H p r \<and> links H (ar_hash r) rs)"

definition chain :: "string \<Rightarrow> 'j audit_row list \<Rightarrow> 'j audit_row list" where
  "chain t rows = sort_key seq_of (filter (\<lambda>r. ar_tenant r = t \<and> ar_sequence r \<noteq> None) rows)"

definition head_hash :: "string option \<Rightarrow> 'j audit_row list \<Rightarrow> string option" where
  "head_hash p rows = (if rows = [] then p else ar_hash (last rows))"

text \<open>The unique index: one row per tenant and sequence, counted from one.\<close>

definition sequenced :: "string \<Rightarrow> 'j audit_row list \<Rightarrow> bool" where
  "sequenced t rows \<longleftrightarrow> distinct (map seq_of (chain t rows)) \<and> (\<forall>r \<in> set (chain t rows). 1 \<le> seq_of r)"

definition chain_ok :: "('j audit_payload \<Rightarrow> string) \<Rightarrow> string \<Rightarrow> 'j audit_row list \<Rightarrow> bool" where
  "chain_ok H t rows \<longleftrightarrow> links H None (chain t rows)
    \<and> map seq_of (chain t rows) = map int [1..<Suc (length (chain t rows))]"

lemma links_append: "links H p (xs @ ys) \<longleftrightarrow> links H p xs \<and> links H (head_hash p xs) ys"
  by (induction xs arbitrary: p) (auto simp: head_hash_def)

lemma toEntity_chain: "ar_sequence r \<noteq> None \<Longrightarrow> 1 \<le> seq_of r \<Longrightarrow>
    \<exists>e. toEntity r = Inr e \<and> ae_hash e = ar_hash r \<and> (auditLinkValid H p (seq_of r) e \<longleftrightarrow> row_valid H p r)"
  by (auto simp: toEntity_def seq_of_def auditLinkValid_def row_valid_def entry_tenant_def split: option.splits)

lemma verifyRows_links:
  assumes "\<forall>r \<in> set rs. ar_sequence r \<noteq> None \<and> 1 \<le> seq_of r"
  shows "verifyRows H p a rs = Inr (if links H p rs
      then Some (head_hash p rs, if rs = [] then a else seq_of (last rs)) else None)"
  using assms
proof (induction rs arbitrary: p a)
  case (Cons r rs)
  then obtain e where "toEntity r = Inr e" "ae_hash e = ar_hash r"
      "auditLinkValid H p (seq_of r) e \<longleftrightarrow> row_valid H p r"
    using toEntity_chain [of r H p] by auto
  with Cons show ?case by (auto simp: head_hash_def)
qed (simp add: head_hash_def)

lemma filter_after_prefix:
  assumes "sorted (map f xs)" and "distinct (map f xs)" and "0 < n" and "n \<le> length xs"
  shows "filter (\<lambda>r. f r > f (xs ! (n - 1))) xs = drop n xs"
proof -
  have lt: "f (xs ! i) < f (xs ! j)" if "i < j" "j < length xs" for i j
  proof -
    have "f (xs ! i) \<le> f (xs ! j)" using assms(1) that by (auto simp: sorted_iff_nth_mono)
    moreover have "f (xs ! i) \<noteq> f (xs ! j)" using assms(2) that by (auto simp: distinct_conv_nth)
    ultimately show ?thesis by simp
  qed
  have "\<forall>r \<in> set (take n xs). \<not> f r > f (xs ! (n - 1))"
  proof
    fix r assume "r \<in> set (take n xs)"
    then obtain i where "i < n" "r = xs ! i" using assms(4) by (auto simp: in_set_conv_nth)
    then show "\<not> f r > f (xs ! (n - 1))"
      using lt [of i "n - 1"] assms(3,4) by (cases "i = n - 1") (auto simp: not_less less_imp_le)
  qed
  moreover have "\<forall>r \<in> set (drop n xs). f r > f (xs ! (n - 1))"
  proof
    fix r assume "r \<in> set (drop n xs)"
    then obtain i where "i < length (drop n xs)" "r = drop n xs ! i" by (metis in_set_conv_nth)
    then have "n + i < length xs" "r = xs ! (n + i)" using assms(4) by auto
    then show "f r > f (xs ! (n - 1))" using lt [of "n - 1" "n + i"] assms(3) by simp
  qed
  ultimately have "filter (\<lambda>r. f r > f (xs ! (n - 1))) (take n xs @ drop n xs) = drop n xs"
    by (simp only: filter_append filter_False filter_True append_Nil)
  then show ?thesis by simp
qed

definition rest_after :: "string \<Rightarrow> int \<Rightarrow> 'j audit_row list \<Rightarrow> 'j audit_row list" where
  "rest_after t a rows = filter (\<lambda>r. seq_of r > a) (chain t rows)"

lemma chainPage_rest: "chainPage t a rows = take MAX_AUDIT_LIST_LIMIT (rest_after t a rows)"
  by (simp add: chainPage_def rest_after_def chain_def filter_sort filter_filter conj_commute conj_left_commute)

lemma rest_after_step:
  assumes "sequenced t rows" and "rest_after t a rows \<noteq> []" and "page = take n (rest_after t a rows)" and "0 < n"
  shows "rest_after t (seq_of (last page)) rows = drop n (rest_after t a rows)"
proof -
  let ?xs = "rest_after t a rows"
  let ?m = "min n (length ?xs)"
  have sorted: "sorted (map seq_of ?xs)"
    by (simp add: rest_after_def chain_def filter_sort)
  have dist: "distinct (map seq_of ?xs)"
    using assms(1) by (simp add: rest_after_def sequenced_def filter_map_fst_distinct)
  have page: "page \<noteq> []" "last page = ?xs ! (?m - 1)"
    using assms(2-4) by (auto simp: last_conv_nth min.commute)
  have "seq_of (last page) > a"
    using assms(2-4) page last_in_set [OF page(1)] by (auto simp: rest_after_def dest: in_set_takeD)
  then have "rest_after t (seq_of (last page)) rows = filter (\<lambda>r. seq_of r > seq_of (last page)) ?xs"
    by (auto simp: rest_after_def intro!: filter_cong)
  also have "\<dots> = drop ?m ?xs"
    unfolding page(2) using assms(2,4) by (intro filter_after_prefix [OF sorted dist]) auto
  finally show ?thesis by (cases "n \<le> length ?xs") simp_all
qed

lemma verifyLoop_links:
  assumes "sequenced t db"
  shows "verifyLoop H t db p a = Inr (links H p (rest_after t a db))"
  using assms
proof (induction H t db p a rule: verifyLoop.induct)
  case (1 H t db p a)
  let ?xs = "rest_after t a db" and ?n = MAX_AUDIT_LIST_LIMIT
  let ?page = "take ?n ?xs"
  have n: "0 < ?n" by (simp add: MAX_AUDIT_LIST_LIMIT_def)
  show ?case
  proof (cases "?xs = []")
    case True
    then show ?thesis by (simp add: verifyLoop.simps chainPage_rest)
  next
    case False
    have page: "?page \<noteq> []" using False n by simp
    have "\<forall>r \<in> set ?page. ar_sequence r \<noteq> None \<and> 1 \<le> seq_of r"
      using "1.prems" by (auto simp: rest_after_def sequenced_def chain_def dest!: in_set_takeD)
    note rows = verifyRows_links [OF this, of H p a]
    have split: "links H p ?xs \<longleftrightarrow> links H p ?page \<and> links H (head_hash p ?page) (drop ?n ?xs)"
      using links_append [of H p ?page "drop ?n ?xs"] by simp
    have step: "verifyLoop H t db p a = (case verifyRows H p a ?page of
         Inl e \<Rightarrow> Inl e
       | Inr None \<Rightarrow> Inr False
       | Inr (Some (p', a')) \<Rightarrow> if length ?page < ?n then Inr True else verifyLoop H t db p' a')"
      using page by (subst verifyLoop.simps) (simp add: chainPage_rest Let_def)
    note eval = step rows page option.case sum.case prod.case if_True if_False
    consider (bad) "\<not> links H p ?page" | (end_of_chain) "links H p ?page" "length ?page < ?n"
      | (more) "links H p ?page" "\<not> length ?page < ?n" by blast
    then show ?thesis
    proof cases
      case bad
      then have "links H p ?page = False" "links H p ?xs = False" using split by auto
      then show ?thesis by (simp only: eval)
    next
      case end_of_chain
      then have "drop ?n ?xs = []" by simp
      with end_of_chain split have "links H p ?page = True" "(length ?page < ?n) = True" "links H p ?xs = True"
        by auto
      then show ?thesis by (simp only: eval)
    next
      case more
      then have m: "links H p ?page = True" "(length ?page < ?n) = False" by simp_all
      have "verifyLoop H t db (head_hash p ?page) (seq_of (last ?page))
          = Inr (links H (head_hash p ?page) (rest_after t (seq_of (last ?page)) db))"
        by (rule "1.IH" [of "chainPage t a db" "Some (head_hash p ?page, seq_of (last ?page))"
              "(head_hash p ?page, seq_of (last ?page))"])
          (use more page rows "1.prems" in \<open>auto simp: chainPage_rest\<close>)
      with more(1) split rest_after_step [OF "1.prems" False refl n]
      show ?thesis by (simp only: eval m) simp
    qed
  qed
qed

lemma rest_after_0: "sequenced t rows \<Longrightarrow> rest_after t 0 rows = chain t rows"
  by (auto simp: rest_after_def sequenced_def filter_id_conv dest!: bspec)

lemma chain_ok_sequenced: "chain_ok H t rows \<Longrightarrow> sequenced t rows"
proof -
  assume "chain_ok H t rows"
  then have m: "map seq_of (chain t rows) = map int [1..<Suc (length (chain t rows))]" by (simp add: chain_ok_def)
  have "distinct (map seq_of (chain t rows))" unfolding m by (simp add: distinct_map)
  moreover have "\<forall>s \<in> set (map seq_of (chain t rows)). 1 \<le> s" unfolding m by auto
  ultimately show ?thesis by (simp add: sequenced_def)
qed

text \<open>
  C18. Verification of a tenant's log answers whether every entry, in sequence order, links
  to the one before it and carries the digest of its own contents: reading the table in pages
  of a thousand rows changes nothing, and the loop over the pages ends.
\<close>

theorem verifyChain_correct:
  assumes "sequenced (audit_tenant tenant) (audit_rows w)"
  shows "verifyChain H tenant w = (Inr (links H None (chain (audit_tenant tenant) (audit_rows w))), w)"
  using verifyLoop_links [OF assms, of H None 0] rest_after_0 [OF assms] by (simp add: verifyChain_def)

section \<open>Appending\<close>

lemma sort_key_snoc:
  assumes "\<forall>y \<in> set xs. f y \<le> f x"
  shows "sort_key f (xs @ [x]) = sort_key f xs @ [x]"
proof (rule properties_for_sort_key)
  show "mset (sort_key f xs @ [x]) = mset (xs @ [x])" by simp
  show "sorted (map f (sort_key f xs @ [x]))" using assms by (auto simp: sorted_append)
  show "filter (\<lambda>y. f k = f y) (sort_key f xs @ [x]) = filter (\<lambda>y. f k = f y) (xs @ [x])" for k
    using sort_key_stable [of f "f k" xs] by (simp add: eq_commute)
qed

lemma chain_snoc:
  assumes "ar_tenant r = t" and "ar_sequence r \<noteq> None" and "\<forall>x \<in> set (chain t rows). seq_of x \<le> seq_of r"
  shows "chain t (rows @ [r]) = chain t rows @ [r]"
  using assms sort_key_snoc [of "filter (\<lambda>r. ar_tenant r = t \<and> ar_sequence r \<noteq> None) rows" seq_of r]
  by (auto simp: chain_def)

lemma latestEntry_chain:
  "latestEntry t rows = (if chain t rows = [] then None
     else Some (ar_hash (last (chain t rows)), seq_of (last (chain t rows))))"
proof -
  have "latestEntry t rows = (case rev (chain t rows) of [] \<Rightarrow> None | r # _ \<Rightarrow> Some (ar_hash r, seq_of r))"
    by (simp only: latestEntry_def chain_def)
  then show ?thesis by (cases "chain t rows" rule: rev_cases) simp_all
qed

lemma chain_ok_nth:
  assumes "chain_ok H t rows" and "i < length (chain t rows)"
  shows "seq_of (chain t rows ! i) = int i + 1"
proof -
  have "map seq_of (chain t rows) ! i = map int [1..<Suc (length (chain t rows))] ! i"
    using assms(1) by (simp add: chain_ok_def)
  with assms(2) show ?thesis by (simp del: upt_Suc)
qed

lemma latestEntry_ok:
  assumes "chain_ok H t rows"
  shows "(case latestEntry t rows of None \<Rightarrow> None | Some (h, _) \<Rightarrow> h) = head_hash None (chain t rows)"
    and "(case latestEntry t rows of None \<Rightarrow> 0 | Some (_, s) \<Rightarrow> s) = int (length (chain t rows))"
proof -
  show "(case latestEntry t rows of None \<Rightarrow> None | Some (h, _) \<Rightarrow> h) = head_hash None (chain t rows)"
    by (simp add: latestEntry_chain head_hash_def)
  show "(case latestEntry t rows of None \<Rightarrow> 0 | Some (_, s) \<Rightarrow> s) = int (length (chain t rows))"
    using chain_ok_nth [OF assms, of "length (chain t rows) - 1"]
    by (cases "chain t rows = []") (auto simp: latestEntry_chain last_conv_nth of_nat_diff Suc_leI)
qed

lemma chain_ok_extend:
  assumes "chain_ok H t rows" and "chain t rows' = chain t rows @ [r]"
    and "seq_of r = int (length (chain t rows)) + 1" and "row_valid H (head_hash None (chain t rows)) r"
  shows "chain_ok H t rows'"
  using assms(1,3,4) unfolding chain_ok_def assms(2) by (simp add: links_append)

lemma chain_ok_snoc:
  assumes ok: "chain_ok H t rows" and r: "ar_tenant r = t" "ar_sequence r = Some (int (length (chain t rows)) + 1)"
    and valid: "row_valid H (head_hash None (chain t rows)) r"
  shows "chain t (rows @ [r]) = chain t rows @ [r]" and "chain_ok H t (rows @ [r])"
proof -
  have seq: "seq_of r = int (length (chain t rows)) + 1" using r(2) by (simp add: seq_of_def)
  have "\<forall>x \<in> set (chain t rows). seq_of x \<le> seq_of r"
    using chain_ok_nth [OF ok] seq by (auto simp: in_set_conv_nth)
  then show c: "chain t (rows @ [r]) = chain t rows @ [r]" using r by (intro chain_snoc) auto
  show "chain_ok H t (rows @ [r])"
    using ok valid seq by (simp add: chain_ok_def c links_append)
qed

text \<open>What other clients may do to a tenant's chain while an append is under way: extend it.\<close>

definition extends_chains :: "('j audit_payload \<Rightarrow> string) \<Rightarrow> string \<Rightarrow> ('j audit_db \<Rightarrow> 'j audit_db) \<Rightarrow> bool" where
  "extends_chains H t env \<longleftrightarrow> (\<forall>v. chain_ok H t (audit_rows v) \<longrightarrow> chain_ok H t (audit_rows (env v)) \<and>
     (\<exists>extra. chain t (audit_rows (env v)) = chain t (audit_rows v) @ extra))"

lemma chain_member: "r \<in> set (chain t rows) \<longleftrightarrow> r \<in> set rows \<and> ar_tenant r = t \<and> ar_sequence r \<noteq> None"
  by (auto simp: chain_def)

lemma appendEntry_step:
  assumes ok: "chain_ok H t (audit_rows w)" and env: "extends_chains H t env"
    and t: "t = audit_tenant tenant" and "tenant \<noteq> Some []"
  shows "(\<exists>e r w'. appendEntry H env i tenant content w = (Inr e, w') \<and> toEntity r = Inr e
        \<and> ar_content r = content \<and> chain t (audit_rows w') = chain t (audit_rows w) @ [r]
        \<and> chain_ok H t (audit_rows w'))
    \<or> (appendEntry H env i tenant content w = (Inl (ForeignError ''UNIQUE_VIOLATION''), env w)
        \<and> chain t (audit_rows (env w)) \<noteq> chain t (audit_rows w))"
proof -
  let ?c = "chain t (audit_rows w)"
  obtain extra where env': "chain_ok H t (audit_rows (env w))" "chain t (audit_rows (env w)) = ?c @ extra"
    using env ok by (auto simp: extends_chains_def)
  define r where "r = \<lparr>ar_id = i, ar_sequence = Some (int (length ?c) + 1), ar_tenant = t,
     ar_content = content, ar_previousHash = head_hash None ?c,
     ar_hash = Some (auditEntryHash H (head_hash None ?c) (int (length ?c) + 1) (audit_now w) tenant content),
     ar_createdAt = audit_now w\<rparr>"
  have run: "appendEntry H env i tenant content w =
      (if \<exists>x \<in> set (audit_rows (env w)). ar_tenant x = t \<and> ar_sequence x = Some (int (length ?c) + 1)
       then (Inl (ForeignError ''UNIQUE_VIOLATION''), env w)
       else (toEntity r, (env w)\<lparr>audit_rows := audit_rows (env w) @ [r]\<rparr>))"
    using latestEntry_ok [OF ok] unfolding appendEntry_def Let_def r_def t [symmetric] by auto
  show ?thesis
  proof (cases extra)
    case Nil
    have "\<not> (\<exists>x \<in> set (audit_rows (env w)). ar_tenant x = t \<and> ar_sequence x = Some (int (length ?c) + 1))"
    proof
      assume "\<exists>x \<in> set (audit_rows (env w)). ar_tenant x = t \<and> ar_sequence x = Some (int (length ?c) + 1)"
      then obtain x where "x \<in> set (audit_rows (env w))" "ar_tenant x = t"
          "ar_sequence x = Some (int (length ?c) + 1)" by blast
      then have "x \<in> set (chain t (audit_rows (env w)))" "seq_of x = int (length ?c) + 1"
        by (simp_all add: chain_member seq_of_def)
      then show False
        using chain_ok_nth [OF env'(1)] env'(2) Nil by (auto simp: in_set_conv_nth)
    qed
    moreover have "row_valid H (head_hash None ?c) r"
      using assms(4) by (cases tenant) (auto simp: row_valid_def r_def seq_of_def entry_tenant_def t audit_tenant_def)
    moreover have "\<exists>e. toEntity r = Inr e" by (simp add: toEntity_def r_def)
    ultimately show ?thesis
      using run chain_ok_snoc [OF env'(1), of r] env'(2) Nil by (auto simp: r_def)
  next
    case (Cons x xs)
    then have "seq_of x = int (length ?c) + 1" "x \<in> set (chain t (audit_rows (env w)))"
      using chain_ok_nth [OF env'(1), of "length ?c"] env'(2) by (auto simp: nth_append)
    then have "\<exists>x \<in> set (audit_rows (env w)). ar_tenant x = t \<and> ar_sequence x = Some (int (length ?c) + 1)"
      by (auto simp: chain_member seq_of_def)
    with run Cons env'(2) show ?thesis by simp
  qed
qed

lemma createAttempts_chain:
  assumes "chain_ok H t (audit_rows w)" and "\<And>k. extends_chains H t (env k)"
    and "t = audit_tenant tenant" and "tenant \<noteq> Some []"
  shows "case createAttempts H env ids tenant content n w of
      (Inr e, w') \<Rightarrow> \<exists>extra r. chain t (audit_rows w') = chain t (audit_rows w) @ extra @ [r]
        \<and> toEntity r = Inr e \<and> ar_content r = content \<and> chain_ok H t (audit_rows w')
    | (Inl x, w') \<Rightarrow> x = PayableError ''AUDIT_CHAIN_CONTENTION'' \<and> chain_ok H t (audit_rows w')
        \<and> (\<exists>extra. chain t (audit_rows w') = chain t (audit_rows w) @ extra)"
  using assms(1)
proof (induction n arbitrary: w)
  case (Suc n)
  show ?case
    using appendEntry_step [OF Suc.prems assms(2) [of n] assms(3,4), where i = "ids n" and content = content]
  proof (elim disjE exE conjE)
    fix e r w'
    assume "appendEntry H (env n) (ids n) tenant content w = (Inr e, w')" "toEntity r = Inr e"
      "ar_content r = content" "chain t (audit_rows w') = chain t (audit_rows w) @ [r]"
      "chain_ok H t (audit_rows w')"
    then show ?thesis by (auto simp: catching_def intro: exI [of _ "[]"])
  next
    assume a: "appendEntry H (env n) (ids n) tenant content w = (Inl (ForeignError ''UNIQUE_VIOLATION''), env n w)"
    obtain extra where e: "chain_ok H t (audit_rows (env n w))"
        "chain t (audit_rows (env n w)) = chain t (audit_rows w) @ extra"
      using assms(2) [of n] Suc.prems by (auto simp: extends_chains_def)
    have c: "createAttempts H env ids tenant content (Suc n) w = createAttempts H env ids tenant content n (env n w)"
      using a by (simp add: catching_def isUniqueViolation_def)
    show ?thesis
      unfolding c using Suc.IH [OF e(1)] e(2)
      by (auto split: prod.splits sum.splits)
  qed
qed simp

text \<open>
  C19. Appending keeps a tenant's chain intact whatever other clients append meanwhile: the
  new entry comes last, after everything they added, linked to it, the entry returned is the
  row stored, and the chain still verifies; the append fails only with the contention error,
  after fifty attempts, and then added nothing of its own. When nobody interferes it succeeds.
\<close>

theorem audit_create_extends_chain:
  assumes ok: "chain_ok H (audit_tenant tenant) (audit_rows w)"
    and env: "\<And>k. extends_chains H (audit_tenant tenant) (env k)" and t: "tenant \<noteq> Some []"
  shows "(case audit_create H env ids tenant content w of
      (Inr e, w') \<Rightarrow> \<exists>extra r.
        chain (audit_tenant tenant) (audit_rows w') = chain (audit_tenant tenant) (audit_rows w) @ extra @ [r]
        \<and> toEntity r = Inr e \<and> ar_content r = content \<and> verifyChain H tenant w' = (Inr True, w')
    | (Inl x, w') \<Rightarrow> x = PayableError ''AUDIT_CHAIN_CONTENTION'' \<and> verifyChain H tenant w' = (Inr True, w'))
    \<and> ((\<forall>k v. env k v = v) \<longrightarrow> (\<exists>e. fst (audit_create H env ids tenant content w) = Inr e))"
proof
  have verify: "verifyChain H tenant v = (Inr True, v)" if "chain_ok H (audit_tenant tenant) (audit_rows v)" for v
    using verifyLoop_links [OF chain_ok_sequenced [OF that], of H None 0]
      rest_after_0 [OF chain_ok_sequenced [OF that]] that
    by (simp add: verifyChain_def chain_ok_def)
  note keep = createAttempts_chain [where env = env and ids = ids and content = content
      and n = MAX_CHAIN_RETRIES, OF ok env refl t]
  show "case audit_create H env ids tenant content w of
      (Inr e, w') \<Rightarrow> \<exists>extra r.
        chain (audit_tenant tenant) (audit_rows w') = chain (audit_tenant tenant) (audit_rows w) @ extra @ [r]
        \<and> toEntity r = Inr e \<and> ar_content r = content \<and> verifyChain H tenant w' = (Inr True, w')
    | (Inl x, w') \<Rightarrow> x = PayableError ''AUDIT_CHAIN_CONTENTION'' \<and> verifyChain H tenant w' = (Inr True, w')"
    using keep verify unfolding audit_create_def by (auto split: prod.splits sum.splits)
  show "(\<forall>k v. env k v = v) \<longrightarrow> (\<exists>e. fst (audit_create H env ids tenant content w) = Inr e)"
  proof
    assume quiet: "\<forall>k v. env k v = v"
    have "\<exists>e w'. appendEntry H (env 49) (ids 49) tenant content w = (Inr e, w')"
      using appendEntry_step [OF ok env [of 49] refl t, where i = "ids 49" and content = content] quiet by auto
    moreover have m: "MAX_CHAIN_RETRIES = Suc 49" by (simp add: MAX_CHAIN_RETRIES_def)
    ultimately show "\<exists>e. fst (audit_create H env ids tenant content w) = Inr e"
      unfolding audit_create_def m createAttempts.simps by (auto simp: catching_def)
  qed
qed

section \<open>Backfilling\<close>

lemma chain_replace:
  assumes "ar_sequence r = None" and r': "ar_tenant r' = t" "ar_sequence r' \<noteq> None"
    and new: "\<forall>x \<in> set (chain t (pre @ r # post)). seq_of x < seq_of r'"
  shows "chain t (pre @ r' # post) = chain t (pre @ r # post) @ [r']"
proof -
  let ?F = "filter (\<lambda>r. ar_tenant r = t \<and> ar_sequence r \<noteq> None)"
  let ?old = "?F pre @ ?F post"
  have old: "chain t (pre @ r # post) = sort_key seq_of ?old" using assms(1) by (simp add: chain_def)
  have lt: "\<forall>x \<in> set ?old. seq_of x < seq_of r'" using new unfolding old by simp
  have "sort_key seq_of (?F pre @ r' # ?F post) = sort_key seq_of ?old @ [r']"
  proof (rule properties_for_sort_key)
    show "sorted (map seq_of (sort_key seq_of ?old @ [r']))" using lt by (auto simp: sorted_append intro: less_imp_le)
    fix k assume "k \<in> set (sort_key seq_of ?old @ [r'])"
    have "filter (\<lambda>x. seq_of k = seq_of x) (sort_key seq_of ?old) = filter (\<lambda>x. seq_of k = seq_of x) ?old"
      using sort_key_stable [of seq_of "seq_of k" ?old] by (simp add: eq_commute)
    moreover have "filter (\<lambda>x. seq_of k = seq_of x) ?old = []" if "seq_of k = seq_of r'"
      using lt that by (auto simp: filter_empty_conv)
    ultimately show "filter (\<lambda>x. seq_of k = seq_of x) (sort_key seq_of ?old @ [r'])
        = filter (\<lambda>x. seq_of k = seq_of x) (?F pre @ r' # ?F post)"
      by (cases "seq_of k = seq_of r'") auto
  qed simp
  then show ?thesis using r' unfolding old by (simp add: chain_def)
qed

text \<open>The row a legacy row becomes.\<close>

definition sealed :: "('j audit_payload \<Rightarrow> string) \<Rightarrow> string option \<Rightarrow> int \<Rightarrow> 'j audit_row \<Rightarrow> 'j audit_row" where
  "sealed H p s r = r\<lparr>ar_sequence := Some s, ar_previousHash := p,
     ar_hash := Some (auditEntryHash H p s (ar_createdAt r) (entry_tenant r) (ar_content r))\<rparr>"

lemma sealed_simps [simp]:
  "ar_id (sealed H p s r) = ar_id r" "ar_tenant (sealed H p s r) = ar_tenant r"
  "ar_sequence (sealed H p s r) = Some s" "seq_of (sealed H p s r) = s"
  "row_valid H p (sealed H p s r)"
  by (simp_all add: sealed_def seq_of_def row_valid_def entry_tenant_def)

definition untouched :: "'j audit_row list \<Rightarrow> string set \<Rightarrow> 'j audit_row list \<Rightarrow> bool" where
  "untouched db ids db' \<longleftrightarrow> map ar_id db' = map ar_id db
    \<and> (\<forall>i < length db. ar_id (db ! i) \<notin> ids \<longrightarrow> db' ! i = db ! i)"

lemma backfillRows_chain:
  assumes "chain_ok H t db" and "distinct (map ar_id db)"
    and "set rs \<subseteq> set db" and "\<forall>r \<in> set rs. ar_tenant r = t \<and> ar_sequence r = None" and "distinct rs"
    and "p = head_hash None (chain t db)" and "s = int (length (chain t db))"
  shows "\<exists>db'. backfillRows H p s rs db = Inr db' \<and> chain_ok H t db'
    \<and> length (chain t db') = length (chain t db) + length rs
    \<and> take (length (chain t db)) (chain t db') = chain t db
    \<and> map (\<lambda>r. (ar_id r, ar_content r)) (drop (length (chain t db)) (chain t db'))
      = map (\<lambda>r. (ar_id r, ar_content r)) rs
    \<and> (\<forall>x \<in> set db'. ar_sequence x = None \<longrightarrow> x \<in> set db \<and> x \<notin> set rs)"
  using assms
proof (induction rs arbitrary: db p s)
  case Nil
  then show ?case by simp
next
  case (Cons r rs)
  let ?r = "sealed H p (s + 1) r"
  have r: "ar_tenant r = t" "ar_sequence r = None" "r \<in> set db" using Cons.prems(3,4) by auto
  obtain pre post where db: "db = pre @ r # post" using split_list [OF r(3)] by blast
  have notin: "ar_id r \<notin> ar_id ` set pre" "ar_id r \<notin> ar_id ` set post" using Cons.prems(2) db by auto
  have le: "\<forall>x \<in> set (chain t db). seq_of x < s + 1"
    using chain_ok_nth [OF Cons.prems(1)] Cons.prems(7) by (auto simp: in_set_conv_nth)
  let ?db = "pre @ ?r # post"
  have chain: "chain t ?db = chain t db @ [?r]"
    using chain_replace [of r ?r t pre post] r le by (simp add: db)
  have ok: "chain_ok H t ?db"
    by (rule chain_ok_extend [OF Cons.prems(1) chain]) (simp_all add: Cons.prems(6,7))
  obtain e where e: "toEntity (r\<lparr>ar_sequence := Some (s + 1)\<rparr>) = Inr e" "ae_id e = ar_id r"
      "ae_createdAt e = ar_createdAt r" "ae_tenant e = entry_tenant r" "ae_content e = ar_content r"
    using Cons.prems(7) by (simp add: toEntity_def entry_tenant_def)
  have upd: "map (\<lambda>x. if ar_id x = ae_id e then x\<lparr>ar_sequence := Some (s + 1), ar_previousHash := p,
      ar_hash := Some (auditEntryHash H p (s + 1) (ae_createdAt e) (ae_tenant e) (ae_content e))\<rparr> else x) db = ?db"
  proof -
    have "\<forall>x \<in> set pre. ar_id x \<noteq> ar_id r" "\<forall>x \<in> set post. ar_id x \<noteq> ar_id r"
      using notin by (metis imageI)+
    then show ?thesis by (auto simp: db e sealed_def intro!: map_idI)
  qed
  have step: "backfillRows H p s (r # rs) db = backfillRows H (ar_hash ?r) (s + 1) rs ?db"
    by (simp only: backfillRows.simps e(1) sum.case Let_def upd) (simp add: sealed_def e)
  have "\<exists>db'. backfillRows H (ar_hash ?r) (s + 1) rs ?db = Inr db' \<and> chain_ok H t db'
    \<and> length (chain t db') = length (chain t ?db) + length rs
    \<and> take (length (chain t ?db)) (chain t db') = chain t ?db
    \<and> map (\<lambda>r. (ar_id r, ar_content r)) (drop (length (chain t ?db)) (chain t db'))
      = map (\<lambda>r. (ar_id r, ar_content r)) rs
    \<and> (\<forall>x \<in> set db'. ar_sequence x = None \<longrightarrow> x \<in> set ?db \<and> x \<notin> set rs)"
  proof (rule Cons.IH [OF ok])
    show "distinct (map ar_id ?db)" using Cons.prems(2) by (simp add: db)
    show "set rs \<subseteq> set ?db" using Cons.prems(3,5) by (auto simp: db)
    show "\<forall>r \<in> set rs. ar_tenant r = t \<and> ar_sequence r = None" "distinct rs"
      using Cons.prems(4,5) by simp_all
    show "ar_hash ?r = head_hash None (chain t ?db)" unfolding chain by (simp add: head_hash_def)
    show "s + 1 = int (length (chain t ?db))" unfolding chain using Cons.prems(7) by simp
  qed
  then obtain db' where db': "backfillRows H (ar_hash ?r) (s + 1) rs ?db = Inr db'" "chain_ok H t db'"
    "length (chain t db') = length (chain t db) + 1 + length rs"
    "take (length (chain t db) + 1) (chain t db') = chain t db @ [?r]"
    "map (\<lambda>r. (ar_id r, ar_content r)) (drop (length (chain t db) + 1) (chain t db'))
      = map (\<lambda>r. (ar_id r, ar_content r)) rs"
    "\<forall>x \<in> set db'. ar_sequence x = None \<longrightarrow> x \<in> set ?db \<and> x \<notin> set rs"
    by (auto simp: chain)
  let ?n = "length (chain t db)"
  have "take ?n (chain t db') = take ?n (take (?n + 1) (chain t db'))" by simp
  also have "\<dots> = chain t db" unfolding db'(4) by simp
  finally have tk: "take ?n (chain t db') = chain t db" .
  have "chain t db' = (chain t db @ [?r]) @ drop (?n + 1) (chain t db')"
    unfolding db'(4) [symmetric] by simp
  then have "drop ?n (chain t db') = ?r # drop (?n + 1) (chain t db')"
    by (metis append.assoc append_Cons append_Nil append_eq_conv_conj)
  moreover have "ar_content ?r = ar_content r" by (simp add: sealed_def)
  ultimately have dr: "map (\<lambda>r. (ar_id r, ar_content r)) (drop ?n (chain t db'))
      = map (\<lambda>r. (ar_id r, ar_content r)) (r # rs)" using db'(5) by simp
  have "\<forall>x \<in> set db'. ar_sequence x = None \<longrightarrow> x \<in> set db \<and> x \<notin> set (r # rs)"
  proof (intro ballI impI)
    fix x assume x: "x \<in> set db'" "ar_sequence x = None"
    with db'(6) have "x \<in> set ?db" "x \<notin> set rs" by auto
    moreover from x(2) have "x \<noteq> ?r" by auto
    ultimately show "x \<in> set db \<and> x \<notin> set (r # rs)" using notin by (auto simp: db)
  qed
  with step db'(1-3) tk dr show ?case by simp
qed

text \<open>
  C21. Backfilling seals every legacy entry of a tenant behind its chain, in the order they
  were created (by id when at once), keeps the entries already chained, leaves no entry of
  the tenant without a sequence, and the chain verifies. It returns how many it sealed.
\<close>

theorem backfillChain_seals:
  assumes "chain_ok H (audit_tenant tenant) (audit_rows w)" and "distinct (map ar_id (audit_rows w))"
  defines "t \<equiv> audit_tenant tenant"
  defines "legacy \<equiv> sort_key (\<lambda>r. (ar_createdAt r, ar_id r))
    (filter (\<lambda>r. ar_tenant r = audit_tenant tenant \<and> ar_sequence r = None) (audit_rows w))"
  shows "\<exists>w'. backfillChain H tenant w = (Inr (length legacy), w')
    \<and> (\<exists>new. chain t (audit_rows w') = chain t (audit_rows w) @ new
        \<and> map (\<lambda>r. (ar_id r, ar_content r)) new = map (\<lambda>r. (ar_id r, ar_content r)) legacy)
    \<and> (\<forall>r \<in> set (audit_rows w'). ar_tenant r = t \<longrightarrow> ar_sequence r \<noteq> None)
    \<and> verifyChain H tenant w' = (Inr True, w')"
proof -
  have ok: "chain_ok H t (audit_rows w)" using assms(1) by (simp add: t_def)
  have verify: "verifyChain H tenant v = (Inr True, v)" if "chain_ok H t (audit_rows v)" for v
    using verifyLoop_links [OF chain_ok_sequenced [OF that], of H None 0]
      rest_after_0 [OF chain_ok_sequenced [OF that]] that
    by (simp add: verifyChain_def chain_ok_def t_def)
  have members: "x \<in> set legacy \<longleftrightarrow> x \<in> set (audit_rows w) \<and> ar_tenant x = t \<and> ar_sequence x = None" for x
    by (simp add: legacy_def t_def)
  have dist: "distinct legacy" using assms(2) by (simp add: legacy_def distinct_map)
  show ?thesis
  proof (cases "legacy = []")
    case True
    then have "backfillChain H tenant w = (Inr 0, w)"
      by (simp add: backfillChain_def atomically_def legacy_def Let_def)
    moreover have "\<forall>r \<in> set (audit_rows w). ar_tenant r = t \<longrightarrow> ar_sequence r \<noteq> None"
      using members True by auto
    ultimately show ?thesis using verify [OF ok] True by simp
  next
    case False
    obtain db' where db': "backfillRows H (head_hash None (chain t (audit_rows w)))
          (int (length (chain t (audit_rows w)))) legacy (audit_rows w) = Inr db'"
        "chain_ok H t db'" "take (length (chain t (audit_rows w))) (chain t db') = chain t (audit_rows w)"
        "map (\<lambda>r. (ar_id r, ar_content r)) (drop (length (chain t (audit_rows w))) (chain t db'))
          = map (\<lambda>r. (ar_id r, ar_content r)) legacy"
        "\<forall>x \<in> set db'. ar_sequence x = None \<longrightarrow> x \<in> set (audit_rows w) \<and> x \<notin> set legacy"
      using backfillRows_chain [OF ok assms(2) _ _ dist refl refl] members by auto
    have legacy: "sort_key (\<lambda>r. (ar_createdAt r, ar_id r))
        (filter (\<lambda>r. ar_tenant r = t \<and> ar_sequence r = None) (audit_rows w)) = legacy"
      by (simp add: legacy_def t_def)
    have "backfillChain H tenant w = (Inr (length legacy), w\<lparr>audit_rows := db'\<rparr>)"
      using False db'(1) latestEntry_ok [OF ok]
      by (simp add: backfillChain_def atomically_def Let_def legacy flip: t_def)
    moreover have "chain t db' = chain t (audit_rows w) @ drop (length (chain t (audit_rows w))) (chain t db')"
      using db'(3) by (metis append_take_drop_id)
    moreover have "\<forall>r \<in> set db'. ar_tenant r = t \<longrightarrow> ar_sequence r \<noteq> None"
      using db'(5) members by auto
    ultimately show ?thesis
      using db'(4) verify [of "w\<lparr>audit_rows := db'\<rparr>"] db'(2) by auto
  qed
qed

section \<open>Tampering\<close>

definition row_payload :: "'j audit_row \<Rightarrow> 'j audit_payload" where
  "row_payload r = auditPayload (ar_previousHash r) (seq_of r) (ar_createdAt r) (entry_tenant r) (ar_content r)"

lemma row_valid_payload: "row_valid H p r \<longleftrightarrow> ar_previousHash r = p \<and> ar_hash r = Some (H (row_payload r))"
  by (auto simp: row_valid_def row_payload_def auditEntryHash_def)

lemma links_agree:
  assumes "links H None xs" and "links H None ys" and "head_hash None xs = head_hash None ys"
    and "inj_on H (row_payload ` (set xs \<union> set ys))"
  shows "map row_payload xs = map row_payload ys"
  using assms
proof (induction xs arbitrary: ys rule: rev_induct)
  case Nil
  then show ?case
    by (cases ys rule: rev_cases) (auto simp: head_hash_def links_append row_valid_payload)
next
  case (snoc x xs)
  then obtain zs y where ys: "ys = zs @ [y]"
    by (cases ys rule: rev_cases) (auto simp: head_hash_def links_append row_valid_payload)
  have v: "links H None xs" "row_valid H (head_hash None xs) x" "links H None zs" "row_valid H (head_hash None zs) y"
    using snoc.prems(1,2) by (auto simp: ys links_append)
  have "H (row_payload x) = H (row_payload y)"
    using snoc.prems(3) v by (simp add: ys head_hash_def row_valid_payload)
  then have p: "row_payload x = row_payload y" by (rule inj_onD [OF snoc.prems(4)]) (auto simp: ys)
  then have "head_hash None xs = head_hash None zs"
    using v(2,4) by (simp add: row_valid_payload row_payload_def auditPayload_def)
  moreover have "inj_on H (row_payload ` (set xs \<union> set zs))"
    using snoc.prems(4) by (rule inj_on_subset) (auto simp: ys)
  ultimately have "map row_payload xs = map row_payload zs" using v(1,3) snoc.IH by blast
  with p show ?case by (simp add: ys)
qed

text \<open>
  C20. The head of a verified log fixes the whole log. If a tenant's log verifies in two
  states and its last hash is the same in both, then both hold the same entries in the same
  order: an entry changed, removed, inserted or moved anywhere before an unchanged head is
  detected, as long as no two of the payloads involved collide.
\<close>

theorem verified_logs_agree:
  assumes "sequenced (audit_tenant tenant) (audit_rows v)" and "sequenced (audit_tenant tenant) (audit_rows w)"
    and "fst (verifyChain H tenant v) = Inr True" and "fst (verifyChain H tenant w) = Inr True"
    and "map_option fst (latestEntry (audit_tenant tenant) (audit_rows v))
      = map_option fst (latestEntry (audit_tenant tenant) (audit_rows w))"
    and "inj_on H (row_payload ` (set (audit_rows v) \<union> set (audit_rows w)))"
  shows "map row_payload (chain (audit_tenant tenant) (audit_rows v))
    = map row_payload (chain (audit_tenant tenant) (audit_rows w))"
proof (rule links_agree)
  have "verifyChain H tenant u = (Inr (links H None (chain (audit_tenant tenant) (audit_rows u))), u)"
    if "sequenced (audit_tenant tenant) (audit_rows u)" for u
    using verifyLoop_links [OF that, of H None 0] rest_after_0 [OF that] by (simp add: verifyChain_def)
  then show "links H None (chain (audit_tenant tenant) (audit_rows v))"
      "links H None (chain (audit_tenant tenant) (audit_rows w))"
    using assms(1-4) by simp_all
  show "head_hash None (chain (audit_tenant tenant) (audit_rows v))
      = head_hash None (chain (audit_tenant tenant) (audit_rows w))"
    using assms(5) by (auto simp: latestEntry_chain head_hash_def split: if_splits)
  show "inj_on H (row_payload ` (set (chain (audit_tenant tenant) (audit_rows v))
      \<union> set (chain (audit_tenant tenant) (audit_rows w))))"
    using assms(6) by (rule inj_on_subset) (auto simp: chain_member)
qed

section \<open>Examples\<close>

definition example_content :: "string \<Rightarrow> int audit_content" where
  "example_content action = \<lparr>au_correlationId = ''c'', au_actorType = None, au_actorId = None,
     au_action = action, au_resourceType = ''payment'', au_resourceId = ''p'', au_before = None,
     au_after = None, au_metadata = None, au_ipAddress = None, au_userAgent = None\<rparr>"

text \<open>A digest that tells the payloads of the examples apart: it spells out the action.\<close>

definition example_digest :: "int audit_payload \<Rightarrow> string" where
  "example_digest p = (case pl_previousHash p of None \<Rightarrow> [] | Some h \<Rightarrow> h) @ au_action (pl_content p)"

definition example_audit_db :: "int audit_db" where
  "example_audit_db = \<lparr>audit_rows = [\<lparr>ar_id = ''1'', ar_sequence = Some 1, ar_tenant = ''t'',
     ar_content = example_content ''a'', ar_previousHash = None, ar_hash = Some ''a'', ar_createdAt = 3\<rparr>],
     audit_now = 5\<rparr>"

lemma example_chain:
  "chain ''t'' (audit_rows example_audit_db) = audit_rows example_audit_db"
  by (simp add: chain_def example_audit_db_def)

lemma example_chain_ok: "chain_ok example_digest ''t'' (audit_rows example_audit_db)"
  unfolding chain_ok_def example_chain
  by (simp add: example_audit_db_def row_valid_def seq_of_def auditEntryHash_def auditPayload_def
      example_digest_def example_content_def)

theorem verifyChain_witness:
  "verifyChain example_digest (Some ''t'') example_audit_db = (Inr True, example_audit_db)"
  using verifyChain_correct [of "Some ''t''" example_audit_db example_digest] example_chain_ok
    chain_ok_sequenced [OF example_chain_ok]
  by (simp add: audit_tenant_def chain_ok_def)

theorem audit_create_witness:
  "\<exists>e. fst (audit_create example_digest (\<lambda>_ w. w) (\<lambda>_. ''2'') (Some ''t'') (example_content ''b'') example_audit_db)
    = Inr e"
  using audit_create_extends_chain [where H = example_digest and tenant = "Some ''t''"
      and w = example_audit_db and env = "\<lambda>_ w. w" and ids = "\<lambda>_. ''2''"
      and content = "example_content ''b''"] example_chain_ok
  by (simp add: audit_tenant_def extends_chains_def)

theorem verified_logs_witness:
  "map row_payload (chain ''t'' (audit_rows example_audit_db)) =
    map row_payload (chain ''t'' (audit_rows (example_audit_db\<lparr>audit_now := 9\<rparr>)))"
  using verified_logs_agree [of "Some ''t''" example_audit_db "example_audit_db\<lparr>audit_now := 9\<rparr>" example_digest]
    chain_ok_sequenced [OF example_chain_ok] example_chain_ok
    verifyLoop_links [OF chain_ok_sequenced [OF example_chain_ok], of example_digest None 0]
    rest_after_0 [OF chain_ok_sequenced [OF example_chain_ok]]
  by (simp add: audit_tenant_def verifyChain_def chain_ok_def example_audit_db_def)

definition tenant_digest :: "int audit_payload \<Rightarrow> string" where
  "tenant_digest p = (case pl_tenant p of None \<Rightarrow> ''null'' | Some t \<Rightarrow> t) @ au_action (pl_content p)"

definition legacy_audit_db :: "int audit_db" where
  "legacy_audit_db = example_audit_db\<lparr>audit_rows := audit_rows example_audit_db @
     [\<lparr>ar_id = ''0'', ar_sequence = None, ar_tenant = ''t'', ar_content = example_content ''old'',
       ar_previousHash = None, ar_hash = None, ar_createdAt = 1\<rparr>]\<rparr>"

theorem backfillChain_witness:
  "\<exists>w'. backfillChain example_digest (Some ''t'') legacy_audit_db = (Inr 1, w')
    \<and> verifyChain example_digest (Some ''t'') w' = (Inr True, w')"
proof -
  have "chain ''t'' (audit_rows legacy_audit_db) = chain ''t'' (audit_rows example_audit_db)"
    by (simp add: chain_def legacy_audit_db_def)
  then have "chain_ok example_digest (audit_tenant (Some ''t'')) (audit_rows legacy_audit_db)"
    using example_chain_ok by (simp add: chain_ok_def audit_tenant_def)
  from backfillChain_seals [OF this] show ?thesis
    by (auto simp: legacy_audit_db_def example_audit_db_def audit_tenant_def)
qed

text \<open>
  A tenant that is the empty string breaks its own chain: the digest is computed over
  the empty string, but the row reads back as having no tenant, so that the very first entry
  appended makes the verification of that log fail.
\<close>

theorem empty_tenant_breaks_chain:
  "\<exists>e w. audit_create tenant_digest (\<lambda>_ v. v) (\<lambda>_. ''1'') (Some []) (example_content ''a'')
        \<lparr>audit_rows = [], audit_now = 5\<rparr> = (Inr e, w)
    \<and> verifyChain tenant_digest (Some []) w = (Inr False, w)"
proof -
  define r :: "int audit_row" where "r = \<lparr>ar_id = ''1'', ar_sequence = Some 1, ar_tenant = [],
    ar_content = example_content ''a'', ar_previousHash = None, ar_hash = Some ''a'', ar_createdAt = 5\<rparr>"
  have m: "MAX_CHAIN_RETRIES = Suc 49" by (simp add: MAX_CHAIN_RETRIES_def)
  have "appendEntry tenant_digest (\<lambda>v. v) ''1'' (Some []) (example_content ''a'') \<lparr>audit_rows = [], audit_now = 5\<rparr>
      = (toEntity r, \<lparr>audit_rows = [r], audit_now = 5\<rparr>)"
    by (simp add: appendEntry_def Let_def latestEntry_def audit_tenant_def auditEntryHash_def auditPayload_def
        tenant_digest_def example_content_def r_def)
  moreover obtain e where "toEntity r = Inr e" by (simp add: toEntity_def r_def)
  ultimately have "audit_create tenant_digest (\<lambda>_ v. v) (\<lambda>_. ''1'') (Some []) (example_content ''a'')
        \<lparr>audit_rows = [], audit_now = 5\<rparr> = (Inr e, \<lparr>audit_rows = [r], audit_now = 5\<rparr>)"
    unfolding audit_create_def m createAttempts.simps by (simp add: catching_def)
  moreover have "sequenced [] [r]" "rest_after [] 0 [r] = [r]" "\<not> row_valid tenant_digest None r"
    by (simp_all add: sequenced_def chain_def rest_after_def r_def seq_of_def row_valid_def entry_tenant_def
        auditEntryHash_def auditPayload_def tenant_digest_def example_content_def)
  ultimately show ?thesis
    using verifyLoop_links [of "[]" "[r]" tenant_digest None 0]
    by (simp add: verifyChain_def audit_tenant_def)
qed

end
