(* ===== verification/Outbox.thy ===== *)
theory Outbox
  imports Prelude "HOL-Library.List_Lexorder" "HOL-Library.Char_ord" "HOL-Library.Product_Lexorder"
begin

text \<open>
  The transactional outbox: \<open>KnexOutboxEventRepository\<close> and
  \<open>infrastructure/outbox/outbox-service.ts\<close>. The payload is opaque (sealing and opening it
  are inverse), a claim's random token is an argument, and the random number of the backoff
  is \<open>p / 2^53\<close> for an argument \<open>p\<close>. The delivery callback is an arbitrary action on a
  state that extends the table.
\<close>

datatype outbox_status = OB_pending | OB_processing | OB_published | OB_failed

record 'p outbox_event =
  ob_id :: string
  ob_tenant :: tenant
  ob_correlationId :: string
  ob_eventType :: string
  ob_eventVersion :: int
  ob_payload :: 'p
  ob_status :: outbox_status
  ob_attempts :: int
  ob_nextRetryAt :: "instant option"
  ob_lockedBy :: "string option"
  ob_lockedUntil :: "instant option"
  ob_dedupeKey :: "string option"
  ob_createdAt :: instant
  ob_updatedAt :: instant

record 'p outbox_db =
  ob_rows :: "'p outbox_event list"
  ob_now :: instant

record 'p new_outbox_event =
  nob_tenant :: tenant
  nob_correlationId :: string
  nob_eventType :: string
  nob_eventVersion :: int
  nob_payload :: 'p
  nob_dedupeKey :: "string option"

definition CLAIM_TTL_MS :: int where "CLAIM_TTL_MS = 300000"
definition FAIR_OVERFETCH_FACTOR :: nat where "FAIR_OVERFETCH_FACTOR = 5"
definition MAX_FAIR_OVERFETCH :: nat where "MAX_FAIR_OVERFETCH = 1000"

definition new_row :: "string \<Rightarrow> instant \<Rightarrow> 'p new_outbox_event \<Rightarrow> 'p outbox_event" where
  "new_row i now d = \<lparr>ob_id = i, ob_tenant = nob_tenant d, ob_correlationId = nob_correlationId d,
     ob_eventType = nob_eventType d, ob_eventVersion = nob_eventVersion d, ob_payload = nob_payload d,
     ob_status = OB_pending, ob_attempts = 0, ob_nextRetryAt = None, ob_lockedBy = None,
     ob_lockedUntil = None, ob_dedupeKey = nob_dedupeKey d, ob_createdAt = now, ob_updatedAt = now\<rparr>"

text \<open>\<open>create\<close>: an event with a dedupe key that exists for the tenant is returned, not inserted.\<close>

definition outbox_create ::
  "string \<Rightarrow> 'p new_outbox_event \<Rightarrow> (('p, 'x) outbox_db_scheme, 'p outbox_event) io" where
  "outbox_create i d = (\<lambda>w.
    let row = new_row i (ob_now w) d;
        inserted = (Inr row, w\<lparr>ob_rows := ob_rows w @ [row]\<rparr>)
    in case nob_dedupeKey d of
         None \<Rightarrow> inserted
       | Some k \<Rightarrow>
           (case find (\<lambda>r. ob_dedupeKey r = Some k \<and> ob_tenant r = nob_tenant d) (ob_rows w) of
              Some r \<Rightarrow> (Inr r, w)
            | None \<Rightarrow> inserted))"

definition outbox_claimable :: "instant \<Rightarrow> 'p outbox_event \<Rightarrow> bool" where
  "outbox_claimable now r \<longleftrightarrow>
    (ob_status r = OB_pending \<and> (case ob_nextRetryAt r of None \<Rightarrow> True | Some t \<Rightarrow> t \<le> now))
    \<or> (ob_status r = OB_processing \<and> (case ob_lockedUntil r of None \<Rightarrow> False | Some t \<Rightarrow> t \<le> now))"

section \<open>Fair ordering\<close>

type_synonym buckets = "(string \<times> string list) list"

fun add_to_bucket :: "string \<Rightarrow> string \<Rightarrow> buckets \<Rightarrow> buckets" where
  "add_to_bucket k i [] = [(k, [i])]"
| "add_to_bucket k i ((k', ids) # bs) =
    (if k' = k then (k', ids @ [i]) # bs else (k', ids) # add_to_bucket k i bs)"

definition tenant_bucket :: "tenant \<Rightarrow> string" where
  "tenant_bucket t = (case t of None \<Rightarrow> [] | Some s \<Rightarrow> s)"

definition make_buckets :: "(string \<times> tenant) list \<Rightarrow> buckets" where
  "make_buckets candidates = foldl (\<lambda>bs (i, t). add_to_bucket (tenant_bucket t) i bs) [] candidates"

text \<open>One pass of the \<open>for\<close> loop: the buckets left, the order so far, and whether it progressed.\<close>

fun take_round :: "nat \<Rightarrow> buckets \<Rightarrow> string list \<Rightarrow> bool \<Rightarrow> buckets \<times> string list \<times> bool" where
  "take_round limit [] ordered progressed = ([], ordered, progressed)"
| "take_round limit ((k, ids) # bs) ordered progressed =
    (if length ordered \<ge> limit then ((k, ids) # bs, ordered, progressed)
     else case ids of
         [] \<Rightarrow> (case take_round limit bs ordered progressed of (bs', o', p') \<Rightarrow> ((k, []) # bs', o', p'))
       | i # rest \<Rightarrow> (case take_round limit bs (ordered @ [i]) True of (bs', o', p') \<Rightarrow> ((k, rest) # bs', o', p')))"

lemma take_round_grows:
  "take_round limit bs ordered p = (bs', o', p') \<Longrightarrow>
    length ordered \<le> length o' \<and> (p' \<longrightarrow> p \<or> length ordered < length o') \<and> (p \<longrightarrow> p')"
  by (induction limit bs ordered p arbitrary: bs' o' p' rule: take_round.induct)
    (fastforce split: if_splits list.splits prod.splits)+

function round_robin :: "nat \<Rightarrow> buckets \<Rightarrow> string list \<Rightarrow> string list" where
  "round_robin limit bs ordered =
    (if length ordered < limit
     then case take_round limit bs ordered False of
         (bs', o', progressed) \<Rightarrow> if \<not> progressed then o' else round_robin limit bs' o'
     else ordered)"
  by pat_completeness auto
termination
  by (relation "measure (\<lambda>(limit, _, ordered). limit - length ordered)")
    (auto dest!: take_round_grows [OF sym])

declare round_robin.simps [simp del]

definition fairlyOrdered :: "(string \<times> tenant) list \<Rightarrow> nat \<Rightarrow> string list" where
  "fairlyOrdered candidates limit = round_robin limit (make_buckets candidates) []"

section \<open>Claiming and marking\<close>

definition claimed_row :: "string \<Rightarrow> instant \<Rightarrow> 'p outbox_event \<Rightarrow> 'p outbox_event" where
  "claimed_row token now r = r\<lparr>ob_status := OB_processing, ob_lockedBy := Some token,
     ob_lockedUntil := Some (now + CLAIM_TTL_MS), ob_updatedAt := now\<rparr>"

definition claimPending :: "string \<Rightarrow> nat \<Rightarrow> (('p, 'x) outbox_db_scheme, 'p outbox_event list) io" where
  "claimPending token limit = (\<lambda>w.
    let now = ob_now w;
        fetchLimit = min (limit * FAIR_OVERFETCH_FACTOR) MAX_FAIR_OVERFETCH;
        candidates = take fetchLimit (sort_key (\<lambda>r. (ob_createdAt r, ob_id r))
          (filter (outbox_claimable now) (ob_rows w)));
        ids = fairlyOrdered (map (\<lambda>r. (ob_id r, ob_tenant r)) candidates) limit
    in if ids = [] then (Inr [], w)
       else let rows = map (\<lambda>r. if ob_id r \<in> set ids \<and> outbox_claimable now r
                              then claimed_row token now r else r) (ob_rows w);
                mine = filter (\<lambda>r. ob_id r \<in> set ids \<and> ob_lockedBy r = Some token
                              \<and> ob_status r = OB_processing) rows;
                claimed = List.map_filter (\<lambda>i. find (\<lambda>r. ob_id r = i) mine) ids
            in (Inr claimed, w\<lparr>ob_rows := rows\<rparr>))"

text \<open>An update restricted to the owner of the claim; it returns the number of rows changed.\<close>

definition update_claim ::
  "string \<Rightarrow> string option \<Rightarrow> ('p outbox_event \<Rightarrow> 'p outbox_event) \<Rightarrow> (('p, 'x) outbox_db_scheme, nat) io" where
  "update_claim i token f = (\<lambda>w.
    let hit = (\<lambda>r. ob_id r = i \<and> (token = None \<or> ob_lockedBy r = token))
    in (Inr (length (filter hit (ob_rows w))),
        w\<lparr>ob_rows := map (\<lambda>r. if hit r then f r else r) (ob_rows w)\<rparr>))"

definition markPublished :: "string \<Rightarrow> string option \<Rightarrow> (('p, 'x) outbox_db_scheme, nat) io" where
  "markPublished i token = andThen (readState ob_now) (\<lambda>now.
    update_claim i token (\<lambda>r. r\<lparr>ob_status := OB_published, ob_lockedBy := None,
      ob_lockedUntil := None, ob_updatedAt := now\<rparr>))"

definition markFailed_outbox ::
  "string \<Rightarrow> instant option \<Rightarrow> string option \<Rightarrow> (('p, 'x) outbox_db_scheme, nat) io" where
  "markFailed_outbox i nextRetryAt token = andThen (readState ob_now) (\<lambda>now.
    let retry = (case nextRetryAt of None \<Rightarrow> False | Some t \<Rightarrow> t > now)
    in update_claim i token (\<lambda>r. r\<lparr>ob_status := (if retry then OB_pending else OB_failed),
         ob_attempts := ob_attempts r + 1, ob_nextRetryAt := (if retry then nextRetryAt else None),
         ob_lockedBy := None, ob_lockedUntil := None, ob_updatedAt := now\<rparr>))"

section \<open>The publisher\<close>

record outbox_config =
  oc_maxAttempts :: int
  oc_backoff :: int
  oc_maxBackoff :: int

record publish_result =
  pr_published :: nat
  pr_retried :: nat
  pr_deadLettered :: nat

definition backoff_cap :: "outbox_config \<Rightarrow> int \<Rightarrow> int" where
  "backoff_cap c attempts = min (oc_backoff c * 2 ^ nat (attempts - 1)) (oc_maxBackoff c)"

text \<open>\<open>floor(half + random * half)\<close> for \<open>half = cap / 2\<close> and \<open>random = p / 2^53\<close>.\<close>

definition retry_delay :: "outbox_config \<Rightarrow> int \<Rightarrow> int \<Rightarrow> int" where
  "retry_delay c attempts p =
    min (backoff_cap c attempts * (2 ^ 53 + p) div (2 * 2 ^ 53)) (oc_maxBackoff c)"

definition handleDeliveryFailure ::
  "outbox_config \<Rightarrow> int \<Rightarrow> 'p outbox_event \<Rightarrow> publish_result
    \<Rightarrow> (('p, 'x) outbox_db_scheme, publish_result) io" where
  "handleDeliveryFailure c p event result =
    (let attempts = ob_attempts event + 1 in
     if attempts \<ge> oc_maxAttempts c
     then andThen (markFailed_outbox (ob_id event) None (ob_lockedBy event)) (\<lambda>n.
            ret (if n > 0 then result\<lparr>pr_deadLettered := pr_deadLettered result + 1\<rparr> else result))
     else andThen (readState ob_now) (\<lambda>now.
          andThen (markFailed_outbox (ob_id event) (Some (now + retry_delay c attempts p)) (ob_lockedBy event)) (\<lambda>n.
            ret (if n > 0 then result\<lparr>pr_retried := pr_retried result + 1\<rparr> else result))))"

definition publishOne ::
  "outbox_config \<Rightarrow> ('p outbox_event \<Rightarrow> (('p, 'x) outbox_db_scheme, unit) io) \<Rightarrow> int \<Rightarrow> 'p outbox_event
    \<Rightarrow> publish_result \<Rightarrow> (('p, 'x) outbox_db_scheme, publish_result) io" where
  "publishOne c deliver p event result =
    andThen (attempt (deliver event)) (\<lambda>delivered.
      case delivered of
        Inl _ \<Rightarrow> handleDeliveryFailure c p event result
      | Inr _ \<Rightarrow>
          andThen (attempt (markPublished (ob_id event) (ob_lockedBy event))) (\<lambda>updated.
            case updated of
              Inl _ \<Rightarrow> ret result
            | Inr n \<Rightarrow> if n = 0 then ret result
                else ret (result\<lparr>pr_published := pr_published result + 1\<rparr>)))"

fun publishEach ::
  "outbox_config \<Rightarrow> ('p outbox_event \<Rightarrow> (('p, 'x) outbox_db_scheme, unit) io) \<Rightarrow> (string \<Rightarrow> int)
    \<Rightarrow> 'p outbox_event list \<Rightarrow> publish_result \<Rightarrow> (('p, 'x) outbox_db_scheme, publish_result) io" where
  "publishEach c deliver p [] result = ret result"
| "publishEach c deliver p (e # es) result =
    andThen (catching (publishOne c deliver (p (ob_id e)) e result) (\<lambda>_. ret result))
      (\<lambda>result'. publishEach c deliver p es result')"

definition publishPending ::
  "outbox_config \<Rightarrow> ('p outbox_event \<Rightarrow> (('p, 'x) outbox_db_scheme, unit) io) \<Rightarrow> (string \<Rightarrow> int)
    \<Rightarrow> string \<Rightarrow> nat \<Rightarrow> (('p, 'x) outbox_db_scheme, publish_result) io" where
  "publishPending c deliver p token limit =
    andThen (claimPending token limit) (\<lambda>events.
      publishEach c deliver p events \<lparr>pr_published = 0, pr_retried = 0, pr_deadLettered = 0\<rparr>)"

section \<open>The fair order\<close>

text \<open>Round \<open>n\<close> takes the \<open>n\<close>-th entry of every bucket that has one.\<close>

definition round_of :: "string list list \<Rightarrow> nat \<Rightarrow> string list" where
  "round_of bs n = map (\<lambda>ys. ys ! n) (filter (\<lambda>ys. n < length ys) bs)"

lemma round_of_Cons: "round_of (b # bs) n = (if n < length b then [b ! n] else []) @ round_of bs n"
  by (simp add: round_of_def)

lemma take_round_result:
  assumes "take_round limit bs ordered p = (bs', o', p')" and "length ordered \<le> limit"
  shows "o' = take limit (ordered @ round_of (map snd bs) 0)
    \<and> (p' \<longleftrightarrow> p \<or> length ordered < length o')
    \<and> (length o' < limit \<longrightarrow> bs' = map (apsnd (drop 1)) bs)"
  using assms
proof (induction limit bs ordered p arbitrary: bs' o' p' rule: take_round.induct)
  case (1 limit ordered p)
  then show ?case by (simp add: round_of_def)
next
  case (2 limit k ids bs ordered p)
  show ?case
  proof (cases "length ordered \<ge> limit")
    case True
    with 2 show ?thesis by simp
  next
    case False
    show ?thesis
    proof (cases ids)
      case Nil
      with 2 False show ?thesis by (auto simp: round_of_Cons split: prod.splits)
    next
      case (Cons i rest)
      obtain bs1 o1 p1 where r: "take_round limit bs (ordered @ [i]) True = (bs1, o1, p1)"
        by (cases "take_round limit bs (ordered @ [i]) True")
      have "o1 = take limit ((ordered @ [i]) @ round_of (map snd bs) 0) \<and> p1
          \<and> (length o1 < limit \<longrightarrow> bs1 = map (apsnd (drop 1)) bs)"
        using "2.IH"(2) [OF False Cons r] False by auto
      with "2.prems"(1) r False Cons show ?thesis
        by (auto simp: round_of_Cons)
    qed
  qed
qed

lemma round_of_drop: "round_of (map (drop n) bs) 0 = round_of bs n"
  by (induction bs) (auto simp: round_of_Cons nth_append, simp_all add: round_of_def)

lemma round_robin_rounds:
  assumes "\<forall>b \<in> set bs. length (snd b) \<le> M" and "length ordered \<le> limit"
  shows "round_robin limit (map (apsnd (drop n)) bs) ordered =
    take limit (ordered @ concat (map (round_of (map snd bs)) [n..<M]))"
  using assms(2)
proof (induction "M - n" arbitrary: n ordered)
  case 0
  have "round_of (map snd (map (apsnd (drop n)) bs)) 0 = []"
    using assms(1) 0 by (auto simp: round_of_def filter_empty_conv)
  with 0 show ?case
    using take_round_result [of limit "map (apsnd (drop n)) bs" ordered False]
    by (subst round_robin.simps) (auto split: prod.splits)
next
  case (Suc m)
  let ?bs = "map (apsnd (drop n)) bs" and ?r = "round_of (map snd bs)"
  obtain bs' o' p' where t: "take_round limit ?bs ordered False = (bs', o', p')"
    by (cases "take_round limit ?bs ordered False")
  have "map snd ?bs = map (drop n) (map snd bs)" by (simp add: o_def)
  then have "round_of (map snd ?bs) 0 = ?r n" by (simp only: round_of_drop)
  with take_round_result [OF t Suc.prems]
  have o': "o' = take limit (ordered @ ?r n)" "p' \<longleftrightarrow> length ordered < length o'"
      "length o' < limit \<Longrightarrow> bs' = map (apsnd (drop 1)) ?bs" by auto
  have up: "[n..<M] = n # [Suc n..<M]" using Suc(2) by (simp add: upt_conv_Cons)
  show ?case
  proof (cases "length o' < limit")
    case False
    then have "limit \<le> length (ordered @ ?r n)" by (simp add: o'(1))
    then have "take limit (ordered @ concat (map ?r [n..<M])) = o'" by (simp add: up o'(1))
    moreover have "round_robin limit ?bs ordered = o'"
    proof (cases "length ordered < limit")
      case True
      with False t o'(2) show ?thesis
        by (subst round_robin.simps) (auto simp: round_robin.simps [of limit bs' o'])
    next
      case f: False
      with Suc.prems show ?thesis by (subst round_robin.simps) (simp add: o'(1))
    qed
    ultimately show ?thesis by simp
  next
    case True
    then have full: "o' = ordered @ ?r n" by (auto simp: o'(1))
    have bs': "bs' = map (apsnd (drop (Suc n))) bs"
      using o'(3) [OF True] by (simp add: o_def apsnd_def map_prod_def split_beta)
    show ?thesis
    proof (cases p')
      case True
      have "round_robin limit ?bs ordered = round_robin limit bs' o'"
        using \<open>length o' < limit\<close> t True full by (subst round_robin.simps) auto
      also have "\<dots> = take limit (o' @ concat (map ?r [Suc n..<M]))"
        unfolding bs' using Suc(2) \<open>length o' < limit\<close> by (intro Suc(1)) auto
      finally show ?thesis by (simp add: up full)
    next
      case False
      with o'(2) full have "?r n = []" by simp
      then have "\<forall>b \<in> set bs. length (snd b) \<le> n" by (auto simp: round_of_def filter_empty_conv not_less)
      then have later: "?r i = []" if "n \<le> i" for i
        using that by (auto simp: round_of_def filter_empty_conv not_less)
      have "concat (map ?r [n..<M]) = []" using later by (auto simp: concat_eq_Nil_conv)
      moreover have "round_robin limit ?bs ordered = o'"
        using True t False full by (subst round_robin.simps) auto
      ultimately show ?thesis using full \<open>?r n = []\<close> Suc.prems by simp
    qed
  qed
qed

text \<open>The candidates of one tenant, oldest first.\<close>

definition ids_of :: "string \<Rightarrow> (string \<times> tenant) list \<Rightarrow> string list" where
  "ids_of k cs = map fst (filter (\<lambda>(i, t). tenant_bucket t = k) cs)"

lemma add_to_bucket_keys:
  "distinct (map fst bs) \<Longrightarrow> distinct (map fst (add_to_bucket k i bs))
    \<and> fst ` set (add_to_bucket k i bs) = insert k (fst ` set bs)"
  by (induction k i bs rule: add_to_bucket.induct) auto

lemma add_to_bucket_member:
  "distinct (map fst bs) \<Longrightarrow> (k', ids) \<in> set (add_to_bucket k i bs) \<longleftrightarrow>
    (if k' = k then (if k \<in> fst ` set bs then \<exists>old. (k, old) \<in> set bs \<and> ids = old @ [i] else ids = [i])
     else (k', ids) \<in> set bs)"
  by (induction k i bs rule: add_to_bucket.induct) (fastforce simp: image_iff split: if_splits)+

lemma make_buckets_ok:
  "distinct (map fst (make_buckets cs)) \<and> (\<forall>k ids. (k, ids) \<in> set (make_buckets cs) \<longleftrightarrow>
     ids = ids_of k cs \<and> ids \<noteq> [])"
proof (induction cs rule: rev_induct)
  case Nil
  then show ?case by (simp add: make_buckets_def ids_of_def)
next
  case (snoc c cs)
  obtain i t where c: "c = (i, t)" by (cases c)
  let ?k = "tenant_bucket t" and ?bs = "make_buckets cs"
  have step: "make_buckets (cs @ [c]) = add_to_bucket ?k i ?bs" by (simp add: make_buckets_def c)
  have ids: "ids_of k (cs @ [c]) = ids_of k cs @ (if k = ?k then [i] else [])" for k
    by (simp add: ids_of_def c)
  have d: "distinct (map fst ?bs)" using snoc by blast
  have key: "?k \<in> fst ` set ?bs \<longleftrightarrow> ids_of ?k cs \<noteq> []"
    using snoc by (force simp: image_iff)
  have "(k, xs) \<in> set (add_to_bucket ?k i ?bs) \<longleftrightarrow> xs = ids_of k (cs @ [c]) \<and> xs \<noteq> []" for k xs
    using snoc key by (auto simp: add_to_bucket_member [OF d] ids)
  then show ?case using add_to_bucket_keys [OF d, of ?k i] by (simp add: step)
qed

definition bucket_lists :: "(string \<times> tenant) list \<Rightarrow> string list list" where
  "bucket_lists cs = map snd (make_buckets cs)"

lemma ids_of_subset: "set (ids_of k cs) \<subseteq> fst ` set cs"
  by (auto simp: ids_of_def)

lemma bucket_member: "b \<in> set (bucket_lists cs) \<longleftrightarrow> (\<exists>k. b = ids_of k cs \<and> b \<noteq> [])"
  using make_buckets_ok [of cs] by (force simp: bucket_lists_def image_iff)

lemma ids_of_disjoint:
  assumes "distinct (map fst cs)" and "i \<in> set (ids_of j cs)" and "i \<in> set (ids_of k cs)"
  shows "j = k"
proof -
  obtain t u where "(i, t) \<in> set cs" "tenant_bucket t = j" "(i, u) \<in> set cs" "tenant_bucket u = k"
    using assms(2,3) by (auto simp: ids_of_def)
  with assms(1) show ?thesis by (metis eq_key_imp_eq_value)
qed

lemma ids_of_distinct: "distinct (map fst cs) \<Longrightarrow> distinct (ids_of k cs)"
  by (simp add: ids_of_def filter_map_fst_distinct)

lemma round_of_filter:
  assumes "distinct (map fst cs)"
  shows "filter (\<lambda>i. i \<in> set (ids_of k cs)) (round_of (bucket_lists cs) n)
    = (if n < length (ids_of k cs) then [ids_of k cs ! n] else [])"
proof -
  have "filter (\<lambda>i. i \<in> set (ids_of k cs)) (round_of (map snd bs) n)
      = (if (k, ids_of k cs) \<in> set bs \<and> n < length (ids_of k cs) then [ids_of k cs ! n] else [])"
    if "distinct (map fst bs)" "\<forall>(j, ids) \<in> set bs. ids = ids_of j cs" for bs
    using that
  proof (induction bs)
    case Nil
    then show ?case by (simp add: round_of_def)
  next
    case (Cons a bs)
    obtain j where a: "a = (j, ids_of j cs)" using Cons.prems(2) by (cases a) auto
    have IH: "filter (\<lambda>i. i \<in> set (ids_of k cs)) (round_of (map snd bs) n)
      = (if (k, ids_of k cs) \<in> set bs \<and> n < length (ids_of k cs) then [ids_of k cs ! n] else [])"
      using Cons by auto
    show ?case
    proof (cases "j = k")
      case True
      then have "(k, ids_of k cs) \<notin> set bs" using Cons.prems(1) a by force
      with IH True show ?thesis by (simp add: a round_of_Cons)
    next
      case False
      then have "n < length (ids_of j cs) \<Longrightarrow> ids_of j cs ! n \<notin> set (ids_of k cs)"
        using ids_of_disjoint [OF assms] nth_mem by blast
      with IH False show ?thesis by (simp add: a round_of_Cons)
    qed
  qed
  note this [of "make_buckets cs"]
  moreover have "\<forall>(j, ids) \<in> set (make_buckets cs). ids = ids_of j cs"
    using make_buckets_ok [of cs] by auto
  moreover have "(k, ids_of k cs) \<in> set (make_buckets cs) \<longleftrightarrow> ids_of k cs \<noteq> []"
    using make_buckets_ok [of cs] by blast
  ultimately show ?thesis using make_buckets_ok [of cs] by (auto simp: bucket_lists_def)
qed

lemma take_concat_rounds:
  "\<exists>r j. r \<le> M \<and> take m (concat (map f [0..<M])) = concat (map f [0..<r]) @ (if r < M then take j (f r) else [])"
proof (induction M)
  case (Suc M)
  then obtain r j where r: "r \<le> M"
    "take m (concat (map f [0..<M])) = concat (map f [0..<r]) @ (if r < M then take j (f r) else [])" by blast
  show ?case
  proof (cases "m \<le> length (concat (map f [0..<M]))")
    case True
    then have t: "take m (concat (map f [0..<Suc M])) = take m (concat (map f [0..<M]))" by simp
    show ?thesis
    proof (cases "r < M")
      case True
      with r t show ?thesis by (intro exI [of _ r] exI [of _ j]) simp
    next
      case False
      with r t show ?thesis by (intro exI [of _ M] exI [of _ 0]) simp
    qed
  next
    case False
    then have "take m (concat (map f [0..<Suc M]))
        = concat (map f [0..<M]) @ take (m - length (concat (map f [0..<M]))) (f M)" by simp
    then show ?thesis by (intro exI [of _ M] exI) simp
  qed
qed simp

lemma filter_take_prefix: "\<exists>j'. filter P (take j xs) = take j' (filter P xs)"
proof -
  have "filter P xs = filter P (take j xs) @ filter P (drop j xs)"
    by (metis append_take_drop_id filter_append)
  then show ?thesis by (metis append_eq_conv_conj)
qed

lemma filter_rounds:
  assumes "distinct (map fst cs)"
  shows "filter (\<lambda>i. i \<in> set (ids_of k cs)) (concat (map (round_of (bucket_lists cs)) [0..<r])) = take r (ids_of k cs)"
  by (induction r) (auto simp: round_of_filter [OF assms] take_Suc_conv_app_nth)

text \<open>What a tenant gets of the claim order.\<close>

definition served :: "(string \<times> tenant) list \<Rightarrow> nat \<Rightarrow> string \<Rightarrow> string list" where
  "served cs limit k = filter (\<lambda>i. i \<in> set (ids_of k cs)) (fairlyOrdered cs limit)"

text \<open>
  C22. The claim order is fair. Of candidates with distinct ids it takes as many as the limit
  allows, each once; within a tenant it keeps their order, oldest first; and while a tenant
  has candidates left no other tenant gets more than one more than it.
\<close>

theorem fairlyOrdered_fair:
  assumes "distinct (map fst cs)"
  shows "distinct (fairlyOrdered cs limit) \<and> set (fairlyOrdered cs limit) \<subseteq> fst ` set cs
    \<and> length (fairlyOrdered cs limit) = min limit (length cs)
    \<and> (\<forall>k. \<exists>n. served cs limit k = take n (ids_of k cs))
    \<and> (\<forall>j k. length (served cs limit j) < length (ids_of j cs) \<longrightarrow> length (served cs limit k) \<le> length (served cs limit j) + 1)"
proof -
  let ?L = "bucket_lists cs" and ?o = "fairlyOrdered cs limit"
  obtain M where M: "\<forall>b \<in> set (make_buckets cs). length (snd b) \<le> M"
    using finite_nat_set_iff_bounded_le [of "(length \<circ> snd) ` set (make_buckets cs)"] by auto
  define F where "F = concat (map (round_of ?L) [0..<M])"
  have "map (apsnd (drop 0)) (make_buckets cs) = make_buckets cs"
    by (simp add: apsnd_def map_prod_def split_beta map_idI)
  then have o: "?o = take limit F"
    using round_robin_rounds [OF M, of "[]" limit 0] by (simp add: fairlyOrdered_def F_def bucket_lists_def)
  have len: "length (ids_of k cs) \<le> M" for k
    using M make_buckets_ok [of cs] by (cases "ids_of k cs = []") fastforce+
  have all: "filter (\<lambda>i. i \<in> set (ids_of k cs)) F = ids_of k cs" for k
    using filter_rounds [OF assms(1), of k M] len [of k] by (simp add: F_def)
  have member: "i \<in> set F \<longleftrightarrow> i \<in> fst ` set cs" for i
  proof
    assume "i \<in> set F"
    then obtain b n where "b \<in> set ?L" "n < length b" "i = b ! n" by (auto simp: F_def round_of_def)
    then show "i \<in> fst ` set cs" using ids_of_subset by (fastforce simp: bucket_member dest: nth_mem)
  next
    assume "i \<in> fst ` set cs"
    then obtain t where "(i, t) \<in> set cs" by auto
    then have "i \<in> set (ids_of (tenant_bucket t) cs)" by (force simp: ids_of_def)
    then show "i \<in> set F" using all [of "tenant_bucket t"] by (metis filter_is_subset subsetD)
  qed
  have dF: "distinct F"
  proof (rule ccontr)
    assume "\<not> distinct F"
    then obtain xs i ys zs where F: "F = xs @ [i] @ ys @ [i] @ zs" using not_distinct_decomp by blast
    then have "i \<in> fst ` set cs" using member [of i] by simp
    then obtain t where "(i, t) \<in> set cs" by auto
    then have "i \<in> set (ids_of (tenant_bucket t) cs)" by (force simp: ids_of_def)
    then have "\<not> distinct (filter (\<lambda>i. i \<in> set (ids_of (tenant_bucket t) cs)) F)" by (simp add: F)
    then show False using all ids_of_distinct [OF assms(1)] by simp
  qed
  have "length F = length cs"
    using distinct_card [OF dF] distinct_card [OF assms(1)] member by (metis length_map list.set_map set_eq_iff)
  then have "length ?o = min limit (length cs)" by (simp add: o min.commute)
  moreover have "distinct ?o" "set ?o \<subseteq> fst ` set cs" using dF member by (auto simp: o dest: in_set_takeD)
  moreover obtain r j where r: "r \<le> M"
      "take limit F = concat (map (round_of ?L) [0..<r]) @ (if r < M then take j (round_of ?L r) else [])"
    using take_concat_rounds [of M limit "round_of ?L"] by (auto simp: F_def)
  have served: "\<exists>n. served cs limit k = take n (ids_of k cs) \<and> r \<le> n \<and> n \<le> r + 1" for k
  proof (cases "r < M")
    case True
    obtain j' where "filter (\<lambda>i. i \<in> set (ids_of k cs)) (take j (round_of ?L r))
        = take j' (if r < length (ids_of k cs) then [ids_of k cs ! r] else [])"
      using filter_take_prefix [of _ j "round_of ?L r"] round_of_filter [OF assms(1), of k r] by metis
    then have "served cs limit k = take r (ids_of k cs) @ take j' (if r < length (ids_of k cs) then [ids_of k cs ! r] else [])"
      using r(2) True filter_rounds [OF assms(1), of k r] by (simp add: served_def o)
    then show ?thesis
      by (cases j'; cases "r < length (ids_of k cs)") (auto simp: take_Suc_conv_app_nth intro: exI [of _ "Suc r"])
  next
    case False
    then show ?thesis
      using r(2) filter_rounds [OF assms(1), of k r] by (intro exI [of _ r]) (simp add: served_def o)
  qed
  moreover have "length (served cs limit k) \<le> length (served cs limit j) + 1" if "length (served cs limit j) < length (ids_of j cs)" for j k
  proof -
    obtain m n where "served cs limit j = take m (ids_of j cs)" "r \<le> m" "served cs limit k = take n (ids_of k cs)" "n \<le> r + 1"
      using served [of j] served [of k] by blast
    with that show ?thesis by auto
  qed
  ultimately show ?thesis by blast
qed

theorem fairlyOrdered_witness:
  "fairlyOrdered [(''a'', Some ''t''), (''b'', Some ''t''), (''c'', Some ''t''), (''d'', None)] 3 = [''a'', ''d'', ''b'']
   \<and> length (fairlyOrdered [(''a'', Some ''t''), (''b'', Some ''t''), (''c'', Some ''t''), (''d'', None)] 3) = 3"
proof
  show "fairlyOrdered [(''a'', Some ''t''), (''b'', Some ''t''), (''c'', Some ''t''), (''d'', None)] 3 = [''a'', ''d'', ''b'']"
    by (simp add: fairlyOrdered_def make_buckets_def tenant_bucket_def round_robin.simps)
  show "length (fairlyOrdered [(''a'', Some ''t''), (''b'', Some ''t''), (''c'', Some ''t''), (''d'', None)] 3) = 3"
    using fairlyOrdered_fair [of "[(''a'', Some ''t''), (''b'', Some ''t''), (''c'', Some ''t''), (''d'', None)]" 3]
    by simp
qed

section \<open>Claims\<close>

lemma claimed_row_simps [simp]:
  "ob_id (claimed_row token now r) = ob_id r" "ob_lockedBy (claimed_row token now r) = Some token"
  "ob_status (claimed_row token now r) = OB_processing"
  "ob_lockedUntil (claimed_row token now r) = Some (now + CLAIM_TTL_MS)"
  by (simp_all add: claimed_row_def)

lemma claimed_not_claimable: "t < now + CLAIM_TTL_MS \<Longrightarrow> \<not> outbox_claimable t (claimed_row token now r)"
  by (simp add: outbox_claimable_def)

lemma map_filter_find:
  assumes "distinct (map f rows)" and "set ids \<subseteq> f ` set rows" and "distinct ids"
  shows "map f (List.map_filter (\<lambda>i. find (\<lambda>r. f r = i) rows) ids) = ids"
    and "set (List.map_filter (\<lambda>i. find (\<lambda>r. f r = i) rows) ids) = {r \<in> set rows. f r \<in> set ids}"
proof -
  have f: "\<exists>r \<in> set rows. f r = i \<and> find (\<lambda>r. f r = i) rows = Some r" if i: "i \<in> f ` set rows" for i
  proof -
    from i obtain r where "r \<in> set rows" "i = f r" by blast
    with find_Some_iff_distinct [OF assms(1)] show ?thesis by blast
  qed
  show "map f (List.map_filter (\<lambda>i. find (\<lambda>r. f r = i) rows) ids) = ids"
    using assms(2) by (induction ids) (auto simp: List.map_filter_simps dest!: f)
  show "set (List.map_filter (\<lambda>i. find (\<lambda>r. f r = i) rows) ids) = {r \<in> set rows. f r \<in> set ids}"
  proof (intro set_eqI iffI)
    fix r assume "r \<in> set (List.map_filter (\<lambda>i. find (\<lambda>r. f r = i) rows) ids)"
    then show "r \<in> {r \<in> set rows. f r \<in> set ids}"
      by (auto simp: List.map_filter_def dest: find_SomeD)
  next
    fix r assume r: "r \<in> {r \<in> set rows. f r \<in> set ids}"
    then have "find (\<lambda>y. f y = f r) rows = Some r" using find_Some_iff_distinct [OF assms(1)] by auto
    with r show "r \<in> set (List.map_filter (\<lambda>i. find (\<lambda>r. f r = i) rows) ids)"
      by (force simp: List.map_filter_def image_iff)
  qed
qed

text \<open>
  C23. A claim takes exclusive ownership. With a fresh token it returns at most the limit of
  distinct events, each of which was due, and stores exactly these as locked by the token
  until five minutes later, during which no claim can take them; no other row changes.
\<close>

theorem claimPending_exclusive:
  assumes ids: "distinct (map ob_id (ob_rows w))" and fresh: "\<forall>r \<in> set (ob_rows w). ob_lockedBy r \<noteq> Some token"
    and run: "claimPending token limit w = (Inr es, w')"
  shows "length es \<le> limit \<and> distinct (map ob_id es)
    \<and> (\<forall>e \<in> set es. (\<exists>r \<in> set (ob_rows w). outbox_claimable (ob_now w) r \<and> e = claimed_row token (ob_now w) r)
        \<and> (\<forall>t < ob_now w + CLAIM_TTL_MS. \<not> outbox_claimable t e))
    \<and> ob_rows w' = map (\<lambda>r. if ob_id r \<in> ob_id ` set es then claimed_row token (ob_now w) r else r) (ob_rows w)"
proof -
  let ?now = "ob_now w" and ?rows = "ob_rows w"
  define cs where "cs = take (min (limit * FAIR_OVERFETCH_FACTOR) MAX_FAIR_OVERFETCH)
    (sort_key (\<lambda>r. (ob_createdAt r, ob_id r)) (filter (outbox_claimable ?now) ?rows))"
  define ord where "ord = fairlyOrdered (map (\<lambda>r. (ob_id r, ob_tenant r)) cs) limit"
  define rows where "rows = map (\<lambda>r. if ob_id r \<in> set ord \<and> outbox_claimable ?now r
     then claimed_row token ?now r else r) ?rows"
  define mine where "mine = filter (\<lambda>r. ob_id r \<in> set ord \<and> ob_lockedBy r = Some token \<and> ob_status r = OB_processing) rows"
  have "distinct (map ob_id (sort_key (\<lambda>r. (ob_createdAt r, ob_id r)) (filter (outbox_claimable ?now) ?rows)))"
    using filter_map_fst_distinct [OF ids, of "outbox_claimable ?now"] by (simp add: distinct_map)
  note distinct_take [OF this, of "min (limit * FAIR_OVERFETCH_FACTOR) MAX_FAIR_OVERFETCH"]
  then have "distinct (map fst (map (\<lambda>r. (ob_id r, ob_tenant r)) cs))"
    by (simp only: cs_def map_map o_def fst_conv take_map)
  from fairlyOrdered_fair [OF this, of limit]
  have ord: "distinct ord" "length ord \<le> limit" "set ord \<subseteq> ob_id ` set cs"
    by (auto simp: ord_def image_image)
  have cs: "set cs \<subseteq> {r \<in> set ?rows. outbox_claimable ?now r}"
    by (auto simp: cs_def dest!: in_set_takeD)
  have due: "outbox_claimable ?now r" if r: "r \<in> set ?rows" "ob_id r \<in> set ord" for r
  proof -
    obtain c where "c \<in> set cs" "ob_id c = ob_id r" using ord(3) r(2) by auto
    then have "c = r" using cs ids r(1) by (auto simp: distinct_map dest: inj_onD)
    with \<open>c \<in> set cs\<close> cs show ?thesis by auto
  qed
  then have rows_eq: "rows = map (\<lambda>r. if ob_id r \<in> set ord then claimed_row token ?now r else r) ?rows"
    by (simp add: rows_def)
  have mine: "mine = filter (\<lambda>r. ob_id r \<in> set ord) rows"
    unfolding mine_def by (rule filter_cong) (use fresh in \<open>auto simp: rows_eq\<close>)
  have rid: "map ob_id rows = map ob_id ?rows" by (simp add: rows_eq)
  have dm: "distinct (map ob_id mine)" unfolding mine using filter_map_fst_distinct ids rid by metis
  have sub: "set ord \<subseteq> ob_id ` set mine"
  proof
    fix i assume i: "i \<in> set ord"
    then obtain r where "r \<in> set ?rows" "ob_id r = i" using ord(3) cs by auto
    then have "i \<in> ob_id ` set rows" using rid by (metis image_eqI image_set)
    with i show "i \<in> ob_id ` set mine" by (auto simp: mine)
  qed
  let ?claimed = "List.map_filter (\<lambda>i. find (\<lambda>r. ob_id r = i) mine) ord"
  note claimed = map_filter_find [OF dm sub ord(1)]
  have es: "es = ?claimed \<and> ob_rows w' = rows"
  proof (cases "ord = []")
    case True
    then have "claimPending token limit w = (Inr [], w)"
      unfolding claimPending_def Let_def cs_def [symmetric] ord_def [symmetric] by simp
    with run True show ?thesis by (simp add: rows_eq List.map_filter_simps)
  next
    case False
    then have "claimPending token limit w = (Inr ?claimed, w\<lparr>ob_rows := rows\<rparr>)"
      unfolding claimPending_def Let_def cs_def [symmetric] ord_def [symmetric] rows_def [symmetric]
        mine_def [symmetric] by simp
    with run show ?thesis by auto
  qed
  have "map ob_id es = ord" using claimed(1) es by simp
  then have facts: "length es \<le> limit" "distinct (map ob_id es)" "ob_id ` set es = set ord"
    using ord by (auto simp flip: length_map [of ob_id es] set_map)
  have "\<exists>r \<in> set ?rows. outbox_claimable ?now r \<and> e = claimed_row token ?now r" if "e \<in> set es" for e
  proof -
    have "e \<in> set rows" "ob_id e \<in> set ord" using that claimed(2) es by (auto simp: mine)
    then obtain r where "r \<in> set ?rows" "ob_id r \<in> set ord" "e = claimed_row token ?now r"
      by (auto simp: rows_eq split: if_splits)
    with due show ?thesis by blast
  qed
  with facts es rows_eq claimed_not_claimable show ?thesis by metis
qed

section \<open>Publishing\<close>

lemma update_claim_owned:
  assumes "distinct (map ob_id (ob_rows w))" and "r \<in> set (ob_rows w)" and "ob_id r = i"
    and "ob_lockedBy r = token \<or> token = None"
  shows "update_claim i token f w = (Inr 1,
    w\<lparr>ob_rows := map (\<lambda>x. if ob_id x = i then f x else x) (ob_rows w)\<rparr>)"
proof -
  let ?hit = "\<lambda>x. ob_id x = i \<and> (token = None \<or> ob_lockedBy x = token)"
  have only: "ob_id x = i \<Longrightarrow> x = r" if "x \<in> set (ob_rows w)" for x
    using assms(1-3) that by (auto simp: distinct_map dest: inj_onD)
  have hit: "?hit x \<longleftrightarrow> ob_id x = i" if "x \<in> set (ob_rows w)" for x
    using only [OF that] assms(4) by auto
  have one: "set (filter ?hit (ob_rows w)) = {r}"
    using assms(2-4) by (auto dest: only)
  have "distinct (filter ?hit (ob_rows w))" using assms(1) by (simp add: distinct_map)
  then have "length (filter ?hit (ob_rows w)) = card (set (filter ?hit (ob_rows w)))"
    by (rule distinct_card [symmetric])
  then have "length (filter ?hit (ob_rows w)) = 1" unfolding one by simp
  moreover have "map (\<lambda>x. if ?hit x then f x else x) (ob_rows w) = map (\<lambda>x. if ob_id x = i then f x else x) (ob_rows w)"
    using hit by (intro map_cong) auto
  ultimately show ?thesis by (simp add: update_claim_def Let_def)
qed

lemma update_claim_lost:
  assumes "\<forall>r \<in> set (ob_rows w). ob_id r = i \<longrightarrow> ob_lockedBy r \<noteq> Some token"
  shows "update_claim i (Some token) f w = (Inr 0, w)"
proof -
  have "filter (\<lambda>x. ob_id x = i \<and> (Some token = None \<or> ob_lockedBy x = Some token)) (ob_rows w) = []"
    using assms by (auto simp: filter_empty_conv)
  moreover have "map (\<lambda>x. if ob_id x = i \<and> (Some token = None \<or> ob_lockedBy x = Some token) then f x else x) (ob_rows w) = ob_rows w"
    using assms by (intro map_idI) auto
  ultimately show ?thesis by (simp add: update_claim_def Let_def)
qed

text \<open>
  C24. A worker that lost its claim changes nothing: when the event's row is no longer locked
  by its token, marking it published or failed touches no row and reports zero, so the batch
  counts neither a publication, nor a retry, nor a dead letter for it.
\<close>

theorem lost_claim_changes_nothing:
  assumes "\<forall>r \<in> set (ob_rows w). ob_id r = ob_id e \<longrightarrow> ob_lockedBy r \<noteq> Some token" and "ob_lockedBy e = Some token"
  shows "markPublished (ob_id e) (Some token) w = (Inr 0, w)
    \<and> markFailed_outbox (ob_id e) next (Some token) w = (Inr 0, w)
    \<and> handleDeliveryFailure c p e result w = (Inr result, w)
    \<and> publishOne c (\<lambda>_. ret ()) p e result w = (Inr result, w)"
  using update_claim_lost [OF assms(1)] assms(2)
  by (simp add: markPublished_def markFailed_outbox_def handleDeliveryFailure_def publishOne_def
      andThen_def attempt_def Let_def)

lemma retry_delay_bounds:
  assumes "0 \<le> p" and "p < 2 ^ 53" and "0 \<le> oc_backoff c" and "0 \<le> oc_maxBackoff c" and "1 \<le> attempts"
  shows "backoff_cap c attempts div 2 \<le> retry_delay c attempts p" and "retry_delay c attempts p \<le> backoff_cap c attempts"
    and "0 \<le> backoff_cap c attempts" and "backoff_cap c attempts \<le> oc_maxBackoff c"
proof -
  let ?cap = "backoff_cap c attempts"
  show cap: "0 \<le> ?cap" "?cap \<le> oc_maxBackoff c" using assms(3,4) by (simp_all add: backoff_cap_def)
  have "?cap * (2 ^ 53) \<le> ?cap * (2 ^ 53 + p)" "?cap * (2 ^ 53 + p) \<le> ?cap * (2 * 2 ^ 53)"
    using cap(1) assms(1,2) by (intro mult_left_mono; simp)+
  then have "?cap * 2 ^ 53 div (2 * 2 ^ 53) \<le> ?cap * (2 ^ 53 + p) div (2 * 2 ^ 53)"
      "?cap * (2 ^ 53 + p) div (2 * 2 ^ 53) \<le> ?cap * (2 * 2 ^ 53) div (2 * 2 ^ 53)"
    by (simp_all add: zdiv_mono1)
  moreover have "?cap * 2 ^ 53 div (2 * 2 ^ 53) = ?cap div 2"
    by (simp add: mult.commute [of ?cap] mult.commute [of 2] div_mult_mult1)
  moreover have "?cap * (2 * 2 ^ 53) div (2 * 2 ^ 53) = ?cap" by simp
  ultimately have d: "?cap div 2 \<le> ?cap * (2 ^ 53 + p) div (2 * 2 ^ 53)"
      "?cap * (2 ^ 53 + p) div (2 * 2 ^ 53) \<le> ?cap" by simp_all
  then show "?cap div 2 \<le> retry_delay c attempts p" "retry_delay c attempts p \<le> ?cap"
    using cap by (auto simp: retry_delay_def)
qed

text \<open>
  C25. A delivery that failed is rescheduled or dead-lettered, never lost. The event still
  owned by the worker has its attempt counted; at the last attempt it becomes failed and is
  counted as a dead letter; before that, if the capped backoff is at least two milliseconds,
  it becomes pending again, is counted as a retry, and is due between half the capped backoff
  and the whole of it from now, never later than the maximal backoff.
\<close>

theorem failed_delivery_rescheduled:
  assumes "distinct (map ob_id (ob_rows w))" and "e \<in> set (ob_rows w)" and "ob_lockedBy e = Some token"
    and "0 \<le> p" and "p < 2 ^ 53" and "0 \<le> oc_backoff c" and "0 \<le> oc_maxBackoff c" and "0 \<le> ob_attempts e"
  shows "\<exists>w' e'. ob_rows w' = map (\<lambda>x. if ob_id x = ob_id e then e' else x) (ob_rows w)
    \<and> ob_attempts e' = ob_attempts e + 1 \<and> ob_lockedBy e' = None \<and>
    (if ob_attempts e + 1 \<ge> oc_maxAttempts c
     then handleDeliveryFailure c p e result w = (Inr (result\<lparr>pr_deadLettered := pr_deadLettered result + 1\<rparr>), w')
       \<and> ob_status e' = OB_failed
     else handleDeliveryFailure c p e result w = (Inr (result\<lparr>pr_retried := pr_retried result + 1\<rparr>), w')
       \<and> (2 \<le> backoff_cap c (ob_attempts e + 1) \<longrightarrow> ob_status e' = OB_pending
          \<and> (\<exists>t. ob_nextRetryAt e' = Some t \<and> ob_now w + backoff_cap c (ob_attempts e + 1) div 2 \<le> t
              \<and> t \<le> ob_now w + backoff_cap c (ob_attempts e + 1) \<and> t \<le> ob_now w + oc_maxBackoff c)))"
proof -
  have only: "x = e" if "x \<in> set (ob_rows w)" "ob_id x = ob_id e" for x
    using assms(1,2) that by (auto simp: distinct_map dest: inj_onD)
  have upd: "update_claim (ob_id e) (Some token) f w
      = (Inr 1, w\<lparr>ob_rows := map (\<lambda>x. if ob_id x = ob_id e then f e else x) (ob_rows w)\<rparr>)" for f
  proof -
    have "map (\<lambda>x. if ob_id x = ob_id e then f x else x) (ob_rows w)
        = map (\<lambda>x. if ob_id x = ob_id e then f e else x) (ob_rows w)"
      using only by (intro map_cong) auto
    with update_claim_owned [OF assms(1,2) refl, of "Some token" f] assms(3) show ?thesis by simp
  qed
  show ?thesis
  proof (cases "ob_attempts e + 1 \<ge> oc_maxAttempts c")
    case True
    let ?e = "e\<lparr>ob_status := OB_failed, ob_attempts := ob_attempts e + 1, ob_nextRetryAt := None,
      ob_lockedBy := None, ob_lockedUntil := None, ob_updatedAt := ob_now w\<rparr>"
    from True show ?thesis
      by (intro exI [of _ "w\<lparr>ob_rows := map (\<lambda>x. if ob_id x = ob_id e then ?e else x) (ob_rows w)\<rparr>"] exI [of _ ?e])
        (simp add: handleDeliveryFailure_def markFailed_outbox_def upd assms(3) andThen_def Let_def)
  next
    case False
    let ?t = "ob_now w + retry_delay c (ob_attempts e + 1) p"
    let ?e = "e\<lparr>ob_status := (if ?t > ob_now w then OB_pending else OB_failed),
      ob_attempts := ob_attempts e + 1, ob_nextRetryAt := (if ?t > ob_now w then Some ?t else None),
      ob_lockedBy := None, ob_lockedUntil := None, ob_updatedAt := ob_now w\<rparr>"
    note bounds = retry_delay_bounds [OF assms(4-7), of "ob_attempts e + 1"]
    have due: "0 < retry_delay c (ob_attempts e + 1) p" if "2 \<le> backoff_cap c (ob_attempts e + 1)"
    proof -
      have "1 \<le> backoff_cap c (ob_attempts e + 1) div 2" using that zdiv_mono1 [OF that, of 2] by simp
      with bounds(1) assms(8) show ?thesis by simp
    qed
    have late: "ob_now w + backoff_cap c (ob_attempts e + 1) div 2 \<le> ?t"
        "?t \<le> ob_now w + backoff_cap c (ob_attempts e + 1)" "?t \<le> ob_now w + oc_maxBackoff c"
      using bounds assms(8) by simp_all
    from False late due show ?thesis
      by (intro exI [of _ "w\<lparr>ob_rows := map (\<lambda>x. if ob_id x = ob_id e then ?e else x) (ob_rows w)\<rparr>"] exI [of _ ?e])
        (simp add: handleDeliveryFailure_def markFailed_outbox_def upd assms(3) andThen_def Let_def)
  qed
qed

section \<open>Examples\<close>

definition example_event :: "string option \<Rightarrow> outbox_status \<Rightarrow> unit outbox_event" where
  "example_event lock st = \<lparr>ob_id = ''e'', ob_tenant = None, ob_correlationId = ''c'', ob_eventType = ''t'',
     ob_eventVersion = 1, ob_payload = (), ob_status = st, ob_attempts = 0, ob_nextRetryAt = None,
     ob_lockedBy = lock, ob_lockedUntil = None, ob_dedupeKey = None, ob_createdAt = 0, ob_updatedAt = 0\<rparr>"

definition example_outbox :: "unit outbox_event \<Rightarrow> unit outbox_db" where
  "example_outbox e = \<lparr>ob_rows = [e], ob_now = 100\<rparr>"

definition default_outbox_config :: outbox_config where
  "default_outbox_config = \<lparr>oc_maxAttempts = 5, oc_backoff = 1000, oc_maxBackoff = 60000\<rparr>"

theorem claimPending_witness:
  "ob_rows (snd (claimPending ''t'' 1 (example_outbox (example_event None OB_pending))))
    = [claimed_row ''t'' 100 (example_event None OB_pending)]"
proof -
  obtain w' where run: "claimPending ''t'' 1 (example_outbox (example_event None OB_pending))
      = (Inr [claimed_row ''t'' 100 (example_event None OB_pending)], w')"
    by (simp add: claimPending_def example_outbox_def example_event_def outbox_claimable_def
        fairlyOrdered_def make_buckets_def tenant_bucket_def round_robin.simps claimed_row_def Let_def
        FAIR_OVERFETCH_FACTOR_def MAX_FAIR_OVERFETCH_def List.map_filter_simps)
  have "ob_rows w' = [claimed_row ''t'' 100 (example_event None OB_pending)]"
    using claimPending_exclusive [OF _ _ run]
    by (simp add: example_outbox_def example_event_def claimed_row_def)
  then show ?thesis unfolding run by simp
qed

theorem lost_claim_witness:
  "markPublished ''e'' (Some ''old'') (example_outbox (example_event (Some ''new'') OB_processing))
    = (Inr 0, example_outbox (example_event (Some ''new'') OB_processing))"
  using lost_claim_changes_nothing [of "example_outbox (example_event (Some ''new'') OB_processing)"
      "example_event (Some ''old'') OB_processing" "''old''"]
  by (simp add: example_outbox_def example_event_def)

theorem failed_delivery_witness:
  "\<exists>w'. handleDeliveryFailure default_outbox_config 0 (example_event (Some ''t'') OB_processing)
      \<lparr>pr_published = 0, pr_retried = 0, pr_deadLettered = 0\<rparr> (example_outbox (example_event (Some ''t'') OB_processing))
    = (Inr \<lparr>pr_published = 0, pr_retried = 1, pr_deadLettered = 0\<rparr>, w')"
  using failed_delivery_rescheduled [of "example_outbox (example_event (Some ''t'') OB_processing)"
      "example_event (Some ''t'') OB_processing" "''t''" 0 default_outbox_config
      "\<lparr>pr_published = 0, pr_retried = 0, pr_deadLettered = 0\<rparr>"]
  by (auto simp: example_outbox_def example_event_def default_outbox_config_def)

text \<open>
  A backoff of at most one millisecond loses events: the retry is computed as due now,
  which the repository takes for no retry at all, so that after the first of five attempts
  the event is failed for good, and the batch reports it as retried.
\<close>

theorem small_backoff_loses_event:
  "\<exists>w' e'. handleDeliveryFailure (default_outbox_config\<lparr>oc_backoff := 1\<rparr>) (2 ^ 53 - 1)
      (example_event (Some ''t'') OB_processing) \<lparr>pr_published = 0, pr_retried = 0, pr_deadLettered = 0\<rparr>
      (example_outbox (example_event (Some ''t'') OB_processing))
    = (Inr \<lparr>pr_published = 0, pr_retried = 1, pr_deadLettered = 0\<rparr>, w')
    \<and> ob_rows w' = [e'] \<and> ob_status e' = OB_failed \<and> ob_attempts e' = 1"
  by (simp add: handleDeliveryFailure_def markFailed_outbox_def update_claim_def andThen_def Let_def
      retry_delay_def backoff_cap_def default_outbox_config_def example_event_def example_outbox_def)

end
