(* ===== verification/Webhook_Tables.thy ===== *)
theory Webhook_Tables
  imports Payment_Tables Subscription_Machine Subscription_Items Audit_Chain Outbox
begin

text \<open>
  The tables the webhook handlers write: webhook events
  (\<open>knex-webhook-event.repository.ts\<close>), subscriptions, their items and their provider
  bindings (\<open>knex-subscription.repository.ts\<close>, \<open>knex-subscription-item.repository.ts\<close>,
  \<open>knex-subscription-provider-binding.repository.ts\<close>), beside the payments, the audit log and
  the outbox of the other theories. The columns of an event that are sealed when the driver has an
  encryption are modelled as what they open to.
\<close>

section \<open>Rows\<close>

datatype webhook_status = W_pending | W_processing | W_processed | W_failed

record 'd webhook_event =
  we_id :: ident
  we_tenant :: string
  we_provider :: string
  we_providerEventId :: string
  we_type :: string
  we_normalizedType :: "string option"
  we_payload :: string
  we_signature :: "string option"
  we_data :: 'd
  we_headers :: "(string \<times> string) list"
  we_status :: webhook_status
  we_correlationId :: string
  we_occurredAt :: "instant option"
  we_receivedAt :: instant
  we_processedAt :: "instant option"
  we_claimedUntil :: "instant option"
  we_claimToken :: "string option"

datatype scheduled_action = SA_pause | SA_resume

datatype collection_responsibility = CR_merchant | CR_provider

record subscription =
  sub_id :: ident
  sub_tenant :: tenant
  sub_customerId :: ident
  sub_name :: string
  sub_provider :: "string option"
  sub_providerSubscriptionId :: "ident option"
  sub_status :: subscription_status
  sub_priceId :: "string option"
  sub_quantity :: int
  sub_canonicalPriceId :: "ident option"
  sub_canonicalProductId :: "ident option"
  sub_acceptedCurrency :: "string option"
  sub_acceptedUnitAmount :: "int option"
  sub_acceptedInterval :: "string option"
  sub_acceptedIntervalCount :: "int option"
  sub_acceptedQuantity :: "int option"
  sub_collectionResponsibility :: collection_responsibility
  sub_creationSource :: "string option"
  sub_trialEndsAt :: "instant option"
  sub_endsAt :: "instant option"
  sub_currentPeriodStart :: "instant option"
  sub_currentPeriodEnd :: "instant option"
  sub_providerSyncedAt :: "instant option"
  sub_scheduledChangeAction :: "scheduled_action option"
  sub_scheduledChangeEffectiveAt :: "instant option"
  sub_scheduledResumeAt :: "instant option"
  sub_resumeBillingPolicy :: "string option"
  sub_paymentCollectionPauseBehavior :: "string option"
  sub_paymentCollectionResumesAt :: "instant option"
  sub_createdAt :: instant
  sub_updatedAt :: instant

record binding =
  bi_id :: ident
  bi_tenant :: tenant
  bi_subscriptionId :: ident
  bi_provider :: string
  bi_providerSubscriptionId :: ident
  bi_providerSyncedAt :: "instant option"
  bi_updatedAt :: instant

text \<open>
  What is written into the audit log and the outbox: a webhook's entries, and objects of the
  fields an action names.
\<close>

datatype hook_value = HV_null | HV_text string | HV_number int | HV_date instant

datatype hook_json = HJ_after string string "string option" | HJ_metadata "string option"
  | HJ_object "(string \<times> hook_value) list"

datatype 'd hook_payload = HP_event string 'd | HP_object "(string \<times> hook_value) list"

record 'd hook_db = pay_db +
  hk_subscriptions :: "subscription list"
  hk_items :: "subscription_item list"
  hk_bindings :: "binding list"
  hk_events :: "'d webhook_event list"
  hk_audit :: "hook_json audit_row list"
  hk_outbox :: "'d hook_payload outbox_event list"

text \<open>The operations of the audit log and the outbox, on their part of the state.\<close>

definition on_audit :: "(hook_json audit_db, 'a) io \<Rightarrow> (('d, 'x) hook_db_scheme, 'a) io" where
  "on_audit m = (\<lambda>w. case m \<lparr>audit_rows = hk_audit w, audit_now = idem_now w\<rparr> of
     (r, a) \<Rightarrow> (r, w\<lparr>hk_audit := audit_rows a\<rparr>))"

definition on_outbox :: "('d hook_payload outbox_db, 'a) io \<Rightarrow> (('d, 'x) hook_db_scheme, 'a) io" where
  "on_outbox m = (\<lambda>w. case m \<lparr>ob_rows = hk_outbox w, ob_now = idem_now w\<rparr> of
     (r, a) \<Rightarrow> (r, w\<lparr>hk_outbox := ob_rows a\<rparr>))"

section \<open>Webhook events\<close>

definition WEBHOOK_CLAIM_TTL_MS :: int where "WEBHOOK_CLAIM_TTL_MS = 300000"

text \<open>The tenant an operation is given: \<open>None\<close> when the argument is undefined.\<close>

definition eventScope :: "ident \<Rightarrow> tenant option \<Rightarrow> 'd webhook_event \<Rightarrow> bool" where
  "eventScope i scope r \<longleftrightarrow> we_id r = i \<and> (case scope of None \<Rightarrow> True | Some t \<Rightarrow> we_tenant r = tenant_column t)"

definition event_tenant :: "'d webhook_event \<Rightarrow> tenant" where
  "event_tenant r = (if we_tenant r = [] then None else Some (we_tenant r))"

definition findEvent :: "ident \<Rightarrow> tenant option \<Rightarrow> (('d, 'x) hook_db_scheme, 'd webhook_event option) io" where
  "findEvent i scope = readState (\<lambda>w. find (eventScope i scope) (hk_events w))"

definition same_provider_event :: "string \<Rightarrow> string \<Rightarrow> tenant \<Rightarrow> 'd webhook_event \<Rightarrow> bool" where
  "same_provider_event provider providerEventId t r \<longleftrightarrow>
     we_provider r = provider \<and> we_providerEventId r = providerEventId \<and> we_tenant r = tenant_column t"

definition findByProviderEvent ::
  "string \<Rightarrow> string \<Rightarrow> tenant \<Rightarrow> (('d, 'x) hook_db_scheme, 'd webhook_event option) io" where
  "findByProviderEvent provider providerEventId t =
    readState (\<lambda>w. find (same_provider_event provider providerEventId t) (hk_events w))"

text \<open>The unique index is on tenant, provider and the provider's event id.\<close>

definition createEvent :: "'d webhook_event \<Rightarrow> (('d, 'x) hook_db_scheme, 'd webhook_event) io" where
  "createEvent r = (\<lambda>w.
    let row = r\<lparr>we_processedAt := None, we_claimedUntil := None, we_claimToken := None\<rparr> in
    if \<exists>x \<in> set (hk_events w). we_provider x = we_provider r \<and> we_providerEventId x = we_providerEventId r
        \<and> we_tenant x = we_tenant r
    then (Inl (ForeignError ''UNIQUE_VIOLATION''), w)
    else (Inr row, w\<lparr>hk_events := hk_events w @ [row]\<rparr>))"

definition claimable_statuses :: "bool \<Rightarrow> webhook_status list" where
  "claimable_statuses again = (if again then [W_pending, W_failed, W_processed] else [W_pending, W_failed])"

definition event_claimable :: "instant \<Rightarrow> bool \<Rightarrow> 'd webhook_event \<Rightarrow> bool" where
  "event_claimable now again r \<longleftrightarrow> we_status r \<in> set (claimable_statuses again)
     \<or> we_status r = W_processing \<and> (case we_claimedUntil r of None \<Rightarrow> False | Some t \<Rightarrow> t < now)"

definition updateEventsWhere ::
  "('d webhook_event \<Rightarrow> bool) \<Rightarrow> ('d webhook_event \<Rightarrow> 'd webhook_event) \<Rightarrow> (('d, 'x) hook_db_scheme, bool) io" where
  "updateEventsWhere P f = (\<lambda>w. (Inr (\<exists>r \<in> set (hk_events w). P r),
     w\<lparr>hk_events := map (\<lambda>r. if P r then f r else r) (hk_events w)\<rparr>))"

text \<open>The random claim token is an argument; the answer says whether it was written.\<close>

definition claimEvent :: "string \<Rightarrow> ident \<Rightarrow> tenant option \<Rightarrow> bool \<Rightarrow> (('d, 'x) hook_db_scheme, bool) io" where
  "claimEvent token i scope again = (\<lambda>w.
     updateEventsWhere (\<lambda>r. eventScope i scope r \<and> event_claimable (idem_now w) again r)
       (\<lambda>r. r\<lparr>we_status := W_processing, we_claimedUntil := Some (idem_now w + WEBHOOK_CLAIM_TTL_MS),
         we_claimToken := Some token\<rparr>) w)"

definition markStatus ::
  "ident \<Rightarrow> webhook_status \<Rightarrow> instant option \<Rightarrow> tenant option \<Rightarrow> string option
    \<Rightarrow> (('d, 'x) hook_db_scheme, 'd webhook_event option) io" where
  "markStatus i status processedAt scope token =
    andThen (updateEventsWhere
      (\<lambda>r. eventScope i scope r \<and> (case token of None \<Rightarrow> True | Some k \<Rightarrow> we_claimToken r = Some k))
      (\<lambda>r. r\<lparr>we_status := status, we_processedAt := processedAt\<rparr>)) (\<lambda>affected.
    if token \<noteq> None \<and> \<not> affected then ret None
    else andThen (findEvent i scope) (\<lambda>found. case found of
      None \<Rightarrow> throw (ForeignError ''row missing after write'') | Some r \<Rightarrow> ret (Some r)))"

section \<open>Subscriptions, items and bindings\<close>

definition scopedSubscription :: "ident \<Rightarrow> tenant \<Rightarrow> subscription \<Rightarrow> bool" where
  "scopedSubscription i t s \<longleftrightarrow> sub_id s = i \<and> tenantMatches t (sub_tenant s)"

definition findSubscription :: "ident \<Rightarrow> tenant \<Rightarrow> (('d, 'x) hook_db_scheme, subscription option) io" where
  "findSubscription i t = readState (\<lambda>w. find (scopedSubscription i t) (hk_subscriptions w))"

definition findSubscriptionByProviderId ::
  "string \<Rightarrow> ident \<Rightarrow> tenant \<Rightarrow> (('d, 'x) hook_db_scheme, subscription option) io" where
  "findSubscriptionByProviderId provider providerSubscriptionId t = readState (\<lambda>w.
     find (\<lambda>s. sub_provider s = Some provider \<and> sub_providerSubscriptionId s = Some providerSubscriptionId
         \<and> tenantMatches t (sub_tenant s)) (hk_subscriptions w))"

definition findBindingByProviderId ::
  "string \<Rightarrow> ident \<Rightarrow> tenant \<Rightarrow> (('d, 'x) hook_db_scheme, binding option) io" where
  "findBindingByProviderId provider providerSubscriptionId t = readState (\<lambda>w.
     find (\<lambda>b. bi_provider b = provider \<and> bi_providerSubscriptionId b = providerSubscriptionId
         \<and> tenant_column (bi_tenant b) = tenant_column t) (hk_bindings w))"

text \<open>\<open>subscriptionScope\<close>: the items are those of a subscription the tenant may see.\<close>

definition subscriptionScope :: "ident \<Rightarrow> tenant \<Rightarrow> ('d, 'x) hook_db_scheme \<Rightarrow> bool" where
  "subscriptionScope i t w \<longleftrightarrow> (\<exists>s \<in> set (hk_subscriptions w). scopedSubscription i t s)"

definition SUBSCRIPTION_ITEM_LIST_LIMIT :: nat where "SUBSCRIPTION_ITEM_LIST_LIMIT = 100"

definition listBySubscription :: "ident \<Rightarrow> tenant \<Rightarrow> (('d, 'x) hook_db_scheme, subscription_item list) io" where
  "listBySubscription i t = readState (\<lambda>w.
     take SUBSCRIPTION_ITEM_LIST_LIMIT (rev (sort_key (\<lambda>x. (it_createdAt x, it_id x))
       (filter (\<lambda>x. it_subscriptionId x = i \<and> subscriptionScope i t w) (hk_items w)))))"

text \<open>A patch: \<open>None\<close> is a field that is absent, \<open>Some None\<close> one that is null.\<close>

definition patched :: "'a option \<Rightarrow> 'a \<Rightarrow> 'a" where
  "patched x old = (case x of None \<Rightarrow> old | Some v \<Rightarrow> v)"

record item_patch =
  xp_priceId :: "string option"
  xp_providerItemId :: "string option option"
  xp_quantity :: "int option"

definition updateItemById ::
  "ident \<Rightarrow> ident \<Rightarrow> item_patch \<Rightarrow> tenant \<Rightarrow> (('d, 'x) hook_db_scheme, unit) io" where
  "updateItemById subscriptionId itemId patch t = (\<lambda>w. (Inr (), w\<lparr>hk_items := map (\<lambda>x.
     if it_id x = itemId \<and> it_subscriptionId x = subscriptionId \<and> subscriptionScope subscriptionId t w
     then x\<lparr>it_updatedAt := idem_now w, li_priceId := patched (xp_priceId patch) (li_priceId x),
       it_providerItemId := patched (xp_providerItemId patch) (it_providerItemId x),
       li_quantity := patched (xp_quantity patch) (li_quantity x)\<rparr>
     else x) (hk_items w)\<rparr>))"

record subscription_patch =
  sp_status :: "subscription_status option"
  sp_priceId :: "string option option"
  sp_quantity :: "int option"
  sp_trialEndsAt :: "instant option option"
  sp_endsAt :: "instant option option"
  sp_currentPeriodStart :: "instant option option"
  sp_currentPeriodEnd :: "instant option option"
  sp_providerSyncedAt :: "instant option option"
  sp_canonicalPriceId :: "ident option option"
  sp_canonicalProductId :: "ident option option"
  sp_acceptedCurrency :: "string option option"
  sp_acceptedUnitAmount :: "int option option"
  sp_acceptedInterval :: "string option option"
  sp_acceptedIntervalCount :: "int option option"
  sp_acceptedQuantity :: "int option option"
  sp_scheduledChangeAction :: "scheduled_action option option"
  sp_scheduledChangeEffectiveAt :: "instant option option"
  sp_scheduledResumeAt :: "instant option option"
  sp_resumeBillingPolicy :: "string option option"
  sp_paymentCollectionPauseBehavior :: "string option option"
  sp_paymentCollectionResumesAt :: "instant option option"

definition no_patch :: subscription_patch where
  "no_patch = \<lparr>sp_status = None, sp_priceId = None, sp_quantity = None, sp_trialEndsAt = None, sp_endsAt = None,
     sp_currentPeriodStart = None, sp_currentPeriodEnd = None, sp_providerSyncedAt = None, sp_canonicalPriceId = None,
     sp_canonicalProductId = None, sp_acceptedCurrency = None, sp_acceptedUnitAmount = None, sp_acceptedInterval = None,
     sp_acceptedIntervalCount = None, sp_acceptedQuantity = None, sp_scheduledChangeAction = None,
     sp_scheduledChangeEffectiveAt = None, sp_scheduledResumeAt = None, sp_resumeBillingPolicy = None,
     sp_paymentCollectionPauseBehavior = None, sp_paymentCollectionResumesAt = None\<rparr>"

definition patchSubscription :: "subscription_patch \<Rightarrow> instant \<Rightarrow> subscription \<Rightarrow> subscription" where
  "patchSubscription u now s = s\<lparr>sub_status := patched (sp_status u) (sub_status s),
     sub_priceId := patched (sp_priceId u) (sub_priceId s), sub_quantity := patched (sp_quantity u) (sub_quantity s),
     sub_trialEndsAt := patched (sp_trialEndsAt u) (sub_trialEndsAt s), sub_endsAt := patched (sp_endsAt u) (sub_endsAt s),
     sub_currentPeriodStart := patched (sp_currentPeriodStart u) (sub_currentPeriodStart s),
     sub_currentPeriodEnd := patched (sp_currentPeriodEnd u) (sub_currentPeriodEnd s),
     sub_providerSyncedAt := patched (sp_providerSyncedAt u) (sub_providerSyncedAt s),
     sub_canonicalPriceId := patched (sp_canonicalPriceId u) (sub_canonicalPriceId s),
     sub_canonicalProductId := patched (sp_canonicalProductId u) (sub_canonicalProductId s),
     sub_acceptedCurrency := patched (sp_acceptedCurrency u) (sub_acceptedCurrency s),
     sub_acceptedUnitAmount := patched (sp_acceptedUnitAmount u) (sub_acceptedUnitAmount s),
     sub_acceptedInterval := patched (sp_acceptedInterval u) (sub_acceptedInterval s),
     sub_acceptedIntervalCount := patched (sp_acceptedIntervalCount u) (sub_acceptedIntervalCount s),
     sub_acceptedQuantity := patched (sp_acceptedQuantity u) (sub_acceptedQuantity s),
     sub_scheduledChangeAction := patched (sp_scheduledChangeAction u) (sub_scheduledChangeAction s),
     sub_scheduledChangeEffectiveAt := patched (sp_scheduledChangeEffectiveAt u) (sub_scheduledChangeEffectiveAt s),
     sub_scheduledResumeAt := patched (sp_scheduledResumeAt u) (sub_scheduledResumeAt s),
     sub_resumeBillingPolicy := patched (sp_resumeBillingPolicy u) (sub_resumeBillingPolicy s),
     sub_paymentCollectionPauseBehavior := patched (sp_paymentCollectionPauseBehavior u) (sub_paymentCollectionPauseBehavior s),
     sub_paymentCollectionResumesAt := patched (sp_paymentCollectionResumesAt u) (sub_paymentCollectionResumesAt s),
     sub_updatedAt := now\<rparr>"

text \<open>An update answers the row it wrote, and throws when there is none.\<close>

definition updateSubscription ::
  "ident \<Rightarrow> subscription_patch \<Rightarrow> tenant \<Rightarrow> (('d, 'x) hook_db_scheme, subscription) io" where
  "updateSubscription i patch t = (\<lambda>w.
    let w' = w\<lparr>hk_subscriptions := map (\<lambda>s. if scopedSubscription i t s then patchSubscription patch (idem_now w) s else s)
        (hk_subscriptions w)\<rparr>
    in case find (scopedSubscription i t) (hk_subscriptions w') of
         Some s \<Rightarrow> (Inr s, w')
       | None \<Rightarrow> (Inl (ForeignError ''row missing after write''), w'))"

lemma updateSubscription_state:
  "updateSubscription i u t w = (r, w') \<Longrightarrow> w' = w\<lparr>hk_subscriptions :=
     map (\<lambda>s. if scopedSubscription i t s then patchSubscription u (idem_now w) s else s) (hk_subscriptions w)\<rparr>"
  by (auto simp: updateSubscription_def Let_def split: option.splits)

definition scopedBinding :: "ident \<Rightarrow> tenant \<Rightarrow> binding \<Rightarrow> bool" where
  "scopedBinding i t b \<longleftrightarrow> bi_id b = i \<and> tenantMatches t (bi_tenant b)"

definition updateProviderSyncedAt :: "ident \<Rightarrow> instant \<Rightarrow> tenant \<Rightarrow> (('d, 'x) hook_db_scheme, binding) io" where
  "updateProviderSyncedAt i at t = (\<lambda>w.
    let w' = w\<lparr>hk_bindings := map (\<lambda>b. if scopedBinding i t b
        then b\<lparr>bi_providerSyncedAt := Some at, bi_updatedAt := idem_now w\<rparr> else b) (hk_bindings w)\<rparr>
    in case find (scopedBinding i t) (hk_bindings w') of
         Some b \<Rightarrow> (Inr b, w')
       | None \<Rightarrow> (Inl (ForeignError ''row missing after write''), w'))"

section \<open>What a provider says of a subscription\<close>

text \<open>A field that may be undefined is an option of the field's type.\<close>

record subscription_dto =
  sd_providerSubscriptionId :: ident
  sd_status :: subscription_status
  sd_currentPeriodEnd :: "instant option"
  sd_trialEndsAt :: "instant option"
  sd_scheduledChangeAction :: "scheduled_action option option"
  sd_scheduledChangeEffectiveAt :: "instant option option"
  sd_scheduledResumeAt :: "instant option option"
  sd_resumeBillingPolicy :: "string option option"
  sd_paymentCollectionPauseBehavior :: "string option option"
  sd_paymentCollectionResumesAt :: "instant option option"
  sd_items :: "provider_item list option"

end
