(* ===== verification/Mutation_Claims.thy ===== *)
theory Mutation_Claims
  imports Webhook_Tables Refunds Request_Keys
begin

text \<open>
  One mutation of a subscription at a time: the claims table
  (\<open>knex-subscription-mutation-claim.repository.ts\<close>), taking and releasing a claim around a call
  to the provider (\<open>execute-subscription-mutation.ts\<close>), the recorded intent, and the operator's
  resolution of a claim whose outcome is unknown (\<open>subscription-mutation-claim-resolution.ts\<close>).
  The table's operation, status and outcome columns hold the constructors of their unions; a
  column with JSON text holds the value it parses to, or nothing when it does not parse.
\<close>

section \<open>Intents\<close>

datatype intent_value = IV_null | IV_bool bool | IV_integer int | IV_fraction | IV_string string
  | IV_array "intent_value list" | IV_object "(string \<times> intent_value) list"

record intent_blob =
  ib_prefix :: string
  ib_value :: "intent_value option"
  ib_empty :: bool

definition INTENT_PREFIX :: string where
  "INTENT_PREFIX = ''payable:subscription-mutation-intent:v1:''"

definition MAX_SAFE_INTEGER :: int where "MAX_SAFE_INTEGER = 9007199254740991"

record mutation_value =
  mv_priceId :: string
  mv_quantity :: int

record mutation_projection =
  mp_itemId :: ident
  mp_source :: mutation_value
  mp_target :: mutation_value
  mp_projectItem :: bool
  mp_projectSubscriptionPrice :: bool
  mp_projectSubscriptionQuantity :: bool

definition rehydrateIntentBlob :: "intent_blob \<Rightarrow> error + intent_blob" where
  "rehydrateIntentBlob b = (if ib_prefix b \<noteq> INTENT_PREFIX \<or> ib_empty b then Inl TypeError else Inr b)"

definition value_json :: "mutation_value \<Rightarrow> intent_value" where
  "value_json v = IV_object [(''priceId'', IV_string (mv_priceId v)), (''quantity'', IV_integer (mv_quantity v))]"

definition encodeIntent :: "mutation_projection \<Rightarrow> error + intent_blob" where
  "encodeIntent p = rehydrateIntentBlob \<lparr>ib_prefix = INTENT_PREFIX, ib_value = Some (IV_object
     [(''itemId'', IV_string (mp_itemId p)), (''source'', value_json (mp_source p)), (''target'', value_json (mp_target p)),
      (''projectItem'', IV_bool (mp_projectItem p)),
      (''projectSubscriptionPrice'', IV_bool (mp_projectSubscriptionPrice p)),
      (''projectSubscriptionQuantity'', IV_bool (mp_projectSubscriptionQuantity p))]), ib_empty = False\<rparr>"

text \<open>A repeated key of a JSON object has its last value.\<close>

definition member :: "(string \<times> intent_value) list \<Rightarrow> string \<Rightarrow> intent_value option" where
  "member members key = map_of (rev members) key"

definition stringField :: "(string \<times> intent_value) list \<Rightarrow> string \<Rightarrow> error + string" where
  "stringField members key = (case member members key of
     Some (IV_string s) \<Rightarrow> if length s > 0 then Inr s else Inl TypeError | _ \<Rightarrow> Inl TypeError)"

definition booleanField :: "(string \<times> intent_value) list \<Rightarrow> string \<Rightarrow> error + bool" where
  "booleanField members key = (case member members key of Some (IV_bool b) \<Rightarrow> Inr b | _ \<Rightarrow> Inl TypeError)"

definition mutationValue :: "(string \<times> intent_value) list \<Rightarrow> error + mutation_value" where
  "mutationValue members = bindE (stringField members ''priceId'') (\<lambda>price.
     case member members ''quantity'' of
       Some (IV_integer q) \<Rightarrow> if \<bar>q\<bar> \<le> MAX_SAFE_INTEGER \<and> q > 0
         then Inr \<lparr>mv_priceId = price, mv_quantity = q\<rparr> else Inl TypeError
     | _ \<Rightarrow> Inl TypeError)"

definition decodeIntent :: "intent_blob \<Rightarrow> error + mutation_projection" where
  "decodeIntent blob = bindE (rehydrateIntentBlob blob) (\<lambda>b. case ib_value b of
     Some (IV_object members) \<Rightarrow>
       (case (member members ''source'', member members ''target'') of
          (Some (IV_object source), Some (IV_object target)) \<Rightarrow>
            bindE (stringField members ''itemId'') (\<lambda>itemId.
            bindE (mutationValue source) (\<lambda>s.
            bindE (mutationValue target) (\<lambda>t.
            bindE (booleanField members ''projectItem'') (\<lambda>item.
            bindE (booleanField members ''projectSubscriptionPrice'') (\<lambda>price.
            bindE (booleanField members ''projectSubscriptionQuantity'') (\<lambda>quantity.
            Inr \<lparr>mp_itemId = itemId, mp_source = s, mp_target = t, mp_projectItem = item,
              mp_projectSubscriptionPrice = price, mp_projectSubscriptionQuantity = quantity\<rparr>))))))
        | _ \<Rightarrow> Inl TypeError)
   | _ \<Rightarrow> Inl TypeError)"

section \<open>Claims\<close>

datatype mutation_operation = MO_price_migration | MO_swap | MO_quantity_update | MO_cancel | MO_cancel_now
  | MO_cancel_scheduled_change | MO_pause | MO_pause_payment_collection | MO_resume | MO_resume_paused
  | MO_resume_payment_collection | MO_change_apply

datatype claim_status = Claim_active | Claim_resolved

datatype claim_outcome = Was_applied | Was_not_applied

datatype claim_observation = Unknown_outcome

record claim =
  mc_reference :: string
  mc_subscriptionId :: ident
  mc_ownerToken :: string
  mc_operation :: mutation_operation
  mc_correlationId :: string
  mc_intent :: "intent_blob option"
  mc_status :: claim_status
  mc_resolutionOutcome :: "claim_outcome option"
  mc_resolutionEvidence :: "string option"
  mc_resolvedAt :: "instant option"
  mc_observationOutcome :: "claim_observation option"
  mc_observationEvidence :: "string option"
  mc_observedAt :: "instant option"
  mc_claimedAt :: instant

record claim_row = claim +
  mc_tenantKey :: string
  mc_activeSubscriptionId :: "ident option"

record mutation_claim = claim +
  mc_tenant :: tenant

record 'd mutation_db = "'d hook_db" +
  mu_claims :: "claim_row list"

text \<open>A row is checked when it is read; a date that is not one and an unknown word have no value here.\<close>

definition resolution_complete :: "'a claim_scheme \<Rightarrow> bool" where
  "resolution_complete r \<longleftrightarrow> mc_resolutionOutcome r \<noteq> None \<and> mc_resolutionEvidence r \<noteq> None \<and> mc_resolvedAt r \<noteq> None"

definition claimToEntity :: "claim_row \<Rightarrow> error + mutation_claim" where
  "claimToEntity r =
    (if (mc_status r = Claim_resolved) \<noteq> resolution_complete r then Inl (ForeignError ''Invalid subscription mutation claim'')
     else if (mc_observationOutcome r = None) \<noteq> (mc_observationEvidence r = None \<and> mc_observedAt r = None)
     then Inl (ForeignError ''Invalid subscription mutation claim'')
     else if [] \<in> {mc_reference r, mc_subscriptionId r, mc_ownerToken r, mc_correlationId r}
     then Inl (ForeignError ''Invalid subscription mutation claim'')
     else bindE (case mc_intent r of None \<Rightarrow> Inr None | Some b \<Rightarrow> bindE (rehydrateIntentBlob b) (\<lambda>b'. Inr (Some b'))) (\<lambda>intent.
       Inr \<lparr>mc_reference = mc_reference r, mc_subscriptionId = mc_subscriptionId r, mc_ownerToken = mc_ownerToken r,
         mc_operation = mc_operation r, mc_correlationId = mc_correlationId r, mc_intent = intent, mc_status = mc_status r,
         mc_resolutionOutcome = mc_resolutionOutcome r, mc_resolutionEvidence = mc_resolutionEvidence r,
         mc_resolvedAt = mc_resolvedAt r, mc_observationOutcome = mc_observationOutcome r,
         mc_observationEvidence = mc_observationEvidence r, mc_observedAt = mc_observedAt r, mc_claimedAt = mc_claimedAt r,
         mc_tenant = (if mc_tenantKey r = [] then None else Some (mc_tenantKey r))\<rparr>))"

definition read_claim :: "claim_row option \<Rightarrow> (('d, 'x) mutation_db_scheme, mutation_claim option) io" where
  "read_claim row = (case row of None \<Rightarrow> ret None
     | Some r \<Rightarrow> andThen (liftResult (claimToEntity r)) (\<lambda>c. ret (Some c)))"

record new_claim =
  nc_reference :: string
  nc_tenant :: tenant
  nc_subscriptionId :: ident
  nc_ownerToken :: string
  nc_operation :: mutation_operation
  nc_correlationId :: string
  nc_intent :: "intent_blob option"
  nc_claimedAt :: instant

definition claim_row_of :: "new_claim \<Rightarrow> claim_row" where
  "claim_row_of c = \<lparr>mc_reference = nc_reference c, mc_subscriptionId = nc_subscriptionId c,
     mc_ownerToken = nc_ownerToken c, mc_operation = nc_operation c, mc_correlationId = nc_correlationId c,
     mc_intent = nc_intent c, mc_status = Claim_active, mc_resolutionOutcome = None, mc_resolutionEvidence = None,
     mc_resolvedAt = None, mc_observationOutcome = None, mc_observationEvidence = None, mc_observedAt = None,
     mc_claimedAt = nc_claimedAt c, mc_tenantKey = tenant_column (nc_tenant c),
     mc_activeSubscriptionId = Some (nc_subscriptionId c)\<rparr>"

text \<open>The primary key, the unique owner token, and one active claim of a tenant's subscription.\<close>

definition claim_taken :: "claim_row \<Rightarrow> claim_row \<Rightarrow> bool" where
  "claim_taken r x \<longleftrightarrow> mc_reference x = mc_reference r \<or> mc_ownerToken x = mc_ownerToken r
     \<or> mc_tenantKey x = mc_tenantKey r \<and> mc_activeSubscriptionId x = mc_activeSubscriptionId r"

definition acquireClaim :: "new_claim \<Rightarrow> (('d, 'x) mutation_db_scheme, bool) io" where
  "acquireClaim c = (\<lambda>w. if list_ex (claim_taken (claim_row_of c)) (mu_claims w) then (Inr False, w)
     else (Inr True, w\<lparr>mu_claims := mu_claims w @ [claim_row_of c]\<rparr>))"

definition owned_claim :: "ident \<Rightarrow> tenant \<Rightarrow> string \<Rightarrow> claim_row \<Rightarrow> bool" where
  "owned_claim subscriptionId t owner r \<longleftrightarrow> mc_tenantKey r = tenant_column t \<and> mc_subscriptionId r = subscriptionId
     \<and> mc_ownerToken r = owner \<and> mc_status r = Claim_active"

definition releaseClaim :: "ident \<Rightarrow> tenant \<Rightarrow> string \<Rightarrow> (('d, 'x) mutation_db_scheme, bool) io" where
  "releaseClaim subscriptionId t owner = (\<lambda>w. (Inr (length (filter (owned_claim subscriptionId t owner) (mu_claims w)) = 1),
     w\<lparr>mu_claims := filter (\<lambda>r. \<not> owned_claim subscriptionId t owner r) (mu_claims w)\<rparr>))"

definition findClaimByReference :: "string \<Rightarrow> tenant \<Rightarrow> (('d, 'x) mutation_db_scheme, mutation_claim option) io" where
  "findClaimByReference reference t = andThen (readState (\<lambda>w. find (\<lambda>r. mc_reference r = reference
     \<and> mc_tenantKey r = tenant_column t) (mu_claims w))) read_claim"

definition active_claim :: "ident \<Rightarrow> tenant \<Rightarrow> claim_row \<Rightarrow> bool" where
  "active_claim subscriptionId t r \<longleftrightarrow> mc_tenantKey r = tenant_column t
     \<and> mc_activeSubscriptionId r = Some subscriptionId \<and> mc_status r = Claim_active"

definition findActiveClaim :: "ident \<Rightarrow> tenant \<Rightarrow> (('d, 'x) mutation_db_scheme, mutation_claim option) io" where
  "findActiveClaim subscriptionId t =
    andThen (readState (\<lambda>w. find (active_claim subscriptionId t) (mu_claims w))) read_claim"

definition updateClaimsWhere ::
  "(claim_row \<Rightarrow> bool) \<Rightarrow> (claim_row \<Rightarrow> claim_row) \<Rightarrow> (('d, 'x) mutation_db_scheme, nat) io" where
  "updateClaimsWhere P f = (\<lambda>w. (Inr (length (filter P (mu_claims w))),
     w\<lparr>mu_claims := map (\<lambda>r. if P r then f r else r) (mu_claims w)\<rparr>))"

definition held_claim :: "string \<Rightarrow> tenant \<Rightarrow> string \<Rightarrow> claim_row \<Rightarrow> bool" where
  "held_claim reference t owner r \<longleftrightarrow> mc_reference r = reference \<and> mc_tenantKey r = tenant_column t
     \<and> mc_ownerToken r = owner \<and> mc_status r = Claim_active"

definition observeClaim ::
  "string \<Rightarrow> tenant \<Rightarrow> string \<Rightarrow> string \<Rightarrow> instant \<Rightarrow> (('d, 'x) mutation_db_scheme, mutation_claim option) io" where
  "observeClaim reference t owner evidence at =
    andThen (updateClaimsWhere (\<lambda>r. held_claim reference t owner r \<and> mc_observationOutcome r = None
        \<and> mc_observationEvidence r = None \<and> mc_observedAt r = None)
      (\<lambda>r. r\<lparr>mc_observationOutcome := Some Unknown_outcome, mc_observationEvidence := Some evidence,
        mc_observedAt := Some at\<rparr>)) (\<lambda>affected.
    andThen (findClaimByReference reference t) (\<lambda>found.
    ret (if affected = 1 then found
      else (case found of None \<Rightarrow> None | Some c \<Rightarrow>
        if mc_status c = Claim_active \<and> mc_ownerToken c = owner \<and> mc_observationOutcome c = Some Unknown_outcome
          \<and> mc_observationEvidence c = Some evidence then Some c else None))))"

definition resolveClaim ::
  "string \<Rightarrow> tenant \<Rightarrow> string \<Rightarrow> claim_outcome \<Rightarrow> string \<Rightarrow> instant
    \<Rightarrow> (('d, 'x) mutation_db_scheme, mutation_claim option) io" where
  "resolveClaim reference t owner outcome evidence at =
    andThen (updateClaimsWhere (held_claim reference t owner)
      (\<lambda>r. r\<lparr>mc_status := Claim_resolved, mc_resolutionOutcome := Some outcome,
        mc_resolutionEvidence := Some evidence, mc_resolvedAt := Some at, mc_activeSubscriptionId := None\<rparr>)) (\<lambda>affected.
    if affected = 0 then ret None else findClaimByReference reference t)"

section \<open>Mutations under a claim\<close>

abbreviation ambiguousMutation :: error where
  "ambiguousMutation \<equiv> PayableError ''SUBSCRIPTION_MUTATION_RECONCILIATION_REQUIRED''"

abbreviation mutationConflict :: error where
  "mutationConflict \<equiv> PayableError ''SUBSCRIPTION_MIGRATION_STATE_CONFLICT''"

abbreviation claimConflict :: error where
  "claimConflict \<equiv> PayableError ''SUBSCRIPTION_MUTATION_CLAIM_CONFLICT''"

definition acquireSubscriptionMutationClaim :: "new_claim \<Rightarrow> (('d, 'x) mutation_db_scheme, unit) io" where
  "acquireSubscriptionMutationClaim c =
    andThen (acquireClaim c) (\<lambda>acquired. if acquired then ret () else
    andThen (findActiveClaim (nc_subscriptionId c) (nc_tenant c)) (\<lambda>active. case active of
      Some _ \<Rightarrow> throw ambiguousMutation
    | None \<Rightarrow> throw mutationConflict))"

definition releaseSubscriptionMutationClaim ::
  "ident \<Rightarrow> tenant \<Rightarrow> string \<Rightarrow> (('d, 'x) mutation_db_scheme, unit) io" where
  "releaseSubscriptionMutationClaim subscriptionId t owner =
    andThen (releaseClaim subscriptionId t owner) (\<lambda>released. guardE released mutationConflict)"

datatype 'v mutation_outcome = Applied 'v | NotApplied error

text \<open>
  What follows the call: an error leaves the claim, an answer that nothing was applied releases it,
  and an applied change is stored and the claim released in one transaction.
\<close>

definition settleMutation ::
  "new_claim \<Rightarrow> ('v \<Rightarrow> (('d, 'x) mutation_db_scheme, 'r) io) \<Rightarrow> error + 'v mutation_outcome
    \<Rightarrow> (('d, 'x) mutation_db_scheme, 'r) io" where
  "settleMutation c persist answer =
    (let release = releaseSubscriptionMutationClaim (nc_subscriptionId c) (nc_tenant c) (nc_ownerToken c) in
    case answer of
      Inl _ \<Rightarrow> throw ambiguousMutation
    | Inr (NotApplied error) \<Rightarrow> andThen (atomically release) (\<lambda>_. throw error)
    | Inr (Applied v) \<Rightarrow>
        catching (atomically (andThen (persist v) (\<lambda>result. andThen release (\<lambda>_. ret result))))
          (\<lambda>_. throw ambiguousMutation))"

text \<open>The call may change the state like any other client; it is an arbitrary action.\<close>

definition executeSubscriptionMutation ::
  "new_claim \<Rightarrow> (('d, 'x) mutation_db_scheme, 'v mutation_outcome) io
    \<Rightarrow> ('v \<Rightarrow> (('d, 'x) mutation_db_scheme, 'r) io) \<Rightarrow> (('d, 'x) mutation_db_scheme, 'r) io" where
  "executeSubscriptionMutation c call persist =
    andThen (atomically (acquireSubscriptionMutationClaim c)) (\<lambda>_.
    andThen (attempt call) (settleMutation c persist))"

section \<open>Resolving a claim\<close>

definition operation_name :: "mutation_operation \<Rightarrow> string" where
  "operation_name m = (case m of MO_price_migration \<Rightarrow> ''subscription_price_migration'' | MO_swap \<Rightarrow> ''subscription_swap''
     | MO_quantity_update \<Rightarrow> ''subscription_quantity_update'' | MO_cancel \<Rightarrow> ''subscription_cancel''
     | MO_cancel_now \<Rightarrow> ''subscription_cancel_now''
     | MO_cancel_scheduled_change \<Rightarrow> ''subscription_cancel_scheduled_change'' | MO_pause \<Rightarrow> ''subscription_pause''
     | MO_pause_payment_collection \<Rightarrow> ''subscription_pause_payment_collection'' | MO_resume \<Rightarrow> ''subscription_resume''
     | MO_resume_paused \<Rightarrow> ''subscription_resume_paused''
     | MO_resume_payment_collection \<Rightarrow> ''subscription_resume_payment_collection''
     | MO_change_apply \<Rightarrow> ''subscription_change_apply'')"

definition PROJECTING_OPERATIONS :: "mutation_operation list" where
  "PROJECTING_OPERATIONS = [MO_swap, MO_quantity_update]"

definition NON_PROJECTING_OPERATIONS :: "mutation_operation list" where
  "NON_PROJECTING_OPERATIONS = [MO_cancel, MO_cancel_now, MO_cancel_scheduled_change, MO_pause,
     MO_pause_payment_collection, MO_resume, MO_resume_paused, MO_resume_payment_collection, MO_change_apply]"

definition sameMutationValue :: "subscription_item \<Rightarrow> mutation_value \<Rightarrow> bool" where
  "sameMutationValue item v \<longleftrightarrow> li_priceId item = mv_priceId v \<and> li_quantity item = mv_quantity v"

definition subscriptionMatchesProjection :: "subscription \<Rightarrow> mutation_value \<Rightarrow> mutation_projection \<Rightarrow> bool" where
  "subscriptionMatchesProjection s v p \<longleftrightarrow>
     (\<not> mp_projectSubscriptionPrice p \<or> sub_priceId s = Some (mv_priceId v))
     \<and> (\<not> mp_projectSubscriptionQuantity p \<or> sub_quantity s = mv_quantity v
        \<and> (sub_acceptedQuantity s = None \<or> sub_acceptedQuantity s = Some (mv_quantity v)))"

definition projection_patch :: "mutation_projection \<Rightarrow> subscription \<Rightarrow> subscription_patch" where
  "projection_patch p s = no_patch\<lparr>
     sp_priceId := (if mp_projectSubscriptionPrice p then Some (Some (mv_priceId (mp_target p))) else None),
     sp_quantity := (if mp_projectSubscriptionQuantity p then Some (mv_quantity (mp_target p)) else None),
     sp_acceptedQuantity := (if mp_projectSubscriptionQuantity p \<and> sub_acceptedQuantity s \<noteq> None
        then Some (Some (mv_quantity (mp_target p))) else None)\<rparr>"

text \<open>The item and the subscription are moved to the target; then a claim that finds them there is done.\<close>

definition applyProjection :: "mutation_claim \<Rightarrow> mutation_projection \<Rightarrow> subscription \<Rightarrow> (('d, 'x) mutation_db_scheme, unit) io" where
  "applyProjection c p s =
    andThen (if mp_projectItem p
      then updateItemById (mc_subscriptionId c) (mp_itemId p) \<lparr>xp_priceId = Some (mv_priceId (mp_target p)),
        xp_providerItemId = None, xp_quantity = Some (mv_quantity (mp_target p))\<rparr> (mc_tenant c)
      else ret ()) (\<lambda>_.
    if mp_projectSubscriptionPrice p \<or> mp_projectSubscriptionQuantity p
    then andThen (updateSubscription (mc_subscriptionId c) (projection_patch p s) (mc_tenant c)) (\<lambda>_. ret ())
    else ret ())"

definition projectDirectMutation :: "mutation_claim \<Rightarrow> (('d, 'x) mutation_db_scheme, unit) io" where
  "projectDirectMutation c = (case mc_intent c of
     None \<Rightarrow> throw claimConflict
   | Some blob \<Rightarrow>
       andThen (liftResult (decodeIntent blob)) (\<lambda>p.
       andThen (listBySubscription (mc_subscriptionId c) (mc_tenant c)) (\<lambda>items.
       andThen (findSubscription (mc_subscriptionId c) (mc_tenant c)) (\<lambda>found.
       case (find (\<lambda>x. it_id x = mp_itemId p) items, found) of
         (Some item, Some s) \<Rightarrow>
           if sameMutationValue item (mp_target p) \<and> subscriptionMatchesProjection s (mp_target p) p then ret ()
           else if \<not> sameMutationValue item (mp_source p) \<or> \<not> subscriptionMatchesProjection s (mp_source p) p
           then throw claimConflict
           else applyProjection c p s
       | _ \<Rightarrow> throw claimConflict))))"

definition outcome_name :: "claim_outcome \<Rightarrow> string" where
  "outcome_name o1 = (case o1 of Was_applied \<Rightarrow> ''applied'' | Was_not_applied \<Rightarrow> ''not_applied'')"

definition nullable_text :: "string option \<Rightarrow> hook_value" where
  "nullable_text x = (case x of None \<Rightarrow> HV_null | Some s \<Rightarrow> HV_text s)"

definition claim_payload :: "mutation_claim \<Rightarrow> string option \<Rightarrow> string option \<Rightarrow> (string \<times> hook_value) list" where
  "claim_payload c outcome evidence = [(''claimReference'', HV_text (mc_reference c)),
     (''subscriptionId'', HV_text (mc_subscriptionId c)), (''operation'', HV_text (operation_name (mc_operation c))),
     (''outcome'', nullable_text outcome), (''evidenceReference'', nullable_text evidence)]"

definition status_name :: "claim_status \<Rightarrow> string" where
  "status_name s = (case s of Claim_active \<Rightarrow> ''active'' | Claim_resolved \<Rightarrow> ''resolved'')"

text \<open>The audit entry and the event of a claim that was resolved or observed.\<close>

definition record_claim ::
  "(hook_json audit_payload \<Rightarrow> string) \<Rightarrow> (nat \<Rightarrow> string) \<Rightarrow> string \<Rightarrow> mutation_claim \<Rightarrow> mutation_claim
    \<Rightarrow> (string \<times> hook_value) list \<Rightarrow> (('d, 'x) mutation_db_scheme, unit) io" where
  "record_claim digest ids verb before after payload =
    andThen (on_audit (audit_create digest (\<lambda>_ a. a) ids (mc_tenant after) \<lparr>
      au_correlationId = mc_correlationId after, au_actorType = Some ''system'', au_actorId = None,
      au_action = ''subscription.mutation_claim.'' @ verb, au_resourceType = ''subscription_mutation_claim'',
      au_resourceId = mc_reference after, au_before = Some (HJ_object [(''status'', HV_text (status_name (mc_status before)))]),
      au_after = Some (HJ_object payload), au_metadata = None, au_ipAddress = None, au_userAgent = None\<rparr>)) (\<lambda>_.
    andThen (on_outbox (outbox_create (ids 0) \<lparr>nob_tenant = mc_tenant after, nob_correlationId = mc_correlationId after,
      nob_eventType = ''subscription.mutation_claim.'' @ verb @ ''.v1'', nob_eventVersion = 1,
      nob_payload = HP_object payload,
      nob_dedupeKey = Some (''subscription-mutation-claim:'' @ mc_reference after @ '':'' @ verb)\<rparr>)) (\<lambda>_. ret ()))"

definition recordResolution ::
  "(hook_json audit_payload \<Rightarrow> string) \<Rightarrow> (nat \<Rightarrow> string) \<Rightarrow> mutation_claim \<Rightarrow> mutation_claim
    \<Rightarrow> (('d, 'x) mutation_db_scheme, unit) io" where
  "recordResolution digest ids before after = record_claim digest ids ''resolved'' before after
     (claim_payload after (map_option outcome_name (mc_resolutionOutcome after)) (mc_resolutionEvidence after))"

definition resolveSubscriptionMutationClaim ::
  "(hook_json audit_payload \<Rightarrow> string) \<Rightarrow> (nat \<Rightarrow> string) \<Rightarrow> mutation_claim \<Rightarrow> claim_outcome \<Rightarrow> string \<Rightarrow> instant
    \<Rightarrow> (('d, 'x) mutation_db_scheme, mutation_claim) io" where
  "resolveSubscriptionMutationClaim digest ids c outcome evidence at =
    (if mc_status c = Claim_resolved
     then (if mc_resolutionOutcome c = Some outcome \<and> mc_resolutionEvidence c = Some evidence then ret c else throw claimConflict)
     else if mc_operation c = MO_price_migration then throw claimConflict
     else andThen (if outcome \<noteq> Was_applied then ret ()
         else andThen (if mc_operation c \<in> set PROJECTING_OPERATIONS then projectDirectMutation c else ret ()) (\<lambda>_.
           guardE (mc_operation c \<in> set PROJECTING_OPERATIONS \<or> mc_operation c \<in> set NON_PROJECTING_OPERATIONS) claimConflict)) (\<lambda>_.
       andThen (resolveClaim (mc_reference c) (mc_tenant c) (mc_ownerToken c) outcome evidence at) (\<lambda>resolved.
       case resolved of
         None \<Rightarrow> throw claimConflict
       | Some r \<Rightarrow> andThen (recordResolution digest ids c r) (\<lambda>_. ret r))))"

definition observeSubscriptionMutationClaim ::
  "(hook_json audit_payload \<Rightarrow> string) \<Rightarrow> (nat \<Rightarrow> string) \<Rightarrow> mutation_claim \<Rightarrow> string \<Rightarrow> instant
    \<Rightarrow> (('d, 'x) mutation_db_scheme, mutation_claim) io" where
  "observeSubscriptionMutationClaim digest ids c evidence at =
    (if mc_status c \<noteq> Claim_active then throw claimConflict
     else if mc_observationOutcome c = Some Unknown_outcome
     then (if mc_observationEvidence c = Some evidence then ret c else throw claimConflict)
     else andThen (observeClaim (mc_reference c) (mc_tenant c) (mc_ownerToken c) evidence at) (\<lambda>observed.
       case observed of
         None \<Rightarrow> throw claimConflict
       | Some o1 \<Rightarrow> andThen (record_claim digest ids ''observed'' c o1
             (claim_payload o1 (map_option (\<lambda>_. ''unknown'') (mc_observationOutcome o1)) (mc_observationEvidence o1))) (\<lambda>_. ret o1)))"

section \<open>The operator's resource\<close>

text \<open>An outcome of \<open>None\<close> is \<open>unknown\<close>. The request's hashes and the clock's idempotency are given.\<close>

record resolution_input =
  rin_idempotencyKey :: string
  rin_outcome :: "claim_outcome option"
  rin_evidence :: string

record claim_deps =
  cx_tenant :: tenant
  cx_idempotency :: "idem_config option"
  cx_hasStorage :: bool
  cx_json :: "stored \<Rightarrow> stored"
  cx_storageHash :: "tenant \<Rightarrow> string \<Rightarrow> string \<Rightarrow> string"
  cx_requestHash :: "string \<Rightarrow> resolution_input \<Rightarrow> string"
  cx_digest :: "hook_json audit_payload \<Rightarrow> string"

definition retrieveClaim :: "claim_deps \<Rightarrow> string \<Rightarrow> (('d, 'x) mutation_db_scheme, mutation_claim) io" where
  "retrieveClaim d reference = (if \<not> cx_hasStorage d then throw claimConflict else
    andThen (findClaimByReference reference (cx_tenant d)) (\<lambda>found. case found of
      None \<Rightarrow> throw claimConflict | Some c \<Rightarrow> ret c))"

definition assertResolutionInput :: "resolution_input \<Rightarrow> (('d, 'x) mutation_db_scheme, unit) io" where
  "assertResolutionInput input = guardE (\<not> (length (rin_evidence input) = 0 \<or> length (rin_evidence input) > 512
     \<or> trim (rin_evidence input) \<noteq> rin_evidence input)) TypeError"

definition runResolution ::
  "claim_deps \<Rightarrow> (nat \<Rightarrow> string) \<Rightarrow> string \<Rightarrow> resolution_input \<Rightarrow> (('d, 'x) mutation_db_scheme, stored option) io" where
  "runResolution d ids reference input =
    andThen (retrieveClaim d reference) (\<lambda>c.
    andThen (readState idem_now) (\<lambda>now.
    andThen (atomically (case rin_outcome input of
        Some outcome \<Rightarrow> resolveSubscriptionMutationClaim (cx_digest d) ids c outcome (rin_evidence input) now
      | None \<Rightarrow> observeSubscriptionMutationClaim (cx_digest d) ids c (rin_evidence input) now)) (\<lambda>_.
    ret (Some (S_reference reference)))))"

definition resolveClaimResource ::
  "claim_deps \<Rightarrow> (nat \<Rightarrow> string) \<Rightarrow> string \<Rightarrow> string \<Rightarrow> resolution_input
    \<Rightarrow> (('d, 'x) mutation_db_scheme, mutation_claim) io" where
  "resolveClaimResource d ids token reference input =
    andThen (assertResolutionInput input) (\<lambda>_.
    case cx_idempotency d of
      None \<Rightarrow> throw claimConflict
    | Some config \<Rightarrow> if \<not> cx_hasStorage d then throw claimConflict else
        andThen (liftResult (key_of (rin_idempotencyKey input))) (\<lambda>key.
        andThen (execute (knex_idem_store (cx_json d)) idem_now config \<lparr>ex_key = key,
            ex_storageKey = Some (''subscription-mutation-claim-resolve:v1:'' @ cx_storageHash d (cx_tenant d) reference key),
            ex_legacyStorageKeys = [], ex_scope = ''subscription-mutation-claim-resolve'', ex_operation = ''resolve'',
            ex_requestHash = cx_requestHash d reference input, ex_resourceType = Some ''subscription_mutation_claim'',
            ex_resourceId = Some reference, ex_tenant = cx_tenant d, ex_retryFailed = Some False,
            ex_reclaimStaleProcessing = None, ex_lockTtl = None, ex_reconciliationRequired = False,
            ex_isFailureOutcomeUncertain = None, ex_token = token, ex_run = runResolution d ids reference input,
            ex_revive = Some (\<lambda>response. case response of
                Some (S_reference r) \<Rightarrow> if length r = 0 then throw claimConflict else ret (Some (S_reference r))
              | _ \<Rightarrow> throw claimConflict)\<rparr>) (\<lambda>result. case result of
          Some (S_reference r) \<Rightarrow> retrieveClaim d r
        | _ \<Rightarrow> throw TypeError)))"

section \<open>Intents come back as they were recorded\<close>

definition valid_value :: "mutation_value \<Rightarrow> bool" where
  "valid_value v \<longleftrightarrow> mv_priceId v \<noteq> [] \<and> 0 < mv_quantity v \<and> mv_quantity v \<le> MAX_SAFE_INTEGER"

definition valid_projection :: "mutation_projection \<Rightarrow> bool" where
  "valid_projection p \<longleftrightarrow> mp_itemId p \<noteq> [] \<and> valid_value (mp_source p) \<and> valid_value (mp_target p)"

lemma mutationValue_json:
  "mutationValue [(''priceId'', IV_string (mv_priceId v)), (''quantity'', IV_integer (mv_quantity v))]
     = (if valid_value v then Inr v else Inl TypeError)"
  by (auto simp: mutationValue_def stringField_def member_def bindE_def valid_value_def)

lemma intent_roundtrip: "bindE (encodeIntent p) decodeIntent = (if valid_projection p then Inr p else Inl TypeError)"
  by (simp add: encodeIntent_def rehydrateIntentBlob_def decodeIntent_def bindE_def value_json_def member_def
      stringField_def booleanField_def mutationValue_json valid_projection_def)

section \<open>The claims table\<close>

definition claim_row_ok :: "claim_row \<Rightarrow> bool" where
  "claim_row_ok r \<longleftrightarrow>
     (case mc_status r of
        Claim_active \<Rightarrow> mc_activeSubscriptionId r = Some (mc_subscriptionId r) \<and> mc_resolutionOutcome r = None
          \<and> mc_resolutionEvidence r = None \<and> mc_resolvedAt r = None
      | Claim_resolved \<Rightarrow> mc_activeSubscriptionId r = None \<and> resolution_complete r)
     \<and> (mc_observationOutcome r = None \<longleftrightarrow> mc_observationEvidence r = None)
     \<and> (mc_observationOutcome r = None \<longleftrightarrow> mc_observedAt r = None)
     \<and> [] \<notin> {mc_reference r, mc_subscriptionId r, mc_ownerToken r, mc_correlationId r}
     \<and> (\<forall>b. mc_intent r = Some b \<longrightarrow> rehydrateIntentBlob b = Inr b)"

text \<open>The checks of the columns, the keys, and at most one active claim of a tenant's subscription.\<close>

definition claims_ok :: "('d, 'x) mutation_db_scheme \<Rightarrow> bool" where
  "claims_ok w \<longleftrightarrow> list_all claim_row_ok (mu_claims w) \<and> distinct (map mc_reference (mu_claims w))
     \<and> distinct (map mc_ownerToken (mu_claims w))
     \<and> distinct (map (\<lambda>r. (mc_tenantKey r, mc_activeSubscriptionId r))
         (filter (\<lambda>r. mc_status r = Claim_active) (mu_claims w)))"

definition valid_claim :: "new_claim \<Rightarrow> bool" where
  "valid_claim c \<longleftrightarrow> [] \<notin> {nc_reference c, nc_subscriptionId c, nc_ownerToken c, nc_correlationId c}
     \<and> (\<forall>b. nc_intent c = Some b \<longrightarrow> rehydrateIntentBlob b = Inr b)"

lemma claimToEntity_ok: "claim_row_ok r \<Longrightarrow> \<exists>c. claimToEntity r = Inr c \<and> claim.truncate c = claim.truncate r
    \<and> mc_tenant c = (if mc_tenantKey r = [] then None else Some (mc_tenantKey r))"
  by (cases "mc_status r"; cases "mc_intent r")
    (auto simp: claim_row_ok_def claimToEntity_def resolution_complete_def bindE_def claim.truncate_def)

lemma read_claim_ok: "claim_row_ok r \<Longrightarrow> \<exists>c. read_claim (Some r) w = (Inr (Some c), w) \<and> claim.truncate c = claim.truncate r
    \<and> mc_tenant c = (if mc_tenantKey r = [] then None else Some (mc_tenantKey r))"
  using claimToEntity_ok [of r] by (auto simp: read_claim_def andThen_liftResult)

lemma find_claim_reads:
  assumes "claims_ok w"
  shows "\<exists>r. andThen (readState (\<lambda>w. find P (mu_claims w))) read_claim w = (Inr r, w)"
proof (cases "find P (mu_claims w)")
  case None
  then show ?thesis by (simp add: read_claim_def)
next
  case (Some r)
  then have "claim_row_ok r" using assms by (auto simp: claims_ok_def list_all_iff dest: find_SomeD)
  with Some read_claim_ok show ?thesis by fastforce
qed

lemma claim_row_of_ok: "valid_claim c \<Longrightarrow> claim_row_ok (claim_row_of c)"
  by (simp add: valid_claim_def claim_row_of_def claim_row_ok_def)

lemma acquireClaim_keeps: "valid_claim c \<Longrightarrow> preserves claims_ok (acquireClaim c)"
proof (rule preservesI)
  fix w :: "('d, 'x) mutation_db_scheme"
  assume c: "valid_claim c" and w: "claims_ok w"
  show "claims_ok (snd (acquireClaim c w))"
  proof (cases "list_ex (claim_taken (claim_row_of c)) (mu_claims w)")
    case False
    then have "mc_reference (claim_row_of c) \<notin> mc_reference ` set (mu_claims w)"
      "mc_ownerToken (claim_row_of c) \<notin> mc_ownerToken ` set (mu_claims w)"
      "(mc_tenantKey (claim_row_of c), mc_activeSubscriptionId (claim_row_of c))
         \<notin> (\<lambda>r. (mc_tenantKey r, mc_activeSubscriptionId r)) ` set (mu_claims w)"
      by (force simp: list_ex_iff claim_taken_def)+
    then show ?thesis
      using w claim_row_of_ok [OF c] False by (auto simp: claims_ok_def acquireClaim_def)
  qed (simp add: acquireClaim_def w)
qed

lemma releaseClaim_keeps: "preserves claims_ok (releaseClaim i t owner)"
proof (rule preservesI)
  fix w :: "('d, 'x) mutation_db_scheme"
  assume w: "claims_ok w"
  have "distinct (map f (filter Q (filter P xs)))" if "distinct (map f (filter Q xs))" for f :: "claim_row \<Rightarrow> 'k" and P Q xs
    using distinct_map_filter [OF that, of P] by (simp add: conj_commute)
  then show "claims_ok (snd (releaseClaim i t owner w))"
    using w by (auto simp: claims_ok_def releaseClaim_def list_all_iff distinct_map_filter)
qed

text \<open>An update of rows that keeps their keys, and whether they are active or makes them inactive.\<close>

lemma updateClaims_keeps:
  assumes "\<And>r. claim_row_ok r \<Longrightarrow> P r \<Longrightarrow> claim_row_ok (f r) \<and> mc_reference (f r) = mc_reference r
      \<and> mc_ownerToken (f r) = mc_ownerToken r
      \<and> (mc_status (f r) = Claim_active \<longrightarrow> mc_status r = Claim_active \<and> mc_tenantKey (f r) = mc_tenantKey r
          \<and> mc_activeSubscriptionId (f r) = mc_activeSubscriptionId r)"
  shows "preserves claims_ok (updateClaimsWhere P f)"
proof (rule preservesI)
  fix w :: "('d, 'x) mutation_db_scheme"
  assume w: "claims_ok w"
  let ?g = "\<lambda>r. if P r then f r else r"
  have keep: "distinct (map (\<lambda>r. (mc_tenantKey r, mc_activeSubscriptionId r)) (filter (\<lambda>r. mc_status r = Claim_active) (map ?g rs)))
      \<and> (\<lambda>r. (mc_tenantKey r, mc_activeSubscriptionId r)) ` set (filter (\<lambda>r. mc_status r = Claim_active) (map ?g rs))
        \<subseteq> (\<lambda>r. (mc_tenantKey r, mc_activeSubscriptionId r)) ` set (filter (\<lambda>r. mc_status r = Claim_active) rs)"
    if "distinct (map (\<lambda>r. (mc_tenantKey r, mc_activeSubscriptionId r)) (filter (\<lambda>r. mc_status r = Claim_active) rs))"
      "list_all claim_row_ok rs" for rs
    using that
  proof (induction rs)
    case (Cons r rs)
    then have IH: "distinct (map (\<lambda>r. (mc_tenantKey r, mc_activeSubscriptionId r)) (filter (\<lambda>r. mc_status r = Claim_active) (map ?g rs)))"
        "(\<lambda>r. (mc_tenantKey r, mc_activeSubscriptionId r)) ` set (filter (\<lambda>r. mc_status r = Claim_active) (map ?g rs))
          \<subseteq> (\<lambda>r. (mc_tenantKey r, mc_activeSubscriptionId r)) ` set (filter (\<lambda>r. mc_status r = Claim_active) rs)"
      by (auto split: if_split_asm)
    show ?case
    proof (cases "mc_status (?g r) = Claim_active")
      case True
      then have "mc_status r = Claim_active" "mc_tenantKey (?g r) = mc_tenantKey r"
          "mc_activeSubscriptionId (?g r) = mc_activeSubscriptionId r"
        using assms [of r] Cons.prems(2) by (auto split: if_split_asm)
      with True IH Cons.prems(1) show ?thesis by (simp del: if_distrib) blast
    next
      case False
      with IH show ?thesis by (simp del: if_distrib) blast
    qed
  qed simp
  have "map mc_reference (map ?g (mu_claims w)) = map mc_reference (mu_claims w)"
    "map mc_ownerToken (map ?g (mu_claims w)) = map mc_ownerToken (mu_claims w)"
    using assms w by (auto simp: claims_ok_def list_all_iff)
  then have "distinct (map mc_reference (map ?g (mu_claims w)))" "distinct (map mc_ownerToken (map ?g (mu_claims w)))"
    using w by (simp_all add: claims_ok_def del: map_map)
  moreover have "list_all claim_row_ok (map ?g (mu_claims w))"
    using assms w by (auto simp: claims_ok_def list_all_iff)
  ultimately show "claims_ok (snd (updateClaimsWhere P f w))"
    using w keep [of "mu_claims w"] by (simp add: claims_ok_def updateClaimsWhere_def del: map_map)
qed

lemma find_claim_keeps: "preserves claims_ok (findClaimByReference reference t)" "preserves claims_ok (findActiveClaim i t)"
  unfolding findClaimByReference_def findActiveClaim_def read_claim_def
  by (auto intro!: preserves_rules split: option.split)

lemma resolveClaim_keeps: "preserves claims_ok (resolveClaim reference t owner outcome evidence at)"
  unfolding resolveClaim_def
  by (intro preserves_rules updateClaims_keeps find_claim_keeps)
    (auto simp: claim_row_ok_def resolution_complete_def held_claim_def)

lemma observeClaim_keeps: "preserves claims_ok (observeClaim reference t owner evidence at)"
  unfolding observeClaim_def
  by (intro preserves_rules updateClaims_keeps find_claim_keeps)
    (auto simp: claim_row_ok_def resolution_complete_def held_claim_def split: claim_status.split_asm)


text \<open>
  C35. The claims table keeps its checks. Acquiring, releasing, observing and resolving a claim keep
  every row readable, the references and the owner tokens unique, and at most one active claim of
  a tenant's subscription; on such a table reading a claim never fails.
\<close>

theorem claims_table_typed:
  assumes "valid_claim c" and "claims_ok w"
  shows "claims_ok (snd (acquireClaim c w)) \<and> claims_ok (snd (releaseClaim i t owner w))
    \<and> claims_ok (snd (observeClaim reference t owner evidence at w))
    \<and> claims_ok (snd (resolveClaim reference t owner outcome evidence at w))
    \<and> (\<exists>r. findClaimByReference reference t w = (Inr r, w)) \<and> (\<exists>r. findActiveClaim i t w = (Inr r, w))"
  using assms find_claim_reads [OF assms(2)] unfolding findClaimByReference_def findActiveClaim_def
  by (simp add: preservesD [OF acquireClaim_keeps] preservesD [OF releaseClaim_keeps]
      preservesD [OF observeClaim_keeps] preservesD [OF resolveClaim_keeps])

section \<open>One mutation at a time\<close>

definition claim_held :: "new_claim \<Rightarrow> ('d, 'x) mutation_db_scheme \<Rightarrow> bool" where
  "claim_held c w \<longleftrightarrow> list_ex (owned_claim (nc_subscriptionId c) (nc_tenant c) (nc_ownerToken c)) (mu_claims w)"

text \<open>A call that refuses unless the claim is held and no other claim of the subscription is active.\<close>

definition guarded_call ::
  "new_claim \<Rightarrow> (('d, 'x) mutation_db_scheme, 'a) io \<Rightarrow> (('d, 'x) mutation_db_scheme, 'a) io" where
  "guarded_call c call = (\<lambda>w. if claim_held c w
       \<and> list_all (\<lambda>r. active_claim (nc_subscriptionId c) (nc_tenant c) r \<longrightarrow> mc_ownerToken r = nc_ownerToken c) (mu_claims w)
     then call w else (Inl (ForeignError ''unclaimed''), w))"

lemma acquire_cases:
  obtains (taken) e where "atomically (acquireSubscriptionMutationClaim c) w = (Inl e, w)"
      "list_ex (claim_taken (claim_row_of c)) (mu_claims w)"
  | (acquired) "atomically (acquireSubscriptionMutationClaim c) w = (Inr (), w\<lparr>mu_claims := mu_claims w @ [claim_row_of c]\<rparr>)"
      "\<not> list_ex (claim_taken (claim_row_of c)) (mu_claims w)"
proof (cases "list_ex (claim_taken (claim_row_of c)) (mu_claims w)")
  case True
  obtain r w1 where find: "findActiveClaim (nc_subscriptionId c) (nc_tenant c) w = (r, w1)" by fastforce
  have "\<exists>e w1. acquireSubscriptionMutationClaim c w = (Inl e, w1)"
    using True find by (cases r) (auto simp: acquireSubscriptionMutationClaim_def acquireClaim_def andThen_def split: option.split)
  with True taken show ?thesis by (auto simp: atomically_def)
next
  case False
  then show ?thesis
    by (intro acquired) (simp_all add: acquireSubscriptionMutationClaim_def acquireClaim_def andThen_def atomically_def)
qed

lemma andThen_attempt: "andThen (attempt m) f w = (case m w of (r, w') \<Rightarrow> f r w')"
  by (simp add: andThen_def attempt_def split: prod.split)

lemma acquired_held:
  assumes "\<not> list_ex (claim_taken (claim_row_of c)) (mu_claims w)"
  shows "claim_held c (w\<lparr>mu_claims := mu_claims w @ [claim_row_of c]\<rparr>)"
    and "guarded_call c call (w\<lparr>mu_claims := mu_claims w @ [claim_row_of c]\<rparr>) = call (w\<lparr>mu_claims := mu_claims w @ [claim_row_of c]\<rparr>)"
proof -
  show held: "claim_held c (w\<lparr>mu_claims := mu_claims w @ [claim_row_of c]\<rparr>)"
    by (simp add: claim_held_def owned_claim_def claim_row_of_def)
  have "\<not> active_claim (nc_subscriptionId c) (nc_tenant c) r" if "r \<in> set (mu_claims w)" for r
    using assms that by (auto simp: list_ex_iff claim_taken_def claim_row_of_def active_claim_def)
  then show "guarded_call c call (w\<lparr>mu_claims := mu_claims w @ [claim_row_of c]\<rparr>) = call (w\<lparr>mu_claims := mu_claims w @ [claim_row_of c]\<rparr>)"
    using held by (auto simp: guarded_call_def list_all_iff claim_row_of_def)
qed

text \<open>
  C10. A subscription is mutated by one operation at a time: the provider is called only while the
  operation's own claim is in the table and no other claim of the subscription is active, whatever
  other clients have left there. A call that refuses in every other state makes no difference.
\<close>

theorem mutation_exclusive:
  "executeSubscriptionMutation c (guarded_call c call) persist = executeSubscriptionMutation c call persist"
proof
  fix w
  show "executeSubscriptionMutation c (guarded_call c call) persist w = executeSubscriptionMutation c call persist w"
  proof (cases rule: acquire_cases [of c w])
    case (acquired)
    then show ?thesis
      by (simp add: executeSubscriptionMutation_def andThen_def [of "atomically (acquireSubscriptionMutationClaim c)"]
          acquired(1) andThen_attempt acquired_held(2) [OF acquired(2)])
  qed (simp add: executeSubscriptionMutation_def andThen_def)
qed

lemma held_active:
  assumes "claims_ok w" and "claim_held c w"
  shows "list_ex (active_claim (nc_subscriptionId c) (nc_tenant c)) (mu_claims w)"
proof -
  obtain r where r: "r \<in> set (mu_claims w)" "owned_claim (nc_subscriptionId c) (nc_tenant c) (nc_ownerToken c) r"
    using assms(2) by (auto simp: claim_held_def list_ex_iff)
  then have "claim_row_ok r" using assms(1) by (auto simp: claims_ok_def list_all_iff)
  with r(2) have "active_claim (nc_subscriptionId c) (nc_tenant c) r"
    by (simp add: claim_row_ok_def owned_claim_def active_claim_def)
  with r(1) show ?thesis by (auto simp: list_ex_iff)
qed

text \<open>While a claim is active, every other mutation of the subscription is turned away unchanged.\<close>

lemma active_blocks:
  assumes ok: "claims_ok w" and active: "list_ex (active_claim (nc_subscriptionId c) (nc_tenant c)) (mu_claims w)"
  shows "executeSubscriptionMutation c call persist w = (Inl ambiguousMutation, w)"
proof -
  have taken: "list_ex (claim_taken (claim_row_of c)) (mu_claims w)"
    using active by (auto simp: list_ex_iff active_claim_def claim_taken_def claim_row_of_def)
  obtain r where r: "find (active_claim (nc_subscriptionId c) (nc_tenant c)) (mu_claims w) = Some r"
    using active by (cases "find (active_claim (nc_subscriptionId c) (nc_tenant c)) (mu_claims w)")
      (auto simp: find_None_iff list_ex_iff)
  have "claim_row_ok r" using find_SomeD [OF r] ok by (auto simp: claims_ok_def list_all_iff)
  from read_claim_ok [OF this, of w] obtain x where "read_claim (Some r) w = (Inr (Some x), w)" by blast
  then have "acquireSubscriptionMutationClaim c w = (Inl ambiguousMutation, w)"
    using taken r by (simp add: acquireSubscriptionMutationClaim_def acquireClaim_def findActiveClaim_def andThen_def)
  then show ?thesis by (simp add: executeSubscriptionMutation_def andThen_def atomically_def)
qed


lemma settle_ambiguous:
  assumes "settleMutation c persist answer v = (Inl ambiguousMutation, v')"
  shows "v' = v \<or> answer = Inr (NotApplied ambiguousMutation)"
proof (cases answer)
  case (Inr m)
  show ?thesis
  proof (cases m)
    case (Applied x)
    with Inr assms show ?thesis
      by (auto simp: settleMutation_def catching_def atomically_def split: prod.split_asm sum.split_asm)
  next
    case (NotApplied e)
    with Inr assms show ?thesis
      by (auto simp: settleMutation_def atomically_def andThen_def releaseSubscriptionMutationClaim_def
          releaseClaim_def guardE_def split: if_split_asm)
  qed
qed (use assms in \<open>simp add: settleMutation_def\<close>)

text \<open>
  C11. An uncertain outcome keeps the subscription closed. When a mutation ends in \<open>reconciliation
  required\<close>, because the provider threw, because the answer could not be stored, or because
  another claim was active, the claim stays in the table, and every later mutation of the same
  subscription ends the same way without calling the provider or writing anything, until the claim
  is resolved. The call may do anything to the state but remove the claim.
\<close>

theorem uncertain_mutation_blocks:
  assumes valid: "valid_claim c" and ok: "claims_ok w"
    and keep: "\<And>v. claims_ok v \<Longrightarrow> claim_held c v \<Longrightarrow> claims_ok (snd (call v)) \<and> claim_held c (snd (call v))"
    and certain: "\<And>v. fst (call v) \<noteq> Inr (NotApplied ambiguousMutation)"
    and run: "executeSubscriptionMutation c call persist w = (Inl ambiguousMutation, w')"
    and same: "nc_subscriptionId c' = nc_subscriptionId c" "nc_tenant c' = nc_tenant c"
  shows "list_ex (active_claim (nc_subscriptionId c) (nc_tenant c)) (mu_claims w')
    \<and> executeSubscriptionMutation c' call' persist' w' = (Inl ambiguousMutation, w')"
proof -
  have "claims_ok w' \<and> list_ex (active_claim (nc_subscriptionId c) (nc_tenant c)) (mu_claims w')"
  proof (cases rule: acquire_cases [of c w])
    case (taken e)
    then have run': "w' = w" "e = ambiguousMutation" using run by (simp_all add: executeSubscriptionMutation_def andThen_def)
    have "list_ex (active_claim (nc_subscriptionId c) (nc_tenant c)) (mu_claims w)"
    proof (rule ccontr)
      assume "\<not> ?thesis"
      then have "find (active_claim (nc_subscriptionId c) (nc_tenant c)) (mu_claims w) = None"
        by (simp add: find_None_iff list_ex_iff)
      then show False using taken run'
        by (simp add: acquireSubscriptionMutationClaim_def acquireClaim_def findActiveClaim_def read_claim_def
            andThen_def atomically_def)
    qed
    with run' ok show ?thesis by simp
  next
    case acquired
    let ?v = "w\<lparr>mu_claims := mu_claims w @ [claim_row_of c]\<rparr>"
    have "claims_ok ?v"
      using preservesD [OF acquireClaim_keeps [OF valid] ok] acquired(2) by (simp add: acquireClaim_def)
    with acquired_held(1) [OF acquired(2)] keep have kept: "claims_ok (snd (call ?v))" "claim_held c (snd (call ?v))" by blast+
    obtain answer w1 where call: "call ?v = (answer, w1)" by fastforce
    have "settleMutation c persist answer w1 = (Inl ambiguousMutation, w')"
      using run acquired(1) call by (simp add: executeSubscriptionMutation_def
          andThen_def [of "atomically (acquireSubscriptionMutationClaim c)"] andThen_attempt)
    then have "w' = w1" using certain [of ?v] call by (auto dest: settle_ambiguous)
    with kept call held_active show ?thesis by simp
  qed
  with active_blocks [of w' c' call' persist'] same show ?thesis by simp
qed


section \<open>Examples\<close>

definition example_mutations :: "claim_row list \<Rightarrow> unit mutation_db" where
  "example_mutations claims = \<lparr>idem_rows = (\<lambda>_. None), idem_now = 100, payments = [], refunds = [], hk_subscriptions = [],
     hk_items = [], hk_bindings = [], hk_events = [], hk_audit = [], hk_outbox = [], mu_claims = claims\<rparr>"

definition example_claim :: "string \<Rightarrow> mutation_operation \<Rightarrow> new_claim" where
  "example_claim owner operation = \<lparr>nc_reference = ''ref_'' @ owner, nc_tenant = None, nc_subscriptionId = ''sub_1'',
     nc_ownerToken = owner, nc_operation = operation, nc_correlationId = ''c'', nc_intent = None, nc_claimedAt = 100\<rparr>"

lemma example_claim_valid: "valid_claim (example_claim (x # owner) operation)"
  by (simp add: valid_claim_def example_claim_def)

lemma example_mutations_ok: "claims_ok (example_mutations [])"
  by (simp add: claims_ok_def example_mutations_def)

theorem claims_table_typed_witness:
  "claims_ok (snd (acquireClaim (example_claim ''o'' MO_cancel) (example_mutations [])))
    \<and> (\<exists>r. findActiveClaim ''sub_1'' None (example_mutations []) = (Inr r, example_mutations []))"
  using claims_table_typed [where i = "''sub_1''" and t = None, OF example_claim_valid example_mutations_ok] by blast

text \<open>A provider that throws, and a second mutation of the same subscription.\<close>

theorem uncertain_mutation_blocks_witness:
  "\<exists>w'. executeSubscriptionMutation (example_claim ''o'' MO_cancel)
      (throw TypeError :: (unit mutation_db, unit mutation_outcome) io) ret (example_mutations [])
      = (Inl ambiguousMutation, w')
    \<and> executeSubscriptionMutation (example_claim ''p'' MO_resume) (ret (Applied ())) ret w' = (Inl ambiguousMutation, w')"
proof -
  let ?call = "throw TypeError :: (unit mutation_db, unit mutation_outcome) io"
  let ?w = "(example_mutations [])\<lparr>mu_claims := [claim_row_of (example_claim ''o'' MO_cancel)]\<rparr>"
  have run: "executeSubscriptionMutation (example_claim ''o'' MO_cancel) ?call ret (example_mutations []) = (Inl ambiguousMutation, ?w)"
    by (simp add: executeSubscriptionMutation_def acquireSubscriptionMutationClaim_def acquireClaim_def andThen_def
        atomically_def attempt_def settleMutation_def example_mutations_def)
  have same: "nc_subscriptionId (example_claim ''p'' MO_resume) = nc_subscriptionId (example_claim ''o'' MO_cancel)"
    "nc_tenant (example_claim ''p'' MO_resume) = nc_tenant (example_claim ''o'' MO_cancel)"
    by (simp_all add: example_claim_def)
  have "executeSubscriptionMutation (example_claim ''p'' MO_resume) (ret (Applied ())) ret ?w = (Inl ambiguousMutation, ?w)"
    using uncertain_mutation_blocks [OF example_claim_valid example_mutations_ok _ _ run same, of "ret (Applied ())" ret] by simp
  with run show ?thesis by blast
qed

end
