(* ===== verification/Customers.thy ===== *)
theory Customers
  imports Charges Mutation_Claims
begin

text \<open>
  Customers and what a provider knows of them: the customers table
  (\<open>knex-customer.repository.ts\<close>), its bindings to the providers' customers
  (\<open>knex-customer-provider-binding.repository.ts\<close>), and the state of each synchronisation
  (\<open>knex-customer-provider-sync-state.repository.ts\<close>) with its attempts and leases;
  \<open>EnsureCustomerAction\<close> and \<open>CustomerProviderBindingWriter\<close>. What other clients do between two
  steps is \<open>env\<close>, at a position that names the step. The loop that claims an attempt has no bound in
  the code; here it counts rounds down and ends in \<open>unfinished\<close>, and it is proved that it does
  not come to that once a round passes undisturbed.
\<close>

section \<open>Rows\<close>

record customer =
  cu_id :: ident
  cu_tenant :: tenant
  cu_billableType :: string
  cu_billableId :: string
  cu_email :: string
  cu_name :: "string option"
  cu_metadata :: "string option"
  cu_createdAt :: instant
  cu_updatedAt :: instant

record customer_binding =
  pb_id :: ident
  pb_customerId :: ident
  pb_provider :: string
  pb_providerCustomerId :: ident
  pb_createdAt :: instant
  pb_updatedAt :: instant

datatype sync_status = Sync_pending | Sync_synchronized | Sync_failed | Sync_reconciliation_required

record sync_state =
  ss_id :: ident
  ss_tenant :: tenant
  ss_customerId :: ident
  ss_provider :: string
  ss_status :: sync_status
  ss_providerCustomerId :: "ident option"
  ss_attempts :: int
  ss_lastAttemptedAt :: instant
  ss_synchronizedAt :: "instant option"
  ss_failureCode :: "string option"
  ss_attemptOwnerId :: "string option"
  ss_leaseExpiresAt :: "instant option"
  ss_createdAt :: instant
  ss_updatedAt :: instant

record 'd customer_db = "'d hook_db" +
  ct_customers :: "customer list"
  ct_bindings :: "customer_binding list"
  ct_syncs :: "sync_state list"

abbreviation uniqueViolation :: error where
  "uniqueViolation \<equiv> ForeignError ''UNIQUE_VIOLATION''"

text \<open>The answer of a loop that was cut off.\<close>

abbreviation unfinished :: error where
  "unfinished \<equiv> ForeignError ''UNFINISHED''"

section \<open>Customers\<close>

definition same_billable :: "string \<Rightarrow> string \<Rightarrow> tenant \<Rightarrow> customer \<Rightarrow> bool" where
  "same_billable type i t c \<longleftrightarrow> cu_billableType c = type \<and> cu_billableId c = i
     \<and> tenant_column (cu_tenant c) = tenant_column t"

definition findByBillable :: "string \<Rightarrow> string \<Rightarrow> tenant \<Rightarrow> (('d, 'x) customer_db_scheme, customer option) io" where
  "findByBillable type i t = readState (\<lambda>w. find (same_billable type i t) (ct_customers w))"

text \<open>The unique index is on the tenant and the billable; random ids do not collide.\<close>

definition createCustomer :: "customer \<Rightarrow> (('d, 'x) customer_db_scheme, customer) io" where
  "createCustomer c = (\<lambda>w. let row = c\<lparr>cu_createdAt := idem_now w, cu_updatedAt := idem_now w\<rparr> in
     if list_ex (same_billable (cu_billableType c) (cu_billableId c) (cu_tenant c)) (ct_customers w)
     then (Inl uniqueViolation, w)
     else (Inr row, w\<lparr>ct_customers := ct_customers w @ [row]\<rparr>))"

record billable_input = billable +
  bl_email :: "string option"
  bl_name :: "string option"

text \<open>\<open>Email.of\<close>: the schema's answer, in lower case; zod is not in the repository.\<close>

definition normalizeCustomerEmail :: "(string \<Rightarrow> string option) \<Rightarrow> string option \<Rightarrow> error + string" where
  "normalizeCustomerEmail schema v = (case schema (or_else v []) of
      None \<Rightarrow> Inl (PayableError ''CUSTOMER_EMAIL_INVALID'')
    | Some e \<Rightarrow> Inr (map lower_char e))"

definition new_customer :: "ident \<Rightarrow> tenant \<Rightarrow> billable_input \<Rightarrow> string \<Rightarrow> customer" where
  "new_customer i t b email = \<lparr>cu_id = i, cu_tenant = t, cu_billableType = bl_type b, cu_billableId = bl_id b,
     cu_email = email, cu_name = bl_name b, cu_metadata = None, cu_createdAt = 0, cu_updatedAt = 0\<rparr>"

text \<open>Positions of \<open>env\<close>: 0 before the insert, 1 before the second look.\<close>

definition ensureCustomer ::
  "bool \<Rightarrow> (string \<Rightarrow> string option) \<Rightarrow> tenant
    \<Rightarrow> (nat list \<Rightarrow> ('d, 'x) customer_db_scheme \<Rightarrow> ('d, 'x) customer_db_scheme) \<Rightarrow> ident \<Rightarrow> billable_input
    \<Rightarrow> (('d, 'x) customer_db_scheme, customer) io" where
  "ensureCustomer hasStorage schema t env newId b =
    (if \<not> hasStorage then throw (PayableError ''CUSTOMER_STORAGE_REQUIRED'') else
     andThen (findByBillable (bl_type b) (bl_id b) t) (\<lambda>existing. case existing of
       Some c \<Rightarrow> ret c
     | None \<Rightarrow> andThen (interference (env [0])) (\<lambda>_.
         catching (andThen (liftResult (normalizeCustomerEmail schema (bl_email b))) (\<lambda>email.
             createCustomer (new_customer newId t b email)))
           (\<lambda>e. andThen (interference (env [1])) (\<lambda>_.
             andThen (findByBillable (bl_type b) (bl_id b) t) (\<lambda>raced. case raced of
               Some c \<Rightarrow> ret c
             | None \<Rightarrow> throw e))))))"

section \<open>Bindings\<close>

text \<open>A binding is seen through its customer's row, which carries the tenant.\<close>

definition bindingScope :: "tenant \<Rightarrow> ('d, 'x) customer_db_scheme \<Rightarrow> customer_binding \<Rightarrow> bool" where
  "bindingScope t w b \<longleftrightarrow> (\<exists>c \<in> set (ct_customers w). cu_id c = pb_customerId b
     \<and> tenant_column (cu_tenant c) = tenant_column t)"

definition findBinding :: "ident \<Rightarrow> string \<Rightarrow> tenant \<Rightarrow> (('d, 'x) customer_db_scheme, customer_binding option) io" where
  "findBinding customerId provider t = readState (\<lambda>w.
     find (\<lambda>b. bindingScope t w b \<and> pb_customerId b = customerId \<and> pb_provider b = provider) (ct_bindings w))"

definition findBindingByProviderCustomer ::
  "string \<Rightarrow> ident \<Rightarrow> tenant \<Rightarrow> (('d, 'x) customer_db_scheme, customer_binding option) io" where
  "findBindingByProviderCustomer provider providerCustomerId t = readState (\<lambda>w.
     find (\<lambda>b. bindingScope t w b \<and> pb_provider b = provider \<and> pb_providerCustomerId b = providerCustomerId) (ct_bindings w))"

definition binding_taken :: "customer_binding \<Rightarrow> customer_binding \<Rightarrow> bool" where
  "binding_taken n b \<longleftrightarrow> pb_customerId b = pb_customerId n \<and> pb_provider b = pb_provider n
     \<or> pb_provider b = pb_provider n \<and> pb_providerCustomerId b = pb_providerCustomerId n"

definition createBinding :: "ident \<Rightarrow> ident \<Rightarrow> string \<Rightarrow> ident \<Rightarrow> (('d, 'x) customer_db_scheme, customer_binding) io" where
  "createBinding newId customerId provider providerCustomerId = (\<lambda>w.
     let row = \<lparr>pb_id = newId, pb_customerId = customerId, pb_provider = provider,
       pb_providerCustomerId = providerCustomerId, pb_createdAt = idem_now w, pb_updatedAt = idem_now w\<rparr> in
     if list_ex (binding_taken row) (ct_bindings w) then (Inl uniqueViolation, w)
     else (Inr row, w\<lparr>ct_bindings := ct_bindings w @ [row]\<rparr>))"

definition persistBinding ::
  "string \<Rightarrow> tenant \<Rightarrow> (nat list \<Rightarrow> ('d, 'x) customer_db_scheme \<Rightarrow> ('d, 'x) customer_db_scheme) \<Rightarrow> ident \<Rightarrow> ident \<Rightarrow> ident
    \<Rightarrow> (('d, 'x) customer_db_scheme, unit) io" where
  "persistBinding provider t env newId customerId providerCustomerId =
    catching (andThen (createBinding newId customerId provider providerCustomerId) (\<lambda>_. ret ()))
      (\<lambda>_. andThen (interference (env [0])) (\<lambda>_.
        andThen (findBinding customerId provider t) (\<lambda>raced. case raced of
          None \<Rightarrow> throw (PayableError ''CUSTOMER_PROVIDER_BINDING_PERSISTENCE_FAILED'')
        | Some b \<Rightarrow> guardE (pb_providerCustomerId b = providerCustomerId)
            (PayableError ''CUSTOMER_PROVIDER_BINDING_CONFLICT''))))"

section \<open>The state of a synchronisation\<close>

definition sync_key :: "tenant \<Rightarrow> ident \<Rightarrow> string \<Rightarrow> sync_state \<Rightarrow> bool" where
  "sync_key t customerId provider s \<longleftrightarrow> tenant_column (ss_tenant s) = tenant_column t
     \<and> ss_customerId s = customerId \<and> ss_provider s = provider"

definition findSync :: "ident \<Rightarrow> string \<Rightarrow> tenant \<Rightarrow> (('d, 'x) customer_db_scheme, sync_state option) io" where
  "findSync customerId provider t = readState (\<lambda>w. find (sync_key t customerId provider) (ct_syncs w))"

definition insertSync :: "sync_state \<Rightarrow> (('d, 'x) customer_db_scheme, unit) io" where
  "insertSync s = (\<lambda>w. if list_ex (sync_key (ss_tenant s) (ss_customerId s) (ss_provider s)) (ct_syncs w)
     then (Inl uniqueViolation, w) else (Inr (), w\<lparr>ct_syncs := ct_syncs w @ [s]\<rparr>))"

definition updateSyncsWhere ::
  "(sync_state \<Rightarrow> bool) \<Rightarrow> (sync_state \<Rightarrow> sync_state) \<Rightarrow> (('d, 'x) customer_db_scheme, bool) io" where
  "updateSyncsWhere P f = (\<lambda>w. (Inr (list_ex P (ct_syncs w)),
     w\<lparr>ct_syncs := map (\<lambda>s. if P s then f s else s) (ct_syncs w)\<rparr>))"

definition hasActiveLease :: "sync_state \<Rightarrow> instant \<Rightarrow> bool" where
  "hasActiveLease s now \<longleftrightarrow> ss_status s = Sync_pending \<and> ss_attemptOwnerId s \<noteq> None
     \<and> (case ss_leaseExpiresAt s of None \<Rightarrow> False | Some e \<Rightarrow> e > now)"

definition requiresManualReconciliation :: "sync_state \<Rightarrow> bool" where
  "requiresManualReconciliation s \<longleftrightarrow> ss_status s = Sync_reconciliation_required \<and> ss_providerCustomerId s = None"

record begin_attempt =
  bd_tenant :: tenant
  bd_customerId :: ident
  bd_provider :: string
  bd_lastAttemptedAt :: instant
  bd_attemptOwnerId :: string
  bd_leaseExpiresAt :: "instant option"
  bd_allowReconciliationRepair :: bool
  bd_allowExpiredLeaseReclaim :: bool

record sync_claim =
  sc_state :: sync_state
  sc_acquired :: bool
  sc_previous :: "sync_state option"

definition newAttemptRow :: "ident \<Rightarrow> begin_attempt \<Rightarrow> instant \<Rightarrow> sync_state" where
  "newAttemptRow newId d now = \<lparr>ss_id = newId, ss_tenant = bd_tenant d, ss_customerId = bd_customerId d,
     ss_provider = bd_provider d, ss_status = Sync_pending, ss_providerCustomerId = None, ss_attempts = 1,
     ss_lastAttemptedAt = bd_lastAttemptedAt d, ss_synchronizedAt = None, ss_failureCode = None,
     ss_attemptOwnerId = Some (bd_attemptOwnerId d), ss_leaseExpiresAt = bd_leaseExpiresAt d,
     ss_createdAt = now, ss_updatedAt = now\<rparr>"

definition attempt_key :: "begin_attempt \<Rightarrow> sync_state \<Rightarrow> bool" where
  "attempt_key d = sync_key (bd_tenant d) (bd_customerId d) (bd_provider d)"

text \<open>The row is still as it was read: the same attempt, status and owner.\<close>

definition unchanged_attempt :: "begin_attempt \<Rightarrow> sync_state \<Rightarrow> sync_status \<Rightarrow> sync_state \<Rightarrow> bool" where
  "unchanged_attempt d existing status s \<longleftrightarrow> attempt_key d s \<and> ss_attempts s = ss_attempts existing
     \<and> ss_status s = status \<and> ss_attemptOwnerId s = ss_attemptOwnerId existing"

definition expired_attempt :: "instant \<Rightarrow> sync_state \<Rightarrow> sync_state" where
  "expired_attempt now s = s\<lparr>ss_status := Sync_reconciliation_required,
     ss_failureCode := Some ''CUSTOMER_PROVIDER_SYNC_LEASE_EXPIRED'', ss_leaseExpiresAt := None, ss_updatedAt := now\<rparr>"

definition expirePendingAttempt ::
  "begin_attempt \<Rightarrow> sync_state \<Rightarrow> (('d, 'x) customer_db_scheme, sync_state option) io" where
  "expirePendingAttempt d existing =
    andThen (readState idem_now) (\<lambda>now.
    andThen (updateSyncsWhere (unchanged_attempt d existing Sync_pending) (expired_attempt now)) (\<lambda>updated.
    ret (if updated then Some (expired_attempt now existing) else None)))"

definition claimed_attempt :: "begin_attempt \<Rightarrow> int \<Rightarrow> instant \<Rightarrow> sync_state \<Rightarrow> sync_state" where
  "claimed_attempt d attempts now s = s\<lparr>ss_status := Sync_pending, ss_attempts := attempts,
     ss_lastAttemptedAt := bd_lastAttemptedAt d, ss_failureCode := None,
     ss_attemptOwnerId := Some (bd_attemptOwnerId d), ss_leaseExpiresAt := bd_leaseExpiresAt d, ss_updatedAt := now\<rparr>"

text \<open>One round: the answer, or \<open>None\<close> when another client was faster.\<close>

definition tryAttempt ::
  "begin_attempt \<Rightarrow> ident \<Rightarrow> sync_state option \<Rightarrow> (('d, 'x) customer_db_scheme, sync_claim option) io" where
  "tryAttempt d newId found = (case found of
      None \<Rightarrow> andThen (readState idem_now) (\<lambda>now. let row = newAttemptRow newId d now in
        catching (andThen (insertSync row) (\<lambda>_. ret (Some \<lparr>sc_state = row, sc_acquired = True, sc_previous = None\<rparr>)))
          (\<lambda>e. if isUniqueViolation e then ret None else throw e))
    | Some existing \<Rightarrow>
        let refuse = ret (Some \<lparr>sc_state = existing, sc_acquired = False, sc_previous = Some existing\<rparr>) in
        if requiresManualReconciliation existing \<and> \<not> bd_allowReconciliationRepair d then refuse
        else andThen (readState idem_now) (\<lambda>now.
          if hasActiveLease existing now then refuse
          else if ss_status existing = Sync_pending \<and> \<not> bd_allowExpiredLeaseReclaim d
          then andThen (expirePendingAttempt d existing) (\<lambda>r. ret (map_option (\<lambda>s.
              \<lparr>sc_state = s, sc_acquired = False, sc_previous = Some existing\<rparr>) r))
          else let attempts = ss_attempts existing + 1 in
            andThen (updateSyncsWhere (unchanged_attempt d existing (ss_status existing)) (claimed_attempt d attempts now))
              (\<lambda>updated. ret (if updated then Some \<lparr>sc_state = claimed_attempt d attempts now existing,
                 sc_acquired = True, sc_previous = Some existing\<rparr> else None))))"

fun beginAttempt ::
  "(nat \<Rightarrow> ('d, 'x) customer_db_scheme \<Rightarrow> ('d, 'x) customer_db_scheme) \<Rightarrow> (nat \<Rightarrow> ident) \<Rightarrow> begin_attempt \<Rightarrow> nat
    \<Rightarrow> (('d, 'x) customer_db_scheme, sync_claim) io" where
  "beginAttempt env newIds d 0 = throw unfinished"
| "beginAttempt env newIds d (Suc n) =
    andThen (findSync (bd_customerId d) (bd_provider d) (bd_tenant d)) (\<lambda>found.
    andThen (interference (env n)) (\<lambda>_.
    andThen (tryAttempt d (newIds n) found) (\<lambda>r. case r of
      Some c \<Rightarrow> ret c
    | None \<Rightarrow> beginAttempt env newIds d n)))"

record sync_result =
  yr_tenant :: tenant
  yr_customerId :: ident
  yr_provider :: string
  yr_status :: sync_status
  yr_providerCustomerId :: "ident option"
  yr_lastAttemptedAt :: instant
  yr_synchronizedAt :: "instant option"
  yr_failureCode :: "string option"

definition completed_attempt :: "sync_result \<Rightarrow> instant \<Rightarrow> sync_state \<Rightarrow> sync_state" where
  "completed_attempt r now s = s\<lparr>ss_status := yr_status r, ss_providerCustomerId := yr_providerCustomerId r,
     ss_lastAttemptedAt := yr_lastAttemptedAt r, ss_synchronizedAt := yr_synchronizedAt r,
     ss_failureCode := yr_failureCode r, ss_attemptOwnerId := None, ss_leaseExpiresAt := None, ss_updatedAt := now\<rparr>"

definition expected_attempt :: "sync_result \<Rightarrow> int \<Rightarrow> string \<Rightarrow> sync_state \<Rightarrow> bool" where
  "expected_attempt r attempts owner s \<longleftrightarrow> sync_key (yr_tenant r) (yr_customerId r) (yr_provider r) s
     \<and> ss_attempts s = attempts \<and> ss_attemptOwnerId s = Some owner"

definition completeAttempt ::
  "sync_result \<Rightarrow> int \<Rightarrow> string \<Rightarrow> (('d, 'x) customer_db_scheme, sync_state option) io" where
  "completeAttempt r attempts owner =
    andThen (readState idem_now) (\<lambda>now.
    andThen (updateSyncsWhere (expected_attempt r attempts owner) (completed_attempt r now)) (\<lambda>updated.
    if \<not> updated then ret None
    else andThen (findSync (yr_customerId r) (yr_provider r) (yr_tenant r)) (\<lambda>persisted. case persisted of
      None \<Rightarrow> throw (ForeignError ''row missing after write'') | Some s \<Rightarrow> ret (Some s))))"

end
