(* ===== verification/Subscription_Actions.thy ===== *)
theory Subscription_Actions
  imports Mutation_Claims
begin

text \<open>
  The actions on a subscription, \<open>application/actions/subscriptions\<close>: each authorizes, checks
  that the provider supports the operation, finds the local subscription and its binding, and runs
  the provider's call under a mutation claim, storing the answer and an audit entry in the
  transaction that releases the claim. The provider's methods, the customers table and the price
  migrations are given; \<open>sx_env\<close> is what other clients do between the reads and the claim, and
  random ids are arguments.
\<close>

section \<open>Operation capabilities\<close>

datatype effective_timing = ET_immediate | ET_nextRenewal | ET_scheduled

record change_capabilities =
  cc_preview :: bool
  cc_effectiveTimings :: "effective_timing list"
  cc_prorationPolicies :: "string list"
  cc_paymentFailurePolicies :: "string list"
  cc_supportsCurrencyChange :: bool
  cc_supportsBillingPeriodChange :: bool

record operation_capabilities =
  oc_itemIdentity :: string
  oc_createCheckout :: bool
  oc_createDirect :: bool
  oc_changePrice :: change_capabilities
  oc_changeQuantity :: change_capabilities
  oc_cancelImmediately :: bool
  oc_cancelAtPeriodEnd :: bool
  oc_pauseTimings :: "effective_timing list"
  oc_pauseScheduledResume :: bool
  oc_pauseBillingPolicies :: "string list"
  oc_collectionBehaviors :: "string list"
  oc_collectionScheduledResume :: bool
  oc_resumePendingCancellation :: bool
  oc_resumeTimings :: "effective_timing list"
  oc_resumeBillingPolicies :: "string list"
  oc_resumeCollection :: bool
  oc_scheduledChangeCancel :: bool

datatype subscription_operation = OP_createCheckout | OP_createDirect | OP_changePrice | OP_changeQuantity
  | OP_cancelImmediately | OP_cancelAtPeriodEnd | OP_pause | OP_resumePaused | OP_resume
  | OP_pausePaymentCollection | OP_resumePaymentCollection | OP_cancelScheduledChange

definition isSubscriptionOperationSupported :: "operation_capabilities \<Rightarrow> subscription_operation \<Rightarrow> bool" where
  "isSubscriptionOperationSupported c op = (case op of
     OP_createCheckout \<Rightarrow> oc_createCheckout c
   | OP_createDirect \<Rightarrow> oc_createDirect c
   | OP_changePrice \<Rightarrow> length (cc_effectiveTimings (oc_changePrice c)) > 0
   | OP_changeQuantity \<Rightarrow> length (cc_effectiveTimings (oc_changeQuantity c)) > 0
   | OP_cancelImmediately \<Rightarrow> oc_cancelImmediately c
   | OP_cancelAtPeriodEnd \<Rightarrow> oc_cancelAtPeriodEnd c
   | OP_pause \<Rightarrow> length (oc_pauseTimings c) > 0
   | OP_resume \<Rightarrow> oc_resumePendingCancellation c
   | OP_resumePaused \<Rightarrow> length (oc_resumeTimings c) > 0
   | OP_pausePaymentCollection \<Rightarrow> length (oc_collectionBehaviors c) > 0
   | OP_resumePaymentCollection \<Rightarrow> oc_resumeCollection c
   | OP_cancelScheduledChange \<Rightarrow> oc_scheduledChangeCancel c)"

abbreviation NOT_SUPPORTED :: error where
  "NOT_SUPPORTED \<equiv> PayableError ''PROVIDER_CAPABILITY_NOT_SUPPORTED''"

text \<open>A provider that does not report its operations is trusted with the older ones only.\<close>

definition assertSubscriptionOperation :: "operation_capabilities option \<Rightarrow> subscription_operation \<Rightarrow> ('w, unit) io" where
  "assertSubscriptionOperation capabilities op = (case capabilities of
     None \<Rightarrow> guardE (op \<notin> {OP_pause, OP_resumePaused, OP_pausePaymentCollection, OP_resumePaymentCollection,
       OP_cancelScheduledChange}) NOT_SUPPORTED
   | Some c \<Rightarrow> guardE (isSubscriptionOperationSupported c op) NOT_SUPPORTED)"

section \<open>Pause and resume policies\<close>

text \<open>A date, which may be invalid.\<close>

type_synonym date = "instant option"

record pause_policy =
  pp_effectiveTiming :: effective_timing
  pp_resumeAt :: "date option"
  pp_resumeBillingPolicy :: string

datatype resume_policy = ResumeNow string | ResumeAt date string

record collection_policy =
  cp_behavior :: string
  cp_resumesAt :: "date option"

definition PAYMENT_COLLECTION_BEHAVIORS :: "string list" where
  "PAYMENT_COLLECTION_BEHAVIORS = [''keepAsDraft'', ''markUncollectible'', ''void'']"

definition isFutureDate :: "date \<Rightarrow> instant \<Rightarrow> bool" where
  "isFutureDate value now = (case value of None \<Rightarrow> False | Some t \<Rightarrow> t > now)"

definition validatePauseSubscriptionPolicy :: "pause_policy \<Rightarrow> instant \<Rightarrow> ('w, unit) io" where
  "validatePauseSubscriptionPolicy p now = (case pp_resumeAt p of
     None \<Rightarrow> ret () | Some d \<Rightarrow> guardE (isFutureDate d now) (PayableError ''SUBSCRIPTION_PAUSE_POLICY_INVALID''))"

text \<open>The comparison is false for an invalid date.\<close>

definition validatePauseSubscriptionResumeBoundary :: "pause_policy \<Rightarrow> instant option \<Rightarrow> ('w, unit) io" where
  "validatePauseSubscriptionResumeBoundary p currentPeriodEnd =
    guardE (\<not> (pp_effectiveTiming p = ET_nextRenewal \<and> (case (pp_resumeAt p, currentPeriodEnd) of
        (Some (Some resume), Some end1) \<Rightarrow> resume \<le> end1 | _ \<Rightarrow> False)))
      (PayableError ''SUBSCRIPTION_PAUSE_POLICY_INVALID'')"

definition validateResumePausedSubscriptionPolicy :: "resume_policy \<Rightarrow> instant \<Rightarrow> ('w, unit) io" where
  "validateResumePausedSubscriptionPolicy p now = (case p of
     ResumeNow _ \<Rightarrow> ret ()
   | ResumeAt d _ \<Rightarrow> guardE (isFutureDate d now) (PayableError ''SUBSCRIPTION_RESUME_POLICY_INVALID''))"

definition validatePausePaymentCollectionPolicy :: "collection_policy \<Rightarrow> instant \<Rightarrow> ('w, unit) io" where
  "validatePausePaymentCollectionPolicy p now =
    andThen (guardE (cp_behavior p \<in> set PAYMENT_COLLECTION_BEHAVIORS)
      (PayableError ''SUBSCRIPTION_PAYMENT_COLLECTION_POLICY_INVALID'')) (\<lambda>_.
    case cp_resumesAt p of
      None \<Rightarrow> ret ()
    | Some d \<Rightarrow> guardE (isFutureDate d now) (PayableError ''SUBSCRIPTION_PAYMENT_COLLECTION_POLICY_INVALID''))"

definition assertPauseSubscriptionPolicySupported :: "operation_capabilities option \<Rightarrow> pause_policy \<Rightarrow> ('w, unit) io" where
  "assertPauseSubscriptionPolicySupported capabilities p =
    andThen (assertSubscriptionOperation capabilities OP_pause) (\<lambda>_.
    case capabilities of
      None \<Rightarrow> ret ()
    | Some c \<Rightarrow> guardE (pp_effectiveTiming p \<in> set (oc_pauseTimings c)
        \<and> pp_resumeBillingPolicy p \<in> set (oc_pauseBillingPolicies c)
        \<and> (pp_resumeAt p = None \<or> oc_pauseScheduledResume c)) NOT_SUPPORTED)"

fun resume_timing :: "resume_policy \<Rightarrow> effective_timing" where
  "resume_timing (ResumeNow _) = ET_immediate"
| "resume_timing (ResumeAt _ _) = ET_scheduled"

fun resume_billing :: "resume_policy \<Rightarrow> string" where
  "resume_billing (ResumeNow b) = b"
| "resume_billing (ResumeAt _ b) = b"

definition assertResumePausedSubscriptionPolicySupported ::
  "operation_capabilities option \<Rightarrow> resume_policy \<Rightarrow> ('w, unit) io" where
  "assertResumePausedSubscriptionPolicySupported capabilities p =
    andThen (assertSubscriptionOperation capabilities OP_resumePaused) (\<lambda>_.
    case capabilities of
      None \<Rightarrow> ret ()
    | Some c \<Rightarrow> guardE (resume_timing p \<in> set (oc_resumeTimings c)
        \<and> resume_billing p \<in> set (oc_resumeBillingPolicies c)) NOT_SUPPORTED)"

definition assertPausePaymentCollectionPolicySupported ::
  "operation_capabilities option \<Rightarrow> collection_policy \<Rightarrow> ('w, unit) io" where
  "assertPausePaymentCollectionPolicySupported capabilities p =
    andThen (assertSubscriptionOperation capabilities OP_pausePaymentCollection) (\<lambda>_.
    case capabilities of
      None \<Rightarrow> ret ()
    | Some c \<Rightarrow> guardE (cp_behavior p \<in> set (oc_collectionBehaviors c)
        \<and> (cp_resumesAt p = None \<or> oc_collectionScheduledResume c)) NOT_SUPPORTED)"

section \<open>What the actions are given\<close>

record change_policies =
  ch_effectiveTiming :: effective_timing
  ch_effectiveAt :: "date option"
  ch_prorationPolicy :: string
  ch_paymentFailurePolicy :: string

record update_request =
  ur_providerSubscriptionId :: ident
  ur_priceId :: string
  ur_quantity :: int
  ur_providerItemId :: "string option"
  ur_items :: "(string \<times> int) list"
  ur_policies :: change_policies
  ur_calculatedAt :: instant

text \<open>The context of a call: the correlation id and the idempotency key.\<close>

type_synonym operation_context = "string \<times> string"

record 'w management =
  mg_update :: "update_request \<Rightarrow> operation_context \<Rightarrow> ('w, subscription_dto) io"
  mg_cancel :: "ident \<Rightarrow> bool \<Rightarrow> operation_context \<Rightarrow> ('w, subscription_dto) io"
  mg_resume :: "ident \<Rightarrow> operation_context \<Rightarrow> ('w, subscription_dto) io"

record 'w collection_methods =
  cm_pause :: "ident \<Rightarrow> collection_policy \<Rightarrow> operation_context \<Rightarrow> ('w, subscription_dto) io"
  cm_resume :: "ident \<Rightarrow> operation_context \<Rightarrow> ('w, subscription_dto) io"

datatype policy_value = PV_pause pause_policy | PV_resume resume_policy | PV_collection collection_policy

record 'w sub_deps =
  sx_hasStorage :: bool
  sx_tenant :: tenant
  sx_providerName :: string
  sx_authorizationEnabled :: bool
  sx_subscriptions :: bool
  sx_management :: "'w management option"
  sx_pause :: "(ident \<Rightarrow> pause_policy \<Rightarrow> operation_context \<Rightarrow> ('w, subscription_dto) io) option"
  sx_resumePaused :: "(ident \<Rightarrow> resume_policy \<Rightarrow> operation_context \<Rightarrow> ('w, subscription_dto) io) option"
  sx_collection :: "'w collection_methods option"
  sx_cancelScheduled :: "(ident \<Rightarrow> operation_context \<Rightarrow> ('w, subscription_dto) io) option"
  sx_capabilities :: "operation_capabilities option"
  sx_findByBillable :: "string \<Rightarrow> string \<Rightarrow> tenant \<Rightarrow> ('w, ident option) io"
  sx_activeMigration :: "ident \<Rightarrow> tenant \<Rightarrow> ('w, bool) io"
  sx_json :: "policy_value \<Rightarrow> string"
  sx_digest :: "hook_json audit_payload \<Rightarrow> string"
  sx_env :: "'w \<Rightarrow> 'w"

record sub_ids =
  si_correlation :: string
  si_owner :: string
  si_claim :: string
  si_auditCorrelation :: string
  si_audit :: "nat \<Rightarrow> string"

record subscription_request =
  sr_billableType :: string
  sr_billableId :: string
  sr_name :: string
  sr_authorization :: "authorization_context option"

section \<open>Shared steps\<close>

definition requireCapable :: "bool \<Rightarrow> 'm option \<Rightarrow> ('w, 'm) io" where
  "requireCapable capable method = (if \<not> capable then throw NOT_SUPPORTED
     else case method of None \<Rightarrow> throw NOT_SUPPORTED | Some m \<Rightarrow> ret m)"

definition subscriptionProvider :: "'w sub_deps \<Rightarrow> subscription_operation \<Rightarrow> ('w, 'w management) io" where
  "subscriptionProvider d op =
    andThen (requireCapable (sx_subscriptions d) (sx_management d)) (\<lambda>m.
    andThen (assertSubscriptionOperation (sx_capabilities d) op) (\<lambda>_. ret m))"

definition findSubscriptionByName :: "ident \<Rightarrow> string \<Rightarrow> tenant \<Rightarrow> (('d, 'x) mutation_db_scheme, subscription option) io" where
  "findSubscriptionByName customerId name t = readState (\<lambda>w.
     find (\<lambda>s. sub_customerId s = customerId \<and> sub_name s = name \<and> tenantMatches t (sub_tenant s)) (hk_subscriptions w))"

definition findBindingBySubscription ::
  "ident \<Rightarrow> string \<Rightarrow> tenant \<Rightarrow> (('d, 'x) mutation_db_scheme, binding option) io" where
  "findBindingBySubscription subscriptionId provider t = readState (\<lambda>w.
     find (\<lambda>b. bi_subscriptionId b = subscriptionId \<and> bi_provider b = provider
       \<and> tenant_column (bi_tenant b) = tenant_column t) (hk_bindings w))"

definition resolveSubscription ::
  "('d, 'x) mutation_db_scheme sub_deps \<Rightarrow> subscription_request
    \<Rightarrow> (('d, 'x) mutation_db_scheme, subscription \<times> ident) io" where
  "resolveSubscription d r =
    andThen (guardE (sx_hasStorage d) (PayableError ''SUBSCRIPTION_STORAGE_REQUIRED'')) (\<lambda>_.
    andThen (sx_findByBillable d (sr_billableType r) (sr_billableId r) (sx_tenant d)) (\<lambda>customer.
    andThen (case customer of None \<Rightarrow> ret None | Some c \<Rightarrow> findSubscriptionByName c (sr_name r) (sx_tenant d)) (\<lambda>found.
    case found of
      None \<Rightarrow> throw (PayableError ''SUBSCRIPTION_NOT_FOUND'')
    | Some s \<Rightarrow>
        andThen (findBindingBySubscription (sub_id s) (sx_providerName d) (sx_tenant d)) (\<lambda>b.
        let providerSubscriptionId = or_else (map_option bi_providerSubscriptionId b) [] in
        if providerSubscriptionId = [] then throw (PayableError ''SUBSCRIPTION_PROVIDER_BINDING_REQUIRED'')
        else ret (s\<lparr>sub_provider := Some (sx_providerName d), sub_providerSubscriptionId := Some providerSubscriptionId\<rparr>,
          providerSubscriptionId)))))"

definition assertNoActiveMigration ::
  "('d, 'x) mutation_db_scheme sub_deps \<Rightarrow> ident \<Rightarrow> (('d, 'x) mutation_db_scheme, unit) io" where
  "assertNoActiveMigration d subscriptionId =
    andThen (findActiveClaim subscriptionId (sx_tenant d)) (\<lambda>claim. case claim of
      Some _ \<Rightarrow> throw ambiguousMutation
    | None \<Rightarrow> andThen (sx_activeMigration d subscriptionId (sx_tenant d)) (\<lambda>active.
        guardE (\<not> active) mutationConflict))"

definition managedSubscription ::
  "('d, 'x) mutation_db_scheme sub_deps \<Rightarrow> subscription_request
    \<Rightarrow> (('d, 'x) mutation_db_scheme, subscription \<times> ident) io" where
  "managedSubscription d r =
    andThen (resolveSubscription d r) (\<lambda>(s, psub).
    andThen (assertNoActiveMigration d (sub_id s)) (\<lambda>_. ret (s, psub)))"

text \<open>The search for a path of events always ends, so the first case does not arise.\<close>

definition reconcileStatus :: "subscription_status \<Rightarrow> subscription_status \<Rightarrow> subscription_status" where
  "reconcileStatus current providerStatus = (case reconcileSubscriptionStatus current providerStatus of
     None \<Rightarrow> current | Some r \<Rightarrow> rec_status r)"

definition lifecyclePatch :: "subscription \<Rightarrow> subscription_dto \<Rightarrow> subscription_patch" where
  "lifecyclePatch s dto = no_patch\<lparr>sp_status := Some (reconcileStatus (sub_status s) (sd_status dto)),
     sp_scheduledChangeAction := sd_scheduledChangeAction dto,
     sp_scheduledChangeEffectiveAt := sd_scheduledChangeEffectiveAt dto,
     sp_scheduledResumeAt := sd_scheduledResumeAt dto, sp_resumeBillingPolicy := sd_resumeBillingPolicy dto,
     sp_paymentCollectionPauseBehavior := sd_paymentCollectionPauseBehavior dto,
     sp_paymentCollectionResumesAt := sd_paymentCollectionResumesAt dto\<rparr>"

definition status_text :: "subscription_status \<Rightarrow> string" where
  "status_text s = (case s of S_incomplete \<Rightarrow> ''incomplete'' | S_incomplete_expired \<Rightarrow> ''incomplete_expired'' | S_trialing \<Rightarrow> ''trialing'' | S_active \<Rightarrow> ''active''
     | S_past_due \<Rightarrow> ''past_due'' | S_unpaid \<Rightarrow> ''unpaid'' | S_paused \<Rightarrow> ''paused'' | S_canceled \<Rightarrow> ''canceled'')"

definition nullable_date :: "instant option \<Rightarrow> hook_value" where
  "nullable_date x = (case x of None \<Rightarrow> HV_null | Some t \<Rightarrow> HV_date t)"

definition lifecycleSnapshot :: "subscription \<Rightarrow> (string \<times> hook_value) list" where
  "lifecycleSnapshot s = [(''status'', HV_text (status_text (sub_status s))),
     (''scheduledChangeAction'', case sub_scheduledChangeAction s of None \<Rightarrow> HV_null
        | Some SA_pause \<Rightarrow> HV_text ''pause'' | Some SA_resume \<Rightarrow> HV_text ''resume''),
     (''scheduledChangeEffectiveAt'', nullable_date (sub_scheduledChangeEffectiveAt s)),
     (''scheduledResumeAt'', nullable_date (sub_scheduledResumeAt s)),
     (''resumeBillingPolicy'', nullable_text (sub_resumeBillingPolicy s)),
     (''paymentCollectionPauseBehavior'', nullable_text (sub_paymentCollectionPauseBehavior s)),
     (''paymentCollectionResumesAt'', nullable_date (sub_paymentCollectionResumesAt s))]"

definition endSnapshot :: "subscription \<Rightarrow> (string \<times> hook_value) list" where
  "endSnapshot s = [(''status'', HV_text (status_text (sub_status s))), (''endsAt'', nullable_date (sub_endsAt s))]"

definition auditWith ::
  "('d, 'x) mutation_db_scheme sub_deps \<Rightarrow> sub_ids \<Rightarrow> authorization_context option \<Rightarrow> string \<Rightarrow> ident
    \<Rightarrow> (string \<times> hook_value) list \<Rightarrow> (string \<times> hook_value) list \<Rightarrow> (('d, 'x) mutation_db_scheme, unit) io" where
  "auditWith d ids auth action subscriptionId before after =
    andThen (on_audit (audit_create (sx_digest d) (\<lambda>_ a. a) (si_audit ids) (sx_tenant d) \<lparr>
      au_correlationId = si_auditCorrelation ids, au_actorType = Option.bind auth ac_actorType,
      au_actorId = Option.bind auth ac_actorId, au_action = action, au_resourceType = ''subscription'',
      au_resourceId = subscriptionId, au_before = Some (HJ_object before), au_after = Some (HJ_object after),
      au_metadata = None, au_ipAddress = None, au_userAgent = None\<rparr>)) (\<lambda>_. ret ())"

definition operationContext ::
  "'w sub_deps \<Rightarrow> sub_ids \<Rightarrow> string \<Rightarrow> ident \<Rightarrow> string option \<Rightarrow> bool \<Rightarrow> error + operation_context" where
  "operationContext d ids operation providerSubscriptionId discriminator perAttempt =
    bindE (forSubscriptionOperation \<lparr>op_tenant = sx_tenant d, op_operation = operation, op_provider = sx_providerName d,
      op_subscriptionId = providerSubscriptionId, op_discriminator = discriminator,
      op_nonce = (if perAttempt then Some (si_correlation ids) else None)\<rparr>) (\<lambda>key. Inr (si_correlation ids, key))"

text \<open>The claim of an operation, the call, and the answer stored with the claim's release.\<close>

definition mutateSubscription ::
  "('d, 'x) mutation_db_scheme sub_deps \<Rightarrow> sub_ids \<Rightarrow> ident \<Rightarrow> mutation_operation \<Rightarrow> intent_blob option
    \<Rightarrow> (('d, 'x) mutation_db_scheme, subscription_dto) io
    \<Rightarrow> (subscription_dto \<Rightarrow> (('d, 'x) mutation_db_scheme, subscription) io)
    \<Rightarrow> (('d, 'x) mutation_db_scheme, subscription) io" where
  "mutateSubscription d ids subscriptionId operation intent call persist =
    andThen (interference (sx_env d)) (\<lambda>_.
    andThen (readState idem_now) (\<lambda>now.
    executeSubscriptionMutation \<lparr>nc_reference = ''subscription-mutation:'' @ si_claim ids, nc_tenant = sx_tenant d,
        nc_subscriptionId = subscriptionId, nc_ownerToken = si_owner ids, nc_operation = operation,
        nc_correlationId = si_correlation ids, nc_intent = intent, nc_claimedAt = now\<rparr>
      (andThen call (\<lambda>dto. ret (Applied dto))) persist))"

section \<open>Cancelling and resuming\<close>

definition storeStatus ::
  "('d, 'x) mutation_db_scheme sub_deps \<Rightarrow> sub_ids \<Rightarrow> authorization_context option \<Rightarrow> string \<Rightarrow> subscription
    \<Rightarrow> subscription_patch \<Rightarrow> (('d, 'x) mutation_db_scheme, subscription) io" where
  "storeStatus d ids auth action s patch =
    andThen (updateSubscription (sub_id s) patch (sx_tenant d)) (\<lambda>updated.
    andThen (auditWith d ids auth action (sub_id s) (endSnapshot s) (endSnapshot updated)) (\<lambda>_. ret updated))"

definition cancelSubscription ::
  "('d, 'x) mutation_db_scheme sub_deps \<Rightarrow> sub_ids \<Rightarrow> subscription_request \<Rightarrow> (('d, 'x) mutation_db_scheme, subscription) io" where
  "cancelSubscription d ids r =
    andThen (assertAuthorized (sx_authorizationEnabled d) (sr_authorization r)) (\<lambda>_.
    andThen (subscriptionProvider d OP_cancelAtPeriodEnd) (\<lambda>provider.
    andThen (managedSubscription d r) (\<lambda>(s, psub).
    andThen (liftResult (operationContext d ids ''cancel'' psub None False)) (\<lambda>context.
    mutateSubscription d ids (sub_id s) MO_cancel None (mg_cancel provider psub False context)
      (\<lambda>dto. storeStatus d ids (sr_authorization r) ''subscription.canceled'' s
         (no_patch\<lparr>sp_status := Some (reconcileStatus (sub_status s) (sd_status dto)),
           sp_endsAt := Some (sd_currentPeriodEnd dto)\<rparr>))))))"

definition cancelSubscriptionNow ::
  "('d, 'x) mutation_db_scheme sub_deps \<Rightarrow> sub_ids \<Rightarrow> subscription_request \<Rightarrow> (('d, 'x) mutation_db_scheme, subscription) io" where
  "cancelSubscriptionNow d ids r =
    andThen (assertAuthorized (sx_authorizationEnabled d) (sr_authorization r)) (\<lambda>_.
    andThen (subscriptionProvider d OP_cancelImmediately) (\<lambda>provider.
    andThen (managedSubscription d r) (\<lambda>(s, psub).
    andThen (liftResult (operationContext d ids ''cancel-now'' psub None False)) (\<lambda>context.
    mutateSubscription d ids (sub_id s) MO_cancel_now None (mg_cancel provider psub True context)
      (\<lambda>dto. andThen (readState idem_now) (\<lambda>now.
         storeStatus d ids (sr_authorization r) ''subscription.canceled_now'' s
           (no_patch\<lparr>sp_status := Some (reconcileStatus (sub_status s) (sd_status dto)), sp_endsAt := Some (Some now)\<rparr>)))))))"

definition resumeSubscription ::
  "('d, 'x) mutation_db_scheme sub_deps \<Rightarrow> sub_ids \<Rightarrow> subscription_request \<Rightarrow> (('d, 'x) mutation_db_scheme, subscription) io" where
  "resumeSubscription d ids r =
    andThen (assertAuthorized (sx_authorizationEnabled d) (sr_authorization r)) (\<lambda>_.
    andThen (subscriptionProvider d OP_resume) (\<lambda>provider.
    andThen (managedSubscription d r) (\<lambda>(s, psub).
    andThen (liftResult (operationContext d ids ''resume'' psub None False)) (\<lambda>context.
    mutateSubscription d ids (sub_id s) MO_resume None (mg_resume provider psub context)
      (\<lambda>dto. storeStatus d ids (sr_authorization r) ''subscription.resumed'' s
         (no_patch\<lparr>sp_status := Some (reconcileStatus (sub_status s) (sd_status dto)), sp_endsAt := Some None\<rparr>))))))"

section \<open>Pausing\<close>

definition storeLifecycle ::
  "('d, 'x) mutation_db_scheme sub_deps \<Rightarrow> sub_ids \<Rightarrow> authorization_context option \<Rightarrow> string \<Rightarrow> subscription
    \<Rightarrow> subscription_patch \<Rightarrow> (('d, 'x) mutation_db_scheme, subscription) io" where
  "storeLifecycle d ids auth action s patch =
    andThen (updateSubscription (sub_id s) patch (sx_tenant d)) (\<lambda>updated.
    andThen (auditWith d ids auth action (sub_id s) (lifecycleSnapshot s) (lifecycleSnapshot updated)) (\<lambda>_. ret updated))"

definition pauseSubscription ::
  "('d, 'x) mutation_db_scheme sub_deps \<Rightarrow> sub_ids \<Rightarrow> subscription_request \<Rightarrow> pause_policy
    \<Rightarrow> (('d, 'x) mutation_db_scheme, subscription) io" where
  "pauseSubscription d ids r p =
    andThen (assertAuthorized (sx_authorizationEnabled d) (sr_authorization r)) (\<lambda>_.
    andThen (readState idem_now) (\<lambda>now.
    andThen (validatePauseSubscriptionPolicy p now) (\<lambda>_.
    andThen (requireCapable (sx_subscriptions d) (sx_pause d)) (\<lambda>pause.
    andThen (assertPauseSubscriptionPolicySupported (sx_capabilities d) p) (\<lambda>_.
    andThen (managedSubscription d r) (\<lambda>(s, psub).
    andThen (validatePauseSubscriptionResumeBoundary p (sub_currentPeriodEnd s)) (\<lambda>_.
    andThen (liftResult (subscription_to (sub_status s) SE_pause)) (\<lambda>_.
    andThen (liftResult (operationContext d ids ''pause'' psub (Some (sx_json d (PV_pause p))) False)) (\<lambda>context.
    mutateSubscription d ids (sub_id s) MO_pause None (pause psub p context)
      (\<lambda>dto. storeLifecycle d ids (sr_authorization r)
         (if sd_scheduledChangeAction dto = Some (Some SA_pause) then ''subscription.pause_scheduled''
          else ''subscription.paused'') s (lifecyclePatch s dto)))))))))))"

definition resumePausedSubscription ::
  "('d, 'x) mutation_db_scheme sub_deps \<Rightarrow> sub_ids \<Rightarrow> subscription_request \<Rightarrow> resume_policy
    \<Rightarrow> (('d, 'x) mutation_db_scheme, subscription) io" where
  "resumePausedSubscription d ids r p =
    andThen (assertAuthorized (sx_authorizationEnabled d) (sr_authorization r)) (\<lambda>_.
    andThen (readState idem_now) (\<lambda>now.
    andThen (validateResumePausedSubscriptionPolicy p now) (\<lambda>_.
    andThen (requireCapable (sx_subscriptions d) (sx_resumePaused d)) (\<lambda>resume.
    andThen (assertResumePausedSubscriptionPolicySupported (sx_capabilities d) p) (\<lambda>_.
    andThen (managedSubscription d r) (\<lambda>(s, psub).
    andThen (liftResult (operationContext d ids ''resume-paused'' psub (Some (sx_json d (PV_resume p))) False)) (\<lambda>context.
    mutateSubscription d ids (sub_id s) MO_resume_paused None (resume psub p context)
      (\<lambda>dto. storeLifecycle d ids (sr_authorization r)
         (if sd_scheduledChangeAction dto = Some (Some SA_resume) then ''subscription.resume_scheduled''
          else ''subscription.resumed_from_pause'') s (lifecyclePatch s dto)))))))))"

definition pausePaymentCollection ::
  "('d, 'x) mutation_db_scheme sub_deps \<Rightarrow> sub_ids \<Rightarrow> subscription_request \<Rightarrow> collection_policy
    \<Rightarrow> (('d, 'x) mutation_db_scheme, subscription) io" where
  "pausePaymentCollection d ids r p =
    andThen (assertAuthorized (sx_authorizationEnabled d) (sr_authorization r)) (\<lambda>_.
    andThen (readState idem_now) (\<lambda>now.
    andThen (validatePausePaymentCollectionPolicy p now) (\<lambda>_.
    andThen (requireCapable (sx_subscriptions d) (sx_collection d)) (\<lambda>collection.
    andThen (assertPausePaymentCollectionPolicySupported (sx_capabilities d) p) (\<lambda>_.
    andThen (managedSubscription d r) (\<lambda>(s, psub).
    andThen (liftResult (operationContext d ids ''pause-payment-collection'' psub (Some (sx_json d (PV_collection p))) False)) (\<lambda>context.
    mutateSubscription d ids (sub_id s) MO_pause_payment_collection None (cm_pause collection psub p context)
      (\<lambda>dto. storeLifecycle d ids (sr_authorization r) ''subscription.payment_collection_paused'' s
         ((lifecyclePatch s dto)\<lparr>sp_status := Some (sub_status s)\<rparr>)))))))))"

definition resumePaymentCollection ::
  "('d, 'x) mutation_db_scheme sub_deps \<Rightarrow> sub_ids \<Rightarrow> subscription_request \<Rightarrow> (('d, 'x) mutation_db_scheme, subscription) io" where
  "resumePaymentCollection d ids r =
    andThen (assertAuthorized (sx_authorizationEnabled d) (sr_authorization r)) (\<lambda>_.
    andThen (requireCapable (sx_subscriptions d) (sx_collection d)) (\<lambda>collection.
    andThen (assertSubscriptionOperation (sx_capabilities d) OP_resumePaymentCollection) (\<lambda>_.
    andThen (managedSubscription d r) (\<lambda>(s, psub).
    andThen (liftResult (operationContext d ids ''resume-payment-collection'' psub None False)) (\<lambda>context.
    mutateSubscription d ids (sub_id s) MO_resume_payment_collection None (cm_resume collection psub context)
      (\<lambda>dto. storeLifecycle d ids (sr_authorization r) ''subscription.payment_collection_resumed'' s
         ((lifecyclePatch s dto)\<lparr>sp_status := Some (sub_status s), sp_paymentCollectionPauseBehavior := Some None,
           sp_paymentCollectionResumesAt := Some None\<rparr>)))))))"

definition cancelScheduledChange ::
  "('d, 'x) mutation_db_scheme sub_deps \<Rightarrow> sub_ids \<Rightarrow> subscription_request \<Rightarrow> (('d, 'x) mutation_db_scheme, subscription) io" where
  "cancelScheduledChange d ids r =
    andThen (assertAuthorized (sx_authorizationEnabled d) (sr_authorization r)) (\<lambda>_.
    andThen (requireCapable (sx_subscriptions d) (sx_cancelScheduled d)) (\<lambda>cancel.
    andThen (assertSubscriptionOperation (sx_capabilities d) OP_cancelScheduledChange) (\<lambda>_.
    andThen (managedSubscription d r) (\<lambda>(s, psub).
    andThen (liftResult (operationContext d ids ''cancel-scheduled-change'' psub None False)) (\<lambda>context.
    mutateSubscription d ids (sub_id s) MO_cancel_scheduled_change None (cancel psub context)
      (\<lambda>dto. storeLifecycle d ids (sr_authorization r) ''subscription.scheduled_change_canceled'' s
         ((lifecyclePatch s dto)\<lparr>sp_scheduledChangeAction := Some None, sp_scheduledChangeEffectiveAt := Some None,
           sp_scheduledResumeAt := Some None, sp_resumeBillingPolicy := Some None\<rparr>)))))))"

section \<open>Swapping the price and changing the quantity\<close>

definition selectItem ::
  "('d, 'x) mutation_db_scheme sub_deps \<Rightarrow> subscription \<Rightarrow> ident option
    \<Rightarrow> (('d, 'x) mutation_db_scheme, subscription_item \<times> subscription_item list) io" where
  "selectItem d s itemId =
    andThen (listBySubscription (sub_id s) (sx_tenant d)) (\<lambda>items.
    if itemId = None \<and> length items \<noteq> 1 then throw (PayableError ''SUBSCRIPTION_ITEM_AMBIGUOUS'')
    else case (case itemId of None \<Rightarrow> find (\<lambda>_. True) items | Some i \<Rightarrow> find (\<lambda>x. it_id x = i) items) of
        None \<Rightarrow> throw (PayableError ''SUBSCRIPTION_ITEM_NOT_FOUND'')
      | Some item \<Rightarrow> ret (item, items))"

definition swap_projection :: "subscription_item \<Rightarrow> subscription_item list \<Rightarrow> string \<Rightarrow> change_policies \<Rightarrow> mutation_projection" where
  "swap_projection item items price p = \<lparr>mp_itemId = it_id item,
     mp_source = \<lparr>mv_priceId = li_priceId item, mv_quantity = li_quantity item\<rparr>,
     mp_target = \<lparr>mv_priceId = price, mv_quantity = li_quantity item\<rparr>,
     mp_projectItem = (ch_effectiveTiming p = ET_immediate),
     mp_projectSubscriptionPrice = (ch_effectiveTiming p = ET_immediate \<and> length items = 1),
     mp_projectSubscriptionQuantity = False\<rparr>"

definition update_request_of ::
  "ident \<Rightarrow> subscription_item \<Rightarrow> subscription_item list \<Rightarrow> string \<Rightarrow> int \<Rightarrow> change_policies \<Rightarrow> instant \<Rightarrow> update_request" where
  "update_request_of psub item items price quantity p now = \<lparr>ur_providerSubscriptionId = psub, ur_priceId = price,
     ur_quantity = quantity, ur_providerItemId = it_providerItemId item,
     ur_items = map (\<lambda>x. if it_id x = it_id item then (price, quantity) else (li_priceId x, li_quantity x)) items,
     ur_policies = p, ur_calculatedAt = now\<rparr>"

definition persistSwap ::
  "('d, 'x) mutation_db_scheme sub_deps \<Rightarrow> sub_ids \<Rightarrow> authorization_context option \<Rightarrow> subscription
    \<Rightarrow> subscription_item \<times> subscription_item list \<Rightarrow> string \<Rightarrow> change_policies \<Rightarrow> subscription_dto
    \<Rightarrow> (('d, 'x) mutation_db_scheme, subscription) io" where
  "persistSwap d ids auth s selection price p dto =
    (let immediately = (ch_effectiveTiming p = ET_immediate); item = fst selection in
    andThen (updateSubscription (sub_id s) (no_patch\<lparr>
        sp_priceId := (if immediately \<and> length (snd selection) = 1 then Some (Some price) else None),
        sp_status := Some (reconcileStatus (sub_status s) (sd_status dto))\<rparr>) (sx_tenant d)) (\<lambda>updated.
    andThen (if immediately then updateItemById (sub_id s) (it_id item)
        \<lparr>xp_priceId = Some price, xp_providerItemId = None, xp_quantity = None\<rparr> (sx_tenant d) else ret ()) (\<lambda>_.
    andThen (auditWith d ids auth ''subscription.swapped'' (sub_id s)
      [(''itemId'', HV_text (it_id item)), (''priceId'', HV_text (li_priceId item))]
      (if immediately then [(''itemId'', HV_text (it_id item)), (''priceId'', HV_text price)]
       else [(''itemId'', HV_text (it_id item)), (''priceId'', HV_text (li_priceId item)),
         (''proposedPriceId'', HV_text price), (''effectiveTiming'', HV_text
           (if ch_effectiveTiming p = ET_nextRenewal then ''nextRenewal'' else ''scheduled''))])) (\<lambda>_. ret updated))))"

definition swapSubscription ::
  "('d, 'x) mutation_db_scheme sub_deps \<Rightarrow> sub_ids \<Rightarrow> subscription_request \<Rightarrow> string \<Rightarrow> ident option
    \<Rightarrow> change_policies option \<Rightarrow> (('d, 'x) mutation_db_scheme, subscription) io" where
  "swapSubscription d ids r price itemId policies =
    andThen (assertAuthorized (sx_authorizationEnabled d) (sr_authorization r)) (\<lambda>_.
    case policies of
      None \<Rightarrow> throw (PayableError ''SUBSCRIPTION_CHANGE_POLICY_REQUIRED'')
    | Some p \<Rightarrow>
        andThen (managedSubscription d r) (\<lambda>(s, psub).
        andThen (subscriptionProvider d OP_changePrice) (\<lambda>provider.
        andThen (selectItem d s itemId) (\<lambda>selection.
        andThen (liftResult (operationContext d ids ''swap'' psub (Some price) True)) (\<lambda>context.
        andThen (liftResult (encodeIntent (swap_projection (fst selection) (snd selection) price p))) (\<lambda>intent.
        mutateSubscription d ids (sub_id s) MO_swap (Some intent)
          (andThen (readState idem_now) (\<lambda>now. mg_update provider
            (update_request_of psub (fst selection) (snd selection) price (li_quantity (fst selection)) p now) context))
          (persistSwap d ids (sr_authorization r) s selection price p)))))))"

definition projectsCanonicalQuantity :: "subscription \<Rightarrow> subscription_item \<times> subscription_item list \<Rightarrow> bool" where
  "projectsCanonicalQuantity s selection \<longleftrightarrow> length (snd selection) = 1
     \<or> (case filter (\<lambda>x. Some (li_priceId x) = sub_canonicalPriceId s \<and> Some (li_quantity x) = sub_acceptedQuantity s) (snd selection) of
          [x] \<Rightarrow> it_id x = it_id (fst selection) | _ \<Rightarrow> False)"

definition quantity_projection :: "subscription \<Rightarrow> subscription_item \<times> subscription_item list \<Rightarrow> int \<Rightarrow> mutation_projection" where
  "quantity_projection s selection quantity = (let item = fst selection in \<lparr>mp_itemId = it_id item,
     mp_source = \<lparr>mv_priceId = li_priceId item, mv_quantity = li_quantity item\<rparr>,
     mp_target = \<lparr>mv_priceId = li_priceId item, mv_quantity = quantity\<rparr>,
     mp_projectItem = True, mp_projectSubscriptionPrice = False,
     mp_projectSubscriptionQuantity = projectsCanonicalQuantity s selection\<rparr>)"

definition persistQuantity ::
  "('d, 'x) mutation_db_scheme sub_deps \<Rightarrow> sub_ids \<Rightarrow> authorization_context option \<Rightarrow> subscription
    \<Rightarrow> subscription_item \<times> subscription_item list \<Rightarrow> int \<Rightarrow> subscription_dto
    \<Rightarrow> (('d, 'x) mutation_db_scheme, subscription) io" where
  "persistQuantity d ids auth s selection quantity dto =
    (let project = projectsCanonicalQuantity s selection; item = fst selection in
    andThen (updateSubscription (sub_id s) (no_patch\<lparr>
        sp_quantity := (if project then Some quantity else None),
        sp_acceptedQuantity := (if project \<and> sub_acceptedQuantity s \<noteq> None then Some (Some quantity) else None),
        sp_status := Some (reconcileStatus (sub_status s) (sd_status dto))\<rparr>) (sx_tenant d)) (\<lambda>updated.
    andThen (updateItemById (sub_id s) (it_id item)
        \<lparr>xp_priceId = None, xp_providerItemId = None, xp_quantity = Some quantity\<rparr> (sx_tenant d)) (\<lambda>_.
    andThen (auditWith d ids auth ''subscription.quantity_updated'' (sub_id s)
      [(''itemId'', HV_text (it_id item)), (''quantity'', HV_number (li_quantity item))]
      [(''itemId'', HV_text (it_id item)), (''quantity'', HV_number quantity)]) (\<lambda>_. ret updated))))"

definition updateSubscriptionQuantity ::
  "('d, 'x) mutation_db_scheme sub_deps \<Rightarrow> sub_ids \<Rightarrow> subscription_request \<Rightarrow> int \<Rightarrow> ident option
    \<Rightarrow> change_policies option \<Rightarrow> (('d, 'x) mutation_db_scheme, subscription) io" where
  "updateSubscriptionQuantity d ids r quantity itemId policies =
    andThen (assertAuthorized (sx_authorizationEnabled d) (sr_authorization r)) (\<lambda>_.
    andThen (guardE (\<not> quantity < 1) (PayableError ''SUBSCRIPTION_INVALID_QUANTITY'')) (\<lambda>_.
    case policies of
      None \<Rightarrow> throw (PayableError ''SUBSCRIPTION_CHANGE_POLICY_REQUIRED'')
    | Some p \<Rightarrow>
        andThen (managedSubscription d r) (\<lambda>(s, psub).
        andThen (subscriptionProvider d OP_changeQuantity) (\<lambda>provider.
        andThen (selectItem d s itemId) (\<lambda>selection.
        andThen (liftResult (operationContext d ids ''quantity'' psub (Some (show_int quantity)) True)) (\<lambda>context.
        andThen (liftResult (encodeIntent (quantity_projection s selection quantity))) (\<lambda>intent.
        mutateSubscription d ids (sub_id s) MO_quantity_update (Some intent)
          (andThen (readState idem_now) (\<lambda>now. mg_update provider
            (update_request_of psub (fst selection) (snd selection) (li_priceId (fst selection)) quantity p now) context))
          (persistQuantity d ids (sr_authorization r) s selection quantity))))))))"

section \<open>A lost write is recovered by the resolution\<close>

definition item_terms :: "subscription_item \<Rightarrow> ident \<times> ident \<times> string \<times> int \<times> string option" where
  "item_terms x = (it_id x, it_subscriptionId x, li_priceId x, li_quantity x, it_providerItemId x)"

definition sub_terms :: "subscription \<Rightarrow> ident \<times> string option \<times> int \<times> int option" where
  "sub_terms s = (sub_id s, sub_priceId s, sub_quantity s, sub_acceptedQuantity s)"

definition same_terms :: "('d, 'x) mutation_db_scheme \<Rightarrow> ('d, 'x) mutation_db_scheme \<Rightarrow> bool" where
  "same_terms a b \<longleftrightarrow> map item_terms (hk_items a) = map item_terms (hk_items b)
     \<and> map sub_terms (hk_subscriptions a) = map sub_terms (hk_subscriptions b)"

text \<open>The primary keys of the two tables.\<close>

definition table_keys :: "('d, 'x) mutation_db_scheme \<Rightarrow> bool" where
  "table_keys w \<longleftrightarrow> distinct (map it_id (hk_items w)) \<and> distinct (map sub_id (hk_subscriptions w))"

definition terms_kept :: "(('d, 'x) mutation_db_scheme, 'a) io \<Rightarrow> bool" where
  "terms_kept m \<longleftrightarrow> (\<forall>v. hk_items (snd (m v)) = hk_items v \<and> hk_subscriptions (snd (m v)) = hk_subscriptions v)"

lemma terms_keptD: "terms_kept m \<Longrightarrow> m v = (r, v') \<Longrightarrow> hk_items v' = hk_items v \<and> hk_subscriptions v' = hk_subscriptions v"
  by (auto simp: terms_kept_def dest: spec [of _ v])

lemma terms_kept_rules:
  "terms_kept m \<Longrightarrow> (\<And>x. terms_kept (f x)) \<Longrightarrow> terms_kept (andThen m f)"
  "terms_kept (ret x)" "terms_kept (throw e)" "terms_kept (readState g)" "terms_kept (liftResult r)"
  "terms_kept (on_audit a)" "terms_kept (on_outbox b)" "terms_kept (updateClaimsWhere P h)"
  by (auto simp: terms_kept_def andThen_def on_audit_def on_outbox_def updateClaimsWhere_def
      split: prod.split sum.split) (metis snd_conv)+

lemma read_claim_kept: "terms_kept (read_claim row)"
  by (auto simp: read_claim_def split: option.split intro!: terms_kept_rules)

lemma find_claim_kept: "terms_kept (findClaimByReference reference t)"
  unfolding findClaimByReference_def by (intro terms_kept_rules read_claim_kept)

lemma resolveClaim_kept: "terms_kept (resolveClaim reference t owner outcome evidence at)"
  unfolding resolveClaim_def by (auto intro!: terms_kept_rules find_claim_kept)

lemma recordResolution_kept: "terms_kept (recordResolution digest ids before after)"
  unfolding recordResolution_def record_claim_def by (intro terms_kept_rules)

lemma auditWith_kept: "terms_kept (auditWith d ids auth action i before after)"
  unfolding auditWith_def by (intro terms_kept_rules)

lemma resolve_projects:
  assumes run: "resolveSubscriptionMutationClaim digest ids c Was_applied evidence at w = (Inr r, w')"
    and c: "mc_status c = Claim_active" "mc_operation c \<in> set PROJECTING_OPERATIONS"
  shows "\<exists>v. projectDirectMutation c w = (Inr (), v) \<and> hk_items w' = hk_items v \<and> hk_subscriptions w' = hk_subscriptions v"
proof -
  have "mc_operation c \<noteq> MO_price_migration" using c(2) by (auto simp: PROJECTING_OPERATIONS_def)
  with run c obtain v v1 x where v: "projectDirectMutation c w = (Inr (), v)"
      "resolveClaim (mc_reference c) (mc_tenant c) (mc_ownerToken c) Was_applied evidence at v = (Inr (Some x), v1)"
      "recordResolution digest ids c x v1 = (Inr (), w')"
    by (auto simp: resolveSubscriptionMutationClaim_def andThen_Inr_iff guardE_def split: option.split_asm)
  with terms_keptD [OF resolveClaim_kept v(2)] terms_keptD [OF recordResolution_kept v(3)] show ?thesis by auto
qed

lemma find_by_id:
  assumes "distinct (map it_id (hk_items w))" and "find (\<lambda>x. it_id x = i) (fst_items) = Some item"
    and "listBySubscription j t w = (Inr fst_items, w)"
  shows "item \<in> set (hk_items w) \<and> it_id item = i \<and> it_subscriptionId item = j \<and> subscriptionScope j t w
    \<and> (\<forall>x \<in> set (hk_items w). it_id x = i \<longrightarrow> x = item)"
proof -
  have "item \<in> set fst_items" "it_id item = i" using find_SomeD [OF assms(2)] by auto
  then have item: "item \<in> set (hk_items w)" "it_id item = i" "it_subscriptionId item = j" "subscriptionScope j t w"
    using assms(3) by (auto simp: listBySubscription_def dest!: in_set_takeD)
  have "inj_on it_id (set (hk_items w))" using assms(1) by (simp add: distinct_map)
  then have "x = item" if "x \<in> set (hk_items w)" "it_id x = i" for x
    using that item by (metis inj_onD)
  with item show ?thesis by blast
qed

lemma bex_map: "(\<exists>y \<in> set (map g xs). P y) = (\<exists>x \<in> set xs. P (g x))"
  by auto

lemma scope_patched [simp]:
  "subscriptionScope j t (w\<lparr>hk_subscriptions := map (\<lambda>s. if scopedSubscription i t' s then patchSubscription u n s else s)
      (hk_subscriptions w)\<rparr>) = subscriptionScope j t w"
proof -
  let ?g = "\<lambda>s. if scopedSubscription i t' s then patchSubscription u n s else s"
  have rows: "hk_subscriptions (w\<lparr>hk_subscriptions := map ?g (hk_subscriptions w)\<rparr>) = map ?g (hk_subscriptions w)" by simp
  have "scopedSubscription j t (?g s) = scopedSubscription j t s" for s
    by (simp add: scopedSubscription_def patchSubscription_def)
  then show ?thesis unfolding subscriptionScope_def rows bex_map by simp
qed

lemma subscriptionScope_cong: "hk_subscriptions a = hk_subscriptions b \<Longrightarrow> subscriptionScope j t a = subscriptionScope j t b"
  by (simp add: subscriptionScope_def)

text \<open>What the resolution does to the terms.\<close>

lemma projectDirectMutation_terms:
  assumes run: "projectDirectMutation c w = (Inr (), v)" and blob: "mc_intent c = Some b" "decodeIntent b = Inr p"
    and keys: "table_keys w"
  obtains item s where "item \<in> set (hk_items w)" "it_id item = mp_itemId p" "it_subscriptionId item = mc_subscriptionId c"
      "subscriptionScope (mc_subscriptionId c) (mc_tenant c) w"
      "sameMutationValue item (mp_target p) \<or> sameMutationValue item (mp_source p)"
      "find (scopedSubscription (mc_subscriptionId c) (mc_tenant c)) (hk_subscriptions w) = Some s"
      "map item_terms (hk_items v) = map (\<lambda>x. item_terms (if mp_projectItem p \<and> it_id x = mp_itemId p
         then x\<lparr>li_priceId := mv_priceId (mp_target p), li_quantity := mv_quantity (mp_target p)\<rparr> else x)) (hk_items w)"
      "map sub_terms (hk_subscriptions v) = map (\<lambda>x. sub_terms
         (if scopedSubscription (mc_subscriptionId c) (mc_tenant c) x then patchSubscription (projection_patch p s) 0 x else x))
         (hk_subscriptions w)"
proof -
  obtain items where items: "listBySubscription (mc_subscriptionId c) (mc_tenant c) w = (Inr items, w)"
    by (simp add: listBySubscription_def)
  obtain found where found: "find (scopedSubscription (mc_subscriptionId c) (mc_tenant c)) (hk_subscriptions w) = found" by simp
  obtain item s where item: "find (\<lambda>x. it_id x = mp_itemId p) items = Some item" and s: "found = Some s"
    using run blob items found
    by (auto simp: projectDirectMutation_def andThen_liftResult andThen_def findSubscription_def split: option.split_asm)
  note i = find_by_id [OF conjunct1 [OF keys [unfolded table_keys_def]] item items]
  have inj: "inj_on sub_id (set (hk_subscriptions w))" using keys by (simp add: table_keys_def distinct_map)
  have s': "s \<in> set (hk_subscriptions w)" "scopedSubscription (mc_subscriptionId c) (mc_tenant c) s"
    using found s find_SomeD by fastforce+
  have only: "x = s" if "x \<in> set (hk_subscriptions w)" "scopedSubscription (mc_subscriptionId c) (mc_tenant c) x" for x
    by (rule inj_onD [OF inj _ that(1) s'(1)]) (use that(2) s'(2) in \<open>simp add: scopedSubscription_def\<close>)
  let ?target = "sameMutationValue item (mp_target p) \<and> subscriptionMatchesProjection s (mp_target p) p"
  let ?source = "sameMutationValue item (mp_source p) \<and> subscriptionMatchesProjection s (mp_source p) p"
  show thesis
  proof (cases ?target)
    case True
    then have "v = w" using run blob items found item s
      by (simp add: projectDirectMutation_def andThen_liftResult andThen_def findSubscription_def)
    moreover have "item_terms (if mp_projectItem p \<and> it_id x = mp_itemId p
         then x\<lparr>li_priceId := mv_priceId (mp_target p), li_quantity := mv_quantity (mp_target p)\<rparr> else x) = item_terms x"
      if "x \<in> set (hk_items w)" for x
      using i that True by (auto simp: item_terms_def sameMutationValue_def)
    moreover have "sub_terms (if scopedSubscription (mc_subscriptionId c) (mc_tenant c) x
         then patchSubscription (projection_patch p s) 0 x else x) = sub_terms x" if "x \<in> set (hk_subscriptions w)" for x
      using only [OF that] True
      by (auto simp: sub_terms_def patchSubscription_def projection_patch_def no_patch_def patched_def subscriptionMatchesProjection_def)
    ultimately show thesis using i True found s by (intro that [of item s]) simp_all
  next
    case False
    with run blob items found item s have src: ?source
      by (auto simp: projectDirectMutation_def andThen_liftResult andThen_def findSubscription_def split: if_split_asm)
    let ?upd = "\<lambda>v. map item_terms (hk_items v) = map (\<lambda>x. item_terms (if mp_projectItem p \<and> it_id x = mp_itemId p
         then x\<lparr>li_priceId := mv_priceId (mp_target p), li_quantity := mv_quantity (mp_target p)\<rparr> else x)) (hk_items w)"
    have "applyProjection c p s w = (Inr (), v)"
      using run blob items found item s False src
      by (simp add: projectDirectMutation_def andThen_liftResult andThen_def findSubscription_def)
    then obtain u w1 where item_run: "(if mp_projectItem p
          then updateItemById (mc_subscriptionId c) (mp_itemId p) \<lparr>xp_priceId = Some (mv_priceId (mp_target p)),
            xp_providerItemId = None, xp_quantity = Some (mv_quantity (mp_target p))\<rparr> (mc_tenant c) else ret ()) w = (Inr u, w1)"
        and sub_run: "(if mp_projectSubscriptionPrice p \<or> mp_projectSubscriptionQuantity p
          then andThen (updateSubscription (mc_subscriptionId c) (projection_patch p s) (mc_tenant c)) (\<lambda>_. ret ()) else ret ()) w1
        = (Inr (), v)"
      unfolding applyProjection_def andThen_Inr_iff by blast
    have "hk_subscriptions w1 = hk_subscriptions w \<and> ?upd w1"
    proof (cases "mp_projectItem p")
      case True
      have "(it_id x = mp_itemId p \<and> it_subscriptionId x = mc_subscriptionId c) = (it_id x = mp_itemId p)"
        if "x \<in> set (hk_items w)" for x using i that by auto
      with item_run True i show ?thesis by (auto simp: updateItemById_def item_terms_def patched_def)
    next
      case False
      with item_run show ?thesis by simp
    qed
    note w1 = conjunct1 [OF this] conjunct2 [OF this] sub_run
    have "hk_items v = hk_items w1 \<and> map sub_terms (hk_subscriptions v) = map (\<lambda>x. sub_terms
         (if scopedSubscription (mc_subscriptionId c) (mc_tenant c) x then patchSubscription (projection_patch p s) 0 x else x))
         (hk_subscriptions w)"
    proof (cases "mp_projectSubscriptionPrice p \<or> mp_projectSubscriptionQuantity p")
      case True
      with w1(3) obtain x where "updateSubscription (mc_subscriptionId c) (projection_patch p s) (mc_tenant c) w1 = (Inr x, v)"
        by (auto simp: andThen_Inr_iff)
      from updateSubscription_state [OF this] w1(1) show ?thesis
        by (simp add: sub_terms_def patchSubscription_def cong: if_cong)
    next
      case False
      with w1(3) have "v = w1" by simp
      moreover have "sub_terms (patchSubscription (projection_patch p s) 0 x) = sub_terms x" for x
        using False by (simp add: sub_terms_def patchSubscription_def projection_patch_def no_patch_def patched_def)
      ultimately show ?thesis using w1(1) by (simp cong: if_cong)
    qed
    with w1 i src found s show thesis by (intro that [of item s]) simp_all
  qed
qed

lemma persistSwap_terms:
  assumes run: "persistSwap d ids auth s (item, items) price p dto w = (Inr u, w2)"
  shows "map item_terms (hk_items w2) = map (\<lambda>x. item_terms (if ch_effectiveTiming p = ET_immediate \<and> it_id x = it_id item
       \<and> it_subscriptionId x = sub_id s \<and> subscriptionScope (sub_id s) (sx_tenant d) w then x\<lparr>li_priceId := price\<rparr> else x)) (hk_items w)
    \<and> map sub_terms (hk_subscriptions w2) = map (\<lambda>x. sub_terms (if scopedSubscription (sub_id s) (sx_tenant d) x
       \<and> ch_effectiveTiming p = ET_immediate \<and> length items = 1 then x\<lparr>sub_priceId := Some price\<rparr> else x)) (hk_subscriptions w)"
proof -
  let ?patch = "no_patch\<lparr>sp_priceId := (if ch_effectiveTiming p = ET_immediate \<and> length items = 1 then Some (Some price) else None),
        sp_status := Some (reconcileStatus (sub_status s) (sd_status dto))\<rparr>"
  obtain x1 v1 v2 where up: "updateSubscription (sub_id s) ?patch (sx_tenant d) w = (Inr x1, v1)"
      and item: "(if ch_effectiveTiming p = ET_immediate then updateItemById (sub_id s) (it_id item)
        \<lparr>xp_priceId = Some price, xp_providerItemId = None, xp_quantity = None\<rparr> (sx_tenant d) else ret ()) v1 = (Inr (), v2)"
      and audit: "hk_items w2 = hk_items v2 \<and> hk_subscriptions w2 = hk_subscriptions v2"
    using run unfolding persistSwap_def Let_def andThen_Inr_iff fst_conv snd_conv
    by (auto simp: andThen_Inr_iff dest!: terms_keptD [OF auditWith_kept])
  note v1 = updateSubscription_state [OF up]
  have scope: "subscriptionScope (sub_id s) (sx_tenant d) v1 = subscriptionScope (sub_id s) (sx_tenant d) w" by (simp add: v1)
  have v2: "hk_subscriptions v2 = hk_subscriptions v1"
    "map item_terms (hk_items v2) = map (\<lambda>x. item_terms (if ch_effectiveTiming p = ET_immediate \<and> it_id x = it_id item
       \<and> it_subscriptionId x = sub_id s \<and> subscriptionScope (sub_id s) (sx_tenant d) w then x\<lparr>li_priceId := price\<rparr> else x)) (hk_items v1)"
    using item by (auto simp: updateItemById_def scope item_terms_def patched_def split: if_split_asm)
  moreover have "map sub_terms (hk_subscriptions v1) = map (\<lambda>x. sub_terms (if scopedSubscription (sub_id s) (sx_tenant d) x
       \<and> ch_effectiveTiming p = ET_immediate \<and> length items = 1 then x\<lparr>sub_priceId := Some price\<rparr> else x)) (hk_subscriptions w)"
    by (auto simp: v1 sub_terms_def patchSubscription_def no_patch_def patched_def)
  moreover have "hk_items v1 = hk_items w" by (simp add: v1)
  ultimately show ?thesis using audit by simp
qed

lemma persistQuantity_terms:
  assumes run: "persistQuantity d ids auth s (item, items) quantity dto w = (Inr u, w2)"
  shows "map item_terms (hk_items w2) = map (\<lambda>x. item_terms (if it_id x = it_id item
       \<and> it_subscriptionId x = sub_id s \<and> subscriptionScope (sub_id s) (sx_tenant d) w then x\<lparr>li_quantity := quantity\<rparr> else x)) (hk_items w)
    \<and> map sub_terms (hk_subscriptions w2) = map (\<lambda>x. sub_terms (if scopedSubscription (sub_id s) (sx_tenant d) x
       \<and> projectsCanonicalQuantity s (item, items) then x\<lparr>sub_quantity := quantity, sub_acceptedQuantity :=
          (if sub_acceptedQuantity s = None then sub_acceptedQuantity x else Some quantity)\<rparr> else x)) (hk_subscriptions w)"
proof -
  let ?project = "projectsCanonicalQuantity s (item, items)"
  let ?patch = "no_patch\<lparr>sp_quantity := (if ?project then Some quantity else None),
        sp_acceptedQuantity := (if ?project \<and> sub_acceptedQuantity s \<noteq> None then Some (Some quantity) else None),
        sp_status := Some (reconcileStatus (sub_status s) (sd_status dto))\<rparr>"
  obtain x1 v1 v2 where up: "updateSubscription (sub_id s) ?patch (sx_tenant d) w = (Inr x1, v1)"
      and item: "updateItemById (sub_id s) (it_id item)
        \<lparr>xp_priceId = None, xp_providerItemId = None, xp_quantity = Some quantity\<rparr> (sx_tenant d) v1 = (Inr (), v2)"
      and audit: "hk_items w2 = hk_items v2 \<and> hk_subscriptions w2 = hk_subscriptions v2"
    using run unfolding persistQuantity_def Let_def andThen_Inr_iff fst_conv snd_conv
    by (auto simp: andThen_Inr_iff dest!: terms_keptD [OF auditWith_kept])
  note v1 = updateSubscription_state [OF up]
  have scope: "subscriptionScope (sub_id s) (sx_tenant d) v1 = subscriptionScope (sub_id s) (sx_tenant d) w" by (simp add: v1)
  have v2: "hk_subscriptions v2 = hk_subscriptions v1"
    "map item_terms (hk_items v2) = map (\<lambda>x. item_terms (if it_id x = it_id item
       \<and> it_subscriptionId x = sub_id s \<and> subscriptionScope (sub_id s) (sx_tenant d) w then x\<lparr>li_quantity := quantity\<rparr> else x)) (hk_items v1)"
    using item by (auto simp: updateItemById_def scope item_terms_def patched_def)
  moreover have "map sub_terms (hk_subscriptions v1) = map (\<lambda>x. sub_terms (if scopedSubscription (sub_id s) (sx_tenant d) x
       \<and> ?project then x\<lparr>sub_quantity := quantity, sub_acceptedQuantity :=
          (if sub_acceptedQuantity s = None then sub_acceptedQuantity x else Some quantity)\<rparr> else x)) (hk_subscriptions w)"
    by (auto simp: v1 sub_terms_def patchSubscription_def no_patch_def patched_def)
  moreover have "hk_items v1 = hk_items w" by (simp add: v1)
  ultimately show ?thesis using audit by simp
qed

lemma resolved_intent:
  assumes run: "resolveSubscriptionMutationClaim digest ids c Was_applied evidence at w = (Inr r, w')"
    and c: "mc_status c = Claim_active" "mc_operation c \<in> set PROJECTING_OPERATIONS"
    and blob: "mc_intent c = Some b" "encodeIntent p = Inr b"
  shows "decodeIntent b = Inr p \<and> valid_projection p"
proof -
  have "decodeIntent b = (if valid_projection p then Inr p else Inl TypeError)"
    using intent_roundtrip [of p] blob(2) by (simp add: bindE_def)
  moreover have "\<exists>q. decodeIntent b = Inr q"
    using resolve_projects [OF run c] blob(1)
    by (cases "decodeIntent b") (auto simp: projectDirectMutation_def andThen_liftResult)
  ultimately show ?thesis by (auto split: if_split_asm)
qed

lemma only_scoped:
  assumes "table_keys w" and "find (scopedSubscription i t) (hk_subscriptions w) = Some s0"
    and "x \<in> set (hk_subscriptions w)" and "scopedSubscription i t x"
  shows "x = s0"
proof -
  have "inj_on sub_id (set (hk_subscriptions w))" using assms(1) by (simp add: table_keys_def distinct_map)
  moreover have "s0 \<in> set (hk_subscriptions w)" "sub_id s0 = sub_id x"
    using find_SomeD [OF assms(2)] assms(4) by (auto simp: scopedSubscription_def)
  ultimately show ?thesis using assms(3) by (metis inj_onD)
qed

lemma only_item:
  assumes "table_keys w" and "item \<in> set (hk_items w)" and "x \<in> set (hk_items w)" and "it_id x = it_id item"
  shows "x = item"
proof -
  have "inj_on it_id (set (hk_items w))" using assms(1) by (simp add: table_keys_def distinct_map)
  then show ?thesis using assms by (metis inj_onD)
qed

lemma swap_recovered:
  assumes keys: "table_keys w" and c: "mc_status c = Claim_active" "mc_subscriptionId c = sub_id s" "mc_tenant c = sx_tenant d"
    and blob: "mc_intent c = Some b"
    and run: "resolveSubscriptionMutationClaim digest ids c Was_applied evidence at w = (Inr r, w1)"
    and op: "mc_operation c = MO_swap" and enc: "encodeIntent (swap_projection item items price p) = Inr b"
    and persist: "persistSwap d ids' auth s (item, items) price p dto w = (Inr u, w2)"
  shows "same_terms w1 w2"
proof -
  have proj: "mc_operation c \<in> set PROJECTING_OPERATIONS" by (simp add: op PROJECTING_OPERATIONS_def)
  note dec = resolved_intent [OF run c(1) proj blob enc]
  obtain v where v: "projectDirectMutation c w = (Inr (), v)" "hk_items w1 = hk_items v" "hk_subscriptions w1 = hk_subscriptions v"
    using resolve_projects [OF run c(1) proj] by blast
  obtain found s0 where f: "found \<in> set (hk_items w)" "it_id found = it_id item" "it_subscriptionId found = sub_id s"
      "subscriptionScope (sub_id s) (sx_tenant d) w" "li_quantity found = li_quantity item"
      "find (scopedSubscription (sub_id s) (sx_tenant d)) (hk_subscriptions w) = Some s0"
      "map item_terms (hk_items v) = map (\<lambda>x. item_terms (if ch_effectiveTiming p = ET_immediate \<and> it_id x = it_id item
         then x\<lparr>li_priceId := price, li_quantity := li_quantity item\<rparr> else x)) (hk_items w)"
      "map sub_terms (hk_subscriptions v) = map (\<lambda>x. sub_terms (if scopedSubscription (sub_id s) (sx_tenant d) x
         then patchSubscription (projection_patch (swap_projection item items price p) s0) 0 x else x)) (hk_subscriptions w)"
    by (rule projectDirectMutation_terms [OF v(1) blob conjunct1 [OF dec] keys])
      (auto simp: swap_projection_def sameMutationValue_def c(2,3))
  have "item_terms (if ch_effectiveTiming p = ET_immediate \<and> it_id x = it_id item
         then x\<lparr>li_priceId := price, li_quantity := li_quantity item\<rparr> else x)
      = item_terms (if ch_effectiveTiming p = ET_immediate \<and> it_id x = it_id item
       \<and> it_subscriptionId x = sub_id s \<and> subscriptionScope (sub_id s) (sx_tenant d) w then x\<lparr>li_priceId := price\<rparr> else x)"
    if "x \<in> set (hk_items w)" for x
    using only_item [OF keys f(1) that] f(2-5) by (auto simp: item_terms_def)
  moreover have "sub_terms (if scopedSubscription (sub_id s) (sx_tenant d) x
         then patchSubscription (projection_patch (swap_projection item items price p) s0) 0 x else x)
      = sub_terms (if scopedSubscription (sub_id s) (sx_tenant d) x
       \<and> ch_effectiveTiming p = ET_immediate \<and> length items = 1 then x\<lparr>sub_priceId := Some price\<rparr> else x)" for x
    by (simp add: sub_terms_def patchSubscription_def projection_patch_def swap_projection_def no_patch_def patched_def)
  ultimately show ?thesis
    using persistSwap_terms [OF persist] f(7,8) v(2,3) by (simp add: same_terms_def)
qed

lemma quantity_recovered:
  assumes keys: "table_keys w" and c: "mc_status c = Claim_active" "mc_subscriptionId c = sub_id s" "mc_tenant c = sx_tenant d"
    and blob: "mc_intent c = Some b"
    and run: "resolveSubscriptionMutationClaim digest ids c Was_applied evidence at w = (Inr r, w1)"
    and stale: "\<And>x. x \<in> set (hk_subscriptions w) \<Longrightarrow> scopedSubscription (sub_id s) (sx_tenant d) x \<Longrightarrow>
      (sub_acceptedQuantity x = None) = (sub_acceptedQuantity s = None)"
    and op: "mc_operation c = MO_quantity_update"
    and enc: "encodeIntent (quantity_projection s (item, items) quantity) = Inr b"
    and persist: "persistQuantity d ids' auth s (item, items) quantity dto w = (Inr u, w2)"
  shows "same_terms w1 w2"
proof -
  have proj: "mc_operation c \<in> set PROJECTING_OPERATIONS" by (simp add: op PROJECTING_OPERATIONS_def)
  note dec = resolved_intent [OF run c(1) proj blob enc]
  obtain v where v: "projectDirectMutation c w = (Inr (), v)" "hk_items w1 = hk_items v" "hk_subscriptions w1 = hk_subscriptions v"
    using resolve_projects [OF run c(1) proj] by blast
  obtain found s0 where f: "found \<in> set (hk_items w)" "it_id found = it_id item" "it_subscriptionId found = sub_id s"
      "subscriptionScope (sub_id s) (sx_tenant d) w" "li_priceId found = li_priceId item"
      "find (scopedSubscription (sub_id s) (sx_tenant d)) (hk_subscriptions w) = Some s0"
      "map item_terms (hk_items v) = map (\<lambda>x. item_terms (if it_id x = it_id item
         then x\<lparr>li_priceId := li_priceId item, li_quantity := quantity\<rparr> else x)) (hk_items w)"
      "map sub_terms (hk_subscriptions v) = map (\<lambda>x. sub_terms (if scopedSubscription (sub_id s) (sx_tenant d) x
         then patchSubscription (projection_patch (quantity_projection s (item, items) quantity) s0) 0 x else x)) (hk_subscriptions w)"
    by (rule projectDirectMutation_terms [OF v(1) blob conjunct1 [OF dec] keys])
      (auto simp: quantity_projection_def sameMutationValue_def c(2,3))
  have "item_terms (if it_id x = it_id item then x\<lparr>li_priceId := li_priceId item, li_quantity := quantity\<rparr> else x)
      = item_terms (if it_id x = it_id item
       \<and> it_subscriptionId x = sub_id s \<and> subscriptionScope (sub_id s) (sx_tenant d) w then x\<lparr>li_quantity := quantity\<rparr> else x)"
    if "x \<in> set (hk_items w)" for x
    using only_item [OF keys f(1) that] f(2-5) by (auto simp: item_terms_def)
  moreover have "sub_terms (if scopedSubscription (sub_id s) (sx_tenant d) x
         then patchSubscription (projection_patch (quantity_projection s (item, items) quantity) s0) 0 x else x)
      = sub_terms (if scopedSubscription (sub_id s) (sx_tenant d) x
       \<and> projectsCanonicalQuantity s (item, items) then x\<lparr>sub_quantity := quantity, sub_acceptedQuantity :=
          (if sub_acceptedQuantity s = None then sub_acceptedQuantity x else Some quantity)\<rparr> else x)"
    if "x \<in> set (hk_subscriptions w)" for x
    using only_scoped [OF keys f(6) that] stale that
    by (auto simp: sub_terms_def patchSubscription_def projection_patch_def quantity_projection_def no_patch_def patched_def)
  ultimately show ?thesis
    using persistQuantity_terms [OF persist] f(7,8) v(2,3) by (simp add: same_terms_def)
qed

text \<open>
  C8. A lost write is recovered exactly. When the provider applied a swap or a quantity change and
  the answer could not be stored, resolving the claim as applied leaves the items and the
  subscription with the prices and quantities that storing the answer would have left.
\<close>

theorem lost_write_recovered:
  assumes keys: "table_keys w" and c: "mc_status c = Claim_active" "mc_subscriptionId c = sub_id s" "mc_tenant c = sx_tenant d"
    and blob: "mc_intent c = Some b"
    and run: "resolveSubscriptionMutationClaim digest ids c Was_applied evidence at w = (Inr r, w1)"
    and stale: "\<forall>x \<in> set (hk_subscriptions w). scopedSubscription (sub_id s) (sx_tenant d) x
      \<longrightarrow> (sub_acceptedQuantity x = None) = (sub_acceptedQuantity s = None)"
  shows "(mc_operation c = MO_swap \<and> encodeIntent (swap_projection item items price p) = Inr b
      \<and> persistSwap d ids' auth s (item, items) price p dto w = (Inr u, w2) \<longrightarrow> same_terms w1 w2)
    \<and> (mc_operation c = MO_quantity_update \<and> encodeIntent (quantity_projection s (item, items) quantity) = Inr b
      \<and> persistQuantity d ids' auth s (item, items) quantity dto w = (Inr u, w2) \<longrightarrow> same_terms w1 w2)"
  using swap_recovered [OF keys c blob run] quantity_recovered [OF keys c blob run] stale by blast

section \<open>Examples\<close>

definition example_managed :: subscription where
  "example_managed = \<lparr>sub_id = ''sub_1'', sub_tenant = None, sub_customerId = ''cus_1'', sub_name = ''default'',
     sub_provider = Some ''stripe'', sub_providerSubscriptionId = Some ''psub_1'', sub_status = S_active,
     sub_priceId = Some ''pro'', sub_quantity = 1, sub_canonicalPriceId = None, sub_canonicalProductId = None,
     sub_acceptedCurrency = None, sub_acceptedUnitAmount = None, sub_acceptedInterval = None, sub_acceptedIntervalCount = None,
     sub_acceptedQuantity = None, sub_collectionResponsibility = CR_provider, sub_creationSource = None, sub_trialEndsAt = None,
     sub_endsAt = Some 50, sub_currentPeriodStart = None, sub_currentPeriodEnd = Some 50, sub_providerSyncedAt = None,
     sub_scheduledChangeAction = None, sub_scheduledChangeEffectiveAt = None, sub_scheduledResumeAt = None,
     sub_resumeBillingPolicy = None, sub_paymentCollectionPauseBehavior = None, sub_paymentCollectionResumesAt = None,
     sub_createdAt = 0, sub_updatedAt = 0\<rparr>"

definition example_item :: "string \<Rightarrow> subscription_item" where
  "example_item price = \<lparr>li_priceId = price, li_quantity = 1, it_id = ''si_1'', it_subscriptionId = ''sub_1'',
     it_providerItemId = None, it_createdAt = 0, it_updatedAt = 0\<rparr>"

definition example_managed_db :: "subscription_status \<Rightarrow> claim_row list \<Rightarrow> unit mutation_db" where
  "example_managed_db status claims = (example_mutations claims)\<lparr>hk_subscriptions := [example_managed\<lparr>sub_status := status\<rparr>],
     hk_items := [example_item ''pro''],
     hk_bindings := [\<lparr>bi_id = ''bi_1'', bi_tenant = None, bi_subscriptionId = ''sub_1'', bi_provider = ''stripe'',
       bi_providerSubscriptionId = ''psub_1'', bi_providerSyncedAt = None, bi_updatedAt = 0\<rparr>]\<rparr>"

definition example_answer :: subscription_dto where
  "example_answer = \<lparr>sd_providerSubscriptionId = ''psub_1'', sd_status = S_active, sd_currentPeriodEnd = Some 60,
     sd_trialEndsAt = None, sd_scheduledChangeAction = None, sd_scheduledChangeEffectiveAt = None,
     sd_scheduledResumeAt = None, sd_resumeBillingPolicy = None, sd_paymentCollectionPauseBehavior = None,
     sd_paymentCollectionResumesAt = None, sd_items = None\<rparr>"

text \<open>A webhook that cancels the subscription is processed while the provider answers the resumption.\<close>

definition example_sub_deps :: "unit mutation_db sub_deps" where
  "example_sub_deps = \<lparr>sx_hasStorage = True, sx_tenant = None, sx_providerName = ''stripe'', sx_authorizationEnabled = False,
     sx_subscriptions = True, sx_management = Some \<lparr>mg_update = (\<lambda>_ _. ret example_answer), mg_cancel = (\<lambda>_ _ _. ret example_answer),
       mg_resume = (\<lambda>_ _ w. (Inr example_answer, w\<lparr>hk_subscriptions := [example_managed\<lparr>sub_status := S_canceled\<rparr>]\<rparr>))\<rparr>,
     sx_pause = None, sx_resumePaused = None, sx_collection = None, sx_cancelScheduled = None, sx_capabilities = None,
     sx_findByBillable = (\<lambda>_ _ _. ret (Some ''cus_1'')), sx_activeMigration = (\<lambda>_ _. ret False),
     sx_json = (\<lambda>_. []), sx_digest = (\<lambda>_. ''h''), sx_env = (\<lambda>w. w)\<rparr>"

definition example_sub_ids :: sub_ids where
  "example_sub_ids = \<lparr>si_correlation = ''c'', si_owner = ''o'', si_claim = ''k'', si_auditCorrelation = ''a'', si_audit = (\<lambda>n. show_nat n)\<rparr>"

definition example_sub_request :: subscription_request where
  "example_sub_request = \<lparr>sr_billableType = ''user'', sr_billableId = ''1'', sr_name = ''default'', sr_authorization = None\<rparr>"

definition outcome_statuses :: "(error + 'a) \<times> ('d, 'x) mutation_db_scheme \<Rightarrow> bool \<times> subscription_status list" where
  "outcome_statuses r = (case fst r of Inl _ \<Rightarrow> False | Inr _ \<Rightarrow> True, map sub_status (hk_subscriptions (snd r)))"

lemma canceled_subscription_revived:
  "outcome_statuses (resumeSubscription example_sub_deps example_sub_ids example_sub_request (example_managed_db S_active []))
     = (True, [S_active])"
  by code_simp


text \<open>
  The key of a cancellation does not name the attempt, so a second cancellation after a
  resumption carries the key of the first; those of a swap or a quantity change do not.
\<close>

lemma cancel_key_repeats:
  "map_sum id snd (operationContext d ids ''cancel'' psub None False) = map_sum id snd (operationContext d ids' ''cancel'' psub None False)"
  by (simp add: operationContext_def bindE_def split: sum.split)

definition example_policies :: change_policies where
  "example_policies = \<lparr>ch_effectiveTiming = ET_immediate, ch_effectiveAt = None, ch_prorationPolicy = ''none'',
     ch_paymentFailurePolicy = ''preventChange''\<rparr>"

definition example_intent :: intent_blob where
  "example_intent = (case encodeIntent (swap_projection (example_item ''pro'') [example_item ''pro''] ''max'' example_policies) of
     Inr b \<Rightarrow> b | Inl _ \<Rightarrow> \<lparr>ib_prefix = [], ib_value = None, ib_empty = True\<rparr>)"

definition example_swap_row :: claim_row where
  "example_swap_row = (claim_row_of (example_claim ''o'' MO_swap))\<lparr>mc_intent := Some example_intent\<rparr>"

definition example_swap_claim :: mutation_claim where
  "example_swap_claim = (case claimToEntity example_swap_row of Inr c \<Rightarrow> c)"

abbreviation example_resolution where
  "example_resolution \<equiv> resolveSubscriptionMutationClaim (\<lambda>_. ''h'') show_nat example_swap_claim Was_applied ''seen'' 200
     (example_managed_db S_active [example_swap_row])"

abbreviation example_persist where
  "example_persist \<equiv> persistSwap example_sub_deps example_sub_ids None example_managed (example_item ''pro'', [example_item ''pro''])
     ''max'' example_policies example_answer (example_managed_db S_active [example_swap_row])"

lemma example_resolution_applied:
  "(case fst example_resolution of Inl _ \<Rightarrow> [] | Inr _ \<Rightarrow> map item_terms (hk_items (snd example_resolution)))
     = [(''si_1'', ''sub_1'', ''max'', 1, None)]"
  by code_simp

lemma example_persist_stored: "(case fst example_persist of Inl _ \<Rightarrow> False | Inr _ \<Rightarrow> True)"
  by code_simp

theorem lost_write_recovered_witness:
  "\<exists>r w1 u w2. example_resolution = (Inr r, w1) \<and> example_persist = (Inr u, w2) \<and> same_terms w1 w2
     \<and> map item_terms (hk_items w2) = [(''si_1'', ''sub_1'', ''max'', 1, None)]"
proof -
  obtain r w1 where r: "example_resolution = (Inr r, w1)" "map item_terms (hk_items w1) = [(''si_1'', ''sub_1'', ''max'', 1, None)]"
    using example_resolution_applied by (cases "example_resolution") (auto split: sum.split_asm)
  obtain u w2 where u: "example_persist = (Inr u, w2)"
    using example_persist_stored by (cases "example_persist") (auto split: sum.split_asm)
  have keys: "table_keys (example_managed_db S_active [example_swap_row])"
    by (simp add: table_keys_def example_managed_db_def)
  have claim: "mc_status example_swap_claim = Claim_active" "mc_subscriptionId example_swap_claim = sub_id example_managed"
      "mc_tenant example_swap_claim = sx_tenant example_sub_deps" "mc_operation example_swap_claim = MO_swap"
      "mc_intent example_swap_claim = Some example_intent"
      "encodeIntent (swap_projection (example_item ''pro'') [example_item ''pro''] ''max'' example_policies) = Inr example_intent"
    by code_simp+
  have stale: "\<forall>x \<in> set (hk_subscriptions (example_managed_db S_active [example_swap_row])).
      scopedSubscription (sub_id example_managed) (sx_tenant example_sub_deps) x
      \<longrightarrow> (sub_acceptedQuantity x = None) = (sub_acceptedQuantity example_managed = None)"
    by (simp add: example_managed_db_def)
  have "same_terms w1 w2"
    using lost_write_recovered [OF keys claim(1,2,3,5) r(1) stale] claim(4,6) u by blast
  with r u show ?thesis by (auto simp: same_terms_def)
qed

end
