(* ===== verification/Price_Migrations.thy ===== *)
theory Price_Migrations
  imports Customers Subscription_Actions Subscription_Machine
begin

text \<open>
  The table of price migrations: its entity and rows, the checks a row passes when it is written
  and read (\<open>subscription-price-migration.mapper.ts\<close>, \<open>subscription-price-migration-json.ts\<close>,
  \<open>subscription-price-migration-lifecycle.mapper.ts\<close>), the guarded change of state
  (\<open>subscription-price-migration-cas.ts\<close>) and the repository
  (\<open>knex-subscription-price-migration.repository.ts\<close>) with the checks and keys of its table. A
  column of a closed union holds its constructor; a column with JSON text holds the value it parses
  to; the two items a foreign key asks for are there. A normalized currency is the answer of
  \<open>cur\<close>, the currency manager's \<open>normalize\<close>.
\<close>

section \<open>Migrations\<close>

record price_snapshot =
  ps_id :: ident
  ps_productId :: ident
  ps_amount :: int
  ps_currency :: string
  ps_interval :: "string option"
  ps_intervalCount :: "int option"

record item_snapshot =
  qi_id :: ident
  qi_priceId :: ident
  qi_quantity :: int

datatype direction = D_charge | D_credit | D_none | D_unknown

record adjustment =
  aj_direction :: direction
  aj_amount :: "int option"
  aj_currency :: "string option"

record renewal =
  rw_amount :: "int option"
  rw_currency :: "string option"
  rw_date :: "instant option"

datatype failure_code = FC_not_applied | FC_outcome_unknown | FC_identity_mismatch | FC_projection_failed

fun failure_message :: "failure_code \<Rightarrow> string" where
  "failure_message FC_not_applied = ''Provider did not apply the subscription migration''"
| "failure_message FC_outcome_unknown = ''Provider outcome is unknown and requires reconciliation''"
| "failure_message FC_identity_mismatch = ''Provider subscription identity mismatch requires reconciliation''"
| "failure_message FC_projection_failed = ''Canonical projection failed after provider success''"

fun failure_name :: "failure_code \<Rightarrow> string" where
  "failure_name FC_not_applied = ''SUBSCRIPTION_MIGRATION_PROVIDER_NOT_APPLIED''"
| "failure_name FC_outcome_unknown = ''SUBSCRIPTION_MIGRATION_PROVIDER_OUTCOME_UNKNOWN''"
| "failure_name FC_identity_mismatch = ''SUBSCRIPTION_MIGRATION_PROVIDER_IDENTITY_MISMATCH''"
| "failure_name FC_projection_failed = ''SUBSCRIPTION_MIGRATION_PROJECTION_FAILED''"

text \<open>What was previewed and never changes, then the lifecycle.\<close>

record migration_plan =
  pm_subscriptionId :: ident
  pm_primaryItemId :: ident
  pm_sourcePriceId :: ident
  pm_targetPriceId :: ident
  pm_sourcePrice :: price_snapshot
  pm_targetPrice :: price_snapshot
  pm_currentItems :: "item_snapshot list"
  pm_proposedItems :: "item_snapshot list"
  pm_effectiveTiming :: effective_timing
  pm_effectiveAt :: "instant option"
  pm_prorationPolicy :: string
  pm_paymentFailurePolicy :: string
  pm_immediateAdjustment :: adjustment
  pm_nextRenewal :: renewal
  pm_currentRenewalDate :: "instant option"
  pm_warnings :: "string list"
  pm_providerLimitations :: "string list"
  pm_previewToken :: string
  pm_requestHash :: string
  pm_calculatedAt :: instant
  pm_expiresAt :: instant
  pm_providerBindingId :: ident

record migration_state = migration_plan +
  pm_id :: ident
  pm_status :: migration_status
  pm_attemptCount :: int
  pm_executionToken :: "string option"
  pm_failureCode :: "failure_code option"
  pm_failureMessage :: "string option"
  pm_scheduledAt :: "instant option"
  pm_executionStartedAt :: "instant option"
  pm_appliedAt :: "instant option"
  pm_failedAt :: "instant option"
  pm_reconciliationRequiredAt :: "instant option"
  pm_reconciliationOutcome :: "claim_outcome option"
  pm_reconciliationEvidence :: "string option"
  pm_reconciliationResolvedAt :: "instant option"
  pm_observationEvidence :: "string option"
  pm_observedAt :: "instant option"
  pm_cancelledAt :: "instant option"
  pm_createdAt :: instant
  pm_updatedAt :: instant

record price_migration = migration_state +
  pm_tenant :: tenant

section \<open>Evidence of what the provider is to be asked\<close>

record change_item =
  ci_itemId :: ident
  ci_providerItemId :: "string option"
  ci_priceId :: string
  ci_quantity :: int

record execution_evidence =
  xe_provider :: string
  xe_providerSubscriptionId :: ident
  xe_currentItems :: "change_item list"
  xe_proposedItems :: "change_item list"

text \<open>A text: its prefix, what the rest of it parses to, and whether there is any.\<close>

record evidence_blob =
  xb_prefix :: string
  xb_value :: "intent_value option"
  xb_empty :: bool

definition EVIDENCE_PREFIX :: string where
  "EVIDENCE_PREFIX = ''payable:subscription-price-migration-evidence:v1:''"

definition rehydrateEvidenceBlob :: "evidence_blob \<Rightarrow> error + evidence_blob" where
  "rehydrateEvidenceBlob b = (if xb_prefix b \<noteq> EVIDENCE_PREFIX \<or> xb_empty b then Inl TypeError else Inr b)"

abbreviation invalidEvidence :: error where
  "invalidEvidence \<equiv> ForeignError ''Invalid subscription price migration execution evidence''"

definition exactObject :: "intent_value \<Rightarrow> string list \<Rightarrow> error + (string \<times> intent_value) list" where
  "exactObject v keys = (case v of
     IV_object members \<Rightarrow> if set (map fst members) = set keys then Inr members else Inl invalidEvidence
   | _ \<Rightarrow> Inl invalidEvidence)"

definition evidenceString :: "intent_value option \<Rightarrow> error + string" where
  "evidenceString v = (case v of Some (IV_string s) \<Rightarrow> if length s = 0 then Inl invalidEvidence else Inr s
     | _ \<Rightarrow> Inl invalidEvidence)"

definition evidenceQuantity :: "intent_value option \<Rightarrow> error + int" where
  "evidenceQuantity v = (case v of Some (IV_integer q) \<Rightarrow>
       if \<bar>q\<bar> > MAX_SAFE_INTEGER \<or> q \<le> 0 then Inl invalidEvidence else Inr q
     | _ \<Rightarrow> Inl invalidEvidence)"

definition evidenceItem :: "intent_value \<Rightarrow> error + change_item" where
  "evidenceItem v = bindE (exactObject v [''itemId'', ''providerItemId'', ''priceId'', ''quantity'']) (\<lambda>ms.
     bindE (evidenceString (member ms ''itemId'')) (\<lambda>i.
     bindE (if member ms ''providerItemId'' = Some IV_null then Inr None
       else bindE (evidenceString (member ms ''providerItemId'')) (\<lambda>s. Inr (Some s))) (\<lambda>p.
     bindE (evidenceString (member ms ''priceId'')) (\<lambda>price.
     bindE (evidenceQuantity (member ms ''quantity'')) (\<lambda>q.
     Inr \<lparr>ci_itemId = i, ci_providerItemId = p, ci_priceId = price, ci_quantity = q\<rparr>)))))"

definition normalizeProviderItems :: "intent_value option \<Rightarrow> error + change_item list" where
  "normalizeProviderItems v = (case v of Some (IV_array vs) \<Rightarrow> mapE evidenceItem vs | _ \<Rightarrow> Inl invalidEvidence)"

text \<open>The same items by id and quantity, each once.\<close>

definition assertAligned :: "item_snapshot list \<Rightarrow> change_item list \<Rightarrow> error + unit" where
  "assertAligned canonical provider =
    (if length canonical \<noteq> length provider \<or> \<not> distinct (map qi_id canonical)
        \<or> \<not> distinct (map ci_itemId provider)
        \<or> (\<exists>p \<in> set provider. \<not> (\<exists>c \<in> set canonical. qi_id c = ci_itemId p \<and> qi_quantity c = ci_quantity p))
     then Inl invalidEvidence else Inr ())"

definition normalizeEvidence ::
  "intent_value \<Rightarrow> item_snapshot list \<Rightarrow> item_snapshot list \<Rightarrow> error + execution_evidence" where
  "normalizeEvidence v current proposed =
     bindE (exactObject v [''provider'', ''providerSubscriptionId'', ''currentItems'', ''proposedItems'']) (\<lambda>ms.
     bindE (evidenceString (member ms ''provider'')) (\<lambda>provider.
     bindE (evidenceString (member ms ''providerSubscriptionId'')) (\<lambda>sub.
     bindE (normalizeProviderItems (member ms ''currentItems'')) (\<lambda>cs.
     bindE (normalizeProviderItems (member ms ''proposedItems'')) (\<lambda>ps.
     bindE (assertAligned current cs) (\<lambda>_.
     bindE (assertAligned proposed ps) (\<lambda>_.
     Inr \<lparr>xe_provider = provider, xe_providerSubscriptionId = sub, xe_currentItems = cs, xe_proposedItems = ps\<rparr>)))))))"

definition item_json :: "change_item \<Rightarrow> intent_value" where
  "item_json i = IV_object [(''itemId'', IV_string (ci_itemId i)),
     (''providerItemId'', case ci_providerItemId i of None \<Rightarrow> IV_null | Some s \<Rightarrow> IV_string s),
     (''priceId'', IV_string (ci_priceId i)), (''quantity'', IV_integer (ci_quantity i))]"

definition evidence_json :: "execution_evidence \<Rightarrow> intent_value" where
  "evidence_json e = IV_object [(''provider'', IV_string (xe_provider e)),
     (''providerSubscriptionId'', IV_string (xe_providerSubscriptionId e)),
     (''currentItems'', IV_array (map item_json (xe_currentItems e))),
     (''proposedItems'', IV_array (map item_json (xe_proposedItems e)))]"

definition encodeExecutionEvidence ::
  "execution_evidence \<Rightarrow> item_snapshot list \<Rightarrow> item_snapshot list \<Rightarrow> error + evidence_blob" where
  "encodeExecutionEvidence e current proposed =
     bindE (normalizeEvidence (evidence_json e) current proposed) (\<lambda>e'.
     rehydrateEvidenceBlob \<lparr>xb_prefix = EVIDENCE_PREFIX, xb_value = Some (evidence_json e'), xb_empty = False\<rparr>)"

definition decodeExecutionEvidence ::
  "evidence_blob \<Rightarrow> item_snapshot list \<Rightarrow> item_snapshot list \<Rightarrow> error + execution_evidence" where
  "decodeExecutionEvidence b current proposed = (case rehydrateEvidenceBlob b of
     Inl _ \<Rightarrow> Inl invalidEvidence
   | Inr b' \<Rightarrow> (case xb_value b' of None \<Rightarrow> Inl invalidEvidence | Some v \<Rightarrow> normalizeEvidence v current proposed))"

section \<open>Rows\<close>

record migration_row = migration_state +
  pm_tenantKey :: string
  pm_activeSubscriptionId :: "ident option"
  pm_providerEvidence :: "evidence_blob option"

record canonical_price =
  kp_id :: ident
  kp_tenant :: tenant
  kp_productId :: ident
  kp_currency :: string
  kp_unitAmount :: int
  kp_recurring :: bool
  kp_interval :: "string option"
  kp_intervalCount :: "int option"
  kp_active :: bool

record price_binding =
  kb_tenantKey :: string
  kb_priceId :: ident
  kb_provider :: string
  kb_providerPriceId :: string

record 'd migration_db = "'d mutation_db" +
  mt_rows :: "migration_row list"
  mt_customers :: "customer list"
  mt_prices :: "canonical_price list"
  mt_priceBindings :: "price_binding list"

abbreviation invalidMigration :: error where
  "invalidMigration \<equiv> ForeignError ''Invalid subscription price migration''"

type_synonym currency_norm = "string \<Rightarrow> error + string"

definition requireE :: "bool \<Rightarrow> error + unit" where
  "requireE b = (if b then Inr () else Inl invalidMigration)"

definition safeInteger :: "int \<Rightarrow> bool" where
  "safeInteger n \<longleftrightarrow> \<bar>n\<bar> \<le> MAX_SAFE_INTEGER"

definition normalizePrice :: "currency_norm \<Rightarrow> price_snapshot \<Rightarrow> error + price_snapshot" where
  "normalizePrice cur p =
     bindE (requireE (ps_id p \<noteq> [] \<and> ps_productId p \<noteq> [] \<and> safeInteger (ps_amount p) \<and> ps_currency p \<noteq> [])) (\<lambda>_.
     bindE (cur (ps_currency p)) (\<lambda>currency.
     bindE (requireE (ps_interval p \<noteq> Some [] \<and> (case ps_intervalCount p of None \<Rightarrow> True | Some n \<Rightarrow> safeInteger n \<and> 0 < n))) (\<lambda>_.
     Inr (p\<lparr>ps_currency := currency\<rparr>))))"

definition normalizeItem :: "item_snapshot \<Rightarrow> error + item_snapshot" where
  "normalizeItem i = bindE (requireE (qi_id i \<noteq> [] \<and> qi_priceId i \<noteq> [] \<and> safeInteger (qi_quantity i) \<and> 0 < qi_quantity i))
     (\<lambda>_. Inr i)"

definition normalizeCurrency :: "currency_norm \<Rightarrow> string option \<Rightarrow> error + string option" where
  "normalizeCurrency cur c = (case c of None \<Rightarrow> Inr None
     | Some s \<Rightarrow> bindE (requireE (s \<noteq> [])) (\<lambda>_. bindE (cur s) (\<lambda>s'. Inr (Some s'))))"

definition normalizeAdjustment :: "currency_norm \<Rightarrow> adjustment \<Rightarrow> error + adjustment" where
  "normalizeAdjustment cur a =
     bindE (requireE (case aj_amount a of None \<Rightarrow> True | Some n \<Rightarrow> safeInteger n)) (\<lambda>_.
     bindE (normalizeCurrency cur (aj_currency a)) (\<lambda>c. Inr (a\<lparr>aj_currency := c\<rparr>)))"

definition normalizeRenewal :: "currency_norm \<Rightarrow> renewal \<Rightarrow> error + renewal" where
  "normalizeRenewal cur a =
     bindE (requireE (case rw_amount a of None \<Rightarrow> True | Some n \<Rightarrow> safeInteger n)) (\<lambda>_.
     bindE (normalizeCurrency cur (rw_currency a)) (\<lambda>c. Inr (a\<lparr>rw_currency := c\<rparr>)))"

definition normalizeMigrationJson :: "currency_norm \<Rightarrow> 'z migration_plan_scheme \<Rightarrow> error + 'z migration_plan_scheme" where
  "normalizeMigrationJson cur m =
     bindE (normalizePrice cur (pm_sourcePrice m)) (\<lambda>source.
     bindE (normalizePrice cur (pm_targetPrice m)) (\<lambda>target.
     bindE (mapE normalizeItem (pm_currentItems m)) (\<lambda>current.
     bindE (mapE normalizeItem (pm_proposedItems m)) (\<lambda>proposed.
     bindE (normalizeAdjustment cur (pm_immediateAdjustment m)) (\<lambda>adj.
     bindE (normalizeRenewal cur (pm_nextRenewal m)) (\<lambda>ren.
     bindE (requireE (ps_id source = pm_sourcePriceId m \<and> ps_id target = pm_targetPriceId m)) (\<lambda>_.
     Inr (m\<lparr>pm_sourcePrice := source, pm_targetPrice := target, pm_currentItems := current,
       pm_proposedItems := proposed, pm_immediateAdjustment := adj, pm_nextRenewal := ren\<rparr>))))))))"

definition CLAIMED_STATUSES :: "migration_status list" where
  "CLAIMED_STATUSES = [M_executing, M_pending_renewal, M_applied, M_reconciliation_required]"

definition TERMINAL_STATUSES :: "migration_status list" where
  "TERMINAL_STATUSES = [M_applied, M_cancelled]"

definition activeSubscriptionId :: "migration_status \<Rightarrow> ident \<Rightarrow> claim_outcome option \<Rightarrow> ident option" where
  "activeSubscriptionId status subscriptionId outcome =
    (if status \<in> set TERMINAL_STATUSES \<or> status = M_failed \<and> outcome = Some Was_not_applied then None
     else Some subscriptionId)"

definition assertExecutionOwnership :: "migration_status \<Rightarrow> string option \<Rightarrow> error + unit" where
  "assertExecutionOwnership status token =
    (if status \<in> set CLAIMED_STATUSES then requireE (token \<noteq> None \<and> token \<noteq> Some []) else requireE (token = None))"

definition effectiveTiming :: "effective_timing \<Rightarrow> instant option \<Rightarrow> error + unit" where
  "effectiveTiming timing at = requireE ((timing = ET_scheduled) = (at \<noteq> None))"

definition isFailure :: "failure_code option \<Rightarrow> string option \<Rightarrow> bool" where
  "isFailure code message = (case code of None \<Rightarrow> False | Some c \<Rightarrow> message = Some (failure_message c))"

definition canonicalFailure :: "migration_status \<Rightarrow> failure_code option \<Rightarrow> string option \<Rightarrow> error + unit" where
  "canonicalFailure status code message =
    (if code = None \<and> message = None then requireE (status \<notin> {M_failed, M_reconciliation_required})
     else requireE (isFailure code message \<and> status \<in> {M_failed, M_reconciliation_required, M_cancelled}))"

definition reconciliationOutcome :: "'z migration_state_scheme \<Rightarrow> error + unit" where
  "reconciliationOutcome r = (case pm_reconciliationOutcome r of
     None \<Rightarrow> requireE (pm_reconciliationEvidence r = None \<and> pm_reconciliationResolvedAt r = None)
   | Some _ \<Rightarrow> requireE (pm_reconciliationEvidence r \<noteq> None \<and> pm_reconciliationEvidence r \<noteq> Some []
       \<and> pm_reconciliationResolvedAt r \<noteq> None))"

definition row_tenant :: "migration_row \<Rightarrow> tenant" where
  "row_tenant r = (if pm_tenantKey r = [] then None else Some (pm_tenantKey r))"

definition migrationToEntity :: "currency_norm \<Rightarrow> migration_row \<Rightarrow> error + price_migration" where
  "migrationToEntity cur r =
     bindE (requireE (safeInteger (pm_attemptCount r) \<and> 0 \<le> pm_attemptCount r)) (\<lambda>_.
     bindE (assertExecutionOwnership (pm_status r) (pm_executionToken r)) (\<lambda>_.
     bindE (effectiveTiming (pm_effectiveTiming r) (pm_effectiveAt r)) (\<lambda>_.
     bindE (requireE (pm_activeSubscriptionId r
       = activeSubscriptionId (pm_status r) (pm_subscriptionId r) (pm_reconciliationOutcome r))) (\<lambda>_.
     bindE (canonicalFailure (pm_status r) (pm_failureCode r) (pm_failureMessage r)) (\<lambda>_.
     bindE (requireE ((pm_observationEvidence r = None) = (pm_observedAt r = None))) (\<lambda>_.
     bindE (normalizeMigrationJson cur r) (\<lambda>n.
     bindE (requireE (pm_primaryItemId r \<noteq> [])) (\<lambda>_.
     bindE (reconciliationOutcome r) (\<lambda>_.
     Inr (migration_state.extend (migration_state.truncate n) \<lparr>pm_tenant = row_tenant r\<rparr>))))))))))"

definition readMigration :: "currency_norm \<Rightarrow> migration_row option \<Rightarrow> (('d, 'x) migration_db_scheme, price_migration option) io" where
  "readMigration cur row = (case row of None \<Rightarrow> ret None
     | Some r \<Rightarrow> andThen (liftResult (migrationToEntity cur r)) (\<lambda>m. ret (Some m)))"

section \<open>Creating a migration\<close>

definition PRORATION_POLICIES :: "string list" where
  "PRORATION_POLICIES = [''prorateImmediately'', ''prorateAtNextRenewal'', ''chargeFullImmediately'',
     ''chargeFullAtNextRenewal'', ''none'']"

text \<open>A preview: the lifecycle's fields have no other values, so they are not given.\<close>

definition migrationToStorageValues ::
  "currency_norm \<Rightarrow> tenant \<Rightarrow> migration_plan \<Rightarrow> error + migration_plan" where
  "migrationToStorageValues cur t p =
     bindE (normalizeMigrationJson cur p) (\<lambda>n.
     bindE (effectiveTiming (pm_effectiveTiming p) (pm_effectiveAt p)) (\<lambda>_.
     bindE (requireE (pm_prorationPolicy p \<in> set PRORATION_POLICIES
       \<and> pm_paymentFailurePolicy p \<in> {''preventChange'', ''applyChange''})) (\<lambda>_.
     bindE (requireE ([] \<notin> {pm_subscriptionId p, pm_primaryItemId p, pm_previewToken p, pm_requestHash p,
       pm_providerBindingId p})) (\<lambda>_.
     Inr n))))"

definition migrationCreateRow ::
  "ident \<Rightarrow> tenant \<Rightarrow> migration_plan \<Rightarrow> evidence_blob option \<Rightarrow> instant \<Rightarrow> migration_row" where
  "migrationCreateRow i t p evidence now = migration_plan.extend p
     \<lparr>pm_id = i, pm_status = M_previewed, pm_attemptCount = 0, pm_executionToken = None, pm_failureCode = None,
      pm_failureMessage = None, pm_scheduledAt = None, pm_executionStartedAt = None, pm_appliedAt = None,
      pm_failedAt = None, pm_reconciliationRequiredAt = None, pm_reconciliationOutcome = None,
      pm_reconciliationEvidence = None, pm_reconciliationResolvedAt = None, pm_observationEvidence = None,
      pm_observedAt = None, pm_cancelledAt = None, pm_createdAt = now, pm_updatedAt = now,
      pm_tenantKey = tenant_column t, pm_activeSubscriptionId = Some (pm_subscriptionId p), pm_providerEvidence = evidence\<rparr>"

abbreviation checkViolation :: error where
  "checkViolation \<equiv> ForeignError ''CHECK_VIOLATION''"

text \<open>The checks of the table, and the unique index on its tenants' active subscriptions.\<close>

definition row_checks :: "migration_row \<Rightarrow> bool" where
  "row_checks r \<longleftrightarrow> (pm_effectiveTiming r = ET_scheduled \<longleftrightarrow> pm_effectiveAt r \<noteq> None)
     \<and> (if pm_status r \<in> set TERMINAL_STATUSES
          \<or> pm_status r = M_failed \<and> pm_reconciliationOutcome r = Some Was_not_applied
        then pm_activeSubscriptionId r = None else pm_activeSubscriptionId r = Some (pm_subscriptionId r))
     \<and> (pm_status r \<in> {M_executing, M_pending_renewal, M_applied, M_reconciliation_required}
        \<longleftrightarrow> pm_executionToken r \<noteq> None)
     \<and> pm_attemptCount r \<ge> 0
     \<and> (pm_reconciliationOutcome r = None \<longleftrightarrow> pm_reconciliationEvidence r = None)
     \<and> (pm_reconciliationOutcome r = None \<longleftrightarrow> pm_reconciliationResolvedAt r = None)
     \<and> (pm_observationEvidence r = None \<longleftrightarrow> pm_observedAt r = None)"

definition active_keys :: "migration_row list \<Rightarrow> (string \<times> ident option) list" where
  "active_keys rows = map (\<lambda>r. (pm_tenantKey r, pm_activeSubscriptionId r))
     (filter (\<lambda>r. pm_activeSubscriptionId r \<noteq> None) rows)"

definition insertMigration ::
  "currency_norm \<Rightarrow> ident \<Rightarrow> tenant \<Rightarrow> migration_plan \<Rightarrow> evidence_blob option
    \<Rightarrow> (('d, 'x) migration_db_scheme, price_migration) io" where
  "insertMigration cur i t p evidence =
     andThen (liftResult (migrationToStorageValues cur t p)) (\<lambda>n w.
     let row = migrationCreateRow i t n evidence (idem_now w); rows = mt_rows w @ [row] in
     if \<not> row_checks row then (Inl checkViolation, w)
     else if i \<in> pm_id ` set (mt_rows w) \<or> \<not> distinct (active_keys rows) then (Inl uniqueViolation, w)
     else (migrationToEntity cur row, w\<lparr>mt_rows := rows\<rparr>))"

section \<open>Finding and updating\<close>

definition scopedMigration :: "ident \<Rightarrow> tenant \<Rightarrow> migration_row \<Rightarrow> bool" where
  "scopedMigration i t r \<longleftrightarrow> pm_id r = i \<and> pm_tenantKey r = tenant_column t"

definition findMigration ::
  "currency_norm \<Rightarrow> ident \<Rightarrow> tenant \<Rightarrow> (('d, 'x) migration_db_scheme, price_migration option) io" where
  "findMigration cur i t = andThen (readState (\<lambda>w. find (scopedMigration i t) (mt_rows w))) (readMigration cur)"

definition findActiveMigration ::
  "currency_norm \<Rightarrow> ident \<Rightarrow> tenant \<Rightarrow> (('d, 'x) migration_db_scheme, price_migration option) io" where
  "findActiveMigration cur subscriptionId t = andThen (readState (\<lambda>w. find (\<lambda>r. pm_tenantKey r = tenant_column t
     \<and> pm_activeSubscriptionId r = Some subscriptionId) (mt_rows w))) (readMigration cur)"

definition findExecutionEvidence ::
  "ident \<Rightarrow> tenant \<Rightarrow> (('d, 'x) migration_db_scheme, evidence_blob option) io" where
  "findExecutionEvidence i t = andThen (readState (\<lambda>w. find (scopedMigration i t) (mt_rows w))) (\<lambda>row.
     case Option.bind row pm_providerEvidence of
       None \<Rightarrow> ret None
     | Some b \<Rightarrow> andThen (liftResult (rehydrateEvidenceBlob b)) (\<lambda>b'. ret (Some b')))"

text \<open>An update of the rows a condition selects, refused as a whole by a check or a key.\<close>

definition updateMigrationsWhere ::
  "(migration_row \<Rightarrow> bool) \<Rightarrow> (migration_row \<Rightarrow> migration_row) \<Rightarrow> (('d, 'x) migration_db_scheme, nat) io" where
  "updateMigrationsWhere P f = (\<lambda>w.
     let rows = map (\<lambda>r. if P r then f r else r) (mt_rows w) in
     if \<not> list_all (\<lambda>r. P r \<longrightarrow> row_checks (f r)) (mt_rows w) then (Inl checkViolation, w)
     else if \<not> distinct (active_keys rows) then (Inl uniqueViolation, w)
     else (Inr (length (filter P (mt_rows w))), w\<lparr>mt_rows := rows\<rparr>))"

section \<open>The guarded change of state\<close>

record cas_input =
  cs_id :: ident
  cs_tenant :: tenant
  cs_expectedStatus :: migration_status
  cs_expectedToken :: "string option"
  cs_nextStatus :: migration_status
  cs_token :: "string option"
  cs_attemptCount :: int
  cs_failureCode :: "failure_code option"
  cs_failureMessage :: "string option"
  cs_scheduledAt :: "instant option"
  cs_executionStartedAt :: "instant option"
  cs_appliedAt :: "instant option"
  cs_failedAt :: "instant option"
  cs_reconciliationRequiredAt :: "instant option"
  cs_cancelledAt :: "instant option"
  cs_updatedAt :: instant

definition owning :: "string option \<Rightarrow> bool" where
  "owning token \<longleftrightarrow> token \<noteq> None \<and> token \<noteq> Some []"

definition isValidCas :: "cas_input \<Rightarrow> bool" where
  "isValidCas c =
    (let none = cs_failureCode c = None \<and> cs_failureMessage c = None;
         canonical = isFailure (cs_failureCode c) (cs_failureMessage c)
     in if cs_expectedStatus c = M_reconciliation_required then False
     else if \<not> none \<and> \<not> canonical then False
     else if cs_nextStatus c \<in> {M_failed, M_reconciliation_required} \<and> \<not> canonical then False
     else if cs_nextStatus c \<in> {M_scheduled, M_executing, M_pending_renewal, M_applied} \<and> \<not> none then False
     else if \<not> canTransitionSubscriptionPriceMigrationStatus (cs_expectedStatus c) (cs_nextStatus c) then False
     else if cs_nextStatus c = M_scheduled
     then cs_expectedStatus c = M_previewed \<and> cs_expectedToken c = None \<and> cs_token c = None
     else if cs_nextStatus c = M_executing then cs_expectedToken c = None \<and> owning (cs_token c)
     else if cs_nextStatus c = M_cancelled then cs_expectedToken c = None \<and> cs_token c = None
     else if cs_nextStatus c = M_failed then owning (cs_expectedToken c) \<and> cs_token c = None
     else owning (cs_expectedToken c) \<and> cs_token c = cs_expectedToken c)"

definition cas_selects :: "cas_input \<Rightarrow> migration_row \<Rightarrow> bool" where
  "cas_selects c r \<longleftrightarrow> scopedMigration (cs_id c) (cs_tenant c) r \<and> pm_status r = cs_expectedStatus c
     \<and> pm_executionToken r = cs_expectedToken c"

definition cas_update :: "cas_input \<Rightarrow> migration_row \<Rightarrow> migration_row" where
  "cas_update c r = r\<lparr>pm_status := cs_nextStatus c,
     pm_activeSubscriptionId := (if cs_nextStatus c \<in> {M_applied, M_cancelled} then None
       else if cs_nextStatus c = M_executing then Some (pm_subscriptionId r) else pm_activeSubscriptionId r),
     pm_executionToken := cs_token c, pm_attemptCount := cs_attemptCount c, pm_failureCode := cs_failureCode c,
     pm_failureMessage := cs_failureMessage c, pm_scheduledAt := cs_scheduledAt c,
     pm_executionStartedAt := cs_executionStartedAt c, pm_appliedAt := cs_appliedAt c, pm_failedAt := cs_failedAt c,
     pm_reconciliationRequiredAt := cs_reconciliationRequiredAt c, pm_cancelledAt := cs_cancelledAt c,
     pm_updatedAt := cs_updatedAt c\<rparr>"

definition compareAndSwapState ::
  "currency_norm \<Rightarrow> cas_input \<Rightarrow> (('d, 'x) migration_db_scheme, price_migration option) io" where
  "compareAndSwapState cur c =
     (if \<not> isValidCas c then ret None else
      andThen (catching (updateMigrationsWhere (cas_selects c) (cas_update c))
        (\<lambda>e. if cs_nextStatus c = M_executing \<and> e = uniqueViolation then ret 0 else throw e)) (\<lambda>affected.
      if affected = 0 then ret None else findMigration cur (cs_id c) (cs_tenant c)))"

section \<open>Reconciliation\<close>

text \<open>An outcome of \<open>None\<close> is an observation; the fields a case does not have are not looked at.\<close>

record resolve_input =
  rv_id :: ident
  rv_tenant :: tenant
  rv_expectedStatus :: migration_status
  rv_expectedToken :: string
  rv_outcome :: "claim_outcome option"
  rv_nextStatus :: migration_status
  rv_token :: "string option"
  rv_evidence :: string
  rv_failureCode :: "failure_code option"
  rv_failureMessage :: "string option"
  rv_appliedAt :: "instant option"
  rv_failedAt :: "instant option"
  rv_at :: instant

definition resolve_selects :: "resolve_input \<Rightarrow> migration_row \<Rightarrow> bool" where
  "resolve_selects v r \<longleftrightarrow> scopedMigration (rv_id v) (rv_tenant v) r \<and> pm_status r = rv_expectedStatus v
     \<and> pm_executionToken r = Some (rv_expectedToken v)
     \<and> (rv_outcome v = None \<longrightarrow> pm_observationEvidence r = None \<and> pm_observedAt r = None)"

definition resolve_update :: "resolve_input \<Rightarrow> migration_row \<Rightarrow> migration_row" where
  "resolve_update v r = (case rv_outcome v of
     None \<Rightarrow> (if rv_expectedStatus v = M_executing
       then r\<lparr>pm_status := rv_nextStatus v, pm_activeSubscriptionId := Some (pm_subscriptionId r),
         pm_executionToken := rv_token v, pm_failureCode := rv_failureCode v, pm_failureMessage := rv_failureMessage v,
         pm_reconciliationRequiredAt := Some (rv_at v), pm_observationEvidence := Some (rv_evidence v),
         pm_observedAt := Some (rv_at v), pm_updatedAt := rv_at v\<rparr>
       else r\<lparr>pm_observationEvidence := Some (rv_evidence v), pm_observedAt := Some (rv_at v), pm_updatedAt := rv_at v\<rparr>)
   | Some outcome \<Rightarrow> r\<lparr>pm_status := rv_nextStatus v,
       pm_activeSubscriptionId := (if rv_nextStatus v = M_pending_renewal then Some (pm_subscriptionId r) else None),
       pm_executionToken := rv_token v, pm_failureCode := rv_failureCode v, pm_failureMessage := rv_failureMessage v,
       pm_appliedAt := rv_appliedAt v, pm_failedAt := rv_failedAt v, pm_reconciliationOutcome := Some outcome,
       pm_reconciliationEvidence := Some (rv_evidence v), pm_reconciliationResolvedAt := Some (rv_at v),
       pm_updatedAt := rv_at v\<rparr>)"

definition updateReconciliation :: "resolve_input \<Rightarrow> (('d, 'x) migration_db_scheme, nat) io" where
  "updateReconciliation v =
    (if rv_outcome v = None \<and> rv_token v \<noteq> Some (rv_expectedToken v) then ret 0
     else updateMigrationsWhere (resolve_selects v) (resolve_update v))"

definition resolveReconciliation ::
  "currency_norm \<Rightarrow> resolve_input \<Rightarrow> (('d, 'x) migration_db_scheme, (price_migration \<times> bool) option) io" where
  "resolveReconciliation cur v =
     andThen (updateReconciliation v) (\<lambda>affected.
     andThen (findMigration cur (rv_id v) (rv_tenant v)) (\<lambda>found. case found of
       None \<Rightarrow> ret None
     | Some m \<Rightarrow> ret (if affected = 1 then Some (m, True)
         else if rv_outcome v = None \<and> rv_token v = Some (rv_expectedToken v) \<and> pm_status m = M_reconciliation_required
           \<and> pm_executionToken m = Some (rv_expectedToken v) \<and> pm_observationEvidence m = Some (rv_evidence v)
         then Some (m, False) else None)))"

section \<open>The table keeps its checks\<close>

definition row_ok :: "currency_norm \<Rightarrow> migration_row \<Rightarrow> bool" where
  "row_ok cur r \<longleftrightarrow> row_checks r \<and> pm_subscriptionId r \<noteq> [] \<and> \<not> isl (migrationToEntity cur r)"

definition table_ok :: "currency_norm \<Rightarrow> ('d, 'x) migration_db_scheme \<Rightarrow> bool" where
  "table_ok cur w \<longleftrightarrow> list_all (row_ok cur) (mt_rows w) \<and> distinct (map pm_id (mt_rows w))
     \<and> distinct (active_keys (mt_rows w))"

text \<open>A normalized currency is not empty and is its own normal form.\<close>

definition currency_stable :: "currency_norm \<Rightarrow> bool" where
  "currency_stable cur \<longleftrightarrow> (\<forall>s s'. cur s = Inr s' \<longrightarrow> s' \<noteq> [] \<and> cur s' = Inr s')"

lemma bindE_Inr_iff: "bindE r f = Inr y \<longleftrightarrow> (\<exists>x. r = Inr x \<and> f x = Inr y)"
  by (cases r) (auto simp: bindE_def)

lemma requireE_Inr_iff [simp]: "requireE b = Inr u \<longleftrightarrow> b"
  by (simp add: requireE_def)

lemma normalizePrice_stable:
  "currency_stable cur \<Longrightarrow> normalizePrice cur p = Inr q \<Longrightarrow> normalizePrice cur q = Inr q \<and> ps_id q = ps_id p"
  by (fastforce simp: normalizePrice_def bindE_Inr_iff currency_stable_def)

lemma normalizeItem_same: "normalizeItem i = Inr j \<Longrightarrow> j = i"
  by (simp add: normalizeItem_def bindE_Inr_iff)

lemma normalizeItems_same: "mapE normalizeItem xs = Inr ys \<Longrightarrow> ys = xs \<and> mapE normalizeItem xs = Inr xs"
  by (induction xs arbitrary: ys) (auto simp: bindE_Inr_iff dest: normalizeItem_same)

lemma normalizeCurrency_stable:
  "currency_stable cur \<Longrightarrow> normalizeCurrency cur c = Inr d \<Longrightarrow> normalizeCurrency cur d = Inr d"
  by (fastforce simp: normalizeCurrency_def bindE_Inr_iff currency_stable_def split: option.splits)

lemma normalizeAdjustment_stable:
  "currency_stable cur \<Longrightarrow> normalizeAdjustment cur a = Inr b \<Longrightarrow> normalizeAdjustment cur b = Inr b"
  by (auto simp: normalizeAdjustment_def bindE_Inr_iff dest: normalizeCurrency_stable)

lemma normalizeRenewal_stable:
  "currency_stable cur \<Longrightarrow> normalizeRenewal cur a = Inr b \<Longrightarrow> normalizeRenewal cur b = Inr b"
  by (auto simp: normalizeRenewal_def bindE_Inr_iff dest: normalizeCurrency_stable)

lemma normalizeMigrationJson_stable:
  assumes "currency_stable cur" and "normalizeMigrationJson cur m = Inr n"
  shows "normalizeMigrationJson cur n = Inr n"
proof -
  obtain s t c p a r where parts: "normalizePrice cur (pm_sourcePrice m) = Inr s" "normalizePrice cur (pm_targetPrice m) = Inr t"
      "mapE normalizeItem (pm_currentItems m) = Inr c" "mapE normalizeItem (pm_proposedItems m) = Inr p"
      "normalizeAdjustment cur (pm_immediateAdjustment m) = Inr a" "normalizeRenewal cur (pm_nextRenewal m) = Inr r"
      and ids: "ps_id s = pm_sourcePriceId m" "ps_id t = pm_targetPriceId m"
      and n: "n = m\<lparr>pm_sourcePrice := s, pm_targetPrice := t, pm_currentItems := c, pm_proposedItems := p,
        pm_immediateAdjustment := a, pm_nextRenewal := r\<rparr>"
    using assms(2) by (auto simp: normalizeMigrationJson_def bindE_Inr_iff)
  have "normalizePrice cur s = Inr s" "normalizePrice cur t = Inr t" "mapE normalizeItem c = Inr c" "mapE normalizeItem p = Inr p"
      "normalizeAdjustment cur a = Inr a" "normalizeRenewal cur r = Inr r"
    using normalizePrice_stable [OF assms(1) parts(1)] normalizePrice_stable [OF assms(1) parts(2)]
      normalizeItems_same [OF parts(3)] normalizeItems_same [OF parts(4)]
      normalizeAdjustment_stable [OF assms(1) parts(5)] normalizeRenewal_stable [OF assms(1) parts(6)] by simp_all
  with ids n show ?thesis by (simp add: normalizeMigrationJson_def bindE_def requireE_def)
qed

text \<open>Reading a row asks nothing but the checks, the failure's text and the normalized snapshots.\<close>

definition readable :: "currency_norm \<Rightarrow> migration_row \<Rightarrow> bool" where
  "readable cur r \<longleftrightarrow> pm_subscriptionId r \<noteq> [] \<and> safeInteger (pm_attemptCount r) \<and> pm_executionToken r \<noteq> Some []
     \<and> (if pm_failureCode r = None \<and> pm_failureMessage r = None then pm_status r \<notin> {M_failed, M_reconciliation_required}
        else isFailure (pm_failureCode r) (pm_failureMessage r)
          \<and> pm_status r \<in> {M_failed, M_reconciliation_required, M_cancelled})
     \<and> \<not> isl (normalizeMigrationJson cur r) \<and> pm_primaryItemId r \<noteq> []
     \<and> pm_reconciliationEvidence r \<noteq> Some []"

lemma migration_status_claimed:
  "s \<notin> set CLAIMED_STATUSES \<longleftrightarrow> s \<in> {M_previewed, M_scheduled, M_failed, M_cancelled}"
  by (cases s) (auto simp: CLAIMED_STATUSES_def)

lemma isl_bindE: "isl (bindE r f) \<longleftrightarrow> isl r \<or> isl (f (projr r))"
  by (cases r) (simp_all add: bindE_def)

lemma isl_requireE: "isl (requireE b) \<longleftrightarrow> \<not> b"
  by (simp add: requireE_def)

lemma checks_require:
  "assertExecutionOwnership s t = requireE (if s \<in> set CLAIMED_STATUSES then t \<noteq> None \<and> t \<noteq> Some [] else t = None)"
  "canonicalFailure s c m = requireE (if c = None \<and> m = None then s \<notin> {M_failed, M_reconciliation_required}
     else isFailure c m \<and> s \<in> {M_failed, M_reconciliation_required, M_cancelled})"
  "reconciliationOutcome r = requireE (if pm_reconciliationOutcome r = None
     then pm_reconciliationEvidence r = None \<and> pm_reconciliationResolvedAt r = None
     else pm_reconciliationEvidence r \<noteq> None \<and> pm_reconciliationEvidence r \<noteq> Some [] \<and> pm_reconciliationResolvedAt r \<noteq> None)"
  by (simp_all add: assertExecutionOwnership_def canonicalFailure_def reconciliationOutcome_def split: option.split)

lemma claimed_statuses:
  "s \<in> set CLAIMED_STATUSES \<longleftrightarrow> s \<in> {M_executing, M_pending_renewal, M_applied, M_reconciliation_required}"
  by (auto simp: CLAIMED_STATUSES_def)

lemma row_ok_iff: "row_ok cur r \<longleftrightarrow> row_checks r \<and> readable cur r"
proof (cases "row_checks r")
  case True
  then have active: "pm_activeSubscriptionId r = activeSubscriptionId (pm_status r) (pm_subscriptionId r) (pm_reconciliationOutcome r)"
    by (simp add: row_checks_def activeSubscriptionId_def split: if_splits)
  have owner: "(pm_executionToken r \<noteq> None) = (pm_status r \<in> set CLAIMED_STATUSES)"
    and timing: "(pm_effectiveTiming r = ET_scheduled) = (pm_effectiveAt r \<noteq> None)"
    and rest: "0 \<le> pm_attemptCount r" "(pm_reconciliationOutcome r = None) = (pm_reconciliationEvidence r = None)"
      "(pm_reconciliationOutcome r = None) = (pm_reconciliationResolvedAt r = None)"
      "(pm_observationEvidence r = None) = (pm_observedAt r = None)"
    using True unfolding row_checks_def claimed_statuses by blast+
  have token: "(if pm_status r \<in> set CLAIMED_STATUSES then pm_executionToken r \<noteq> None \<and> pm_executionToken r \<noteq> Some []
      else pm_executionToken r = None) = (pm_executionToken r \<noteq> Some [])"
    and evidence: "(if pm_reconciliationOutcome r = None
      then pm_reconciliationEvidence r = None \<and> pm_reconciliationResolvedAt r = None
      else pm_reconciliationEvidence r \<noteq> None \<and> pm_reconciliationEvidence r \<noteq> Some [] \<and> pm_reconciliationResolvedAt r \<noteq> None)
        = (pm_reconciliationEvidence r \<noteq> Some [])"
    using owner rest by auto
  show ?thesis
    unfolding row_ok_def migrationToEntity_def isl_bindE isl_requireE checks_require token evidence readable_def
      effectiveTiming_def active [symmetric] timing
    using True rest by auto
qed (simp add: row_ok_def)

lemma updateMigrations_keeps:
  assumes "\<And>r. row_ok cur r \<Longrightarrow> P r \<Longrightarrow> row_checks (f r) \<Longrightarrow> readable cur (f r) \<and> pm_id (f r) = pm_id r"
  shows "preserves (table_ok cur) (updateMigrationsWhere P f)"
proof (rule preservesI)
  fix w :: "('d, 'x) migration_db_scheme"
  assume w: "table_ok cur w"
  let ?g = "\<lambda>r. if P r then f r else r"
  show "table_ok cur (snd (updateMigrationsWhere P f w))"
  proof (cases "list_all (\<lambda>r. P r \<longrightarrow> row_checks (f r)) (mt_rows w) \<and> distinct (active_keys (map ?g (mt_rows w)))")
    case True
    then have ok: "row_ok cur (?g r) \<and> pm_id (?g r) = pm_id r" if "r \<in> set (mt_rows w)" for r
      using assms [of r] w that by (auto simp: table_ok_def list_all_iff row_ok_iff)
    then have "list_all (row_ok cur) (map ?g (mt_rows w))" 
      unfolding list.pred_map o_def by (subst list_all_iff) blast
    moreover have "map pm_id (map ?g (mt_rows w)) = map pm_id (mt_rows w)"
      unfolding map_map o_def using ok by (intro map_cong refl) blast
    ultimately have "list_all (row_ok cur) (map ?g (mt_rows w))" "distinct (map pm_id (map ?g (mt_rows w)))"
      using w by (simp_all only: table_ok_def)
    with w True show ?thesis by (simp add: table_ok_def updateMigrationsWhere_def Let_def del: map_map)
  qed (use w in \<open>auto simp: updateMigrationsWhere_def Let_def\<close>)
qed

lemma find_migration_reads:
  assumes "table_ok cur w"
  shows "\<exists>m. andThen (readState (\<lambda>w. find P (mt_rows w))) (readMigration cur) w = (Inr m, w)"
proof (cases "find P (mt_rows w)")
  case (Some r)
  then have "row_ok cur r" using assms by (auto simp: table_ok_def list_all_iff dest: find_SomeD)
  with Some show ?thesis by (auto simp: readMigration_def andThen_liftResult row_ok_def split: sum.split)
qed (simp add: readMigration_def)

lemma find_migration_keeps [preserves_rules]:
  "preserves I (findMigration cur i t)" "preserves I (findActiveMigration cur s t)" "preserves I (findExecutionEvidence i t)"
  unfolding findMigration_def findActiveMigration_def findExecutionEvidence_def readMigration_def
  by (auto intro!: preserves_rules split: option.split)

lemma isl_normalize_cong:
  "migration_plan.truncate r = migration_plan.truncate r' \<Longrightarrow>
    isl (normalizeMigrationJson cur r) = isl (normalizeMigrationJson cur r')"
  by (simp add: normalizeMigrationJson_def isl_bindE migration_plan.truncate_def)

lemma cas_transition: "isValidCas c \<Longrightarrow> canTransitionSubscriptionPriceMigrationStatus (cs_expectedStatus c) (cs_nextStatus c)"
  by (auto simp: isValidCas_def Let_def split: if_splits)

lemma cas_readable:
  assumes "isValidCas c" and "safeInteger (cs_attemptCount c)" and "readable cur r"
  shows "readable cur (cas_update c r)"
proof -
  have "\<not> isl (normalizeMigrationJson cur (cas_update c r)) \<longleftrightarrow> \<not> isl (normalizeMigrationJson cur r)"
    using isl_normalize_cong [of "cas_update c r" r cur] by (simp add: cas_update_def migration_plan.truncate_def)
  moreover have "cs_nextStatus c \<noteq> M_previewed"
    using cas_transition [OF assms(1)]
    by (cases "cs_expectedStatus c") (auto simp: canTransitionSubscriptionPriceMigrationStatus_def migration_map_def transitions_def)
  ultimately show ?thesis
    using assms unfolding readable_def
    by (cases "cs_nextStatus c") (auto simp: isValidCas_def Let_def cas_update_def owning_def isFailure_def split: if_splits option.splits)
qed

lemma cas_update_fixed [simp]:
  "pm_id (cas_update c r) = pm_id r" "pm_tenantKey (cas_update c r) = pm_tenantKey r"
  "pm_subscriptionId (cas_update c r) = pm_subscriptionId r" "pm_status (cas_update c r) = cs_nextStatus c"
  "pm_executionToken (cas_update c r) = cs_token c"
  "migration_plan.truncate (cas_update c r) = migration_plan.truncate r"
  by (simp_all add: cas_update_def migration_plan.truncate_def)

lemma compareAndSwap_keeps:
  assumes "safeInteger (cs_attemptCount c)"
  shows "preserves (table_ok cur) (compareAndSwapState cur c)"
proof (cases "isValidCas c")
  case True
  then have "preserves (table_ok cur) (updateMigrationsWhere (cas_selects c) (cas_update c) :: (('a, 'b) migration_db_scheme, nat) io)"
    using cas_readable [OF _ assms] by (intro updateMigrations_keeps) (simp add: row_ok_iff)
  then show ?thesis unfolding compareAndSwapState_def by (intro preserves_rules)
qed (simp add: compareAndSwapState_def preserves_ret)

text \<open>What the contract of a resolution says beside its types.\<close>

definition valid_resolve :: "resolve_input \<Rightarrow> bool" where
  "valid_resolve v \<longleftrightarrow> rv_evidence v \<noteq> [] \<and> rv_expectedToken v \<noteq> []
     \<and> rv_expectedStatus v \<in> {M_executing, M_reconciliation_required}
     \<and> (case rv_outcome v of
          None \<Rightarrow> rv_nextStatus v = M_reconciliation_required \<and> rv_token v = Some (rv_expectedToken v)
            \<and> rv_failureCode v = Some FC_outcome_unknown \<and> rv_failureMessage v = Some (failure_message FC_outcome_unknown)
        | Some Was_applied \<Rightarrow> rv_nextStatus v \<in> {M_applied, M_pending_renewal} \<and> rv_token v = Some (rv_expectedToken v)
            \<and> rv_failureCode v = None \<and> rv_failureMessage v = None
        | Some Was_not_applied \<Rightarrow> rv_nextStatus v = M_failed \<and> rv_token v = None
            \<and> rv_failureCode v = Some FC_not_applied \<and> rv_failureMessage v = Some (failure_message FC_not_applied))"

lemma resolve_update_fixed [simp]:
  "pm_id (resolve_update v r) = pm_id r" "pm_tenantKey (resolve_update v r) = pm_tenantKey r"
  "pm_subscriptionId (resolve_update v r) = pm_subscriptionId r"
  "migration_plan.truncate (resolve_update v r) = migration_plan.truncate r"
  by (simp_all add: resolve_update_def migration_plan.truncate_def split: option.split)

lemma resolve_readable:
  assumes "valid_resolve v" and "readable cur r" and "resolve_selects v r"
  shows "readable cur (resolve_update v r)"
proof -
  have "\<not> isl (normalizeMigrationJson cur (resolve_update v r)) \<longleftrightarrow> \<not> isl (normalizeMigrationJson cur r)"
    using isl_normalize_cong [of "resolve_update v r" r cur] by simp
  then show ?thesis
    using assms unfolding readable_def
    by (cases "rv_outcome v") (auto simp: valid_resolve_def resolve_update_def resolve_selects_def isFailure_def
        split: claim_outcome.splits if_splits option.splits)
qed

lemma resolve_keeps:
  assumes "valid_resolve v"
  shows "preserves (table_ok cur) (resolveReconciliation cur v)"
proof -
  have "preserves (table_ok cur) (updateMigrationsWhere (resolve_selects v) (resolve_update v) :: (('a, 'b) migration_db_scheme, nat) io)"
    using resolve_readable [OF assms] by (intro updateMigrations_keeps) (simp add: row_ok_iff)
  then show ?thesis unfolding resolveReconciliation_def updateReconciliation_def by (intro preserves_rules)
qed

lemma createRow_fixed [simp]:
  "pm_id (migrationCreateRow i t p e now) = i" "pm_tenantKey (migrationCreateRow i t p e now) = tenant_column t"
  "pm_status (migrationCreateRow i t p e now) = M_previewed"
  "migration_plan.truncate (migrationCreateRow i t p e now) = migration_plan.truncate p"
  by (simp_all add: migrationCreateRow_def migration_plan.defs)

lemma createRow_readable:
  assumes "currency_stable cur" and "migrationToStorageValues cur t p = Inr n"
  shows "readable cur (migrationCreateRow i t n e now)"
proof -
  have n: "normalizeMigrationJson cur p = Inr n" and item: "pm_primaryItemId p \<noteq> []" "pm_subscriptionId p \<noteq> []"
    using assms(2) by (auto simp: migrationToStorageValues_def bindE_Inr_iff)
  have "pm_primaryItemId n = pm_primaryItemId p \<and> pm_subscriptionId n = pm_subscriptionId p" using n by (auto simp: normalizeMigrationJson_def bindE_Inr_iff)
  moreover have "\<not> isl (normalizeMigrationJson cur (migrationCreateRow i t n e now))"
    using normalizeMigrationJson_stable [OF assms(1) n] isl_normalize_cong [of "migrationCreateRow i t n e now" n cur] by simp
  ultimately show ?thesis
    using item by (simp add: readable_def safeInteger_def MAX_SAFE_INTEGER_def migrationCreateRow_def migration_plan.defs)
qed

lemma insertMigration_keeps:
  assumes "currency_stable cur"
  shows "preserves (table_ok cur) (insertMigration cur i t p e)"
proof (rule preservesI)
  fix w :: "('d, 'x) migration_db_scheme"
  assume w: "table_ok cur w"
  show "table_ok cur (snd (insertMigration cur i t p e w))"
  proof (cases "migrationToStorageValues cur t p")
    case (Inr n)
    let ?row = "migrationCreateRow i t n e (idem_now w)"
    have "row_ok cur ?row" if "row_checks ?row"
      using createRow_readable [OF assms Inr] that by (simp add: row_ok_iff)
    with w Inr show ?thesis
      by (auto simp: insertMigration_def andThen_liftResult Let_def table_ok_def)
  qed (simp add: insertMigration_def andThen_liftResult w)
qed

section \<open>A migration keeps its plan and moves along the machine\<close>

definition moved :: "migration_row \<Rightarrow> migration_row \<Rightarrow> bool" where
  "moved r r' \<longleftrightarrow> migration_plan.truncate r' = migration_plan.truncate r \<and> pm_id r' = pm_id r
     \<and> pm_tenantKey r' = pm_tenantKey r \<and> pm_providerEvidence r' = pm_providerEvidence r
     \<and> canTransitionSubscriptionPriceMigrationStatus\<^sup>*\<^sup>* (pm_status r) (pm_status r')"

definition lined :: "migration_row list \<Rightarrow> migration_row list \<Rightarrow> bool" where
  "lined rows rows' \<longleftrightarrow> length rows \<le> length rows' \<and> list_all2 moved rows (take (length rows) rows')"

lemma moved_refl [simp]: "moved r r"
  by (simp add: moved_def)

lemma moved_trans: "moved r s \<Longrightarrow> moved s u \<Longrightarrow> moved r u"
  by (auto simp: moved_def)

lemma lined_refl [simp]: "lined rows rows"
  by (auto simp: lined_def list_all2_same)

lemma lined_append: "lined rows rows' \<Longrightarrow> lined rows (rows' @ xs)"
  by (auto simp: lined_def)

lemma lined_map:
  assumes "lined rows rows'" and "\<And>r. r \<in> set rows' \<Longrightarrow> moved r (g r)"
  shows "lined rows (map g rows')"
  using assms by (auto simp: lined_def take_map list_all2_conv_all_nth intro: moved_trans)

lemma updateMigrations_lined:
  assumes "\<And>r. P r \<Longrightarrow> moved r (f r)"
  shows "preserves (\<lambda>w. lined rows (mt_rows w)) (updateMigrationsWhere P f)"
  using assms by (auto simp: preserves_def updateMigrationsWhere_def Let_def intro: lined_map)

lemma providerEvidence_kept [simp]:
  "pm_providerEvidence (cas_update c r) = pm_providerEvidence r" "pm_providerEvidence (resolve_update v r) = pm_providerEvidence r"
  by (simp_all add: cas_update_def resolve_update_def split: option.split)

lemma compareAndSwap_lined: "preserves (\<lambda>w. lined rows (mt_rows w)) (compareAndSwapState cur c)"
proof (cases "isValidCas c")
  case True
  have "moved r (cas_update c r)" if "cas_selects c r" for r
    using that cas_transition [OF True] by (auto simp: moved_def cas_selects_def)
  then show ?thesis unfolding compareAndSwapState_def by (intro preserves_rules updateMigrations_lined)
qed (simp add: compareAndSwapState_def preserves_ret)

lemma resolve_moves: "valid_resolve v \<Longrightarrow> resolve_selects v r \<Longrightarrow> moved r (resolve_update v r)"
  by (auto simp: moved_def valid_resolve_def resolve_selects_def resolve_update_def migration_plan.truncate_def
      canTransitionSubscriptionPriceMigrationStatus_def migration_map_def transitions_def
      split: option.splits claim_outcome.splits intro!: r_into_rtranclp)

lemma resolve_lined: "valid_resolve v \<Longrightarrow> preserves (\<lambda>w. lined rows (mt_rows w)) (resolveReconciliation cur v)"
  unfolding resolveReconciliation_def updateReconciliation_def
  by (intro preserves_rules updateMigrations_lined) (simp add: resolve_moves)

lemma insertMigration_lined: "preserves (\<lambda>w. lined rows (mt_rows w)) (insertMigration cur i t p e)"
  by (auto simp: preserves_def insertMigration_def andThen_liftResult Let_def lined_append split: sum.split)

text \<open>
  C40. The table of migrations keeps its checks. Creating a preview, the guarded change of state and
  the resolution of a reconciliation keep every row readable, the ids unique and at most one active
  migration of a tenant's subscription; every migration keeps its plan, its tenant and its evidence
  and its status only moves along the machine; and on such a table reading a migration never fails.
\<close>

theorem migrations_table_typed:
  assumes "currency_stable cur" and "safeInteger (cs_attemptCount c)" and "valid_resolve v" and w: "table_ok cur w"
  shows "table_ok cur (snd (insertMigration cur i t p e w)) \<and> lined (mt_rows w) (mt_rows (snd (insertMigration cur i t p e w)))
    \<and> table_ok cur (snd (compareAndSwapState cur c w)) \<and> lined (mt_rows w) (mt_rows (snd (compareAndSwapState cur c w)))
    \<and> table_ok cur (snd (resolveReconciliation cur v w)) \<and> lined (mt_rows w) (mt_rows (snd (resolveReconciliation cur v w)))
    \<and> (\<exists>m. findMigration cur j u w = (Inr m, w)) \<and> (\<exists>m. findActiveMigration cur s u w = (Inr m, w))"
  using preservesD [OF insertMigration_keeps [OF assms(1)] w] preservesD [OF compareAndSwap_keeps [OF assms(2)] w]
    preservesD [OF resolve_keeps [OF assms(3)] w] preservesD [OF insertMigration_lined lined_refl]
    preservesD [OF compareAndSwap_lined lined_refl] preservesD [OF resolve_lined [OF assms(3)] lined_refl]
    find_migration_reads [OF w] unfolding findMigration_def findActiveMigration_def by blast

section \<open>Evidence comes back as it was recorded\<close>

definition valid_item :: "change_item \<Rightarrow> bool" where
  "valid_item i \<longleftrightarrow> ci_itemId i \<noteq> [] \<and> ci_providerItemId i \<noteq> Some [] \<and> ci_priceId i \<noteq> [] \<and> safeInteger (ci_quantity i)
     \<and> 0 < ci_quantity i"

lemma evidenceItem_json: "evidenceItem (item_json i) = (if valid_item i then Inr i else Inl invalidEvidence)"
  by (cases "ci_providerItemId i")
    (auto simp: evidenceItem_def item_json_def exactObject_def bindE_def member_def evidenceString_def evidenceQuantity_def
      valid_item_def safeInteger_def)

lemma evidenceItems_json:
  "mapE evidenceItem (map item_json is) = (if list_all valid_item is then Inr is else Inl invalidEvidence)"
  by (induction "is") (auto simp: evidenceItem_json bindE_def)

definition valid_evidence :: "execution_evidence \<Rightarrow> item_snapshot list \<Rightarrow> item_snapshot list \<Rightarrow> bool" where
  "valid_evidence e current proposed \<longleftrightarrow> xe_provider e \<noteq> [] \<and> xe_providerSubscriptionId e \<noteq> []
     \<and> list_all valid_item (xe_currentItems e) \<and> list_all valid_item (xe_proposedItems e)
     \<and> assertAligned current (xe_currentItems e) = Inr () \<and> assertAligned proposed (xe_proposedItems e) = Inr ()"

lemma assertAligned_error: "assertAligned c p = Inl e \<Longrightarrow> e = invalidEvidence"
  by (simp add: assertAligned_def split: if_splits)

lemma normalizeEvidence_json:
  "normalizeEvidence (evidence_json e) current proposed
     = (if valid_evidence e current proposed then Inr e else Inl invalidEvidence)"
proof -
  have keys: "exactObject (evidence_json e) [''provider'', ''providerSubscriptionId'', ''currentItems'', ''proposedItems'']
      = Inr [(''provider'', IV_string (xe_provider e)), (''providerSubscriptionId'', IV_string (xe_providerSubscriptionId e)),
        (''currentItems'', IV_array (map item_json (xe_currentItems e))),
        (''proposedItems'', IV_array (map item_json (xe_proposedItems e)))]"
    by (simp add: evidence_json_def exactObject_def)
  show ?thesis
    by (cases "assertAligned current (xe_currentItems e)"; cases "assertAligned proposed (xe_proposedItems e)")
      (auto simp: normalizeEvidence_def keys bindE_def member_def evidenceString_def normalizeProviderItems_def
        evidenceItems_json valid_evidence_def dest: assertAligned_error)
qed

lemma evidence_roundtrip:
  "bindE (encodeExecutionEvidence e current proposed) (\<lambda>b. decodeExecutionEvidence b current proposed)
     = (if valid_evidence e current proposed then Inr e else Inl invalidEvidence)"
  by (simp add: encodeExecutionEvidence_def normalizeEvidence_json bindE_def rehydrateEvidenceBlob_def decodeExecutionEvidence_def)

end
