(* ===== verification/Migration_Steps.thy ===== *)
theory Migration_Steps
  imports Price_Migrations
begin

text \<open>
  The steps of a price migration, \<open>application/services/subscriptions/subscription-price-migration-*\<close>:
  checking that what was previewed still holds (\<open>preparation\<close>), claiming and completing a
  migration (\<open>claim\<close>), projecting the approved change on the subscription (\<open>projection\<close>),
  settling at the renewal (\<open>settlement\<close>), resolving an uncertain outcome (\<open>reconciliation\<close>), and the
  executor and the lifecycle operations that run them in transactions under an idempotency key. The
  providers and the collation of ids are given; the call of a provider is an arbitrary action,
  \<open>mx_env\<close> is what other clients do before an operation's first transaction, and random ids are
  arguments.
\<close>

section \<open>What the steps are given\<close>

record change_input =
  cn_providerSubscriptionId :: ident
  cn_currentItems :: "change_item list"
  cn_proposedItems :: "change_item list"
  cn_effectiveTiming :: effective_timing
  cn_effectiveAt :: "instant option"
  cn_prorationPolicy :: string
  cn_paymentFailurePolicy :: string
  cn_calculatedAt :: instant
  cn_renewalDate :: "instant option"

record change_preview =
  cw_immediateAdjustment :: adjustment
  cw_nextRenewal :: renewal
  cw_warnings :: "string list"
  cw_providerLimitations :: "string list"

text \<open>A method that the provider does not have is \<open>None\<close>; an answer is what it is at run time.\<close>

record 'w change_provider =
  vp_capabilities :: "operation_capabilities option"
  vp_preview :: "(change_input \<Rightarrow> operation_context \<Rightarrow> ('w, change_preview) io) option"
  vp_apply :: "(change_input \<Rightarrow> operation_context \<Rightarrow> ('w, intent_value) io) option"
  vp_applyWithOutcome :: "(change_input \<Rightarrow> operation_context \<Rightarrow> ('w, intent_value) io) option"

datatype lifecycle_operation = LO_approve | LO_execute | LO_settle | LO_cancel | LO_retry | LO_resolve

record 'w migration_deps =
  mx_tenant :: tenant
  mx_hasStorage :: bool
  mx_idempotency :: "idem_config option"
  mx_json :: "stored \<Rightarrow> stored"
  mx_hash :: "hook_value list \<Rightarrow> string"
  mx_requestHash :: "lifecycle_operation \<Rightarrow> ident \<Rightarrow> resolution_input option \<Rightarrow> string"
  mx_currency :: currency_norm
  mx_collate :: "string \<Rightarrow> string"
  mx_resolveProvider :: "string \<Rightarrow> error + 'w change_provider option"
  mx_digest :: "hook_json audit_payload \<Rightarrow> string"
  mx_env :: "'w \<Rightarrow> 'w"

record migration_ids =
  mi_token :: string
  mi_correlation :: string
  mi_call :: string
  mi_done :: string
  mi_idempotency :: string
  mi_audit :: "nat \<Rightarrow> nat \<Rightarrow> string"

abbreviation migrationStale :: error where
  "migrationStale \<equiv> PayableError ''SUBSCRIPTION_MIGRATION_PREVIEW_STALE''"

abbreviation migrationConflict :: error where
  "migrationConflict \<equiv> PayableError ''SUBSCRIPTION_MIGRATION_STATE_CONFLICT''"

abbreviation migrationUncertain :: error where
  "migrationUncertain \<equiv> PayableError ''SUBSCRIPTION_MIGRATION_RECONCILIATION_REQUIRED''"

abbreviation migrationMissing :: error where
  "migrationMissing \<equiv> PayableError ''SUBSCRIPTION_MIGRATION_NOT_FOUND''"

abbreviation migrationStorageRequired :: error where
  "migrationStorageRequired \<equiv> PayableError ''SUBSCRIPTION_MIGRATION_PREVIEW_STORAGE_REQUIRED''"

definition other_clients :: "'w migration_deps \<Rightarrow> ('w, unit) io" where
  "other_clients d = (\<lambda>w. (Inr (), mx_env d w))"

section \<open>Tables the steps read\<close>

definition findCustomer :: "ident \<Rightarrow> tenant \<Rightarrow> (('d, 'x) migration_db_scheme, customer option) io" where
  "findCustomer i t = readState (\<lambda>w. find (\<lambda>c. cu_id c = i \<and> tenantMatches t (cu_tenant c)) (mt_customers w))"

definition findPrice :: "ident \<Rightarrow> tenant \<Rightarrow> (('d, 'x) migration_db_scheme, canonical_price option) io" where
  "findPrice i t = readState (\<lambda>w. find (\<lambda>p. kp_id p = i \<and> kp_tenant p = t) (mt_prices w))"

text \<open>Fewer than a hundred bindings: the limit of a list does not cut them.\<close>

definition listBindings :: "ident \<Rightarrow> tenant \<Rightarrow> (('d, 'x) migration_db_scheme, binding list) io" where
  "listBindings subscriptionId t = readState (\<lambda>w. filter (\<lambda>b. bi_subscriptionId b = subscriptionId
     \<and> tenant_column (bi_tenant b) = tenant_column t) (hk_bindings w))"

section \<open>The canonical source\<close>

definition renewalDateIsCanonical :: "instant option \<Rightarrow> instant option \<Rightarrow> bool \<Rightarrow> bool" where
  "renewalDateIsCanonical current previewed allowAdvance =
    (if \<not> allowAdvance then current = previewed
     else case (current, previewed) of (Some c, Some p) \<Rightarrow> c \<ge> p | _ \<Rightarrow> False)"

definition migrates :: "'z migration_plan_scheme \<Rightarrow> item_snapshot \<Rightarrow> item_snapshot \<Rightarrow> bool" where
  "migrates m current proposed \<longleftrightarrow> qi_priceId current = pm_sourcePriceId m \<and> qi_priceId proposed = pm_targetPriceId m
     \<and> (qi_priceId current \<noteq> qi_priceId proposed \<or> qi_quantity current \<noteq> qi_quantity proposed)"

definition snapshot_of :: "ident \<Rightarrow> item_snapshot list \<Rightarrow> item_snapshot option" where
  "snapshot_of i items = find (\<lambda>x. qi_id x = i) items"

definition approvedMigratedCurrentItem :: "'z migration_plan_scheme \<Rightarrow> item_snapshot option" where
  "approvedMigratedCurrentItem m =
    (case filter (\<lambda>c. case snapshot_of (qi_id c) (pm_proposedItems m) of None \<Rightarrow> False | Some p \<Rightarrow> migrates m c p)
       (pm_currentItems m) of [c] \<Rightarrow> Some c | _ \<Rightarrow> None)"

definition samePriceSnapshot :: "canonical_price \<Rightarrow> price_snapshot \<Rightarrow> bool" where
  "samePriceSnapshot p s \<longleftrightarrow> kp_id p = ps_id s \<and> kp_productId p = ps_productId s \<and> kp_unitAmount p = ps_amount s
     \<and> kp_currency p = ps_currency s \<and> kp_interval p = ps_interval s \<and> kp_intervalCount p = ps_intervalCount s"

definition same_item :: "subscription_item \<Rightarrow> item_snapshot \<Rightarrow> bool" where
  "same_item x s \<longleftrightarrow> it_id x = qi_id s \<and> li_priceId x = qi_priceId s \<and> li_quantity x = qi_quantity s"

definition source_matches ::
  "'z migration_plan_scheme \<Rightarrow> item_snapshot list \<Rightarrow> bool \<Rightarrow> subscription \<Rightarrow> canonical_price \<Rightarrow> bool" where
  "source_matches m expected allowAdvance s source \<longleftrightarrow> isActiveSubscription (sub_status s)
     \<and> renewalDateIsCanonical (sub_currentPeriodEnd s) (pm_currentRenewalDate m) allowAdvance
     \<and> samePriceSnapshot source (pm_sourcePrice m)
     \<and> (case (approvedMigratedCurrentItem m, snapshot_of (pm_primaryItemId m) expected) of
          (Some migrated, Some primary) \<Rightarrow> sub_canonicalPriceId s = Some (qi_priceId primary)
            \<and> sub_acceptedQuantity s = Some (qi_quantity primary)
            \<and> (qi_id migrated = pm_primaryItemId m \<longrightarrow> sub_priceId s = Some (pm_sourcePriceId m)
                \<and> sub_canonicalProductId s = Some (ps_productId (pm_sourcePrice m))
                \<and> sub_acceptedCurrency s = Some (ps_currency (pm_sourcePrice m))
                \<and> sub_acceptedUnitAmount s = Some (ps_amount (pm_sourcePrice m))
                \<and> sub_acceptedInterval s = ps_interval (pm_sourcePrice m)
                \<and> sub_acceptedIntervalCount s = ps_intervalCount (pm_sourcePrice m))
        | _ \<Rightarrow> False)"

definition target_matches :: "'z migration_plan_scheme \<Rightarrow> canonical_price \<Rightarrow> canonical_price \<Rightarrow> bool" where
  "target_matches m source target \<longleftrightarrow> (kp_id target \<noteq> kp_id source \<longrightarrow> kp_active target) \<and> kp_recurring target
     \<and> samePriceSnapshot target (pm_targetPrice m)"

text \<open>
  The items and the previewed items are compared in the order of their ids; a subscription whose
  items, source or target changed is stale.
\<close>

definition assertCanonicalSource ::
  "('d, 'x) migration_db_scheme migration_deps \<Rightarrow> 'z migration_plan_scheme \<Rightarrow> bool
    \<Rightarrow> (('d, 'x) migration_db_scheme, subscription) io" where
  "assertCanonicalSource d m allowAdvance =
    andThen (findSubscription (pm_subscriptionId m) (mx_tenant d)) (\<lambda>found.
    andThen (case found of None \<Rightarrow> ret (None, None, None) | Some s \<Rightarrow>
      andThen (findCustomer (sub_customerId s) (mx_tenant d)) (\<lambda>customer.
      andThen (findPrice (pm_sourcePriceId m) (mx_tenant d)) (\<lambda>source.
      andThen (findPrice (pm_targetPriceId m) (mx_tenant d)) (\<lambda>target. ret (customer, source, target))))) (\<lambda>(customer, source, target).
    andThen (listBySubscription (pm_subscriptionId m) (mx_tenant d)) (\<lambda>listed.
    let items = sort_key (\<lambda>x. mx_collate d (it_id x)) listed;
        expected = sort_key (\<lambda>x. mx_collate d (qi_id x)) (pm_currentItems m)
    in case (found, customer, source, target) of
         (Some s, Some _, Some sp, Some tp) \<Rightarrow>
           if source_matches m expected allowAdvance s sp \<and> target_matches m sp tp
             \<and> list_all2 same_item items expected
           then ret s else throw migrationStale
       | _ \<Rightarrow> throw migrationStale)))"

section \<open>Preparing an execution\<close>

text \<open>A date that is there is valid.\<close>

definition assertSubscriptionChangeTiming :: "change_policies \<Rightarrow> ('w, unit) io" where
  "assertSubscriptionChangeTiming p = guardE (if ch_effectiveTiming p = ET_scheduled
     then (case ch_effectiveAt p of Some (Some _) \<Rightarrow> True | _ \<Rightarrow> False) else ch_effectiveAt p = None)
     (PayableError ''SUBSCRIPTION_CHANGE_POLICY_REQUIRED'')"

definition assertSubscriptionChangePolicies :: "change_capabilities \<Rightarrow> change_policies \<Rightarrow> ('w, unit) io" where
  "assertSubscriptionChangePolicies c p =
    andThen (assertSubscriptionChangeTiming p) (\<lambda>_.
    guardE (ch_effectiveTiming p \<in> set (cc_effectiveTimings c) \<and> ch_prorationPolicy p \<in> set (cc_prorationPolicies c)
      \<and> ch_paymentFailurePolicy p \<in> set (cc_paymentFailurePolicies c)) NOT_SUPPORTED)"

definition assertSubscriptionChangeTerms ::
  "change_capabilities \<Rightarrow> string \<times> string option \<times> int option \<Rightarrow> string \<times> string option \<times> int option \<Rightarrow> ('w, unit) io" where
  "assertSubscriptionChangeTerms c source target =
    andThen (guardE (fst source = fst target \<or> cc_supportsCurrencyChange c) NOT_SUPPORTED) (\<lambda>_.
    guardE (snd source = snd target \<or> cc_supportsBillingPeriodChange c) NOT_SUPPORTED)"

definition subscriptionChangeOperation :: "item_snapshot list \<Rightarrow> item_snapshot list \<Rightarrow> subscription_operation" where
  "subscriptionChangeOperation current proposed =
    (if list_ex (\<lambda>p. map_option qi_priceId (snapshot_of (qi_id p) (rev current)) \<noteq> Some (qi_priceId p)) proposed
     then OP_changePrice else OP_changeQuantity)"

definition changeCapabilities :: "operation_capabilities \<Rightarrow> subscription_operation \<Rightarrow> change_capabilities" where
  "changeCapabilities c op = (if op = OP_changePrice then oc_changePrice c else oc_changeQuantity c)"

definition plan_policies :: "'z migration_plan_scheme \<Rightarrow> change_policies" where
  "plan_policies m = \<lparr>ch_effectiveTiming = pm_effectiveTiming m,
     ch_effectiveAt = (if pm_effectiveTiming m = ET_scheduled then Some (pm_effectiveAt m) else None),
     ch_prorationPolicy = pm_prorationPolicy m, ch_paymentFailurePolicy = pm_paymentFailurePolicy m\<rparr>"

definition price_terms :: "price_snapshot \<Rightarrow> string \<times> string option \<times> int option" where
  "price_terms p = (ps_currency p, ps_interval p, ps_intervalCount p)"

record 'w prepared =
  pe_migration :: price_migration
  pe_subscription :: subscription
  pe_provider :: "'w change_provider"
  pe_providerKey :: string
  pe_input :: change_input

definition migrationProvider ::
  "'w migration_deps \<Rightarrow> string \<Rightarrow> ('v, 'w change_provider \<times> operation_capabilities) io" where
  "migrationProvider d name = (case mx_resolveProvider d name of
     Inl _ \<Rightarrow> throw migrationStale
   | Inr None \<Rightarrow> throw NOT_SUPPORTED
   | Inr (Some p) \<Rightarrow> (case (vp_preview p, vp_apply p, vp_capabilities p) of
       (Some _, Some _, Some c) \<Rightarrow> ret (p, c) | _ \<Rightarrow> throw NOT_SUPPORTED))"

definition execution_input :: "price_migration \<Rightarrow> execution_evidence \<Rightarrow> change_input" where
  "execution_input m evidence = \<lparr>cn_providerSubscriptionId = xe_providerSubscriptionId evidence,
     cn_currentItems = xe_currentItems evidence, cn_proposedItems = xe_proposedItems evidence,
     cn_effectiveTiming = pm_effectiveTiming m,
     cn_effectiveAt = (if pm_effectiveTiming m = ET_scheduled then pm_effectiveAt m else None),
     cn_prorationPolicy = pm_prorationPolicy m, cn_paymentFailurePolicy = pm_paymentFailurePolicy m,
     cn_calculatedAt = pm_calculatedAt m, cn_renewalDate = pm_currentRenewalDate m\<rparr>"

definition prepareMigration ::
  "('d, 'x) migration_db_scheme migration_deps \<Rightarrow> price_migration
    \<Rightarrow> (('d, 'x) migration_db_scheme, ('d, 'x) migration_db_scheme prepared) io" where
  "prepareMigration d m =
    andThen (assertCanonicalSource d m False) (\<lambda>s.
    andThen (listBindings (pm_subscriptionId m) (mx_tenant d)) (\<lambda>bindings.
    andThen (guardE (map bi_id bindings = [pm_providerBindingId m]) migrationStale) (\<lambda>_.
    andThen (findExecutionEvidence (pm_id m) (mx_tenant d)) (\<lambda>blob. case blob of None \<Rightarrow> throw migrationStale | Some b \<Rightarrow>
    andThen (liftResult (decodeExecutionEvidence b (pm_currentItems m) (pm_proposedItems m))) (\<lambda>evidence.
    andThen (migrationProvider d (xe_provider evidence)) (\<lambda>(p, capabilities).
    let c = changeCapabilities capabilities (subscriptionChangeOperation (pm_currentItems m) (pm_proposedItems m)) in
    andThen (assertSubscriptionChangePolicies c (plan_policies m)) (\<lambda>_.
    andThen (assertSubscriptionChangeTerms c (price_terms (pm_sourcePrice m)) (price_terms (pm_targetPrice m))) (\<lambda>_.
    ret \<lparr>pe_migration = m, pe_subscription = s, pe_provider = p, pe_providerKey = xe_provider evidence,
      pe_input = execution_input m evidence\<rparr>))))))))"

section \<open>Recording a transition\<close>

definition migration_status_name :: "migration_status \<Rightarrow> string" where
  "migration_status_name s = (case s of M_previewed \<Rightarrow> ''previewed'' | M_scheduled \<Rightarrow> ''scheduled''
     | M_executing \<Rightarrow> ''executing'' | M_pending_renewal \<Rightarrow> ''pending_renewal'' | M_applied \<Rightarrow> ''applied''
     | M_failed \<Rightarrow> ''failed'' | M_reconciliation_required \<Rightarrow> ''reconciliation_required'' | M_cancelled \<Rightarrow> ''cancelled'')"

definition timing_name :: "effective_timing \<Rightarrow> string" where
  "timing_name t = (case t of ET_immediate \<Rightarrow> ''immediate'' | ET_nextRenewal \<Rightarrow> ''nextRenewal'' | ET_scheduled \<Rightarrow> ''scheduled'')"

definition observation_outcome :: "price_migration \<Rightarrow> hook_value" where
  "observation_outcome m = (if pm_observationEvidence m = None then HV_null else HV_text ''unknown'')"

definition migrationSnapshot :: "price_migration \<Rightarrow> string \<Rightarrow> (string \<times> hook_value) list" where
  "migrationSnapshot m correlation = [(''status'', HV_text (migration_status_name (pm_status m))),
     (''attemptCount'', HV_number (pm_attemptCount m)),
     (''failureCode'', nullable_text (map_option failure_name (pm_failureCode m))),
     (''reconciliationOutcome'', nullable_text (map_option outcome_name (pm_reconciliationOutcome m))),
     (''reconciliationEvidenceReference'', nullable_text (pm_reconciliationEvidence m)),
     (''reconciliationObservationOutcome'', observation_outcome m),
     (''reconciliationObservationEvidenceReference'', nullable_text (pm_observationEvidence m)),
     (''correlationId'', HV_text correlation)]"

definition migrationPayload :: "price_migration \<Rightarrow> string \<Rightarrow> (string \<times> hook_value) list" where
  "migrationPayload m correlation = [(''migrationId'', HV_text (pm_id m)), (''tenantId'', nullable_text (pm_tenant m)),
     (''subscriptionId'', HV_text (pm_subscriptionId m)), (''sourcePriceId'', HV_text (pm_sourcePriceId m)),
     (''targetPriceId'', HV_text (pm_targetPriceId m)), (''status'', HV_text (migration_status_name (pm_status m))),
     (''attemptCount'', HV_number (pm_attemptCount m)), (''effectiveTiming'', HV_text (timing_name (pm_effectiveTiming m))),
     (''effectiveAt'', nullable_date (pm_effectiveAt m)),
     (''failureCode'', nullable_text (map_option failure_name (pm_failureCode m))),
     (''reconciliationOutcome'', nullable_text (map_option outcome_name (pm_reconciliationOutcome m))),
     (''reconciliationEvidenceReference'', nullable_text (pm_reconciliationEvidence m)),
     (''reconciliationObservationOutcome'', observation_outcome m),
     (''reconciliationObservationEvidenceReference'', nullable_text (pm_observationEvidence m)),
     (''correlationId'', HV_text correlation)]"

text \<open>The number of attempts in decimal, for the key.\<close>

definition transition_key :: "price_migration \<Rightarrow> bool \<Rightarrow> string" where
  "transition_key m observation = ''subscription-price-migration:'' @ pm_id m @ '':'' @ migration_status_name (pm_status m)
     @ '':'' @ show_int (pm_attemptCount m) @ (if observation then '':observation'' else [])"

definition recordTransition ::
  "'w migration_deps \<Rightarrow> (nat \<Rightarrow> string) \<Rightarrow> price_migration \<Rightarrow> price_migration \<Rightarrow> string \<Rightarrow> bool
    \<Rightarrow> (('d, 'x) migration_db_scheme, unit) io" where
  "recordTransition d ids before after correlation observation =
    andThen (guardE (pm_status after \<noteq> M_previewed) TypeError) (\<lambda>_.
    andThen (on_audit (audit_create (mx_digest d) (\<lambda>_ a. a) ids (pm_tenant after) \<lparr>
      au_correlationId = correlation, au_actorType = Some ''system'', au_actorId = None,
      au_action = ''subscription.price_migration.'' @ migration_status_name (pm_status after),
      au_resourceType = ''subscription_price_migration'', au_resourceId = pm_id after,
      au_before = Some (HJ_object (migrationSnapshot before correlation)),
      au_after = Some (HJ_object (migrationSnapshot after correlation)),
      au_metadata = None, au_ipAddress = None, au_userAgent = None\<rparr>)) (\<lambda>_.
    andThen (on_outbox (outbox_create (ids 0) \<lparr>nob_tenant = pm_tenant after, nob_correlationId = correlation,
      nob_eventType = ''subscription.price_migration.'' @ migration_status_name (pm_status after) @ ''.v1'', nob_eventVersion = 1,
      nob_payload = HP_object (migrationPayload after correlation),
      nob_dedupeKey = Some (transition_key after observation)\<rparr>)) (\<lambda>_. ret ())))"

section \<open>Claiming and completing\<close>

definition keep_cas :: "price_migration \<Rightarrow> tenant \<Rightarrow> instant \<Rightarrow> cas_input" where
  "keep_cas m t now = \<lparr>cs_id = pm_id m, cs_tenant = t, cs_expectedStatus = pm_status m, cs_expectedToken = None,
     cs_nextStatus = M_scheduled, cs_token = None, cs_attemptCount = pm_attemptCount m, cs_failureCode = None,
     cs_failureMessage = None, cs_scheduledAt = pm_scheduledAt m, cs_executionStartedAt = pm_executionStartedAt m,
     cs_appliedAt = None, cs_failedAt = None, cs_reconciliationRequiredAt = None, cs_cancelledAt = None, cs_updatedAt = now\<rparr>"

definition swapOr :: "currency_norm \<Rightarrow> cas_input \<Rightarrow> (('d, 'x) migration_db_scheme, price_migration) io" where
  "swapOr cur c = andThen (compareAndSwapState cur c) (\<lambda>swapped. case swapped of
     None \<Rightarrow> throw migrationConflict | Some m \<Rightarrow> ret m)"

definition claim_cas :: "price_migration \<Rightarrow> string \<Rightarrow> instant \<Rightarrow> cas_input" where
  "claim_cas m token now = (keep_cas m (pm_tenant m) now)\<lparr>cs_nextStatus := M_executing, cs_token := Some token,
     cs_attemptCount := pm_attemptCount m + 1, cs_executionStartedAt := Some now\<rparr>"

definition claimMigration ::
  "currency_norm \<Rightarrow> price_migration \<Rightarrow> string \<Rightarrow> instant \<Rightarrow> (('d, 'x) migration_db_scheme, price_migration) io" where
  "claimMigration cur m token now =
    andThen (if pm_status m = M_failed
      then andThen (findActiveMigration cur (pm_subscriptionId m) (pm_tenant m)) (\<lambda>active. case active of
        None \<Rightarrow> ret () | Some a \<Rightarrow> guardE (pm_id a = pm_id m) migrationConflict)
      else ret ()) (\<lambda>_. swapOr cur (claim_cas m token now))"

datatype completion = Done_applied | Done_pending | Done_failed failure_code | Done_uncertain failure_code

definition complete_cas :: "price_migration \<Rightarrow> completion \<Rightarrow> instant \<Rightarrow> cas_input" where
  "complete_cas m c now =
    (let base = (keep_cas m (pm_tenant m) now)\<lparr>cs_expectedStatus := M_executing, cs_expectedToken := pm_executionToken m,
       cs_token := pm_executionToken m\<rparr> in
    case c of
      Done_applied \<Rightarrow> base\<lparr>cs_nextStatus := M_applied, cs_appliedAt := Some now\<rparr>
    | Done_pending \<Rightarrow> base\<lparr>cs_nextStatus := M_pending_renewal\<rparr>
    | Done_failed f \<Rightarrow> base\<lparr>cs_nextStatus := M_failed, cs_token := None, cs_failedAt := Some now,
        cs_failureCode := Some f, cs_failureMessage := Some (failure_message f)\<rparr>
    | Done_uncertain f \<Rightarrow> base\<lparr>cs_nextStatus := M_reconciliation_required, cs_reconciliationRequiredAt := Some now,
        cs_failureCode := Some f, cs_failureMessage := Some (failure_message f)\<rparr>)"

definition completeMigration ::
  "currency_norm \<Rightarrow> price_migration \<Rightarrow> completion \<Rightarrow> instant \<Rightarrow> (('d, 'x) migration_db_scheme, price_migration) io" where
  "completeMigration cur m c now = swapOr cur (complete_cas m c now)"

definition claimedMigration :: "price_migration \<Rightarrow> bool" where
  "claimedMigration m \<longleftrightarrow> pm_status m = M_executing \<and> pm_executionToken m \<noteq> None"

section \<open>Projecting the approved change\<close>

definition approvedMigratedItem :: "'z migration_plan_scheme \<Rightarrow> error + item_snapshot" where
  "approvedMigratedItem m =
    (case filter (\<lambda>p. case snapshot_of (qi_id p) (pm_currentItems m) of None \<Rightarrow> False | Some c \<Rightarrow> migrates m c p)
       (pm_proposedItems m) of [p] \<Rightarrow> Inr p | _ \<Rightarrow> Inl TypeError)"

definition changes_item :: "item_snapshot list \<Rightarrow> item_snapshot \<Rightarrow> bool" where
  "changes_item current p \<longleftrightarrow> (case snapshot_of (qi_id p) current of None \<Rightarrow> False
     | Some c \<Rightarrow> \<not> (qi_priceId c = qi_priceId p \<and> qi_quantity c = qi_quantity p))"

fun projectItems ::
  "'z migration_plan_scheme \<Rightarrow> tenant \<Rightarrow> item_snapshot list \<Rightarrow> (('d, 'x) migration_db_scheme, unit) io" where
  "projectItems m t [] = ret ()"
| "projectItems m t (p # ps) =
    andThen (if changes_item (pm_currentItems m) p
      then updateItemById (pm_subscriptionId m) (qi_id p) \<lparr>xp_priceId = Some (qi_priceId p), xp_providerItemId = None,
        xp_quantity = Some (qi_quantity p)\<rparr> t
      else ret ()) (\<lambda>_. projectItems m t ps)"

definition approved_patch ::
  "'z migration_plan_scheme \<Rightarrow> item_snapshot \<Rightarrow> subscription \<Rightarrow> subscription_status \<Rightarrow> subscription_patch" where
  "approved_patch m item s providerStatus =
    (let target = pm_targetPrice m; base = no_patch\<lparr>sp_status := Some (reconcileStatus (sub_status s) providerStatus)\<rparr> in
    if qi_id item = pm_primaryItemId m
    then base\<lparr>sp_priceId := Some (Some (ps_id target)), sp_quantity := Some (qi_quantity item),
      sp_canonicalPriceId := Some (Some (ps_id target)), sp_canonicalProductId := Some (Some (ps_productId target)),
      sp_acceptedCurrency := Some (Some (ps_currency target)), sp_acceptedUnitAmount := Some (Some (ps_amount target)),
      sp_acceptedInterval := Some (ps_interval target), sp_acceptedIntervalCount := Some (ps_intervalCount target),
      sp_acceptedQuantity := Some (Some (qi_quantity item))\<rparr>
    else base)"

definition projectApproved ::
  "'z migration_plan_scheme \<Rightarrow> subscription \<Rightarrow> subscription_status \<Rightarrow> tenant \<Rightarrow> (('d, 'x) migration_db_scheme, unit) io" where
  "projectApproved m s providerStatus t =
    andThen (liftResult (approvedMigratedItem m)) (\<lambda>item.
    andThen (projectItems m t (pm_proposedItems m)) (\<lambda>_.
    andThen (updateSubscription (sub_id s) (approved_patch m item s providerStatus) t) (\<lambda>_. ret ())))"

text \<open>The provider applied the change: store it, or wait for the renewal.\<close>

definition projectSuccess ::
  "('d, 'x) migration_db_scheme migration_deps \<Rightarrow> migration_ids \<Rightarrow> ('d, 'x) migration_db_scheme prepared
    \<Rightarrow> subscription_status \<Rightarrow> (('d, 'x) migration_db_scheme, price_migration) io" where
  "projectSuccess d ids p providerStatus =
    (let m = pe_migration p; token = the (pm_executionToken m) in
    andThen (assertCanonicalSource d m False) (\<lambda>_.
    andThen (readState idem_now) (\<lambda>now.
    if pm_effectiveTiming m = ET_nextRenewal
    then andThen (completeMigration (mx_currency d) m Done_pending now) (\<lambda>pending.
      andThen (recordTransition d (mi_audit ids 1) m pending (mi_done ids) False) (\<lambda>_. ret pending))
    else andThen (projectApproved m (pe_subscription p) providerStatus (mx_tenant d)) (\<lambda>_.
      andThen (completeMigration (mx_currency d) m Done_applied now) (\<lambda>applied.
      andThen (recordTransition d (mi_audit ids 1) m applied (mi_done ids) False) (\<lambda>_.
      andThen (releaseSubscriptionMutationClaim (pm_subscriptionId m) (mx_tenant d) token) (\<lambda>_. ret applied)))))))"

section \<open>The executor\<close>

definition requireMigration ::
  "'w migration_deps \<Rightarrow> ident \<Rightarrow> (('d, 'x) migration_db_scheme, price_migration) io" where
  "requireMigration d i = andThen (findMigration (mx_currency d) i (mx_tenant d)) (\<lambda>found. case found of
     None \<Rightarrow> throw migrationMissing | Some m \<Rightarrow> ret m)"

definition withStorage :: "'w migration_deps \<Rightarrow> ('v, 'a) io \<Rightarrow> ('v, 'a) io" where
  "withStorage d m = (if mx_hasStorage d then m else throw migrationStorageRequired)"

definition scheduleMigration ::
  "('d, 'x) migration_db_scheme migration_deps \<Rightarrow> migration_ids \<Rightarrow> ident \<Rightarrow> (('d, 'x) migration_db_scheme, price_migration) io" where
  "scheduleMigration d ids i = withStorage d (atomically (
    andThen (requireMigration d i) (\<lambda>m.
    andThen (guardE (pm_status m = M_previewed \<and> pm_effectiveTiming m = ET_scheduled) migrationConflict) (\<lambda>_.
    andThen (readState idem_now) (\<lambda>now.
    andThen (guardE (pm_expiresAt m > now) migrationStale) (\<lambda>_.
    andThen (prepareMigration d m) (\<lambda>_.
    andThen (swapOr (mx_currency d) ((keep_cas m (mx_tenant d) now)\<lparr>cs_expectedStatus := M_previewed,
      cs_nextStatus := M_scheduled, cs_attemptCount := 0, cs_scheduledAt := Some now, cs_executionStartedAt := None\<rparr>)) (\<lambda>scheduled.
    andThen (recordTransition d (mi_audit ids 0) m scheduled (mi_correlation ids) False) (\<lambda>_. ret scheduled)))))))))"

definition cancelMigration ::
  "('d, 'x) migration_db_scheme migration_deps \<Rightarrow> migration_ids \<Rightarrow> ident \<Rightarrow> (('d, 'x) migration_db_scheme, price_migration) io" where
  "cancelMigration d ids i = withStorage d (atomically (
    andThen (requireMigration d i) (\<lambda>m.
    if pm_status m = M_cancelled then ret m else
    if pm_status m \<notin> {M_previewed, M_scheduled, M_failed}
    then throw (if pm_status m = M_reconciliation_required then migrationUncertain else migrationConflict) else
    andThen (readState idem_now) (\<lambda>now.
    andThen (swapOr (mx_currency d) ((keep_cas m (mx_tenant d) now)\<lparr>cs_nextStatus := M_cancelled,
      cs_failureCode := pm_failureCode m, cs_failureMessage := pm_failureMessage m, cs_failedAt := pm_failedAt m,
      cs_cancelledAt := Some now\<rparr>)) (\<lambda>cancelled.
    andThen (recordTransition d (mi_audit ids 0) m cancelled (mi_correlation ids) False) (\<lambda>_. ret cancelled))))))"

definition claim_of :: "'w migration_deps \<Rightarrow> migration_ids \<Rightarrow> price_migration \<Rightarrow> instant \<Rightarrow> new_claim" where
  "claim_of d ids m now = \<lparr>nc_reference = ''subscription-price-migration:'' @ pm_id m @ '':'' @ mi_token ids,
     nc_tenant = mx_tenant d, nc_subscriptionId = pm_subscriptionId m, nc_ownerToken = mi_token ids,
     nc_operation = MO_price_migration, nc_correlationId = mi_correlation ids, nc_intent = None, nc_claimedAt = now\<rparr>"

text \<open>The first transaction of an execution: a migration already applied, or one claimed for this call.\<close>

definition claimExecution ::
  "('d, 'x) migration_db_scheme migration_deps \<Rightarrow> migration_ids \<Rightarrow> ident \<Rightarrow> migration_status
    \<Rightarrow> (('d, 'x) migration_db_scheme, price_migration + ('d, 'x) migration_db_scheme prepared) io" where
  "claimExecution d ids i expected =
    andThen (requireMigration d i) (\<lambda>m.
    if pm_status m = M_applied then ret (Inl m) else
    andThen (guardE (pm_status m \<noteq> M_reconciliation_required) migrationUncertain) (\<lambda>_.
    andThen (guardE (pm_status m = expected) migrationConflict) (\<lambda>_.
    andThen (readState idem_now) (\<lambda>now.
    andThen (guardE (expected = M_previewed \<longrightarrow> pm_expiresAt m > now) migrationStale) (\<lambda>_.
    andThen (guardE (expected = M_scheduled \<longrightarrow> pm_effectiveTiming m = ET_scheduled
      \<and> (case pm_effectiveAt m of Some at \<Rightarrow> at \<le> now | None \<Rightarrow> True)) migrationConflict) (\<lambda>_.
    andThen (prepareMigration d m) (\<lambda>prepared.
    andThen (acquireSubscriptionMutationClaim (claim_of d ids m now)) (\<lambda>_.
    andThen (claimMigration (mx_currency d) m (mi_token ids) now) (\<lambda>claimed.
    andThen (recordTransition d (mi_audit ids 0) m claimed (mi_correlation ids) False) (\<lambda>_.
    ret (Inr (prepared\<lparr>pe_migration := claimed\<rparr>))))))))))))"

definition finishFailure ::
  "('d, 'x) migration_db_scheme migration_deps \<Rightarrow> migration_ids \<Rightarrow> price_migration \<Rightarrow> completion
    \<Rightarrow> (('d, 'x) migration_db_scheme, unit) io" where
  "finishFailure d ids m c = atomically (
    andThen (readState idem_now) (\<lambda>now.
    andThen (completeMigration (mx_currency d) m c now) (\<lambda>completed.
    andThen (case c of Done_failed _ \<Rightarrow>
        releaseSubscriptionMutationClaim (pm_subscriptionId m) (mx_tenant d) (the (pm_executionToken m))
      | _ \<Rightarrow> ret ()) (\<lambda>_.
    recordTransition d (mi_audit ids 2) m completed (mi_done ids) False))))"

definition requireReconciliation ::
  "('d, 'x) migration_db_scheme migration_deps \<Rightarrow> migration_ids \<Rightarrow> price_migration \<Rightarrow> failure_code
    \<Rightarrow> (('d, 'x) migration_db_scheme, price_migration) io" where
  "requireReconciliation d ids m f =
    andThen (catching (finishFailure d ids m (Done_uncertain f)) (\<lambda>_. ret ())) (\<lambda>_. throw migrationUncertain)"

text \<open>What a provider answered, of any type; its status is one of the known names.\<close>

definition parse_status :: "string \<Rightarrow> subscription_status option" where
  "parse_status s = map_of [(''incomplete'', S_incomplete), (''incomplete_expired'', S_incomplete_expired),
     (''trialing'', S_trialing), (''active'', S_active), (''past_due'', S_past_due), (''canceled'', S_canceled),
     (''unpaid'', S_unpaid), (''paused'', S_paused)] s"

datatype change_outcome = CO_not_applied | CO_applied ident subscription_status

definition changeOutcome :: "intent_value \<Rightarrow> change_outcome option" where
  "changeOutcome v = (case v of
     IV_object ms \<Rightarrow>
       (if member ms ''kind'' = Some (IV_string ''not_applied'')
        then (case (member ms ''sideEffects'', member ms ''code'', member ms ''message'') of
            (Some (IV_string effects), Some (IV_string code), message) \<Rightarrow>
              if effects = ''definitively_none'' \<and> trim code \<noteq> []
                \<and> (case message of None \<Rightarrow> True | Some (IV_string _) \<Rightarrow> True | _ \<Rightarrow> False)
              then Some CO_not_applied else None
          | _ \<Rightarrow> None)
        else if member ms ''kind'' = Some (IV_string ''applied'')
        then (case member ms ''subscription'' of
            Some (IV_object sub) \<Rightarrow>
              (case (member sub ''providerSubscriptionId'', member sub ''status'') of
                 (Some (IV_string i), Some (IV_string s)) \<Rightarrow> map_option (CO_applied i) (parse_status s)
               | _ \<Rightarrow> None)
          | _ \<Rightarrow> None)
        else None)
   | _ \<Rightarrow> None)"

definition applyMigrationProvider ::
  "'w change_provider \<Rightarrow> change_input \<Rightarrow> operation_context \<Rightarrow> ('w, change_outcome) io" where
  "applyMigrationProvider p input context =
    andThen (case vp_applyWithOutcome p of
        Some f \<Rightarrow> f input context
      | None \<Rightarrow> (case vp_apply p of None \<Rightarrow> throw TypeError | Some f \<Rightarrow>
          andThen (f input context) (\<lambda>s. ret (IV_object [(''kind'', IV_string ''applied''), (''subscription'', s)])))) (\<lambda>answer.
    case changeOutcome answer of None \<Rightarrow> throw TypeError | Some o1 \<Rightarrow> ret o1)"

definition providerCallKey :: "'w migration_deps \<Rightarrow> 'w prepared \<Rightarrow> string" where
  "providerCallKey d p = ''payable:subscription-price-migration-execute:v1:'' @ mx_hash d [nullable_text (mx_tenant d),
     HV_text (pe_providerKey p), HV_text (pm_providerBindingId (pe_migration p)), HV_text (pm_id (pe_migration p)),
     HV_number (pm_attemptCount (pe_migration p))]"

definition storeOutcome ::
  "('d, 'x) migration_db_scheme migration_deps \<Rightarrow> migration_ids \<Rightarrow> ('d, 'x) migration_db_scheme prepared
    \<Rightarrow> error + change_outcome \<Rightarrow> (('d, 'x) migration_db_scheme, price_migration) io" where
  "storeOutcome d ids p outcome = (case outcome of
     Inl _ \<Rightarrow> requireReconciliation d ids (pe_migration p) FC_outcome_unknown
   | Inr CO_not_applied \<Rightarrow>
       andThen (catching (finishFailure d ids (pe_migration p) (Done_failed FC_not_applied)) (\<lambda>_. throw migrationUncertain)) (\<lambda>_.
       throw (PayableError (failure_name FC_not_applied)))
   | Inr (CO_applied i status) \<Rightarrow>
       if i \<noteq> cn_providerSubscriptionId (pe_input p)
       then requireReconciliation d ids (pe_migration p) FC_identity_mismatch
       else catching (atomically (projectSuccess d ids p status))
         (\<lambda>_. requireReconciliation d ids (pe_migration p) FC_projection_failed))"

definition callMigrationProvider ::
  "('d, 'x) migration_db_scheme migration_deps \<Rightarrow> migration_ids \<Rightarrow> ('d, 'x) migration_db_scheme prepared
    \<Rightarrow> (('d, 'x) migration_db_scheme, price_migration) io" where
  "callMigrationProvider d ids p =
    andThen (attempt (applyMigrationProvider (pe_provider p) (pe_input p) (mi_call ids, providerCallKey d p)))
      (storeOutcome d ids p)"

definition executeMigration ::
  "('d, 'x) migration_db_scheme migration_deps \<Rightarrow> migration_ids \<Rightarrow> ident \<Rightarrow> migration_status
    \<Rightarrow> (('d, 'x) migration_db_scheme, price_migration) io" where
  "executeMigration d ids i expected = withStorage d (
    andThen (atomically (claimExecution d ids i expected)) (\<lambda>claimed. case claimed of
      Inl m \<Rightarrow> ret m
    | Inr p \<Rightarrow> andThen (guardE (claimedMigration (pe_migration p)) migrationConflict) (\<lambda>_.
        callMigrationProvider d ids p)))"

section \<open>Settlement and reconciliation\<close>

definition settlePriceMigration ::
  "('d, 'x) migration_db_scheme migration_deps \<Rightarrow> migration_ids \<Rightarrow> price_migration
    \<Rightarrow> (('d, 'x) migration_db_scheme, price_migration) io" where
  "settlePriceMigration d ids m =
    andThen (readState idem_now) (\<lambda>now.
    case (pm_currentRenewalDate m, pm_executionToken m) of
      (Some renewalDate, Some token) \<Rightarrow>
        if pm_status m \<noteq> M_pending_renewal \<or> pm_effectiveTiming m \<noteq> ET_nextRenewal \<or> now < renewalDate
        then throw migrationConflict else
        andThen (assertCanonicalSource d m True) (\<lambda>s.
        andThen (projectApproved m s (sub_status s) (mx_tenant d)) (\<lambda>_.
        andThen (swapOr (mx_currency d) ((keep_cas m (mx_tenant d) now)\<lparr>cs_expectedStatus := M_pending_renewal,
          cs_expectedToken := Some token, cs_nextStatus := M_applied, cs_token := Some token, cs_appliedAt := Some now,
          cs_reconciliationRequiredAt := pm_reconciliationRequiredAt m\<rparr>)) (\<lambda>applied.
        andThen (releaseSubscriptionMutationClaim (pm_subscriptionId m) (mx_tenant d) token) (\<lambda>_.
        andThen (recordTransition d (mi_audit ids 0) m applied (mi_correlation ids) False) (\<lambda>_. ret applied)))))
    | _ \<Rightarrow> throw migrationConflict)"

definition resolution_base :: "price_migration \<Rightarrow> tenant \<Rightarrow> string \<Rightarrow> string \<Rightarrow> instant \<Rightarrow> resolve_input" where
  "resolution_base m t token evidence now = \<lparr>rv_id = pm_id m, rv_tenant = t, rv_expectedStatus = pm_status m,
     rv_expectedToken = token, rv_outcome = None, rv_nextStatus = M_reconciliation_required, rv_token = Some token,
     rv_evidence = evidence, rv_failureCode = Some FC_outcome_unknown,
     rv_failureMessage = Some (failure_message FC_outcome_unknown), rv_appliedAt = None, rv_failedAt = None, rv_at = now\<rparr>"

definition applied_resolution :: "price_migration \<Rightarrow> string \<Rightarrow> string \<Rightarrow> instant \<Rightarrow> bool \<Rightarrow> resolve_input" where
  "applied_resolution m token evidence now pending = (resolution_base m (pm_tenant m) token evidence now)\<lparr>
     rv_outcome := Some Was_applied, rv_nextStatus := (if pending then M_pending_renewal else M_applied),
     rv_failureCode := None, rv_failureMessage := None, rv_appliedAt := (if pending then None else Some now)\<rparr>"

definition not_applied_resolution :: "price_migration \<Rightarrow> string \<Rightarrow> string \<Rightarrow> instant \<Rightarrow> resolve_input" where
  "not_applied_resolution m token evidence now = (resolution_base m (pm_tenant m) token evidence now)\<lparr>
     rv_outcome := Some Was_not_applied, rv_nextStatus := M_failed, rv_token := None,
     rv_failureCode := Some FC_not_applied, rv_failureMessage := Some (failure_message FC_not_applied),
     rv_failedAt := Some now\<rparr>"

definition recordIf ::
  "'w migration_deps \<Rightarrow> migration_ids \<Rightarrow> price_migration \<Rightarrow> price_migration \<times> bool \<Rightarrow> bool
    \<Rightarrow> (('d, 'x) migration_db_scheme, price_migration) io" where
  "recordIf d ids m result observation =
    andThen (if snd result then recordTransition d (mi_audit ids 0) m (fst result) (mi_correlation ids) observation else ret ())
      (\<lambda>_. ret (fst result))"

definition storeObservation ::
  "('d, 'x) migration_db_scheme migration_deps \<Rightarrow> migration_ids \<Rightarrow> price_migration \<Rightarrow> string \<Rightarrow> string
    \<Rightarrow> (('d, 'x) migration_db_scheme, price_migration) io" where
  "storeObservation d ids m token evidence =
    andThen (readState idem_now) (\<lambda>now.
    andThen (resolveReconciliation (mx_currency d) (resolution_base m (mx_tenant d) token evidence now)) (\<lambda>result.
    case result of None \<Rightarrow> throw migrationConflict | Some r \<Rightarrow> recordIf d ids m r True))"

definition observeMigration ::
  "('d, 'x) migration_db_scheme migration_deps \<Rightarrow> migration_ids \<Rightarrow> price_migration \<Rightarrow> string
    \<Rightarrow> (('d, 'x) migration_db_scheme, price_migration) io" where
  "observeMigration d ids m evidence =
    (if pm_status m = M_reconciliation_required \<and> pm_observationEvidence m = Some evidence then ret m
     else if pm_status m \<notin> {M_executing, M_reconciliation_required} \<or> pm_observationEvidence m \<noteq> None
     then throw migrationConflict
     else case pm_executionToken m of None \<Rightarrow> throw migrationConflict
       | Some token \<Rightarrow> storeObservation d ids m token evidence)"

definition storeConclusion ::
  "('d, 'x) migration_db_scheme migration_deps \<Rightarrow> migration_ids \<Rightarrow> price_migration \<Rightarrow> string \<Rightarrow> claim_outcome \<Rightarrow> string
    \<Rightarrow> (('d, 'x) migration_db_scheme, price_migration) io" where
  "storeConclusion d ids m token outcome evidence =
    (let pending = outcome = Was_applied \<and> pm_effectiveTiming m = ET_nextRenewal in
    andThen (readState idem_now) (\<lambda>now.
    andThen (if outcome = Was_applied \<and> \<not> pending
      then andThen (assertCanonicalSource d m False) (\<lambda>s. projectApproved m s (sub_status s) (mx_tenant d))
      else ret ()) (\<lambda>_.
    andThen (resolveReconciliation (mx_currency d) (if outcome = Was_applied
      then applied_resolution m token evidence now pending else not_applied_resolution m token evidence now)) (\<lambda>result.
    case result of
      None \<Rightarrow> throw migrationConflict
    | Some r \<Rightarrow>
        andThen (if pending then ret ()
          else releaseSubscriptionMutationClaim (pm_subscriptionId m) (mx_tenant d) token) (\<lambda>_.
        recordIf d ids m r False)))))"

definition concludeMigration ::
  "('d, 'x) migration_db_scheme migration_deps \<Rightarrow> migration_ids \<Rightarrow> price_migration \<Rightarrow> claim_outcome \<Rightarrow> string
    \<Rightarrow> (('d, 'x) migration_db_scheme, price_migration) io" where
  "concludeMigration d ids m outcome evidence =
    (if pm_reconciliationOutcome m \<noteq> None
     then (if pm_reconciliationOutcome m = Some outcome \<and> pm_reconciliationEvidence m = Some evidence then ret m
       else throw migrationConflict)
     else if pm_status m \<notin> {M_executing, M_reconciliation_required} then throw migrationConflict
     else case pm_executionToken m of None \<Rightarrow> throw migrationConflict
       | Some token \<Rightarrow> storeConclusion d ids m token outcome evidence)"

definition resolveMigrationReconciliation ::
  "('d, 'x) migration_db_scheme migration_deps \<Rightarrow> migration_ids \<Rightarrow> ident \<Rightarrow> resolution_input
    \<Rightarrow> (('d, 'x) migration_db_scheme, price_migration) io" where
  "resolveMigrationReconciliation d ids i input =
    andThen (requireMigration d i) (\<lambda>m. case rin_outcome input of
      None \<Rightarrow> observeMigration d ids m (rin_evidence input)
    | Some outcome \<Rightarrow> concludeMigration d ids m outcome (rin_evidence input))"

section \<open>The lifecycle's operations\<close>

definition operation_text :: "lifecycle_operation \<Rightarrow> string" where
  "operation_text op = (case op of LO_approve \<Rightarrow> ''approve'' | LO_execute \<Rightarrow> ''execute'' | LO_settle \<Rightarrow> ''settle''
     | LO_cancel \<Rightarrow> ''cancel'' | LO_retry \<Rightarrow> ''retry'' | LO_resolve \<Rightarrow> ''resolve'')"

definition runOperation ::
  "('d, 'x) migration_db_scheme migration_deps \<Rightarrow> migration_ids \<Rightarrow> ident \<Rightarrow> lifecycle_operation \<Rightarrow> resolution_input
    \<Rightarrow> price_migration \<Rightarrow> (('d, 'x) migration_db_scheme, price_migration) io" where
  "runOperation d ids i op input m = (case op of
     LO_approve \<Rightarrow> if pm_status m \<in> {M_applied, M_pending_renewal, M_scheduled} then ret m
       else if pm_effectiveTiming m = ET_scheduled then scheduleMigration d ids i
       else executeMigration d ids i M_previewed
   | LO_execute \<Rightarrow> if pm_status m = M_applied then ret m else executeMigration d ids i M_scheduled
   | LO_settle \<Rightarrow> withStorage d (atomically (settlePriceMigration d ids m))
   | LO_retry \<Rightarrow> if pm_status m = M_reconciliation_required then throw migrationUncertain
       else if pm_status m \<noteq> M_failed then throw migrationConflict
       else executeMigration d ids i M_failed
   | LO_cancel \<Rightarrow> cancelMigration d ids i
   | LO_resolve \<Rightarrow> withStorage d (atomically (resolveMigrationReconciliation d ids i input)))"

definition migration_execution ::
  "('d, 'x) migration_db_scheme migration_deps \<Rightarrow> migration_ids \<Rightarrow> ident \<Rightarrow> lifecycle_operation \<Rightarrow> resolution_input \<Rightarrow> string
    \<Rightarrow> (('d, 'x) migration_db_scheme, stored) idem_execution" where
  "migration_execution d ids i op input key = \<lparr>ex_key = key,
     ex_storageKey = Some (''subscription-price-migration-'' @ operation_text op @ '':v1:''
       @ mx_hash d [nullable_text (mx_tenant d), HV_text i, HV_text key]),
     ex_legacyStorageKeys = [], ex_scope = ''subscription-price-migration-'' @ operation_text op,
     ex_operation = operation_text op,
     ex_requestHash = mx_requestHash d op i (if op = LO_resolve then Some input else None),
     ex_resourceType = Some ''subscription-price-migration'', ex_resourceId = Some i, ex_tenant = mx_tenant d,
     ex_retryFailed = Some False, ex_reclaimStaleProcessing = None, ex_lockTtl = None, ex_reconciliationRequired = True,
     ex_isFailureOutcomeUncertain = None, ex_token = mi_idempotency ids,
     ex_run = andThen (withStorage d (requireMigration d i)) (\<lambda>m.
       andThen (other_clients d) (\<lambda>_.
       andThen (runOperation d ids i op input m) (\<lambda>_. ret (Some (S_reference i))))),
     ex_revive = Some (\<lambda>response. case response of
         Some (S_reference r) \<Rightarrow> if r = [] then throw migrationStale else ret (Some (S_reference r))
       | _ \<Rightarrow> throw migrationStale)\<rparr>"

definition migrationOperation ::
  "('d, 'x) migration_db_scheme migration_deps \<Rightarrow> migration_ids \<Rightarrow> ident \<Rightarrow> lifecycle_operation \<Rightarrow> resolution_input
    \<Rightarrow> (('d, 'x) migration_db_scheme, price_migration) io" where
  "migrationOperation d ids i op input =
    andThen (if op = LO_resolve then assertResolutionInput input else ret ()) (\<lambda>_.
    case mx_idempotency d of
      None \<Rightarrow> throw migrationStorageRequired
    | Some config \<Rightarrow>
        andThen (liftResult (key_of (rin_idempotencyKey input))) (\<lambda>key.
        andThen (execute (knex_idem_store (mx_json d)) idem_now config (migration_execution d ids i op input key)) (\<lambda>result.
        case result of
          Some (S_reference r) \<Rightarrow> withStorage d (requireMigration d r)
        | _ \<Rightarrow> throw TypeError)))"

end
