(* ===== verification/Migration_Fence.thy ===== *)
theory Migration_Fence
  imports Migration_Steps
begin

text \<open>
  A migration that may have reached the provider keeps its subscription closed: from the claim of
  an execution until it is applied or known not to be, the subscription's mutation claim is active
  and owned by the migration's execution token. Every step of a migration keeps this, with the
  checks of both tables, under interference of other clients.
\<close>

section \<open>The fence\<close>

definition open_status :: "migration_status \<Rightarrow> bool" where
  "open_status s \<longleftrightarrow> s \<in> {M_executing, M_pending_renewal, M_reconciliation_required}"

definition fences :: "claim_row \<Rightarrow> migration_row \<Rightarrow> bool" where
  "fences c r \<longleftrightarrow> mc_status c = Claim_active \<and> mc_tenantKey c = pm_tenantKey r \<and> mc_subscriptionId c = pm_subscriptionId r
     \<and> pm_executionToken r = Some (mc_ownerToken c) \<and> mc_operation c = MO_price_migration"

definition fenced :: "('d, 'x) migration_db_scheme \<Rightarrow> bool" where
  "fenced w \<longleftrightarrow> list_all (\<lambda>r. open_status (pm_status r) \<longrightarrow> list_ex (\<lambda>c. fences c r) (mu_claims w)) (mt_rows w)"

definition migrations_inv :: "currency_norm \<Rightarrow> ('d, 'x) migration_db_scheme \<Rightarrow> bool" where
  "migrations_inv cur w \<longleftrightarrow> table_ok cur w \<and> claims_ok w \<and> fenced w"

text \<open>Steps that touch neither table.\<close>

definition apart :: "(('d, 'x) migration_db_scheme, 'a) io \<Rightarrow> bool" where
  "apart m \<longleftrightarrow> (\<forall>w. mt_rows (snd (m w)) = mt_rows w \<and> mu_claims (snd (m w)) = mu_claims w)"

lemma apart_preserves: "apart m \<Longrightarrow> preserves (migrations_inv cur) m"
  by (auto simp: apart_def preserves_def migrations_inv_def table_ok_def claims_ok_def fenced_def)

lemma apart_iff: "apart m \<longleftrightarrow> (\<forall>R C. preserves (\<lambda>w. mt_rows w = R \<and> mu_claims w = C) m)"
  by (auto simp: apart_def preserves_def)

lemma apart_rules:
  "apart (ret a)" "apart (throw e)" "apart (guardE b e)" "apart (readState g)" "apart (liftResult r)"
  "apart m \<Longrightarrow> (\<And>x. apart (f x)) \<Longrightarrow> apart (andThen m f)"
  "apart p \<Longrightarrow> apart q \<Longrightarrow> apart (if b then p else q)"
  "apart n \<Longrightarrow> (\<And>y. apart (k y)) \<Longrightarrow> apart (case o1 of None \<Rightarrow> n | Some y \<Rightarrow> k y)"
  unfolding apart_iff by (auto intro!: preserves_rules split: option.split)

lemma apart_steps:
  "apart (on_audit a)" "apart (on_outbox b)" "apart (updateItemById i j q t)" "apart (updateSubscription i u t)"
  "apart (findMigration cur i t)" "apart (listBySubscription i t)" "apart (findSubscription i t)"
  by (auto simp: apart_def on_audit_def on_outbox_def updateItemById_def updateSubscription_def Let_def findMigration_def
      readMigration_def listBySubscription_def findSubscription_def andThen_liftResult
      split: prod.splits option.splits sum.splits)

lemma apart_record: "apart (recordTransition d ids before after correlation observation)"
  unfolding recordTransition_def by (intro apart_rules apart_steps)

lemma apart_projectItems: "apart (projectItems m t ps)"
  by (induction ps; simp only: projectItems.simps; intro apart_rules apart_steps; assumption?)

lemma apart_project: "apart (projectApproved m s status t)"
  unfolding projectApproved_def by (intro apart_rules apart_steps apart_projectItems)

lemma apart_source: "apart (assertCanonicalSource d m allow)"
  unfolding assertCanonicalSource_def findCustomer_def findPrice_def Let_def case_prod_beta
  by (intro apart_rules apart_steps)

lemma apart_require: "apart (requireMigration d i)"
  unfolding requireMigration_def by (intro apart_rules apart_steps)

lemma apart_provider: "apart (migrationProvider d name)"
  unfolding migrationProvider_def by (auto intro!: apart_rules split: sum.split option.split)

lemma apart_evidence: "apart (findExecutionEvidence i t)"
  unfolding findExecutionEvidence_def by (intro apart_rules)

lemma apart_prepare: "apart (prepareMigration d m)"
  unfolding prepareMigration_def listBindings_def assertSubscriptionChangePolicies_def
    assertSubscriptionChangeTiming_def assertSubscriptionChangeTerms_def Let_def case_prod_beta
  by (intro apart_rules apart_source apart_evidence apart_provider)

section \<open>What a change of state did\<close>

text \<open>The read entity shows the row's fields.\<close>

lemma entity_fields:
  assumes "migrationToEntity cur r = Inr m"
  shows "pm_id m = pm_id r" "pm_status m = pm_status r" "pm_executionToken m = pm_executionToken r"
    "pm_subscriptionId m = pm_subscriptionId r" "pm_tenant m = row_tenant r"
    "pm_reconciliationOutcome m = pm_reconciliationOutcome r" "pm_attemptCount m = pm_attemptCount r"
    "pm_effectiveTiming m = pm_effectiveTiming r" "pm_reconciliationEvidence m = pm_reconciliationEvidence r"
    "pm_observationEvidence m = pm_observationEvidence r" "pm_currentItems m = pm_currentItems r"
    "pm_proposedItems m = pm_proposedItems r"
proof -
  obtain n where n: "normalizeMigrationJson cur r = Inr n"
      and m: "m = migration_state.extend (migration_state.truncate n) \<lparr>pm_tenant = row_tenant r\<rparr>"
    using assms by (auto simp: migrationToEntity_def bindE_Inr_iff)
  obtain s t c p a e where "n = r\<lparr>pm_sourcePrice := s, pm_targetPrice := t, pm_currentItems := c, pm_proposedItems := p,
        pm_immediateAdjustment := a, pm_nextRenewal := e\<rparr>"
      "mapE normalizeItem (pm_currentItems r) = Inr c" "mapE normalizeItem (pm_proposedItems r) = Inr p"
    using n by (auto simp: normalizeMigrationJson_def bindE_Inr_iff)
  with m show "pm_id m = pm_id r" "pm_status m = pm_status r" "pm_executionToken m = pm_executionToken r"
    "pm_subscriptionId m = pm_subscriptionId r" "pm_tenant m = row_tenant r"
    "pm_reconciliationOutcome m = pm_reconciliationOutcome r" "pm_attemptCount m = pm_attemptCount r"
    "pm_effectiveTiming m = pm_effectiveTiming r" "pm_reconciliationEvidence m = pm_reconciliationEvidence r"
    "pm_observationEvidence m = pm_observationEvidence r" "pm_currentItems m = pm_currentItems r"
    "pm_proposedItems m = pm_proposedItems r"
    by (auto simp: migration_state.defs dest: normalizeItems_same)
qed

lemma row_tenant_column [simp]: "tenant_column (row_tenant r) = pm_tenantKey r"
  by (simp add: row_tenant_def tenant_column_def)

lemma findMigration_Some:
  "findMigration cur i t w = (Inr (Some m), w') \<longleftrightarrow> w' = w \<and> (\<exists>r. find (scopedMigration i t) (mt_rows w) = Some r
    \<and> migrationToEntity cur r = Inr m)"
  by (auto simp: findMigration_def readMigration_def andThen_liftResult split: option.split sum.split)

lemma find_unique:
  assumes "distinct (map pm_id rows)" and "r \<in> set rows" and "scopedMigration i t r"
  shows "find (scopedMigration i t) rows = Some r"
proof -
  obtain s where s: "find (scopedMigration i t) rows = Some s"
    using assms(2,3) by (cases "find (scopedMigration i t) rows") (auto dest: find_NoneD)
  then have "s \<in> set rows" "pm_id s = pm_id r" using assms(3) by (auto dest: find_SomeD simp: scopedMigration_def)
  with assms(1,2) s show ?thesis by (auto simp: distinct_map dest: inj_onD)
qed

text \<open>A write that selects one row by its id and keeps the ids.\<close>

lemma update_cases:
  assumes "updateMigrationsWhere P f w = (Inr n, w')" and "0 < n"
    and ok: "table_ok cur w" and P: "\<And>r. P r \<Longrightarrow> scopedMigration i t r"
  obtains r where "r \<in> set (mt_rows w)" "P r" "row_checks (f r)" "\<And>s. s \<in> set (mt_rows w) \<Longrightarrow> P s \<longleftrightarrow> s = r"
    "w' = w\<lparr>mt_rows := map (\<lambda>s. if s = r then f r else s) (mt_rows w)\<rparr>" "n = 1" "distinct (active_keys (mt_rows w'))"
proof -
  let ?rows = "map (\<lambda>s. if P s then f s else s) (mt_rows w)"
  have w': "w' = w\<lparr>mt_rows := ?rows\<rparr>" "n = length (filter P (mt_rows w))" "distinct (active_keys ?rows)"
      and checks: "\<And>s. s \<in> set (mt_rows w) \<Longrightarrow> P s \<Longrightarrow> row_checks (f s)"
    using assms(1) by (auto simp: updateMigrationsWhere_def Let_def list_all_iff split: if_splits)
  obtain r where r: "r \<in> set (mt_rows w)" "P r"
    using w'(2) assms(2) by (metis filter_False length_greater_0_conv)
  have ids: "distinct (map pm_id (mt_rows w))" using ok by (simp add: table_ok_def)
  have only: "P s \<longleftrightarrow> s = r" if "s \<in> set (mt_rows w)" for s
    using that r P [of s] P [of r] ids by (auto simp: scopedMigration_def distinct_map dest: inj_onD)
  have rows: "?rows = map (\<lambda>s. if s = r then f r else s) (mt_rows w)"
    using only by (intro map_cong refl) auto
  have "filter P (mt_rows w) = filter (\<lambda>s. s = r) (mt_rows w)" using only by (intro filter_cong refl) auto
  moreover have "distinct (mt_rows w)" using ids by (simp add: distinct_map)
  ultimately have "n = 1" using w'(2) r(1) by (simp add: distinct_length_filter)
  with that [OF r checks [OF r] only] w' rows show ?thesis by simp
qed

text \<open>The tables after the row \<open>r\<close> has become \<open>f r\<close>.\<close>

lemma replaced_table_ok:
  assumes ok: "table_ok cur w" and r: "r \<in> set (mt_rows w)" and r': "row_ok cur r'" "pm_id r' = pm_id r"
    and keys: "distinct (active_keys (map (\<lambda>s. if s = r then r' else s) (mt_rows w)))"
  shows "table_ok cur (w\<lparr>mt_rows := map (\<lambda>s. if s = r then r' else s) (mt_rows w)\<rparr>)"
proof -
  have "map pm_id (map (\<lambda>s. if s = r then r' else s) (mt_rows w)) = map pm_id (mt_rows w)"
    unfolding map_map using r'(2) by (intro map_cong refl) simp
  with ok r' keys show ?thesis by (auto simp: table_ok_def list_all_iff simp del: map_map)
qed

lemma replaced_fenced:
  assumes "fenced w" and "open_status (pm_status r') \<Longrightarrow> list_ex (\<lambda>c. fences c r') (mu_claims w)"
  shows "fenced (w\<lparr>mt_rows := map (\<lambda>s. if s = r then r' else s) (mt_rows w)\<rparr>)"
  using assms by (auto simp: fenced_def list_all_iff)

text \<open>A subscription has one open migration at most.\<close>

lemma open_key: "row_checks r \<Longrightarrow> open_status (pm_status r) \<Longrightarrow>
    pm_activeSubscriptionId r = Some (pm_subscriptionId r) \<and> pm_executionToken r \<noteq> None"
  by (cases "pm_status r") (simp_all add: row_checks_def open_status_def TERMINAL_STATUSES_def)

lemma only_open:
  assumes ok: "table_ok cur w" and r: "r \<in> set (mt_rows w)" "s \<in> set (mt_rows w)"
    and "open_status (pm_status r)" "open_status (pm_status s)"
    and same: "pm_tenantKey s = pm_tenantKey r" "pm_subscriptionId s = pm_subscriptionId r"
  shows "s = r"
proof -
  have "row_checks r" "row_checks s" using ok r by (auto simp: table_ok_def list_all_iff row_ok_def)
  then have key: "pm_activeSubscriptionId r = Some (pm_subscriptionId r)" "pm_activeSubscriptionId s = Some (pm_subscriptionId s)"
    using assms(4,5) open_key by blast+
  let ?key = "\<lambda>r. (pm_tenantKey r, pm_activeSubscriptionId r)" and ?active = "filter (\<lambda>r. pm_activeSubscriptionId r \<noteq> None) (mt_rows w)"
  have "inj_on ?key (set ?active)" using ok unfolding table_ok_def active_keys_def distinct_map by blast
  moreover have "?key s = ?key r" using key same by simp
  moreover have "s \<in> set ?active" "r \<in> set ?active" using r key by simp_all
  ultimately show ?thesis by (rule inj_onD)
qed

text \<open>A write of one row that is then read again.\<close>

lemma write_then_find:
  assumes upd: "updateMigrationsWhere P f w = (Inr n, w1)" and n: "0 < n" and ok: "table_ok cur w"
    and P: "\<And>r. P r \<Longrightarrow> scopedMigration i t r" and f: "\<And>r. pm_id (f r) = pm_id r \<and> pm_tenantKey (f r) = pm_tenantKey r \<and> pm_subscriptionId (f r) = pm_subscriptionId r"
    and found: "findMigration cur i t w1 = (Inr (Some m), w')"
  obtains r where "r \<in> set (mt_rows w)" "P r" "w' = w\<lparr>mt_rows := map (\<lambda>s. if s = r then f r else s) (mt_rows w)\<rparr>"
    "migrationToEntity cur (f r) = Inr m" "table_ok cur w'" "n = 1"
proof -
  obtain r where r: "r \<in> set (mt_rows w)" "P r" "row_checks (f r)" "n = 1"
      and w1: "w1 = w\<lparr>mt_rows := map (\<lambda>s. if s = r then f r else s) (mt_rows w)\<rparr>" "distinct (active_keys (mt_rows w1))"
    by (rule update_cases [OF upd n ok P]) blast
  obtain x where w': "w' = w1" and x: "find (scopedMigration i t) (mt_rows w1) = Some x" "migrationToEntity cur x = Inr m"
    using found by (auto simp: findMigration_Some)
  have "map pm_id (mt_rows w1) = map pm_id (mt_rows w)" unfolding w1(1) using f by simp
  then have ids: "distinct (map pm_id (mt_rows w1))" using ok by (simp add: table_ok_def)
  have "f r \<in> set (mt_rows w1)" using r(1) w1(1) by force
  moreover have "scopedMigration i t (f r)" using P [OF r(2)] f by (simp add: scopedMigration_def)
  ultimately have "x = f r" using find_unique [OF ids] x(1) by simp
  then have m: "migrationToEntity cur (f r) = Inr m" using x(2) by simp
  then have "row_ok cur (f r)" using r(1,3) f ok by (auto simp: row_ok_def table_ok_def list_all_iff)
  then have "table_ok cur w1" unfolding w1(1) using replaced_table_ok [OF ok r(1)] w1 f by simp
  with that [OF r(1,2)] w1(1) w' m r(4) show ?thesis by simp
qed

lemma swap_cases:
  assumes "swapOr cur c w = (Inr m, w')" and ok: "table_ok cur w"
  obtains r where "r \<in> set (mt_rows w)" "cas_selects c r" "isValidCas c"
    "w' = w\<lparr>mt_rows := map (\<lambda>s. if s = r then cas_update c r else s) (mt_rows w)\<rparr>"
    "migrationToEntity cur (cas_update c r) = Inr m" "table_ok cur w'"
proof -
  have valid: "isValidCas c" and run: "compareAndSwapState cur c w = (Inr (Some m), w')"
    using assms(1) by (auto simp: swapOr_def compareAndSwapState_def andThen_def split: prod.splits sum.splits option.splits if_splits)
  then obtain n w1 where upd: "updateMigrationsWhere (cas_selects c) (cas_update c) w = (Inr n, w1)" and n: "0 < n"
      and found: "findMigration cur (cs_id c) (cs_tenant c) w1 = (Inr (Some m), w')"
    by (auto simp: compareAndSwapState_def andThen_def catching_def split: prod.splits sum.splits if_splits)
  show ?thesis
    by (rule write_then_find [OF upd n ok _ _ found]) (simp_all add: cas_selects_def that valid)
qed

lemma resolve_cases:
  assumes "resolveReconciliation cur v w = (Inr (Some (m, b)), w')" and ok: "table_ok cur w"
  obtains (again) "w' = w" "rv_outcome v = None" "\<not> b"
  | (written) r where "r \<in> set (mt_rows w)" "resolve_selects v r" "b"
      "w' = w\<lparr>mt_rows := map (\<lambda>s. if s = r then resolve_update v r else s) (mt_rows w)\<rparr>"
      "migrationToEntity cur (resolve_update v r) = Inr m" "table_ok cur w'"
      "rv_outcome v = None \<Longrightarrow> rv_token v = Some (rv_expectedToken v)"
proof -
  obtain n w1 where upd: "updateReconciliation v w = (Inr n, w1)"
      and found: "findMigration cur (rv_id v) (rv_tenant v) w1 = (Inr (Some m), w')"
      and answer: "b \<longleftrightarrow> n = 1" "n \<noteq> 1 \<Longrightarrow> rv_outcome v = None"
    using assms(1) by (auto simp: resolveReconciliation_def andThen_def split: prod.splits sum.splits option.splits if_splits)
  show ?thesis
  proof (cases "n = 0")
    case True
    have "w1 = w"
    proof (cases "rv_outcome v = None \<and> rv_token v \<noteq> Some (rv_expectedToken v)")
      case False
      then have "length (filter (resolve_selects v) (mt_rows w)) = 0"
          "w1 = w\<lparr>mt_rows := map (\<lambda>s. if resolve_selects v s then resolve_update v s else s) (mt_rows w)\<rparr>"
        using upd True by (auto simp: updateReconciliation_def updateMigrationsWhere_def Let_def split: if_splits)
      then show ?thesis by (simp add: filter_empty_conv cong: map_cong)
    qed (use upd in \<open>simp add: updateReconciliation_def\<close>)
    with again found answer True show ?thesis by (auto simp: findMigration_Some)
  next
    case False
    then have upd': "updateMigrationsWhere (resolve_selects v) (resolve_update v) w = (Inr n, w1)"
        and token: "rv_outcome v = None \<Longrightarrow> rv_token v = Some (rv_expectedToken v)"
      using upd by (auto simp: updateReconciliation_def split: if_splits)
    from False have n: "0 < n" by simp
    show ?thesis
      by (rule write_then_find [OF upd' n ok _ _ found]) (auto simp: resolve_selects_def answer(1) intro: written token)
  qed
qed

definition known :: "ident \<Rightarrow> string \<Rightarrow> ident \<Rightarrow> ('d, 'x) migration_db_scheme \<Rightarrow> bool" where
  "known i key subscriptionId w \<longleftrightarrow> list_ex (\<lambda>r. pm_id r = i \<and> pm_tenantKey r = key \<and> pm_subscriptionId r = subscriptionId) (mt_rows w)"

definition unopened :: "string \<Rightarrow> ident \<Rightarrow> ('d, 'x) migration_db_scheme \<Rightarrow> bool" where
  "unopened key subscriptionId w \<longleftrightarrow> list_all (\<lambda>r. open_status (pm_status r) \<longrightarrow>
     \<not> (pm_tenantKey r = key \<and> pm_subscriptionId r = subscriptionId)) (mt_rows w)"

lemma same_row: "distinct (map pm_id rows) \<Longrightarrow> q \<in> set rows \<Longrightarrow> r \<in> set rows \<Longrightarrow> pm_id q = pm_id r \<Longrightarrow> q = r"
  unfolding distinct_map by (blast dest: inj_onD)

lemma inv_table: "migrations_inv cur w \<Longrightarrow> table_ok cur w"
  by (simp add: migrations_inv_def)

lemma replaced_inv:
  assumes inv: "migrations_inv cur w" and r: "r \<in> set (mt_rows w)"
    and w': "w' = w\<lparr>mt_rows := map (\<lambda>s. if s = r then r' else s) (mt_rows w)\<rparr>" "table_ok cur w'"
    and same: "pm_tenantKey r' = pm_tenantKey r" "pm_subscriptionId r' = pm_subscriptionId r"
    and fence: "open_status (pm_status r') \<Longrightarrow> open_status (pm_status r) \<and> pm_executionToken r' = pm_executionToken r"
  shows "migrations_inv cur w'"
proof -
  have "list_ex (\<lambda>k. fences k r') (mu_claims w)" if "open_status (pm_status r')"
    using fence [OF that] same inv r by (auto simp: migrations_inv_def fenced_def list_all_iff fences_def)
  then have "fenced w'" unfolding w'(1) using inv by (intro replaced_fenced) (simp_all add: migrations_inv_def)
  then show ?thesis using w' inv by (simp add: migrations_inv_def claims_ok_def)
qed

lemma replaced_unopened:
  assumes inv: "migrations_inv cur w" and r: "r \<in> set (mt_rows w)" and kn: "known (pm_id r) (pm_tenantKey r) sid w"
    and w': "w' = w\<lparr>mt_rows := map (\<lambda>s. if s = r then r' else s) (mt_rows w)\<rparr>"
    and opened: "open_status (pm_status r)" and closed: "\<not> open_status (pm_status r')"
  shows "unopened (pm_tenantKey r) sid w'"
proof -
  have "\<not> (pm_tenantKey s = pm_tenantKey r \<and> pm_subscriptionId s = sid)"
    if s: "s \<in> set (mt_rows w')" "open_status (pm_status s)" for s
  proof
    assume same: "pm_tenantKey s = pm_tenantKey r \<and> pm_subscriptionId s = sid"
    have "s \<noteq> r'" using s(2) closed by auto
    then have s': "s \<in> set (mt_rows w)" "s \<noteq> r" using s(1) unfolding w' by auto
    obtain q where q: "q \<in> set (mt_rows w)" "pm_id q = pm_id r" "pm_subscriptionId q = sid"
      using kn by (auto simp: known_def list_ex_iff)
    have "q = r" using q(1,2) r inv by (intro same_row [of "mt_rows w"]) (simp_all add: migrations_inv_def table_ok_def)
    then have "s = r" using only_open [of cur w r s] r s s' q same inv opened by (simp add: migrations_inv_def)
    with s' show False by simp
  qed
  then show ?thesis by (simp add: unopened_def list_all_iff)
qed

lemma swap_open:
  assumes "open_status (cs_nextStatus c) \<Longrightarrow> open_status (cs_expectedStatus c) \<and> cs_token c = cs_expectedToken c"
  shows "triple (migrations_inv cur) (swapOr cur c) (\<lambda>_. migrations_inv cur) (\<lambda>_ _. True)"
proof (rule tripleI)
  fix w m w'
  assume inv: "migrations_inv cur w" and run: "swapOr cur c w = (Inr m, w')"
  show "migrations_inv cur w'"
  proof (rule swap_cases [OF run inv_table [OF inv]])
    fix r
    assume r: "r \<in> set (mt_rows w)" "cas_selects c r" and "table_ok cur w'"
      "w' = w\<lparr>mt_rows := map (\<lambda>s. if s = r then cas_update c r else s) (mt_rows w)\<rparr>"
    with assms show ?thesis
      by (intro replaced_inv [where r' = "cas_update c r", OF inv r(1)]) (simp_all add: cas_selects_def)
  qed
qed simp

lemma swap_close:
  assumes "open_status (cs_expectedStatus c)" and "\<not> open_status (cs_nextStatus c)" and key: "key = tenant_column (cs_tenant c)"
  shows "triple (\<lambda>w. migrations_inv cur w \<and> known (cs_id c) key sid w) (swapOr cur c)
    (\<lambda>_ w. migrations_inv cur w \<and> unopened key sid w) (\<lambda>_ _. True)"
proof (rule tripleI)
  fix w m w'
  assume pre: "migrations_inv cur w \<and> known (cs_id c) key sid w" and run: "swapOr cur c w = (Inr m, w')"
  then have inv: "migrations_inv cur w" by simp
  have "unopened key sid w'"
  proof (rule swap_cases [OF run inv_table [OF inv]])
    fix r
    assume r: "r \<in> set (mt_rows w)" "cas_selects c r"
      and "w' = w\<lparr>mt_rows := map (\<lambda>s. if s = r then cas_update c r else s) (mt_rows w)\<rparr>"
    with assms pre show ?thesis
      using replaced_unopened [OF inv r(1)] by (simp add: cas_selects_def scopedMigration_def)
  qed
  moreover have "migrations_inv cur w'" using swap_open [of c cur] assms inv run by (auto dest: tripleD_ok)
  ultimately show "migrations_inv cur w' \<and> unopened key sid w'" by simp
qed simp

lemma apart_unopened: "apart m \<Longrightarrow> preserves (\<lambda>w. migrations_inv cur w \<and> unopened key s w) m"
  by (auto simp: apart_def preserves_def migrations_inv_def table_ok_def claims_ok_def fenced_def unopened_def)

lemma apart_known: "apart m \<Longrightarrow> preserves (\<lambda>w. migrations_inv cur w \<and> known i key s w) m"
  by (auto simp: apart_def preserves_def migrations_inv_def table_ok_def claims_ok_def fenced_def known_def)

lemma release_keeps:
  "triple (\<lambda>w. migrations_inv cur w \<and> unopened (tenant_column t) s w) (releaseSubscriptionMutationClaim s t token)
    (\<lambda>_ w. migrations_inv cur w \<and> unopened (tenant_column t) s w) (\<lambda>_ _. True)"
proof (rule tripleI)
  fix w x w'
  assume "migrations_inv cur w \<and> unopened (tenant_column t) s w"
    and run: "releaseSubscriptionMutationClaim s t token w = (Inr x, w')"
  then have inv: "migrations_inv cur w" and un: "unopened (tenant_column t) s w" by simp_all
  have w': "w' = snd (releaseClaim s t token w)"
    using run by (auto simp: releaseSubscriptionMutationClaim_def andThen_def guardE_def split: prod.splits sum.splits if_splits)
  then have rows: "mt_rows w' = mt_rows w" "mu_claims w' = filter (\<lambda>r. \<not> owned_claim s t token r) (mu_claims w)"
    by (simp_all add: releaseClaim_def)
  have "claims_ok w'" using w' inv preservesD [OF releaseClaim_keeps] by (auto simp: migrations_inv_def)
  moreover have "table_ok cur w'" using inv rows by (simp add: migrations_inv_def table_ok_def)
  moreover have "fenced w'"
    using inv un unfolding fenced_def unopened_def migrations_inv_def rows
    by (fastforce simp: list_all_iff list_ex_iff owned_claim_def fences_def)
  ultimately show "migrations_inv cur w' \<and> unopened (tenant_column t) s w'"
    using un rows by (simp add: migrations_inv_def unopened_def)
qed simp

lemma resolve_open:
  assumes v: "valid_resolve v" and "open_status (rv_nextStatus v)"
  shows "triple (migrations_inv cur) (resolveReconciliation cur v) (\<lambda>r w. r \<noteq> None \<longrightarrow> migrations_inv cur w) (\<lambda>_ _. True)"
proof (rule tripleI)
  fix w x w'
  assume inv: "migrations_inv cur w" and run: "resolveReconciliation cur v w = (Inr x, w')"
  show "x \<noteq> None \<longrightarrow> migrations_inv cur w'"
  proof (cases x)
    case (Some y)
    obtain m b where y: "y = (m, b)" by (cases y)
    from run Some y have run': "resolveReconciliation cur v w = (Inr (Some (m, b)), w')" by simp
    show ?thesis
    proof (cases rule: resolve_cases [OF run' inv_table [OF inv]])
      case (2 r)
      have "open_status (pm_status r)" "pm_executionToken (resolve_update v r) = pm_executionToken r"
        using v 2(2) assms(2) by (auto simp: valid_resolve_def resolve_selects_def resolve_update_def open_status_def
            split: option.splits claim_outcome.splits)
      then have "migrations_inv cur w'"
        by (intro replaced_inv [OF inv 2(1,4,6)]) simp_all
      then show ?thesis ..
    qed (use inv in simp)
  qed simp
qed simp

lemma resolve_close:
  assumes v: "valid_resolve v" and "\<not> open_status (rv_nextStatus v)" and out: "rv_outcome v \<noteq> None"
    and key: "key = tenant_column (rv_tenant v)"
  shows "triple (\<lambda>w. migrations_inv cur w \<and> known (rv_id v) key sid w) (resolveReconciliation cur v)
    (\<lambda>r w. r \<noteq> None \<longrightarrow> migrations_inv cur w \<and> unopened key sid w) (\<lambda>_ _. True)"
proof (rule tripleI)
  fix w x w'
  assume "migrations_inv cur w \<and> known (rv_id v) key sid w" and run: "resolveReconciliation cur v w = (Inr x, w')"
  then have inv: "migrations_inv cur w" and kn: "known (rv_id v) key sid w" by simp_all
  show "x \<noteq> None \<longrightarrow> migrations_inv cur w' \<and> unopened key sid w'"
  proof (cases x)
    case (Some y)
    obtain m b where y: "y = (m, b)" by (cases y)
    from run Some y have run': "resolveReconciliation cur v w = (Inr (Some (m, b)), w')" by simp
    show ?thesis
    proof (cases rule: resolve_cases [OF run' inv_table [OF inv]])
      case (2 r)
      have st: "open_status (pm_status r)" "\<not> open_status (pm_status (resolve_update v r))"
        using v 2(2) assms(2) out by (auto simp: valid_resolve_def resolve_selects_def resolve_update_def open_status_def
            split: option.splits)
      have r: "pm_id r = rv_id v" "pm_tenantKey r = key" using 2(2) key by (simp_all add: resolve_selects_def scopedMigration_def)
      have "migrations_inv cur w'" using st by (intro replaced_inv [OF inv 2(1,4,6)]) simp_all
      moreover have "unopened key sid w'"
        using replaced_unopened [OF inv 2(1) _ 2(4) st] kn r by simp
      ultimately show ?thesis by simp
    qed (use out in simp)
  qed simp
qed simp

section \<open>The steps keep the fence\<close>

text \<open>What only depends on the two tables is not changed by a step apart from them.\<close>

definition tabular :: "(('d, 'x) migration_db_scheme \<Rightarrow> bool) \<Rightarrow> bool" where
  "tabular P \<longleftrightarrow> (\<forall>v w. mt_rows v = mt_rows w \<and> mu_claims v = mu_claims w \<longrightarrow> P v = P w)"

lemma tabular_facts:
  "tabular (migrations_inv cur)" "tabular (known i key sid)" "tabular (unopened key sid)" "tabular (\<lambda>_. b)"
  by (auto simp: tabular_def migrations_inv_def table_ok_def claims_ok_def fenced_def known_def unopened_def)

lemma tabular_conj: "tabular P \<Longrightarrow> tabular Q \<Longrightarrow> tabular (\<lambda>w. P w \<and> Q w)"
  unfolding tabular_def by blast

lemma apart_triple:
  assumes "apart m" and "tabular P"
  shows "triple P m (\<lambda>_. P) (\<lambda>_ _. True)"
proof (rule tripleI)
  fix w x w'
  assume "P w" and "m w = (Inr x, w')"
  with assms(1) have "mt_rows w' = mt_rows w \<and> mu_claims w' = mu_claims w" unfolding apart_def by (metis snd_conv)
  with \<open>P w\<close> assms(2) show "P w'" unfolding tabular_def by blast
qed simp

lemma apart_then:
  "apart m \<Longrightarrow> tabular P \<Longrightarrow> (\<And>x. triple P (f x) Q (\<lambda>_ _. True)) \<Longrightarrow> triple P (andThen m f) Q (\<lambda>_ _. True)"
  by (rule triple_andThen [OF apart_triple])

definition stands :: "'w migration_deps \<Rightarrow> price_migration \<Rightarrow> ('d, 'x) migration_db_scheme \<Rightarrow> bool" where
  "stands d m w \<longleftrightarrow> migrations_inv (mx_currency d) w \<and> known (pm_id m) (tenant_column (mx_tenant d)) (pm_subscriptionId m) w"

definition scoped :: "'w migration_deps \<Rightarrow> price_migration \<Rightarrow> bool" where
  "scoped d m \<longleftrightarrow> tenant_column (pm_tenant m) = tenant_column (mx_tenant d)"

abbreviation kept :: "'w migration_deps \<Rightarrow> ('d, 'x) migration_db_scheme \<Rightarrow> bool" where
  "kept d \<equiv> migrations_inv (mx_currency d)"

lemma tabular_stands: "tabular (stands d m)"
  unfolding stands_def by (intro tabular_conj tabular_facts)

lemma findMigration_stands:
  assumes "findMigration (mx_currency d) i (mx_tenant d) w = (Inr (Some m), w')" and "kept d w"
  shows "stands d m w' \<and> scoped d m \<and> pm_id m = i \<and> pm_executionToken m \<noteq> Some []"
proof -
  obtain r where w': "w' = w" and r: "find (scopedMigration i (mx_tenant d)) (mt_rows w) = Some r"
      and m: "migrationToEntity (mx_currency d) r = Inr m"
    using assms(1) by (auto simp: findMigration_Some)
  have "r \<in> set (mt_rows w)" "pm_id r = i" "pm_tenantKey r = tenant_column (mx_tenant d)"
    using find_SomeD [OF r] by (simp_all add: scopedMigration_def)
  moreover have "readable (mx_currency d) r"
    using calculation assms(2) by (auto simp: migrations_inv_def table_ok_def list_all_iff row_ok_iff)
  ultimately show ?thesis using w' assms(2) entity_fields [OF m] by (auto simp: readable_def stands_def known_def list_ex_iff scoped_def)
qed

lemma require_then:
  assumes "\<And>m. pm_id m = i \<Longrightarrow> scoped d m \<Longrightarrow> pm_executionToken m \<noteq> Some [] \<Longrightarrow> triple (stands d m) (f m) Q (\<lambda>_ _. True)"
  shows "triple (kept d) (andThen (requireMigration d i) f) Q (\<lambda>_ _. True)"
proof (rule triple_andThen [where R = "\<lambda>m w. (pm_id m = i \<and> scoped d m \<and> pm_executionToken m \<noteq> Some []) \<and> stands d m w"])
  show "triple (kept d) (requireMigration d i)
      (\<lambda>m w. (pm_id m = i \<and> scoped d m \<and> pm_executionToken m \<noteq> Some []) \<and> stands d m w) (\<lambda>_ _. True)"
    by (rule tripleI) (auto simp: requireMigration_def andThen_Inr_iff split: option.split_asm dest: findMigration_stands)
  show "triple (\<lambda>w. (pm_id m = i \<and> scoped d m \<and> pm_executionToken m \<noteq> Some []) \<and> stands d m w) (f m) Q (\<lambda>_ _. True)" for m
    using assms [of m] by (intro triple_conj_pre) blast
qed

lemma stands_kept: "stands d m w \<Longrightarrow> kept d w"
  by (simp add: stands_def)

lemma record_last: "tabular P \<Longrightarrow> triple P (andThen (recordTransition d ids a b c e) (\<lambda>_. ret x)) (\<lambda>_. P) (\<lambda>_ _. True)"
  by (rule apart_then [OF apart_record], assumption, rule triple_ret)

lemmas apart_inv = apart_then [OF _ tabular_facts(1)]

lemma kept_preserved: "triple P m (\<lambda>_. kept d) (\<lambda>_ _. True) \<Longrightarrow> (\<And>w. kept d w \<Longrightarrow> P w) \<Longrightarrow> preserves (kept d) (atomically m)"
  by (rule preserves_transaction, rule triple_pre)

lemma schedule_keeps: "preserves (kept d) (scheduleMigration d ids i)"
  unfolding scheduleMigration_def withStorage_def
  by (intro preserves_if preserves_throw preserves_transaction, rule require_then, rule triple_pre [OF _ stands_kept],
      rule apart_inv [OF apart_rules(3)], rule apart_inv [OF apart_rules(4)], rule apart_inv [OF apart_rules(3)],
      rule apart_inv [OF apart_prepare], rule triple_andThen [OF swap_open record_last])
    (simp_all add: open_status_def tabular_facts)

lemma cancel_keeps: "preserves (kept d) (cancelMigration d ids i)"
  unfolding cancelMigration_def withStorage_def
  by (intro preserves_if preserves_throw preserves_transaction, rule require_then, rule triple_pre [OF _ stands_kept],
      intro triple_if triple_ret triple_throw, simp_all,
      rule apart_inv [OF apart_rules(4)], rule triple_andThen [OF swap_open record_last])
    (simp_all add: open_status_def tabular_facts)

definition shut :: "'w migration_deps \<Rightarrow> price_migration \<Rightarrow> ('d, 'x) migration_db_scheme \<Rightarrow> bool" where
  "shut d m w \<longleftrightarrow> kept d w \<and> unopened (tenant_column (mx_tenant d)) (pm_subscriptionId m) w"

lemma shut_kept: "shut d m w \<Longrightarrow> kept d w"
  by (simp add: shut_def)

lemma tabular_shut: "tabular (shut d m)"
  unfolding shut_def by (intro tabular_conj tabular_facts)

lemma swap_shut:
  assumes "open_status (cs_expectedStatus c)" and "\<not> open_status (cs_nextStatus c)" and "cs_id c = pm_id m"
    and "tenant_column (cs_tenant c) = tenant_column (mx_tenant d)"
  shows "triple (stands d m) (swapOr (mx_currency d) c) (\<lambda>_. shut d m) (\<lambda>_ _. True)"
  using swap_close [OF assms(1,2) assms(4) [symmetric], of "mx_currency d" "pm_subscriptionId m"] assms(3)
  unfolding stands_def shut_def by simp

lemma release_shut:
  "triple (shut d m) (releaseSubscriptionMutationClaim (pm_subscriptionId m) (mx_tenant d) token) (\<lambda>_. shut d m) (\<lambda>_ _. True)"
  unfolding shut_def by (rule release_keeps)

lemma record_shut: "triple (shut d m) (andThen (recordTransition d ids a b c e) (\<lambda>_. ret x)) (\<lambda>_. kept d) (\<lambda>_ _. True)"
  by (rule triple_weaken [OF record_last [OF tabular_shut [of d m]]]) (simp_all add: shut_kept)

lemma settle_keeps:
  assumes "scoped d m"
  shows "triple (stands d m) (settlePriceMigration d ids m) (\<lambda>_. kept d) (\<lambda>_ _. True)"
proof (cases "pm_currentRenewalDate m"; cases "pm_executionToken m")
  fix date token
  assume date: "pm_currentRenewalDate m = Some date" and token: "pm_executionToken m = Some token"
  show ?thesis
    unfolding settlePriceMigration_def date token option.case prod.case
    by (rule apart_then [OF apart_rules(4) tabular_stands], intro triple_if triple_throw TrueI,
        rule apart_then [OF apart_source tabular_stands], rule apart_then [OF apart_project tabular_stands],
        rule triple_andThen [OF swap_shut], simp_all add: open_status_def keep_cas_def,
        rule triple_andThen [OF release_shut record_shut])
qed (auto simp: settlePriceMigration_def triple_def)

lemma complete_shut:
  assumes "scoped d m" and "c = Done_applied \<or> c = Done_failed f"
  shows "triple (stands d m) (completeMigration (mx_currency d) m c now) (\<lambda>_. shut d m) (\<lambda>_ _. True)"
  unfolding completeMigration_def using assms
  by (intro swap_shut) (auto simp: complete_cas_def keep_cas_def Let_def open_status_def scoped_def)

lemma complete_open:
  "c = Done_pending \<or> c = Done_uncertain f \<Longrightarrow>
    triple (stands d m) (completeMigration (mx_currency d) m c now) (\<lambda>_. kept d) (\<lambda>_ _. True)"
  unfolding completeMigration_def
  by (rule triple_pre [OF swap_open stands_kept]) (auto simp: complete_cas_def keep_cas_def Let_def open_status_def)

lemma finish_keeps:
  assumes "scoped d m" and "c = Done_failed f \<or> c = Done_uncertain f"
  shows "triple (stands d m) (finishFailure d ids m c) (\<lambda>_. kept d) (\<lambda>_. kept d)"
  unfolding finishFailure_def
proof (rule triple_atomically [OF _ stands_kept], rule apart_then [OF apart_rules(4) tabular_stands])
  fix now
  show "triple (stands d m) (andThen (completeMigration (mx_currency d) m c now) (\<lambda>completed.
      andThen (case c of Done_failed x \<Rightarrow>
          releaseSubscriptionMutationClaim (pm_subscriptionId m) (mx_tenant d) (the (pm_executionToken m)) | _ \<Rightarrow> ret ()) (\<lambda>_.
      recordTransition d (mi_audit ids 2) m completed (mi_done ids) False))) (\<lambda>_. kept d) (\<lambda>_ _. True)"
    using assms(2)
  proof
    assume c: "c = Done_failed f"
    show ?thesis
      unfolding c completion.case
      by (rule triple_andThen [OF complete_shut [OF assms(1)]], simp, rule triple_andThen [OF release_shut],
          rule triple_weaken [OF apart_triple [OF apart_record tabular_shut]], assumption, erule shut_kept, simp)
  next
    assume c: "c = Done_uncertain f"
    show ?thesis
      unfolding c completion.case
      by (rule triple_andThen [OF complete_open], simp, rule apart_inv [OF apart_rules(1)],
          rule apart_triple [OF apart_record tabular_facts(1)])
  qed
qed

lemma uncertain_keeps:
  assumes "scoped d m"
  shows "triple (stands d m) (requireReconciliation d ids m f) Q (\<lambda>_. kept d)"
  unfolding requireReconciliation_def
  by (rule triple_andThen [where R = "\<lambda>_. kept d"], rule triple_catching [OF finish_keeps [OF assms, of _ f]], simp,
      rule triple_ret, assumption, rule triple_throw)

lemma success_keeps:
  assumes "scoped d (pe_migration p)"
  shows "triple (stands d (pe_migration p)) (projectSuccess d ids p status) (\<lambda>_. kept d) (\<lambda>_ _. True)"
  unfolding projectSuccess_def Let_def
  by (rule apart_then [OF apart_source tabular_stands], rule apart_then [OF apart_rules(4) tabular_stands], rule triple_if,
      rule triple_andThen [OF complete_open record_last [OF tabular_facts(1)]], simp,
      rule apart_then [OF apart_project tabular_stands], rule triple_andThen [OF complete_shut [OF assms]], simp,
      rule apart_then [OF apart_record tabular_shut], rule triple_andThen [OF release_shut], rule triple_ret, erule shut_kept)

lemma store_keeps:
  assumes "scoped d (pe_migration p)"
  shows "triple (stands d (pe_migration p)) (storeOutcome d ids p outcome) (\<lambda>_. kept d) (\<lambda>_. kept d)"
proof -
  have failed: "triple (stands d (pe_migration p))
      (andThen (catching (finishFailure d ids (pe_migration p) (Done_failed FC_not_applied)) (\<lambda>_. throw migrationUncertain)) (\<lambda>_.
       throw (PayableError (failure_name FC_not_applied)))) (\<lambda>_. kept d) (\<lambda>_. kept d)"
    by (rule triple_andThen [where R = "\<lambda>_. kept d"], rule triple_catching [OF finish_keeps [OF assms, of _ FC_not_applied]], simp,
        rule triple_throw, assumption, rule triple_throw)
  have success: "triple (stands d (pe_migration p)) (catching (atomically (projectSuccess d ids p status))
      (\<lambda>_. requireReconciliation d ids (pe_migration p) FC_projection_failed)) (\<lambda>_. kept d) (\<lambda>_. kept d)" for status
    by (rule triple_catching [where R = "\<lambda>_. stands d (pe_migration p)"],
        rule triple_atomically [OF success_keeps [OF assms]], assumption, rule uncertain_keeps [OF assms])
  show ?thesis
    unfolding storeOutcome_def
    using failed success uncertain_keeps [OF assms]
    by (auto split: sum.split change_outcome.split intro!: triple_if)
qed

text \<open>Random ids are not empty.\<close>

definition valid_ids :: "migration_ids \<Rightarrow> bool" where
  "valid_ids ids \<longleftrightarrow> mi_token ids \<noteq> [] \<and> mi_correlation ids \<noteq> []"

definition holding :: "'w migration_deps \<Rightarrow> migration_ids \<Rightarrow> price_migration \<Rightarrow> ('d, 'x) migration_db_scheme \<Rightarrow> bool" where
  "holding d ids m w \<longleftrightarrow> list_ex (\<lambda>c. mc_status c = Claim_active \<and> mc_tenantKey c = tenant_column (mx_tenant d)
     \<and> mc_subscriptionId c = pm_subscriptionId m \<and> mc_ownerToken c = mi_token ids \<and> mc_operation c = MO_price_migration) (mu_claims w)"

lemma stands_subscription: "stands d m w \<Longrightarrow> pm_subscriptionId m \<noteq> []"
  by (auto simp: stands_def migrations_inv_def known_def list_ex_iff table_ok_def list_all_iff row_ok_def)

lemma acquire_holds:
  assumes "valid_ids ids"
  shows "triple (stands d m) (acquireSubscriptionMutationClaim (claim_of d ids m now))
    (\<lambda>_ w. stands d m w \<and> holding d ids m w) (\<lambda>_ _. True)"
proof (rule tripleI)
  fix w x w'
  assume st: "stands d m w" and run: "acquireSubscriptionMutationClaim (claim_of d ids m now) w = (Inr x, w')"
  let ?c = "claim_of d ids m now"
  have w': "\<not> list_ex (claim_taken (claim_row_of ?c)) (mu_claims w)" "w' = w\<lparr>mu_claims := mu_claims w @ [claim_row_of ?c]\<rparr>"
    using run by (auto simp: acquireSubscriptionMutationClaim_def andThen_def acquireClaim_def
        split: if_splits prod.splits sum.splits option.splits)
  have "valid_claim ?c"
    using assms stands_subscription [OF st] by (auto simp: valid_claim_def claim_of_def valid_ids_def)
  from preservesD [OF acquireClaim_keeps [OF this], of w] st w' have "claims_ok w'"
    by (simp add: stands_def migrations_inv_def acquireClaim_def)
  with st w' show "stands d m w' \<and> holding d ids m w'"
    by (auto simp: stands_def migrations_inv_def table_ok_def fenced_def known_def holding_def claim_row_of_def claim_of_def
        list_all_iff list_ex_iff)
qed simp

definition claimed_for :: "'w migration_deps \<Rightarrow> migration_ids \<Rightarrow> price_migration \<Rightarrow> ('d, 'x) migration_db_scheme \<Rightarrow> bool" where
  "claimed_for d ids m w \<longleftrightarrow> stands d m w \<and> scoped d m \<and> pm_status m = M_executing \<and> pm_executionToken m = Some (mi_token ids)"

lemma tabular_claimed: "tabular (claimed_for d ids m)"
  unfolding claimed_for_def by (intro tabular_conj tabular_stands tabular_facts)

lemma swap_claim:
  assumes "scoped d m"
  shows "triple (\<lambda>w. stands d m w \<and> holding d ids m w) (swapOr (mx_currency d) (claim_cas m (mi_token ids) now))
    (claimed_for d ids) (\<lambda>_ _. True)"
proof (rule tripleI)
  fix w n w'
  let ?c = "claim_cas m (mi_token ids) now"
  assume pre: "stands d m w \<and> holding d ids m w" and run: "swapOr (mx_currency d) ?c w = (Inr n, w')"
  then have inv: "kept d w" by (simp add: stands_def)
  show "claimed_for d ids n w'"
  proof (rule swap_cases [OF run inv_table [OF inv]])
    fix r
    assume r: "r \<in> set (mt_rows w)" "cas_selects ?c r"
      and w': "w' = w\<lparr>mt_rows := map (\<lambda>s. if s = r then cas_update ?c r else s) (mt_rows w)\<rparr>"
      and n: "migrationToEntity (mx_currency d) (cas_update ?c r) = Inr n" and ok: "table_ok (mx_currency d) w'"
    have r': "pm_id r = pm_id m" "pm_tenantKey r = tenant_column (mx_tenant d)"
      using r(2) assms by (simp_all add: cas_selects_def scopedMigration_def claim_cas_def keep_cas_def scoped_def)
    obtain q where q: "q \<in> set (mt_rows w)" "pm_id q = pm_id m" "pm_subscriptionId q = pm_subscriptionId m"
      using pre by (auto simp: stands_def known_def list_ex_iff)
    have "q = r" using q(1,2) r(1) r'(1) inv by (intro same_row [of "mt_rows w"]) (simp_all add: migrations_inv_def table_ok_def)
    with q(3) have sub: "pm_subscriptionId r = pm_subscriptionId m" by simp
    have "fenced w'" unfolding w'
      using inv pre r' sub by (intro replaced_fenced) (auto simp: migrations_inv_def holding_def fences_def claim_cas_def list_ex_iff)
    then have "kept d w'" using inv ok w' by (simp add: migrations_inv_def claims_ok_def)
    moreover have "cas_update ?c r \<in> set (mt_rows w')" using r(1) w' by force
    moreover have "pm_id n = pm_id r" "pm_status n = M_executing" "pm_executionToken n = Some (mi_token ids)"
        "pm_subscriptionId n = pm_subscriptionId r" "tenant_column (pm_tenant n) = pm_tenantKey r"
      using entity_fields(1-5) [OF n] by (simp_all add: row_tenant_def tenant_column_def claim_cas_def)
    ultimately show ?thesis
      unfolding claimed_for_def stands_def scoped_def known_def list_ex_iff using r' sub
      by (metis cas_update_fixed(1-3))
  qed
qed simp

lemma claim_keeps:
  assumes "scoped d m"
  shows "triple (\<lambda>w. stands d m w \<and> holding d ids m w) (claimMigration (mx_currency d) m (mi_token ids) now)
    (claimed_for d ids) (\<lambda>_ _. True)"
proof -
  have t: "tabular (\<lambda>w. stands d m w \<and> holding d ids m w)"
    by (intro tabular_conj tabular_stands) (simp add: tabular_def holding_def)
  have "apart (findActiveMigration cur s t :: (('x, 'y) migration_db_scheme, price_migration option) io)" for cur s t
    by (auto simp: apart_def findActiveMigration_def readMigration_def andThen_liftResult split: option.split sum.split)
  then show ?thesis
    unfolding claimMigration_def
    by (intro apart_then [OF _ t] apart_rules swap_claim [OF assms]) assumption
qed

text \<open>The provider of an execution is one the dependencies resolved.\<close>

definition resolved :: "'w migration_deps \<Rightarrow> 'w change_provider \<Rightarrow> bool" where
  "resolved d p \<longleftrightarrow> (\<exists>name. mx_resolveProvider d name = Inr (Some p))"

lemma provider_resolved: "migrationProvider d name w = (Inr (p, c), w') \<Longrightarrow> resolved d p"
  by (auto simp: migrationProvider_def resolved_def split: sum.splits option.splits)

lemma prepare_resolved: "prepareMigration d m w = (Inr p, w') \<Longrightarrow> resolved d (pe_provider p)"
  by (auto simp: prepareMigration_def andThen_Inr_iff Let_def split: option.split_asm) (rule provider_resolved)

lemma prepare_then:
  assumes "tabular P" and "\<And>p. resolved d (pe_provider p) \<Longrightarrow> triple P (f p) Q (\<lambda>_ _. True)"
  shows "triple P (andThen (prepareMigration d m) f) Q (\<lambda>_ _. True)"
proof (rule triple_andThen [where R = "\<lambda>p w. resolved d (pe_provider p) \<and> P w"])
  show "triple P (prepareMigration d m) (\<lambda>p w. resolved d (pe_provider p) \<and> P w) (\<lambda>_ _. True)"
    using tripleD_ok [OF apart_triple [OF apart_prepare assms(1)]] by (intro tripleI) (auto dest: prepare_resolved)
  show "triple (\<lambda>w. resolved d (pe_provider p) \<and> P w) (f p) Q (\<lambda>_ _. True)" for p
    using assms(2) by (rule triple_conj_pre)
qed

text \<open>An execution's first transaction leaves a migration that stands, or one already applied.\<close>

definition claim_post ::
  "('d, 'x) migration_db_scheme migration_deps \<Rightarrow> migration_ids
    \<Rightarrow> price_migration + ('d, 'x) migration_db_scheme prepared \<Rightarrow> ('d, 'x) migration_db_scheme \<Rightarrow> bool" where
  "claim_post d ids x w = (case x of Inl m \<Rightarrow> kept d w
     | Inr p \<Rightarrow> claimed_for d ids (pe_migration p) w \<and> resolved d (pe_provider p))"

lemma claimExecution_keeps:
  assumes "valid_ids ids"
  shows "triple (kept d) (claimExecution d ids i expected) (claim_post d ids) (\<lambda>_ _. True)"
proof -
  have already: "triple (stands d m) (ret (Inl m)) (claim_post d ids) (\<lambda>_ _. True)" for m
    by (rule triple_ret) (simp add: claim_post_def stands_kept)
  have recorded: "triple (claimed_for d ids x) (andThen (recordTransition d (mi_audit ids 0) m x (mi_correlation ids) False) (\<lambda>_.
      ret (Inr (p\<lparr>pe_migration := x\<rparr>)))) (claim_post d ids) (\<lambda>_ _. True)" if "resolved d (pe_provider p)" for x p m
    by (rule apart_then [OF apart_record tabular_claimed], rule triple_ret) (simp add: claim_post_def that)
  show ?thesis
    unfolding claimExecution_def
    by (rule require_then, rule triple_if, rule already, rule apart_then [OF apart_rules(3) tabular_stands],
        rule apart_then [OF apart_rules(3) tabular_stands], rule apart_then [OF apart_rules(4) tabular_stands],
        rule apart_then [OF apart_rules(3) tabular_stands], rule apart_then [OF apart_rules(3) tabular_stands],
        rule prepare_then [OF tabular_stands], rule triple_andThen [OF acquire_holds [OF assms]],
        rule triple_andThen [OF claim_keeps recorded])
qed

section \<open>Operations under interference\<close>

text \<open>
  Other clients, and what the provider's call does to the tables, keep the invariant, the ids and
  the plans; their migrations move along the machine.
\<close>

definition migration_rely :: "currency_norm \<Rightarrow> (('d, 'x) migration_db_scheme \<Rightarrow> ('d, 'x) migration_db_scheme) \<Rightarrow> bool" where
  "migration_rely cur f \<longleftrightarrow> (\<forall>w. migrations_inv cur w \<longrightarrow> migrations_inv cur (f w) \<and> lined (mt_rows w) (mt_rows (f w)))"

definition calm_clients :: "('d, 'x) migration_db_scheme migration_deps \<Rightarrow> bool" where
  "calm_clients d \<longleftrightarrow> migration_rely (mx_currency d) (mx_env d)
     \<and> (\<forall>p. resolved d p \<longrightarrow> (\<forall>input context.
         (\<forall>f. vp_apply p = Some f \<longrightarrow> migration_rely (mx_currency d) (\<lambda>w. snd (f input context w)))
         \<and> (\<forall>f. vp_applyWithOutcome p = Some f \<longrightarrow> migration_rely (mx_currency d) (\<lambda>w. snd (f input context w)))))"

lemma lined_known:
  assumes "lined (mt_rows w) (mt_rows w')" and "known i key sid w"
  shows "known i key sid w'"
proof -
  obtain k where k: "k < length (mt_rows w)" "pm_id (mt_rows w ! k) = i" "pm_tenantKey (mt_rows w ! k) = key"
      "pm_subscriptionId (mt_rows w ! k) = sid"
    using assms(2) by (auto simp: known_def list_ex_iff in_set_conv_nth)
  have "moved (mt_rows w ! k) (mt_rows w' ! k)" "k < length (mt_rows w')"
    using assms(1) k(1) by (auto simp: lined_def list_all2_conv_all_nth)
  with k show ?thesis
    by (auto simp: moved_def migration_plan.truncate_def known_def list_ex_iff in_set_conv_nth intro!: exI [of _ k] bexI [of _ "mt_rows w' ! k"])
qed

lemma rely_stands:
  assumes "migration_rely (mx_currency d) (\<lambda>w. snd (m w))"
  shows "preserves (stands d x) m" "preserves (kept d) m"
  using assms by (auto simp: preserves_def migration_rely_def stands_def intro: lined_known)

lemma env_stands: "calm_clients d \<Longrightarrow> preserves (stands d x) (other_clients d)"
  by (rule rely_stands) (simp add: calm_clients_def other_clients_def)

lemma apply_stands:
  assumes "calm_clients d" and "resolved d p"
  shows "preserves (stands d x) (applyMigrationProvider p input context)"
proof -
  have "preserves (stands d x) (f input context)" if "vp_apply p = Some f \<or> vp_applyWithOutcome p = Some f" for f
    using assms that unfolding calm_clients_def by (intro rely_stands) blast
  then show ?thesis unfolding applyMigrationProvider_def by (auto intro!: preserves_rules split: option.split)
qed

lemma execute_keeps:
  assumes "valid_ids ids" and "calm_clients d"
  shows "preserves (kept d) (executeMigration d ids i expected)"
proof -
  have call: "triple (stands d (pe_migration p)) (callMigrationProvider d ids p) (\<lambda>_. kept d) (\<lambda>_. kept d)"
    if "scoped d (pe_migration p)" "resolved d (pe_provider p)" for p
    unfolding callMigrationProvider_def
    by (rule quiet_then [OF preserves_attempt [OF apply_stands [OF assms(2) that(2)]] stands_kept store_keeps [OF that(1)]])
  have run: "triple (claim_post d ids x) (case x of Inl m \<Rightarrow> ret m
      | Inr p \<Rightarrow> andThen (guardE (claimedMigration (pe_migration p)) migrationConflict) (\<lambda>_. callMigrationProvider d ids p))
      (\<lambda>_. kept d) (\<lambda>_. kept d)" for x
  proof (cases x)
    case (Inr p)
    have "triple (stands d (pe_migration p)) (andThen (guardE (claimedMigration (pe_migration p)) migrationConflict) (\<lambda>_.
          callMigrationProvider d ids p)) (\<lambda>_. kept d) (\<lambda>_. kept d)"
      if "scoped d (pe_migration p)" "resolved d (pe_provider p)"
      by (rule quiet_then [OF preserves_guardE stands_kept call [OF that]])
    then show ?thesis unfolding Inr sum.case claim_post_def claimed_for_def by (auto simp: triple_def)
  qed (auto simp: claim_post_def triple_def)
  have "triple (kept d) (andThen (atomically (claimExecution d ids i expected)) (\<lambda>x. case x of Inl m \<Rightarrow> ret m
      | Inr p \<Rightarrow> andThen (guardE (claimedMigration (pe_migration p)) migrationConflict) (\<lambda>_. callMigrationProvider d ids p)))
      (\<lambda>_. kept d) (\<lambda>_. kept d)"
    by (rule triple_andThen [OF triple_atomically [OF claimExecution_keeps [OF assms(1)]] run])
  then show ?thesis
    unfolding executeMigration_def withStorage_def
    by (intro preserves_if preserves_throw) (simp add: triple_leads leads_preserves)
qed

lemma answered_open:
  assumes "valid_resolve v" and "open_status (rv_nextStatus v)"
    and "\<And>m b. triple (kept d) (f (m, b)) Q (\<lambda>_ _. True)"
  shows "triple (kept d) (andThen (resolveReconciliation (mx_currency d) v) (\<lambda>r. case r of
    None \<Rightarrow> throw e | Some x \<Rightarrow> f x)) Q (\<lambda>_ _. True)"
  by (rule triple_andThen [OF resolve_open [OF assms(1,2)]], rule triple_option)
    (auto simp: triple_def split: prod.splits sum.splits dest: tripleD_ok [OF assms(3)])

lemma answered_shut:
  assumes "valid_resolve v" and "\<not> open_status (rv_nextStatus v)" and "rv_outcome v \<noteq> None"
    and "rv_id v = pm_id m" and "tenant_column (rv_tenant v) = tenant_column (mx_tenant d)"
    and "\<And>m' b. triple (shut d m) (f (m', b)) Q (\<lambda>_ _. True)"
  shows "triple (stands d m) (andThen (resolveReconciliation (mx_currency d) v) (\<lambda>r. case r of
    None \<Rightarrow> throw e | Some x \<Rightarrow> f x)) Q (\<lambda>_ _. True)"
proof -
  have "triple (stands d m) (resolveReconciliation (mx_currency d) v) (\<lambda>r w. r \<noteq> None \<longrightarrow> shut d m w) (\<lambda>_ _. True)"
    using resolve_close [OF assms(1-3) assms(5) [symmetric], of "mx_currency d" "pm_subscriptionId m"] assms(4)
    unfolding stands_def shut_def by simp
  then show ?thesis
    by (rule triple_andThen, intro triple_option)
      (auto simp: triple_def split: prod.splits sum.splits dest: tripleD_ok [OF assms(6)])
qed

lemma recordIf_keeps: "tabular P \<Longrightarrow> triple P (recordIf d ids m r observation) (\<lambda>_. P) (\<lambda>_ _. True)"
  unfolding recordIf_def by (rule apart_then, rule apart_rules(7), rule apart_record, rule apart_rules(1), assumption, rule triple_ret)

lemma observation_keeps:
  assumes "token \<noteq> []" and "evidence \<noteq> []" and "pm_status m \<in> {M_executing, M_reconciliation_required}"
  shows "triple (kept d) (storeObservation d ids m token evidence) (\<lambda>_. kept d) (\<lambda>_ _. True)"
  unfolding storeObservation_def
  by (rule apart_inv [OF apart_rules(4)], rule answered_open [OF _ _ recordIf_keeps [OF tabular_facts(1)]])
    (use assms in \<open>auto simp: valid_resolve_def resolution_base_def open_status_def\<close>)

lemma observe_keeps:
  assumes "pm_executionToken m \<noteq> Some []" and "evidence \<noteq> []"
  shows "triple (stands d m) (observeMigration d ids m evidence) (\<lambda>_. kept d) (\<lambda>_ _. True)"
proof (rule triple_pre [OF _ stands_kept])
  have "triple (kept d) (case pm_executionToken m of None \<Rightarrow> throw migrationConflict
       | Some token \<Rightarrow> storeObservation d ids m token evidence) (\<lambda>_. kept d) (\<lambda>_ _. True)"
    if "pm_status m \<in> {M_executing, M_reconciliation_required}"
    using assms that observation_keeps [of _ evidence m] by (cases "pm_executionToken m") (auto intro: triple_throw)
  then show "triple (kept d) (observeMigration d ids m evidence) (\<lambda>_. kept d) (\<lambda>_ _. True)"
    unfolding observeMigration_def by (intro triple_if triple_ret triple_throw) blast+
qed

lemma conclusion_keeps:
  assumes "scoped d m" and "token \<noteq> []" and "evidence \<noteq> []" and "pm_status m \<in> {M_executing, M_reconciliation_required}"
  shows "triple (stands d m) (storeConclusion d ids m token outcome evidence) (\<lambda>_. kept d) (\<lambda>_ _. True)"
proof -
  have source: "apart (if b then andThen (assertCanonicalSource d m False) (\<lambda>s. projectApproved m s (sub_status s) (mx_tenant d))
      else ret ())" for b
    by (intro apart_rules(6,7,1) apart_source apart_project)
  have closed: "triple (shut d m) (andThen (releaseSubscriptionMutationClaim (pm_subscriptionId m) (mx_tenant d) token)
      (\<lambda>_. recordIf d ids m r False)) (\<lambda>_. kept d) (\<lambda>_ _. True)" for r
    by (rule triple_andThen [OF release_shut], rule triple_weaken [OF recordIf_keeps [OF tabular_shut]], assumption, erule shut_kept, simp)
  show ?thesis
  proof (cases "outcome = Was_applied \<and> pm_effectiveTiming m = ET_nextRenewal")
    case True
    have "triple (kept d) (andThen (ret ()) (\<lambda>_. recordIf d ids m r False)) (\<lambda>_. kept d) (\<lambda>_ _. True)" for r
      by (rule apart_inv [OF apart_rules(1)], rule recordIf_keeps [OF tabular_facts(1)])
    note answer = this
    show ?thesis
      unfolding storeConclusion_def Let_def
      by (rule triple_pre [OF _ stands_kept], rule apart_inv [OF apart_rules(4)], rule apart_inv [OF source],
          rule answered_open)
        (use assms True answer in \<open>auto simp: valid_resolve_def applied_resolution_def resolution_base_def open_status_def\<close>)
  next
    case False
    then show ?thesis
      unfolding storeConclusion_def Let_def
      by (intro apart_then [OF apart_rules(4) tabular_stands] apart_then [OF source tabular_stands] answered_shut)
        (use assms closed in \<open>auto simp: valid_resolve_def applied_resolution_def not_applied_resolution_def resolution_base_def
          open_status_def scoped_def split: claim_outcome.split\<close>)
  qed
qed

lemma conclude_keeps:
  assumes "scoped d m" and "pm_executionToken m \<noteq> Some []" and "evidence \<noteq> []"
  shows "triple (stands d m) (concludeMigration d ids m outcome evidence) (\<lambda>_. kept d) (\<lambda>_ _. True)"
proof -
  have "triple (stands d m) (case pm_executionToken m of None \<Rightarrow> throw migrationConflict
       | Some token \<Rightarrow> storeConclusion d ids m token outcome evidence) (\<lambda>_. kept d) (\<lambda>_ _. True)"
    if "pm_status m \<in> {M_executing, M_reconciliation_required}"
    using assms that conclusion_keeps [OF assms(1)] by (cases "pm_executionToken m") (auto intro: triple_throw)
  then show ?thesis
    unfolding concludeMigration_def by (intro triple_if triple_ret triple_throw) (blast intro: stands_kept)+
qed

lemma reconciliation_keeps:
  assumes "rin_evidence input \<noteq> []"
  shows "triple (kept d) (resolveMigrationReconciliation d ids i input) (\<lambda>_. kept d) (\<lambda>_ _. True)"
  unfolding resolveMigrationReconciliation_def
  by (rule require_then, rule triple_option, rule observe_keeps [OF _ assms], assumption, rule conclude_keeps [OF _ _ assms])

section \<open>Every operation keeps the fence\<close>

lemma runOperation_keeps:
  assumes "valid_ids ids" and "calm_clients d" and "scoped d m" and "op = LO_resolve \<Longrightarrow> rin_evidence input \<noteq> []"
  shows "triple (stands d m) (runOperation d ids i op input m) (\<lambda>_. kept d) (\<lambda>_. kept d)"
proof -
  have weak: "triple (stands d m) x (\<lambda>_. kept d) (\<lambda>_. kept d)" if "preserves (kept d) x"
    for x :: "(('a, 'b) migration_db_scheme, price_migration) io"
    by (rule triple_weaken [OF preserves_triple [OF that]]) (auto simp: stands_kept)
  have settle: "triple (stands d m) (withStorage d (atomically (settlePriceMigration d ids m))) (\<lambda>_. kept d) (\<lambda>_. kept d)"
    unfolding withStorage_def
    by (rule triple_if, rule triple_atomically [OF settle_keeps [OF assms(3)]], erule stands_kept, rule triple_throw, erule stands_kept)
  have resolve: "preserves (kept d) (withStorage d (atomically (resolveMigrationReconciliation d ids i input)))"
    if "rin_evidence input \<noteq> []"
    unfolding withStorage_def
    by (intro preserves_if preserves_throw preserves_transaction reconciliation_keeps [OF that])
  show ?thesis
    using settle weak [OF resolve] assms(4) weak [OF execute_keeps [OF assms(1,2)]] weak [OF schedule_keeps] weak [OF cancel_keeps]
    by (cases op) (auto simp: runOperation_def intro!: triple_if triple_ret triple_throw stands_kept)
qed

lemma tabular_blind: "tabular P \<Longrightarrow> row_blind P"
  unfolding row_blind_def
proof (intro allI impI)
  fix k t r and w :: "('a, 'b) migration_db_scheme"
  assume "tabular P" and "P w"
  moreover have "mt_rows (put_row k t r w) = mt_rows w" "mu_claims (put_row k t r w) = mu_claims w"
    by (simp_all add: put_row_def)
  ultimately show "P (put_row k t r w)" unfolding tabular_def by blast
qed

lemma migrationOperation_keeps:
  fixes d :: "('d, 'x) migration_db_scheme migration_deps"
  assumes "valid_ids ids" and "calm_clients d"
  shows "preserves (kept d) (migrationOperation d ids i op input)"
proof -
  have final: "preserves (kept d) (withStorage d (requireMigration d r))" for r
    unfolding withStorage_def by (intro preserves_if preserves_throw apart_preserves apart_require)
  have run: "preserves (kept d) (andThen (withStorage d (requireMigration d i)) (\<lambda>m.
       andThen (other_clients d) (\<lambda>_. andThen (runOperation d ids i op input m) (\<lambda>_. ret (Some (S_reference i))))))"
    if "op = LO_resolve \<Longrightarrow> rin_evidence input \<noteq> []"
  proof -
    have "triple (kept d) (withStorage d (requireMigration d i)) (\<lambda>m w. scoped d m \<and> stands d m w) (\<lambda>_. kept d)"
    proof (rule tripleI)
      fix w m w'
      assume "kept d w" and "withStorage d (requireMigration d i) w = (Inr m, w')"
      then show "scoped d m \<and> stands d m w'"
        by (auto simp: withStorage_def requireMigration_def andThen_Inr_iff split: if_splits option.split_asm dest: findMigration_stands)
    next
      fix w e w'
      assume "kept d w" and "withStorage d (requireMigration d i) w = (Inl e, w')"
      then show "kept d w'" using preservesD [OF final [of i], of w] by simp
    qed
    moreover have "triple (\<lambda>w. scoped d m \<and> stands d m w) (andThen (other_clients d) (\<lambda>_.
        andThen (runOperation d ids i op input m) (\<lambda>_. ret (Some (S_reference i))))) (\<lambda>_. kept d) (\<lambda>_. kept d)" for m
    proof (rule triple_conj_pre, rule quiet_then [OF env_stands [OF assms(2)] stands_kept])
      assume "scoped d m"
      show "triple (stands d m) (andThen (runOperation d ids i op input m) (\<lambda>_. ret (Some (S_reference i)))) (\<lambda>_. kept d) (\<lambda>_. kept d)"
        by (rule triple_andThen [OF runOperation_keeps [OF assms \<open>scoped d m\<close> that]], assumption, rule triple_ret)
    qed
    ultimately have "triple (kept d) (andThen (withStorage d (requireMigration d i)) (\<lambda>m.
       andThen (other_clients d) (\<lambda>_. andThen (runOperation d ids i op input m) (\<lambda>_. ret (Some (S_reference i))))))
       (\<lambda>_. kept d) (\<lambda>_. kept d)"
      by (rule triple_andThen)
    then show ?thesis by (simp only: triple_leads leads_preserves)
  qed
  have exec: "preserves (kept d) (execute (knex_idem_store (mx_json d)) idem_now config (migration_execution d ids i op input key))"
    if "op = LO_resolve \<Longrightarrow> rin_evidence input \<noteq> []" for config key
    unfolding leads_preserves [symmetric]
    by (rule execute_leads [OF tabular_blind tabular_blind], rule tabular_facts, rule tabular_facts)
      (auto simp: migration_execution_def leads_preserves intro!: run [OF that] preserves_throw preserves_ret
        split: option.split_asm stored.split_asm option.split stored.split)
  have main: "preserves (kept d) (case mx_idempotency d of None \<Rightarrow> throw migrationStorageRequired
    | Some config \<Rightarrow> andThen (liftResult (key_of (rin_idempotencyKey input))) (\<lambda>key.
        andThen (execute (knex_idem_store (mx_json d)) idem_now config (migration_execution d ids i op input key)) (\<lambda>result.
        case result of Some (S_reference r) \<Rightarrow> withStorage d (requireMigration d r) | _ \<Rightarrow> throw TypeError)))"
    if "op = LO_resolve \<Longrightarrow> rin_evidence input \<noteq> []"
    by (intro preserves_option preserves_throw preserves_andThen preserves_liftResult exec [OF that])
      (auto intro!: final preserves_throw split: option.split stored.split)
  show ?thesis
  proof (cases "op = LO_resolve")
    case True
    show ?thesis
    proof (rule preservesI)
      fix w :: "('d, 'x) migration_db_scheme"
      assume w: "kept d w"
      show "kept d (snd (migrationOperation d ids i op input w))"
        using w preservesD [OF main w] True
        by (cases "rin_evidence input = []") (auto simp: migrationOperation_def assertResolutionInput_def andThen_guardE simp del: ret_apply)
    qed
  next
    case False
    then show ?thesis using main by (simp add: migrationOperation_def del: ret_apply)
  qed
qed

end
