(* ===== verification/Migration_Agreement.thy ===== *)
theory Migration_Agreement
  imports Migration_Fence
begin

text \<open>
  Migrations and the other mutations of a subscription together: neither passes the other's
  claim. Then what a retry after a refusal leaves behind, and the examples.
\<close>

section \<open>Other mutations\<close>

text \<open>The row under an owner's token, when there is one, records the owner's operation.\<close>

definition own_claim :: "new_claim \<Rightarrow> ('d, 'x) migration_db_scheme \<Rightarrow> bool" where
  "own_claim c w \<longleftrightarrow> list_all (\<lambda>r. mc_ownerToken r = nc_ownerToken c \<longrightarrow> mc_operation r = nc_operation c) (mu_claims w)"

definition foreign :: "currency_norm \<Rightarrow> new_claim \<Rightarrow> ('d, 'x) migration_db_scheme \<Rightarrow> bool" where
  "foreign cur c w \<longleftrightarrow> migrations_inv cur w \<and> own_claim c w"

lemma acquire_foreign:
  assumes "valid_claim c"
  shows "triple (migrations_inv cur) (acquireSubscriptionMutationClaim c) (\<lambda>_. foreign cur c) (\<lambda>_ _. True)"
proof (rule tripleI)
  fix w :: "('d, 'x) migration_db_scheme" and x w'
  assume inv: "migrations_inv cur w" and run: "acquireSubscriptionMutationClaim c w = (Inr x, w')"
  have w': "\<not> list_ex (claim_taken (claim_row_of c)) (mu_claims w)" "w' = w\<lparr>mu_claims := mu_claims w @ [claim_row_of c]\<rparr>"
    using run by (auto simp: acquireSubscriptionMutationClaim_def andThen_def acquireClaim_def
        split: if_splits prod.splits sum.splits option.splits)
  have "claims_ok w'" using preservesD [OF acquireClaim_keeps [OF assms], of w] inv w' by (simp add: migrations_inv_def acquireClaim_def)
  moreover have "own_claim c w'"
    using w' by (auto simp: own_claim_def list_all_iff list_ex_iff claim_taken_def claim_row_of_def)
  ultimately show "foreign cur c w'"
    using inv w' by (auto simp: foreign_def migrations_inv_def table_ok_def fenced_def list_all_iff)
qed simp

lemma release_foreign:
  assumes "nc_operation c \<noteq> MO_price_migration"
  shows "triple (foreign cur c) (releaseSubscriptionMutationClaim (nc_subscriptionId c) (nc_tenant c) (nc_ownerToken c))
    (\<lambda>_. migrations_inv cur) (\<lambda>_ _. True)"
proof (rule tripleI)
  fix w :: "('d, 'x) migration_db_scheme" and x w'
  let ?owned = "owned_claim (nc_subscriptionId c) (nc_tenant c) (nc_ownerToken c)"
  assume pre: "foreign cur c w"
    and run: "releaseSubscriptionMutationClaim (nc_subscriptionId c) (nc_tenant c) (nc_ownerToken c) w = (Inr x, w')"
  have w': "w' = snd (releaseClaim (nc_subscriptionId c) (nc_tenant c) (nc_ownerToken c) w)"
    using run by (auto simp: releaseSubscriptionMutationClaim_def andThen_def guardE_def split: prod.splits sum.splits if_splits)
  then have rows: "mt_rows w' = mt_rows w" "mu_claims w' = filter (\<lambda>r. \<not> ?owned r) (mu_claims w)"
    by (simp_all add: releaseClaim_def)
  have "claims_ok w'" using w' pre preservesD [OF releaseClaim_keeps] by (auto simp: foreign_def migrations_inv_def)
  moreover have "\<not> ?owned k" if "fences k r" "k \<in> set (mu_claims w)" for k r
    using pre that assms by (auto simp: foreign_def own_claim_def list_all_iff owned_claim_def fences_def)
  ultimately show "migrations_inv cur w'"
    using pre rows by (fastforce simp: foreign_def migrations_inv_def table_ok_def fenced_def list_all_iff list_ex_iff)
qed simp

lemma foreign_inv: "foreign cur c w \<Longrightarrow> migrations_inv cur w"
  by (simp add: foreign_def)

lemma settle_foreign:
  assumes "nc_operation c \<noteq> MO_price_migration" and "\<And>v. preserves (foreign cur c) (persist v)"
  shows "triple (foreign cur c) (settleMutation c persist answer) (\<lambda>_. migrations_inv cur) (\<lambda>_. migrations_inv cur)"
proof -
  have kept: "triple (foreign cur c) (throw e) Q (\<lambda>_. migrations_inv cur)" for e Q
    by (rule triple_throw) (rule foreign_inv)
  have stored: "triple (foreign cur c) (andThen (persist v) (\<lambda>result.
      andThen (releaseSubscriptionMutationClaim (nc_subscriptionId c) (nc_tenant c) (nc_ownerToken c)) (\<lambda>_. ret result)))
      (\<lambda>_. migrations_inv cur) (\<lambda>_ _. True)" for v
    by (rule triple_andThen [where R = "\<lambda>_. foreign cur c"], rule preserves_triple [OF assms(2)], simp,
        rule triple_andThen [OF release_foreign [OF assms(1)]], rule triple_ret)
  have applied: "triple (foreign cur c) (catching (atomically (andThen (persist v) (\<lambda>result.
      andThen (releaseSubscriptionMutationClaim (nc_subscriptionId c) (nc_tenant c) (nc_ownerToken c)) (\<lambda>_. ret result))))
      (\<lambda>_. throw ambiguousMutation)) (\<lambda>_. migrations_inv cur) (\<lambda>_. migrations_inv cur)" for v
    by (rule triple_catching [where R = "\<lambda>_. foreign cur c"], rule triple_atomically [OF stored], assumption, rule kept)
  have refused: "triple (foreign cur c) (andThen (atomically (releaseSubscriptionMutationClaim (nc_subscriptionId c) (nc_tenant c)
      (nc_ownerToken c))) (\<lambda>_. throw e)) (\<lambda>_. migrations_inv cur) (\<lambda>_. migrations_inv cur)" for e
    by (rule triple_andThen [OF triple_atomically [OF release_foreign [OF assms(1)]]], erule foreign_inv, rule triple_throw)
  show ?thesis
    unfolding settleMutation_def Let_def using kept applied refused
    by (auto split: sum.split mutation_outcome.split)
qed

lemma mutation_foreign:
  assumes "valid_claim c" and "nc_operation c \<noteq> MO_price_migration"
    and "preserves (foreign cur c) call" and "\<And>v. preserves (foreign cur c) (persist v)"
  shows "preserves (migrations_inv cur) (executeSubscriptionMutation c call persist)"
proof -
  have "triple (migrations_inv cur) (executeSubscriptionMutation c call persist) (\<lambda>_. migrations_inv cur) (\<lambda>_. migrations_inv cur)"
    unfolding executeSubscriptionMutation_def
    by (rule triple_andThen [OF triple_atomically [OF acquire_foreign [OF assms(1)]]], assumption,
        rule quiet_then [OF preserves_attempt [OF assms(3)] foreign_inv settle_foreign [OF assms(2,4)]])
  then show ?thesis by (simp add: triple_leads leads_preserves)
qed

lemma open_active:
  assumes "migrations_inv cur w" and "r \<in> set (mt_rows w)" and "open_status (pm_status r)"
    and "nc_subscriptionId c = pm_subscriptionId r" and "tenant_column (nc_tenant c) = pm_tenantKey r"
  shows "executeSubscriptionMutation c call persist w = (Inl ambiguousMutation, w)"
proof (rule active_blocks)
  show ok: "claims_ok w" using assms(1) by (simp add: migrations_inv_def)
  obtain k where "k \<in> set (mu_claims w)" "fences k r"
    using assms(1-3) by (auto simp: migrations_inv_def fenced_def list_all_iff list_ex_iff)
  moreover from this ok have "claim_row_ok k" by (auto simp: claims_ok_def list_all_iff)
  ultimately show "list_ex (active_claim (nc_subscriptionId c) (nc_tenant c)) (mu_claims w)"
    using assms(4,5) by (auto simp: list_ex_iff active_claim_def fences_def claim_row_ok_def intro!: bexI [of _ k])
qed

section \<open>The fence holds\<close>



section \<open>A retry after a refusal\<close>

lemma swap_outcome:
  assumes "swapOr cur c w = (Inr n, w')" and "table_ok cur w" and "r \<in> set (mt_rows w)" and "pm_id r = cs_id c"
  shows "pm_reconciliationOutcome n = pm_reconciliationOutcome r \<and> pm_status n = cs_nextStatus c \<and> pm_id n = cs_id c"
proof (rule swap_cases [OF assms(1,2)])
  fix s
  assume s: "s \<in> set (mt_rows w)" "cas_selects c s" and n: "migrationToEntity cur (cas_update c s) = Inr n"
  have "s = r"
    using assms(2-4) s by (intro same_row [of "mt_rows w"]) (simp_all add: table_ok_def cas_selects_def scopedMigration_def)
  then show ?thesis using entity_fields [OF n] assms(4) by (simp add: cas_update_def)
qed

lemma found_row:
  assumes "findMigration cur i t w = (Inr (Some m), w)"
  obtains r where "r \<in> set (mt_rows w)" "pm_id r = i" "pm_id m = i" "pm_reconciliationOutcome r = pm_reconciliationOutcome m"
    "migrationToEntity cur r = Inr m" "scopedMigration i t r"
proof -
  obtain r where r: "find (scopedMigration i t) (mt_rows w) = Some r" "migrationToEntity cur r = Inr m"
    using assms by (auto simp: findMigration_Some)
  with find_SomeD [OF r(1)] entity_fields [OF r(2)] that [of r] show ?thesis by (simp add: scopedMigration_def)
qed

text \<open>A claim for a retry keeps what a reconciliation recorded.\<close>

lemma claim_keeps_outcome:
  assumes ok: "table_ok (mx_currency d) v" and found: "findMigration (mx_currency d) i (mx_tenant d) v = (Inr (Some m), v)"
    and run: "claimExecution d ids i expected v = (Inr (Inr p), v1)"
  shows "pm_status (pe_migration p) = M_executing \<and> pm_id (pe_migration p) = i
    \<and> pm_reconciliationOutcome (pe_migration p) = pm_reconciliationOutcome m"
proof -
  have need: "requireMigration d i v = (Inr m, v)"
    using found by (simp add: requireMigration_def andThen_def ret_apply)
  obtain now q v2 v3 v4 x where prep: "prepareMigration d m v = (Inr q, v2)"
      and acquire: "acquireSubscriptionMutationClaim (claim_of d ids m now) v2 = (Inr x, v3)"
      and claim: "claimMigration (mx_currency d) m (mi_token ids) now v3 = (Inr (pe_migration p), v4)"
    using run need unfolding claimExecution_def
    by (auto simp: andThen_Inr_iff andThen_guardE ret_apply split: if_splits)
  have rows: "mt_rows v3 = mt_rows v"
  proof -
    have "mt_rows v2 = mt_rows v" using apart_prepare [of d m] prep by (auto simp: apart_def dest: spec [of _ v])
    moreover have "mt_rows v3 = mt_rows v2"
      using acquire by (auto simp: acquireSubscriptionMutationClaim_def andThen_def acquireClaim_def
          split: if_splits prod.splits sum.splits option.splits)
    ultimately show ?thesis by simp
  qed
  with ok have ok3: "table_ok (mx_currency d) v3" by (simp add: table_ok_def)
  obtain y where swap: "swapOr (mx_currency d) (claim_cas m (mi_token ids) now) y = (Inr (pe_migration p), v4)" "y = v3"
    using claim by (auto simp: claimMigration_def andThen_Inr_iff findActiveMigration_def readMigration_def andThen_liftResult
        andThen_guardE guardE_def split: if_splits option.split_asm sum.split_asm)
  obtain r where "r \<in> set (mt_rows v)" "pm_id r = i" "pm_id m = i" "pm_reconciliationOutcome r = pm_reconciliationOutcome m"
    using found_row [OF found] by blast
  then show ?thesis
    using swap_outcome [OF swap(1) [unfolded swap(2)] ok3, of r] rows by (simp add: claim_cas_def keep_cas_def)
qed

text \<open>Nor can a row that holds the outcome \<open>not applied\<close> become failed again: the key of its subscription would stay.\<close>

lemma refused_not_failed:
  assumes ok: "table_ok (mx_currency d) w" and found: "findMigration (mx_currency d) i (mx_tenant d) w = (Inr (Some m), w)"
    and m: "pm_status m = M_executing" "pm_reconciliationOutcome m = Some Was_not_applied"
  shows "\<exists>e. finishFailure d ids m (Done_failed f) w = (Inl e, w)"
proof -
  obtain r where r: "r \<in> set (mt_rows w)" "pm_id r = i" "pm_id m = i" "pm_reconciliationOutcome r = Some Was_not_applied"
    using found_row [OF found] m(2) by metis
  have refused: "fst (completeMigration (mx_currency d) m (Done_failed f) now w) \<noteq> Inr n" for now n
  proof
    let ?c = "complete_cas m (Done_failed f) now"
    assume "fst (completeMigration (mx_currency d) m (Done_failed f) now w) = Inr n"
    then obtain w' where run: "swapOr (mx_currency d) ?c w = (Inr n, w')"
      by (cases "swapOr (mx_currency d) ?c w") (simp add: completeMigration_def)
    show False
    proof (rule swap_cases [OF run ok])
      fix s
      assume s: "s \<in> set (mt_rows w)" "cas_selects ?c s" and ok': "table_ok (mx_currency d) w'"
        and w': "w' = w\<lparr>mt_rows := map (\<lambda>x. if x = s then cas_update ?c s else x) (mt_rows w)\<rparr>"
      have "s = r" using ok r s
        by (intro same_row [of "mt_rows w"])
          (simp_all add: table_ok_def cas_selects_def scopedMigration_def complete_cas_def keep_cas_def)
      have "row_checks s" "row_checks (cas_update ?c s)"
        using ok ok' s(1) unfolding w' by (auto simp: table_ok_def list_all_iff row_ok_def)
      moreover have "pm_status s = M_executing" using s(2) by (simp add: cas_selects_def complete_cas_def)
      ultimately show False
        using r(4) \<open>s = r\<close> by (simp add: row_checks_def cas_update_def complete_cas_def keep_cas_def TERMINAL_STATUSES_def)
    qed
  qed
  obtain x w1 where "completeMigration (mx_currency d) m (Done_failed f) (idem_now w) w = (x, w1)" by fastforce
  with refused [of "idem_now w"] show ?thesis
    by (cases x) (auto simp: finishFailure_def atomically_def andThen_def)
qed


section \<open>Examples\<close>

definition example_currency :: currency_norm where
  "example_currency s = (if s = [] then Inl TypeError else Inr s)"

lemma example_currency_stable: "currency_stable example_currency"
  by (simp add: currency_stable_def example_currency_def)

definition example_price :: "ident \<Rightarrow> int \<Rightarrow> canonical_price" where
  "example_price i amount = \<lparr>kp_id = i, kp_tenant = None, kp_productId = ''prod_1'', kp_currency = ''USD'', kp_unitAmount = amount,
     kp_recurring = True, kp_interval = Some ''month'', kp_intervalCount = Some 1, kp_active = True\<rparr>"

definition example_snapshot :: "ident \<Rightarrow> int \<Rightarrow> price_snapshot" where
  "example_snapshot i amount = \<lparr>ps_id = i, ps_productId = ''prod_1'', ps_amount = amount, ps_currency = ''USD'',
     ps_interval = Some ''month'', ps_intervalCount = Some 1\<rparr>"

definition example_plan :: migration_plan where
  "example_plan = \<lparr>pm_subscriptionId = ''sub_1'', pm_primaryItemId = ''si_1'', pm_sourcePriceId = ''pro'',
     pm_targetPriceId = ''max'', pm_sourcePrice = example_snapshot ''pro'' 1000, pm_targetPrice = example_snapshot ''max'' 2500,
     pm_currentItems = [\<lparr>qi_id = ''si_1'', qi_priceId = ''pro'', qi_quantity = 1\<rparr>],
     pm_proposedItems = [\<lparr>qi_id = ''si_1'', qi_priceId = ''max'', qi_quantity = 1\<rparr>],
     pm_effectiveTiming = ET_immediate, pm_effectiveAt = None, pm_prorationPolicy = ''none'',
     pm_paymentFailurePolicy = ''preventChange'',
     pm_immediateAdjustment = \<lparr>aj_direction = D_none, aj_amount = None, aj_currency = None\<rparr>,
     pm_nextRenewal = \<lparr>rw_amount = Some 2500, rw_currency = Some ''USD'', rw_date = Some 50\<rparr>, pm_currentRenewalDate = Some 50,
     pm_warnings = [], pm_providerLimitations = [], pm_previewToken = ''pt'', pm_requestHash = ''rh'', pm_calculatedAt = 10,
     pm_expiresAt = 900, pm_providerBindingId = ''bi_1''\<rparr>"

definition example_evidence :: evidence_blob where
  "example_evidence = \<lparr>xb_prefix = EVIDENCE_PREFIX, xb_value = Some (evidence_json \<lparr>xe_provider = ''stripe'',
     xe_providerSubscriptionId = ''psub_1'',
     xe_currentItems = [\<lparr>ci_itemId = ''si_1'', ci_providerItemId = None, ci_priceId = ''p_pro'', ci_quantity = 1\<rparr>],
     xe_proposedItems = [\<lparr>ci_itemId = ''si_1'', ci_providerItemId = None, ci_priceId = ''p_max'', ci_quantity = 1\<rparr>]\<rparr>),
     xb_empty = False\<rparr>"

text \<open>The preview as it is stored, and one that was executed, left unknown and resolved as not applied.\<close>

definition example_preview :: migration_row where
  "example_preview = migrationCreateRow ''mig_1'' None example_plan (Some example_evidence) 10"

definition example_refused :: migration_row where
  "example_refused = example_preview\<lparr>pm_status := M_failed, pm_attemptCount := 1, pm_activeSubscriptionId := None,
     pm_failureCode := Some FC_not_applied, pm_failureMessage := Some (failure_message FC_not_applied),
     pm_executionStartedAt := Some 20, pm_failedAt := Some 30, pm_reconciliationRequiredAt := Some 25,
     pm_reconciliationOutcome := Some Was_not_applied, pm_reconciliationEvidence := Some ''ticket 7'',
     pm_reconciliationResolvedAt := Some 30\<rparr>"

definition example_priced :: subscription where
  "example_priced = example_managed\<lparr>sub_canonicalPriceId := Some ''pro'', sub_canonicalProductId := Some ''prod_1'',
     sub_acceptedCurrency := Some ''USD'', sub_acceptedUnitAmount := Some 1000, sub_acceptedInterval := Some ''month'',
     sub_acceptedIntervalCount := Some 1, sub_acceptedQuantity := Some 1\<rparr>"

definition example_migrations :: "migration_row list \<Rightarrow> claim_row list \<Rightarrow> unit migration_db" where
  "example_migrations rows claims = \<lparr>idem_rows = (\<lambda>_. None), idem_now = 100, payments = [], refunds = [],
     hk_subscriptions = [example_priced], hk_items = [example_item ''pro''],
     hk_bindings = [\<lparr>bi_id = ''bi_1'', bi_tenant = None, bi_subscriptionId = ''sub_1'', bi_provider = ''stripe'',
       bi_providerSubscriptionId = ''psub_1'', bi_providerSyncedAt = None, bi_updatedAt = 0\<rparr>],
     hk_events = [], hk_audit = [], hk_outbox = [], mu_claims = claims, mt_rows = rows,
     mt_customers = [\<lparr>cu_id = ''cus_1'', cu_tenant = None, cu_billableType = ''user'', cu_billableId = ''1'',
       cu_email = ''ana@example.com'', cu_name = None, cu_metadata = None, cu_createdAt = 0, cu_updatedAt = 0\<rparr>],
     mt_prices = [example_price ''pro'' 1000, example_price ''max'' 2500], mt_priceBindings = []\<rparr>"

definition example_change :: change_capabilities where
  "example_change = \<lparr>cc_preview = True, cc_effectiveTimings = [ET_immediate], cc_prorationPolicies = [''none''],
     cc_paymentFailurePolicies = [''preventChange''], cc_supportsCurrencyChange = False, cc_supportsBillingPeriodChange = False\<rparr>"

definition example_capabilities :: operation_capabilities where
  "example_capabilities = \<lparr>oc_itemIdentity = ''providerItemId'', oc_createCheckout = True, oc_createDirect = True,
     oc_changePrice = example_change, oc_changeQuantity = example_change, oc_cancelImmediately = True, oc_cancelAtPeriodEnd = True,
     oc_pauseTimings = [], oc_pauseScheduledResume = False, oc_pauseBillingPolicies = [], oc_collectionBehaviors = [],
     oc_collectionScheduledResume = False, oc_resumePendingCancellation = True, oc_resumeTimings = [],
     oc_resumeBillingPolicies = [], oc_resumeCollection = False, oc_scheduledChangeCancel = False\<rparr>"

text \<open>A provider that answers \<open>answer\<close>.\<close>

definition example_refusal :: intent_value where
  "example_refusal = IV_object [(''kind'', IV_string ''not_applied''), (''sideEffects'', IV_string ''definitively_none''),
     (''code'', IV_string ''card_declined'')]"

definition example_applied :: intent_value where
  "example_applied = IV_object [(''kind'', IV_string ''applied''), (''subscription'',
     IV_object [(''providerSubscriptionId'', IV_string ''psub_1''), (''status'', IV_string ''active'')])]"

definition example_migration_deps :: "intent_value \<Rightarrow> unit migration_db migration_deps" where
  "example_migration_deps answer = \<lparr>mx_tenant = None, mx_hasStorage = True,
     mx_idempotency = Some (idem_configure \<lparr>opt_lockTtl = None, opt_retryFailed = None, opt_completedTtl = None, opt_failedTtl = None\<rparr>),
     mx_json = (\<lambda>v. v), mx_hash = (\<lambda>_. ''h''), mx_requestHash = (\<lambda>_ _ _. ''h''), mx_currency = example_currency, mx_collate = (\<lambda>s. s),
     mx_resolveProvider = (\<lambda>_. Inr (Some \<lparr>vp_capabilities = Some example_capabilities,
       vp_preview = Some (\<lambda>_ _. throw TypeError), vp_apply = Some (\<lambda>_ _. throw TypeError),
       vp_applyWithOutcome = Some (\<lambda>_ _. ret answer)\<rparr>)),
     mx_digest = (\<lambda>_. ''h''), mx_env = (\<lambda>w. w)\<rparr>"

definition example_migration_ids :: migration_ids where
  "example_migration_ids = \<lparr>mi_token = ''t'', mi_correlation = ''c'', mi_call = ''d'', mi_done = ''e'', mi_idempotency = ''i'',
     mi_audit = (\<lambda>n k. show_nat n)\<rparr>"

definition example_request :: resolution_input where
  "example_request = \<lparr>rin_idempotencyKey = ''k'', rin_outcome = None, rin_evidence = []\<rparr>"

definition example_retry :: "intent_value \<Rightarrow> (error + price_migration) \<times> unit migration_db" where
  "example_retry answer = migrationOperation (example_migration_deps answer) example_migration_ids ''mig_1'' LO_retry example_request
     (example_migrations [example_refused] [])"

lemmas example_row_defs = example_refused_def example_preview_def migrationCreateRow_def example_plan_def example_snapshot_def
  migration_plan.defs

lemma example_table: "table_ok example_currency (example_migrations [example_refused] [])"
  by (simp add: table_ok_def row_ok_iff active_keys_def example_migrations_def example_row_defs row_checks_def readable_def
      TERMINAL_STATUSES_def safeInteger_def MAX_SAFE_INTEGER_def isFailure_def normalizeMigrationJson_def normalizePrice_def
      normalizeItem_def normalizeAdjustment_def normalizeRenewal_def normalizeCurrency_def bindE_def requireE_def example_currency_def
      tenant_column_def)

lemma example_inv: "migrations_inv example_currency (example_migrations [example_refused] [])"
  unfolding migrations_inv_def
  by (intro conjI example_table) (simp_all add: claims_ok_def fenced_def example_migrations_def example_row_defs open_status_def)

lemma example_calm: "calm_clients (example_migration_deps answer)"
  by (auto simp: calm_clients_def migration_rely_def resolved_def example_migration_deps_def)

lemma example_ids_valid: "valid_ids example_migration_ids"
  by (simp add: valid_ids_def example_migration_ids_def)

definition row_summary :: "migration_row \<Rightarrow> migration_status \<times> ident \<times> string" where
  "row_summary r = (pm_status r, pm_subscriptionId r, pm_tenantKey r)"

text \<open>The retry reaches the provider, which refuses again.\<close>

lemma example_retry_refused:
  "map row_summary (mt_rows (snd (example_retry example_refusal))) = [(M_executing, ''sub_1'', [])]"
  by code_simp

text \<open>The provider accepts: the item and the subscription have the new price and the claim is gone.\<close>

definition price_summary :: "unit migration_db \<Rightarrow> migration_status list \<times> nat \<times> string list \<times> int option list" where
  "price_summary w = (map pm_status (mt_rows w), length (mu_claims w), map li_priceId (hk_items w),
     map sub_acceptedUnitAmount (hk_subscriptions w))"

lemma example_retry_applied:
  "price_summary (snd (example_retry example_applied)) = ([M_applied], 0, [''max''], [Some 2500])"
  by code_simp

definition example_cas :: cas_input where
  "example_cas = claim_cas (projr (migrationToEntity example_currency example_refused)) ''t'' 100"

theorem migrations_table_typed_witness:
  "table_ok example_currency (snd (insertMigration example_currency ''mig_2'' None example_plan None (example_migrations [example_refused] [])))
    \<and> table_ok example_currency (snd (compareAndSwapState example_currency (example_cas\<lparr>cs_attemptCount := 2\<rparr>) (example_migrations [example_refused] [])))"
proof -
  have v: "valid_resolve \<lparr>rv_id = ''mig_1'', rv_tenant = None, rv_expectedStatus = M_executing, rv_expectedToken = ''t'',
      rv_outcome = Some Was_not_applied, rv_nextStatus = M_failed, rv_token = None, rv_evidence = ''e'',
      rv_failureCode = Some FC_not_applied, rv_failureMessage = Some (failure_message FC_not_applied), rv_appliedAt = None,
      rv_failedAt = Some 1, rv_at = 1\<rparr>"
    by (simp add: valid_resolve_def)
  have safe: "safeInteger (cs_attemptCount (example_cas\<lparr>cs_attemptCount := 2\<rparr>))"
    by (simp add: safeInteger_def MAX_SAFE_INTEGER_def)
  show ?thesis using migrations_table_typed [OF example_currency_stable safe v example_table] by blast
qed



text \<open>The retry's claim, and what is then read.\<close>

definition example_claiming ::
  "(error + (price_migration + unit migration_db prepared)) \<times> unit migration_db" where
  "example_claiming = claimExecution (example_migration_deps example_refusal) example_migration_ids ''mig_1'' M_failed
     (example_migrations [example_refused] [])"

lemma example_claiming_reads:
  "case example_claiming of
     (Inr (Inr p), w) \<Rightarrow> fst (findMigration example_currency ''mig_1'' None w) = Inr (Some (pe_migration p)) | _ \<Rightarrow> False"
  by code_simp


end
