(* ===== verification/Idempotency_Answers.thy ===== *)
theory Idempotency_Answers
  imports Idempotency_Service
begin

text \<open>
  What an execution of the idempotency service answers, over the knex store: the operation's own
  answer or a completed record's. The lemmas carry a relation between answers and states through
  \<open>execute\<close>; the synchronisation of customers uses it.
\<close>

section \<open>What an idempotent execution answers\<close>

text \<open>
  The answer of an execution is its operation's, or a completed record's: a relation between
  answers and states that the operation establishes and completed records carry holds of what
  is returned.
\<close>

lemma revive_none: "ex_revive ex = None \<Longrightarrow> revive ex = ret"
  by (rule ext) (simp add: revive_def)

definition carries ::
  "(('v, 'x) idem_db_scheme \<Rightarrow> bool) \<Rightarrow> ('v option \<Rightarrow> ('v, 'x) idem_db_scheme \<Rightarrow> bool)
    \<Rightarrow> (('v, 'x) idem_db_scheme, 'v) idem_execution \<Rightarrow> ('v \<Rightarrow> 'v) \<Rightarrow> bool" where
  "carries P Q ex json \<longleftrightarrow> ex_revive ex = None \<and> ex_legacyStorageKeys ex = []
     \<and> (\<forall>w r. P w \<longrightarrow> knex_row w (scopedKey ex) (ex_tenant ex) = Some r \<longrightarrow> ir_status r = Completed \<longrightarrow> Q (ir_response r) w)
     \<and> (\<forall>w r. P w \<longrightarrow> ir_status r \<noteq> Completed \<longrightarrow> P (put_row (scopedKey ex) (ex_tenant ex) r w))
     \<and> (\<forall>w r v. Q v w \<longrightarrow> ir_status r = Completed \<longrightarrow> ir_response r = map_option json v
          \<longrightarrow> Q v (put_row (scopedKey ex) (ex_tenant ex) r w))
     \<and> (\<forall>w v. Q v w \<longrightarrow> P w)
     \<and> triple P (ex_run ex) Q (\<lambda>_. P)"

lemma carriesD:
  assumes "carries P Q ex json"
  shows "ex_revive ex = None" and "ex_legacyStorageKeys ex = []"
    and "P w \<Longrightarrow> knex_row w (scopedKey ex) (ex_tenant ex) = Some r \<Longrightarrow> ir_status r = Completed \<Longrightarrow> Q (ir_response r) w"
    and "P w \<Longrightarrow> ir_status r \<noteq> Completed \<Longrightarrow> P (put_row (scopedKey ex) (ex_tenant ex) r w)"
    and "Q v w \<Longrightarrow> ir_status r = Completed \<Longrightarrow> ir_response r = map_option json v
      \<Longrightarrow> Q v (put_row (scopedKey ex) (ex_tenant ex) r w)"
    and "Q v w \<Longrightarrow> P w"
    and "triple P (ex_run ex) Q (\<lambda>_. P)"
  using assms unfolding carries_def by blast+

lemma markFailed_keeps:
  assumes "carries P Q ex json"
  shows "preserves P (markFailed (knex_idem_store json) idem_now ex ttl)"
  by (rule preservesI) (auto simp: markFailed_def knex_idem_store_def knex_markFailed_def update_owned_def catching_def
      andThen_def intro!: carriesD(4) [OF assms] split: option.split)

lemma complete_triple:
  fixes ex :: "(('v, 'x) idem_db_scheme, 'v) idem_execution"
  assumes carried: "carries P Q ex json"
  shows "triple (Q v) (complete (knex_idem_store json) idem_now c policy ex v) Q (\<lambda>_. P)"
proof -
  let ?S = "knex_idem_store json" and ?k = "scopedKey ex" and ?t = "ex_tenant ex"
  have marked: "\<exists>w1. attempt (st_markCompleted ?S ?k v ?t (Some (ex_token ex)) e) w = (Inr (Inr ()), w1) \<and> Q v w1"
    if "Q v w" for w e
    using that by (auto simp: attempt_def knex_idem_store_def knex_markCompleted_def update_owned_def
        intro!: carriesD(5) [OF carried] split: option.split)
  have fail: "P (snd (andThen (markFailed ?S idem_now ex ttl) (\<lambda>_. throw x :: (_, 'v option) io) w))
      \<and> isl (fst (andThen (markFailed ?S idem_now ex ttl) (\<lambda>_. throw x :: (_, 'v option) io) w))"
    if "P w" for w ttl x
    using preservesD [OF markFailed_keeps [OF carried] that, of ttl]
    by (cases "markFailed ?S idem_now ex ttl w"; cases "fst (markFailed ?S idem_now ex ttl w)") (auto simp: andThen_def)
  have "case complete ?S idem_now c policy ex v w of (Inr x, w') \<Rightarrow> Q x w' | (Inl e, w') \<Rightarrow> P w'" if q: "Q v w" for w
  proof -
    obtain w1 where w1: "attempt (st_markCompleted ?S ?k v ?t (Some (ex_token ex)) (Some (idem_now w + cfg_completedTtl c))) w
        = (Inr (Inr ()), w1)" "Q v w1"
      using marked [OF q] by blast
    have found: "attempt (st_find ?S ?k ?t) w1 = (Inr (Inr (knex_row w1 ?k ?t)), w1)"
      by (simp add: attempt_def knex_idem.find)
    show ?thesis
    proof (cases "\<exists>r. knex_row w1 ?k ?t = Some r \<and> ir_status r = Completed \<and> ir_requestHash r = ex_requestHash ex")
      case True
      then obtain r where r: "knex_row w1 ?k ?t = Some r" "ir_status r = Completed" "ir_requestHash r = ex_requestHash ex" by blast
      then show ?thesis
        using w1 found carriesD(3) [OF carried carriesD(6) [OF carried w1(2)] r(1,2)]
        by (simp add: complete_def andThen_readState andThen_def Let_def revive_none [OF carriesD(1) [OF carried]])
    next
      case False
      then have "complete ?S idem_now c policy ex v w = andThen (markFailed ?S idem_now ex (pol_failedTtl policy))
          (\<lambda>_. throw (PayableError ''IDEMPOTENCY_RESULT_PERSISTENCE_FAILED'')) w1"
        using w1 found by (auto simp: complete_def andThen_readState andThen_def [of "attempt m" for m] Let_def split: option.split)
      then show ?thesis
        using fail [OF carriesD(6) [OF carried w1(2)], of "pol_failedTtl policy" "PayableError ''IDEMPOTENCY_RESULT_PERSISTENCE_FAILED''"]
        by (cases "andThen (markFailed ?S idem_now ex (pol_failedTtl policy))
          (\<lambda>_. throw (PayableError ''IDEMPOTENCY_RESULT_PERSISTENCE_FAILED'') :: (_, 'v option) io) w1") (auto split: sum.split)
    qed
  qed
  then show ?thesis by (simp add: triple_def)
qed

lemma perform_triple:
  assumes carried: "carries P Q ex json"
  shows "triple P (perform (knex_idem_store json) idem_now c policy ex) Q (\<lambda>_. P)"
proof (rule tripleI)
  fix w x w'
  assume P: "P w" and p: "perform (knex_idem_store json) idem_now c policy ex w = (Inr x, w')"
  obtain o1 w1 where o1: "ex_run ex w = (o1, w1)" by fastforce
  show "Q x w'"
  proof (cases o1)
    case (Inl e)
    with p o1 show ?thesis by (auto simp: perform_def attempt_def andThen_def split: prod.splits sum.splits)
  next
    case (Inr v)
    with p o1 have "complete (knex_idem_store json) idem_now c policy ex v w1 = (Inr x, w')"
      by (simp add: perform_def attempt_def andThen_def)
    with tripleD_ok [OF carriesD(7) [OF carried] P] o1 Inr show ?thesis using tripleD_ok [OF complete_triple [OF carried]] by blast
  qed
next
  fix w e w'
  assume P: "P w" and p: "perform (knex_idem_store json) idem_now c policy ex w = (Inl e, w')"
  obtain o1 w1 where o1: "ex_run ex w = (o1, w1)" by fastforce
  show "P w'"
  proof (cases o1)
    case (Inl e')
    with o1 have "P w1" using tripleD_err [OF carriesD(7) [OF carried] P] by simp
    with p o1 Inl show ?thesis
      using preservesE [OF markFailed_keeps [OF carried], of w1]
      by (auto simp: perform_def attempt_def andThen_def split: prod.splits sum.splits)
  next
    case (Inr v)
    with p o1 have "complete (knex_idem_store json) idem_now c policy ex v w1 = (Inl e, w')"
      by (simp add: perform_def attempt_def andThen_def)
    with tripleD_ok [OF carriesD(7) [OF carried] P] o1 Inr show ?thesis using tripleD_err [OF complete_triple [OF carried]] by blast
  qed
qed

lemma replay_completed:
  "replay now found h policy = Inr (Handled v) \<Longrightarrow> \<exists>r. found = Some r \<and> ir_status r = Completed \<and> v = ir_response r"
  by (auto simp: replay_def split: option.splits if_splits)

lemma lookAgain_Handled:
  assumes "carries P Q ex json"
    and "lookAgain (knex_idem_store json) idem_now policy ex w = (Inr (Handled v), w')" and "P w"
  shows "w' = w \<and> Q v w"
  using assms(2) carriesD(3) [OF assms(1,3)]
  by (auto simp: lookAgain_def andThen_def knex_idem.find split: sum.splits replay.splits if_splits dest!: replay_completed)

lemma run_idempotent_triple:
  assumes carried: "carries P Q ex json"
  shows "triple P (run_idempotent (knex_idem_store json) idem_now c policy ex) Q (\<lambda>_. P)"
proof -
  let ?S = "knex_idem_store json"
  have take: "triple P (andThen (st_takeOver ?S (processingRecord t policy ex) (ex_tenant ex)) (\<lambda>claimed. if \<not> claimed
      then throw (PayableError ''IDEMPOTENCY_IN_PROGRESS'') else perform ?S idem_now c policy ex)) Q (\<lambda>_. P)" for t
    by (rule triple_andThen [where R = "\<lambda>_. P"])
      (use perform_triple [OF carried] in \<open>auto simp: triple_def knex_idem_store_def knex_takeOver_def taken_over_def
        intro!: carriesD(4) [OF carried] split: option.splits\<close>)
  have acq: "triple P (st_acquire ?S (processingRecord t policy ex) (ex_tenant ex)) (\<lambda>_. P) (\<lambda>_. P)" for t
    by (auto simp: triple_def knex_idem_store_def knex_acquire_def processingRecord_def intro!: carriesD(4) [OF carried] split: option.splits)
  have look: "triple P (andThen (lookAgain ?S idem_now policy ex) (\<lambda>r. case r of Handled v \<Rightarrow> revive ex v
      | NotHandled \<Rightarrow> andThen (st_takeOver ?S (processingRecord t policy ex) (ex_tenant ex)) (\<lambda>claimed. if \<not> claimed
        then throw (PayableError ''IDEMPOTENCY_IN_PROGRESS'') else perform ?S idem_now c policy ex))) Q (\<lambda>_. P)" for t
  proof (rule triple_andThen [where R = "\<lambda>r w. P w \<and> (case r of Handled v \<Rightarrow> Q v w | NotHandled \<Rightarrow> True)"])
    show "triple P (lookAgain ?S idem_now policy ex) (\<lambda>r w. P w \<and> (case r of Handled v \<Rightarrow> Q v w | NotHandled \<Rightarrow> True)) (\<lambda>_. P)"
    proof (rule tripleI)
      fix w r w'
      assume "P w" and l: "lookAgain ?S idem_now policy ex w = (Inr r, w')"
      then show "P w' \<and> (case r of Handled v \<Rightarrow> Q v w' | NotHandled \<Rightarrow> True)"
        using lookAgain_Handled [OF carried] lookAgain_state [of json idem_now policy ex w] by (cases r) auto
    next
      fix w e w'
      assume "P w" and "lookAgain ?S idem_now policy ex w = (Inl e, w')"
      then show "P w'" using lookAgain_state [of json idem_now policy ex w] by simp
    qed
    show "triple (\<lambda>w. P w \<and> (case r of Handled v \<Rightarrow> Q v w | NotHandled \<Rightarrow> True)) (case r of Handled v \<Rightarrow> revive ex v
      | NotHandled \<Rightarrow> andThen (st_takeOver ?S (processingRecord t policy ex) (ex_tenant ex)) (\<lambda>claimed. if \<not> claimed
        then throw (PayableError ''IDEMPOTENCY_IN_PROGRESS'') else perform ?S idem_now c policy ex)) Q (\<lambda>_. P)" for r
      using take by (cases r) (simp_all add: revive_none [OF carriesD(1) [OF carried]] triple_def)
  qed
  have "triple P (andThen (st_acquire ?S (processingRecord t policy ex) (ex_tenant ex)) (\<lambda>acquired.
      if acquired then perform ?S idem_now c policy ex
      else andThen (lookAgain ?S idem_now policy ex) (\<lambda>r. case r of Handled v \<Rightarrow> revive ex v
      | NotHandled \<Rightarrow> andThen (st_takeOver ?S (processingRecord t policy ex) (ex_tenant ex)) (\<lambda>claimed. if \<not> claimed
        then throw (PayableError ''IDEMPOTENCY_IN_PROGRESS'') else perform ?S idem_now c policy ex)))) Q (\<lambda>_. P)" for t
    by (rule triple_andThen [OF acq]) (use perform_triple [OF carried] look in auto)
  then show ?thesis
    unfolding run_idempotent_def Let_def by (simp add: triple_def andThen_readState)
qed

lemma execute_triple:
  assumes carried: "carries P Q ex json"
  shows "triple P (execute (knex_idem_store json) idem_now c ex) Q (\<lambda>_. P)"
proof (rule tripleI)
  fix w x w'
  assume P: "P w" and e: "execute (knex_idem_store json) idem_now c ex w = (Inr x, w')"
  show "Q x w'"
  proof (cases "replay (idem_now w) (record_of knex_row w ex) (ex_requestHash ex) (resolvePolicy c ex)")
    case (Inr r)
    show ?thesis
    proof (cases r)
      case NotHandled
      with Inr e show ?thesis using tripleD_ok [OF run_idempotent_triple [OF carried] P] by (simp add: knex_idem.execute_unfold [OF carriesD(2) [OF carried]])
    next
      case (Handled v)
      with Inr e have "x = v" "w' = w" by (simp_all add: knex_idem.execute_unfold [OF carriesD(2) [OF carried]] revive_none [OF carriesD(1) [OF carried]])
      with Inr Handled P show ?thesis by (auto simp: record_of_def dest!: replay_completed intro: carriesD(3) [OF carried])
    qed
  qed (use e in \<open>simp add: knex_idem.execute_unfold [OF carriesD(2) [OF carried]]\<close>)
next
  fix w x w'
  assume P: "P w" and e: "execute (knex_idem_store json) idem_now c ex w = (Inl x, w')"
  show "P w'"
  proof (cases "replay (idem_now w) (record_of knex_row w ex) (ex_requestHash ex) (resolvePolicy c ex)")
    case (Inr r)
    then show ?thesis
      using e P tripleD_err [OF run_idempotent_triple [OF carried] P] by (cases r)
        (simp_all add: knex_idem.execute_unfold [OF carriesD(2) [OF carried]] revive_none [OF carriesD(1) [OF carried]])
  qed (use e P in \<open>simp add: knex_idem.execute_unfold [OF carriesD(2) [OF carried]]\<close>)
qed

end
