(* ===== verification/Customer_Sync.thy ===== *)
theory Customer_Sync
  imports Customers Idempotency_Answers
begin

text \<open>
  \<open>application/actions/customers/sync-customer-with-provider.action.ts\<close> and
  \<open>application/services/customers\<close>: creating or updating a customer at the provider, under an
  attempt that one client holds at a time. The provider's operations are given actions, which may
  contain anything other clients do meanwhile; between the other steps stands \<open>env\<close>. Random ids
  are arguments, one record of them for each round. A provider whose creations carry idempotency
  keys of its own is \<open>native\<close>.
\<close>

section \<open>State and dependencies\<close>

text \<open>\<open>sy_remote\<close> is the variable of the running call that remembers what the provider created.\<close>

record 'd sync_db = "'d customer_db" +
  sy_remote :: "ident option"

record customer_request =
  yq_email :: string
  yq_name :: "string option"
  yq_billableType :: string
  yq_billableId :: string

record customer_update =
  vr_providerCustomerId :: ident
  vr_email :: string
  vr_name :: "string option"

text \<open>What the key of an update is a digest of.\<close>

record customer_update_body =
  ub_tenant :: tenant
  ub_provider :: string
  ub_providerCustomerId :: ident
  ub_billableType :: string
  ub_billableId :: string
  ub_email :: string
  ub_name :: "string option"

record 'w customer_api =
  api_create :: "customer_request \<Rightarrow> string \<Rightarrow> string \<Rightarrow> ('w, ident) io"
  api_update :: "customer_update \<Rightarrow> string \<Rightarrow> string \<Rightarrow> ('w, unit) io"

record 'w sync_deps =
  cy_tenant :: tenant
  cy_providerName :: string
  cy_hasStorage :: bool
  cy_hasSyncs :: bool
  cy_schema :: "string \<Rightarrow> string option"
  cy_hasCustomers :: bool
  cy_api :: "'w customer_api option"
  cy_native :: bool
  cy_idempotency :: "idem_config option"
  cy_json :: "stored \<Rightarrow> stored"
  cy_requestHash :: "string \<times> string \<Rightarrow> string"
  cy_updateHash :: "customer_update_body \<Rightarrow> string"
  cy_digest :: "hook_json audit_payload \<Rightarrow> string"
  cy_foreignCode :: "string \<Rightarrow> string option"

record sync_ids =
  yi_attempt :: string
  yi_customer :: ident
  yi_binding :: ident
  yi_states :: "nat \<Rightarrow> ident"
  yi_correlation :: string
  yi_token :: string
  yi_entries :: "nat \<Rightarrow> string"
  yi_orphans :: "nat \<Rightarrow> string"

record sync_attempt =
  at_id :: string
  at_number :: int
  at_acquired :: bool
  at_leaseExpiresAt :: "instant option"
  at_previous :: "sync_state option"

record local_sync =
  lo_customer :: customer
  lo_previous :: "sync_state option"
  lo_attempt :: sync_attempt
  lo_binding :: "customer_binding option"

text \<open>A test for a value: \<open>null\<close> and the empty string are not one.\<close>

definition truthy :: "string option \<Rightarrow> bool" where
  "truthy x \<longleftrightarrow> x \<noteq> None \<and> x \<noteq> Some []"

section \<open>The life of an attempt\<close>

definition CUSTOMER_PROVIDER_SYNC_LEASE_MS :: int where
  "CUSTOMER_PROVIDER_SYNC_LEASE_MS = 30000"

definition errorCode :: "'w sync_deps \<Rightarrow> error \<Rightarrow> string \<Rightarrow> string" where
  "errorCode d e fallback = (case e of
      PayableError c \<Rightarrow> c
    | ForeignError s \<Rightarrow> or_else (cy_foreignCode d s) fallback
    | _ \<Rightarrow> fallback)"

definition beginSync ::
  "('d, 'x) sync_db_scheme sync_deps \<Rightarrow> (nat \<Rightarrow> ('d, 'x) sync_db_scheme \<Rightarrow> ('d, 'x) sync_db_scheme) \<Rightarrow> sync_ids \<Rightarrow> nat
    \<Rightarrow> ident \<Rightarrow> bool \<Rightarrow> bool \<Rightarrow> (('d, 'x) sync_db_scheme, sync_attempt) io" where
  "beginSync d env ids rounds customerId allowRepair allowReclaim =
    (if \<not> (cy_hasStorage d \<and> cy_hasSyncs d)
     then ret \<lparr>at_id = yi_attempt ids, at_number = 1, at_acquired = True, at_leaseExpiresAt = None, at_previous = None\<rparr>
     else andThen (readState idem_now) (\<lambda>now.
       andThen (beginAttempt env (yi_states ids) \<lparr>bd_tenant = cy_tenant d, bd_customerId = customerId,
          bd_provider = cy_providerName d, bd_lastAttemptedAt = now, bd_attemptOwnerId = yi_attempt ids,
          bd_leaseExpiresAt = Some (now + CUSTOMER_PROVIDER_SYNC_LEASE_MS),
          bd_allowReconciliationRepair = allowRepair, bd_allowExpiredLeaseReclaim = allowReclaim\<rparr> rounds) (\<lambda>c.
       ret \<lparr>at_id = yi_attempt ids, at_number = ss_attempts (sc_state c), at_acquired = sc_acquired c,
          at_leaseExpiresAt = ss_leaseExpiresAt (sc_state c), at_previous = sc_previous c\<rparr>)))"

text \<open>The audit entry and the event of a customer that was synchronized or orphaned.\<close>

definition recordCustomer ::
  "('d, 'x) sync_db_scheme sync_deps \<Rightarrow> (nat \<Rightarrow> string) \<Rightarrow> string \<Rightarrow> string \<Rightarrow> string \<Rightarrow> string \<Rightarrow> ident \<Rightarrow> ident
    \<Rightarrow> (string \<times> hook_value) list \<Rightarrow> (('d, 'x) sync_db_scheme, unit) io" where
  "recordCustomer d entries verb status dedupe attemptId customerId providerCustomerId failure =
    andThen (on_audit (audit_create (cy_digest d) (\<lambda>_ a. a) entries (cy_tenant d) \<lparr>
      au_correlationId = attemptId, au_actorType = None, au_actorId = None,
      au_action = ''customer.provider.'' @ verb, au_resourceType = ''customer'', au_resourceId = customerId,
      au_before = None,
      au_after = Some (HJ_object [(''provider'', HV_text (cy_providerName d)),
        (''providerCustomerId'', HV_text providerCustomerId), (''status'', HV_text status)]),
      au_metadata = Some (HJ_object ([(''provider'', HV_text (cy_providerName d)),
        (''providerCustomerId'', HV_text providerCustomerId)] @ failure)),
      au_ipAddress = None, au_userAgent = None\<rparr>)) (\<lambda>_.
    andThen (on_outbox (outbox_create (entries 0) \<lparr>nob_tenant = cy_tenant d, nob_correlationId = attemptId,
      nob_eventType = ''customer.provider.'' @ verb @ ''.v1'', nob_eventVersion = 1,
      nob_payload = HP_object ([(''customerId'', HV_text customerId), (''provider'', HV_text (cy_providerName d)),
        (''providerCustomerId'', HV_text providerCustomerId)] @ failure
        @ [(''tenantId'', nullable_text (cy_tenant d))]),
      nob_dedupeKey = Some (dedupe @ attemptId)\<rparr>)) (\<lambda>_. ret ()))"

definition synchronized ::
  "('d, 'x) sync_db_scheme sync_deps \<Rightarrow> sync_ids \<Rightarrow> ident \<Rightarrow> ident \<Rightarrow> sync_attempt \<Rightarrow> (('d, 'x) sync_db_scheme, unit) io" where
  "synchronized d ids customerId providerCustomerId a =
    (if \<not> cy_hasStorage d then ret () else
     andThen (readState idem_now) (\<lambda>synchronizedAt.
     let entry = recordCustomer d (yi_entries ids) ''synchronized'' ''synchronized'' ''customer-provider-sync:''
       (at_id a) customerId providerCustomerId [] in
     atomically (if cy_hasSyncs d
       then andThen (completeAttempt \<lparr>yr_tenant = cy_tenant d, yr_customerId = customerId,
           yr_provider = cy_providerName d, yr_status = Sync_synchronized,
           yr_providerCustomerId = Some providerCustomerId, yr_lastAttemptedAt = synchronizedAt,
           yr_synchronizedAt = Some synchronizedAt, yr_failureCode = None\<rparr> (at_number a) (at_id a)) (\<lambda>completed.
         if completed = None then ret () else entry)
       else entry)))"

definition recordAttempt ::
  "('d, 'x) sync_db_scheme sync_deps \<Rightarrow> ident \<Rightarrow> ident option \<Rightarrow> sync_attempt \<Rightarrow> sync_status \<Rightarrow> string \<Rightarrow> instant option
    \<Rightarrow> (('d, 'x) sync_db_scheme, sync_state option) io" where
  "recordAttempt d customerId providerCustomerId a status failureCode synchronizedAt =
    (if \<not> (cy_hasStorage d \<and> cy_hasSyncs d) then ret None else
     andThen (readState idem_now) (\<lambda>now.
     completeAttempt \<lparr>yr_tenant = cy_tenant d, yr_customerId = customerId, yr_provider = cy_providerName d,
       yr_status = status, yr_providerCustomerId = providerCustomerId, yr_lastAttemptedAt = now,
       yr_synchronizedAt = synchronizedAt, yr_failureCode = Some failureCode\<rparr> (at_number a) (at_id a)))"

definition syncFailed ::
  "('d, 'x) sync_db_scheme sync_deps \<Rightarrow> ident \<Rightarrow> sync_attempt \<Rightarrow> error \<Rightarrow> ident option \<Rightarrow> instant option
    \<Rightarrow> (('d, 'x) sync_db_scheme, sync_state option) io" where
  "syncFailed d customerId a e providerCustomerId synchronizedAt =
    recordAttempt d customerId providerCustomerId a Sync_failed
      (errorCode d e ''CUSTOMER_PROVIDER_SYNC_FAILED'') synchronizedAt"

definition recordOrphan ::
  "('d, 'x) sync_db_scheme sync_deps \<Rightarrow> sync_ids \<Rightarrow> ident \<Rightarrow> ident \<Rightarrow> sync_attempt \<Rightarrow> error
    \<Rightarrow> (('d, 'x) sync_db_scheme, unit) io" where
  "recordOrphan d ids customerId providerCustomerId a e =
    recordCustomer d (yi_orphans ids) ''orphaned'' ''reconciliation_required'' ''customer-provider-orphan:''
      (at_id a) customerId providerCustomerId
      [(''failureCode'', HV_text (errorCode d e ''CUSTOMER_PROVIDER_RECONCILIATION_REQUIRED''))]"

text \<open>What could not be recorded, or lost its binding to another customer, is an orphan.\<close>

definition reconciliationRequired ::
  "('d, 'x) sync_db_scheme sync_deps \<Rightarrow> sync_ids \<Rightarrow> ident \<Rightarrow> ident option \<Rightarrow> sync_attempt \<Rightarrow> error \<Rightarrow> instant option
    \<Rightarrow> (('d, 'x) sync_db_scheme, sync_state option) io" where
  "reconciliationRequired d ids customerId providerCustomerId a e synchronizedAt =
    (let store = recordAttempt d customerId providerCustomerId a Sync_reconciliation_required
         (errorCode d e ''CUSTOMER_PROVIDER_RECONCILIATION_REQUIRED'') synchronizedAt in
     if truthy providerCustomerId \<and> cy_hasStorage d \<and> cy_hasSyncs d
     then atomically (andThen store (\<lambda>recorded.
       andThen (if recorded = None \<or> errorCode d e [] = ''CUSTOMER_PROVIDER_BINDING_CONFLICT''
         then recordOrphan d ids customerId (or_else providerCustomerId []) a e else ret ()) (\<lambda>_. ret recorded)))
     else store)"

section \<open>What an error says\<close>

definition customerUpdateKey :: "'w sync_deps \<Rightarrow> customer \<Rightarrow> ident \<Rightarrow> error + string" where
  "customerUpdateKey d c providerCustomerId = key_of (''customer:update:v1:'' @ cy_updateHash d
     \<lparr>ub_tenant = cu_tenant c, ub_provider = cy_providerName d, ub_providerCustomerId = providerCustomerId,
      ub_billableType = cu_billableType c, ub_billableId = cu_billableId c, ub_email = cu_email c, ub_name = cu_name c\<rparr>)"

definition requiresManualCreateReconciliation :: "bool \<Rightarrow> error \<Rightarrow> bool" where
  "requiresManualCreateReconciliation native e = (if native then False else
     (case e of PayableError c \<Rightarrow> c \<in> {''PROVIDER_ERROR'', ''PROVIDER_REQUEST_TIMEOUT''} | _ \<Rightarrow> True))"

abbreviation unresolvedCustomer :: error where
  "unresolvedCustomer \<equiv> PayableError ''CUSTOMER_PROVIDER_RECONCILIATION_REQUIRED''"

text \<open>
  A client that did not get the attempt waits for the one that did, looking every ten milliseconds
  until the lease ends; \<open>env\<close> is what happens meanwhile.
\<close>

fun awaitCustomerProviderSync ::
  "('d, 'x) sync_db_scheme sync_deps \<Rightarrow> (nat list \<Rightarrow> ('d, 'x) sync_db_scheme \<Rightarrow> ('d, 'x) sync_db_scheme)
    \<Rightarrow> ident \<Rightarrow> instant \<Rightarrow> nat \<Rightarrow> (('d, 'x) sync_db_scheme, ident option) io" where
  "awaitCustomerProviderSync d env customerId lease 0 = throw unfinished"
| "awaitCustomerProviderSync d env customerId lease (Suc n) =
    andThen (findSync customerId (cy_providerName d) (cy_tenant d)) (\<lambda>state.
    if map_option ss_status state \<noteq> Some Sync_pending
    then andThen (interference (env [0])) (\<lambda>_.
      andThen (findBinding customerId (cy_providerName d) (cy_tenant d)) (\<lambda>b.
      ret (if map_option ss_status state = Some Sync_synchronized then map_option pb_providerCustomerId b else None)))
    else andThen (readState idem_now) (\<lambda>now.
      if now \<ge> lease then ret None
      else andThen (interference (env [1, n])) (\<lambda>_. awaitCustomerProviderSync d env customerId lease n)))"

definition awaitSync ::
  "('d, 'x) sync_db_scheme sync_deps \<Rightarrow> (nat list \<Rightarrow> ('d, 'x) sync_db_scheme \<Rightarrow> ('d, 'x) sync_db_scheme) \<Rightarrow> nat
    \<Rightarrow> ident \<Rightarrow> sync_attempt \<Rightarrow> (('d, 'x) sync_db_scheme, ident option) io" where
  "awaitSync d env rounds customerId a = (case at_leaseExpiresAt a of
      None \<Rightarrow> ret None
    | Some lease \<Rightarrow> if \<not> (cy_hasStorage d \<and> cy_hasSyncs d) then ret None
        else awaitCustomerProviderSync d env customerId lease rounds)"

section \<open>The action\<close>

text \<open>Positions of \<open>env\<close>: 0 in the local customer, 1 and 2 around the first look at the binding,
  3 in the claim, 4 after it.\<close>

definition prepareLocalCustomer ::
  "('d, 'x) sync_db_scheme sync_deps \<Rightarrow> (nat list \<Rightarrow> ('d, 'x) sync_db_scheme \<Rightarrow> ('d, 'x) sync_db_scheme) \<Rightarrow> sync_ids
    \<Rightarrow> nat \<Rightarrow> billable_input \<Rightarrow> (('d, 'x) sync_db_scheme, local_sync option) io" where
  "prepareLocalCustomer d env ids rounds b =
    (if \<not> cy_hasStorage d then ret None else
     andThen (ensureCustomer True (cy_schema d) (cy_tenant d) (\<lambda>p. env (0 # p)) (yi_customer ids) b) (\<lambda>c.
     andThen (interference (env [1])) (\<lambda>_.
     andThen (findBinding (cu_id c) (cy_providerName d) (cy_tenant d)) (\<lambda>before.
     andThen (interference (env [2])) (\<lambda>_.
     andThen (beginSync d (\<lambda>k. env [3, k]) ids rounds (cu_id c) (before \<noteq> None) (before \<noteq> None \<or> cy_native d)) (\<lambda>a.
     andThen (interference (env [4])) (\<lambda>_.
     let previous = at_previous a; status = map_option ss_status previous;
       changed = (status = Some Sync_synchronized
         \<or> \<not> at_acquired a \<and> status = Some Sync_reconciliation_required) in
     andThen (if before = None \<and> changed then findBinding (cu_id c) (cy_providerName d) (cy_tenant d) else ret before) (\<lambda>binding.
     if status = Some Sync_reconciliation_required \<and> \<not> truthy (Option.bind previous ss_providerCustomerId) \<and> binding = None
     then throw unresolvedCustomer
     else ret (Some \<lparr>lo_customer = c, lo_previous = previous, lo_attempt = a, lo_binding = binding\<rparr>)))))))))"

definition updateProvider ::
  "('d, 'x) sync_db_scheme sync_deps \<Rightarrow> ('d, 'x) sync_db_scheme customer_api
    \<Rightarrow> (nat list \<Rightarrow> ('d, 'x) sync_db_scheme \<Rightarrow> ('d, 'x) sync_db_scheme) \<Rightarrow> sync_ids \<Rightarrow> local_sync
    \<Rightarrow> (('d, 'x) sync_db_scheme, ident) io" where
  "updateProvider d api env ids l = (case lo_binding l of
      None \<Rightarrow> throw (ForeignError ''Customer provider binding disappeared before update'')
    | Some b \<Rightarrow>
        let c = lo_customer l; providerCustomerId = pb_providerCustomerId b;
          synchronizedAt = Option.bind (lo_previous l) ss_synchronizedAt in
        andThen (liftResult (customerUpdateKey d c providerCustomerId)) (\<lambda>key.
        andThen (attempt (api_update api \<lparr>vr_providerCustomerId = providerCustomerId, vr_email = cu_email c,
            vr_name = cu_name c\<rparr> (yi_correlation ids) key)) (\<lambda>answer.
        andThen (interference (env [7])) (\<lambda>_. case answer of
          Inl e \<Rightarrow> andThen (syncFailed d (cu_id c) (lo_attempt l) e (Some providerCustomerId) synchronizedAt) (\<lambda>_. throw e)
        | Inr _ \<Rightarrow>
            catching (andThen (synchronized d ids (cu_id c) providerCustomerId (lo_attempt l)) (\<lambda>_. ret providerCustomerId))
              (\<lambda>e. andThen (interference (env [10])) (\<lambda>_.
                andThen (reconciliationRequired d ids (cu_id c) (Some providerCustomerId) (lo_attempt l) e synchronizedAt)
                  (\<lambda>_. throw e)))))))"

definition bindCustomer ::
  "('d, 'x) sync_db_scheme sync_deps \<Rightarrow> (nat list \<Rightarrow> ('d, 'x) sync_db_scheme \<Rightarrow> ('d, 'x) sync_db_scheme) \<Rightarrow> sync_ids
    \<Rightarrow> local_sync \<Rightarrow> ident \<Rightarrow> (('d, 'x) sync_db_scheme, unit) io" where
  "bindCustomer d env ids l providerCustomerId =
    persistBinding (cy_providerName d) (cy_tenant d) (\<lambda>p. env (9 # p)) (yi_binding ids) (cu_id (lo_customer l)) providerCustomerId"

definition reconcileCustomer ::
  "('d, 'x) sync_db_scheme sync_deps \<Rightarrow> ('d, 'x) sync_db_scheme customer_api
    \<Rightarrow> (nat list \<Rightarrow> ('d, 'x) sync_db_scheme \<Rightarrow> ('d, 'x) sync_db_scheme) \<Rightarrow> sync_ids \<Rightarrow> local_sync
    \<Rightarrow> (('d, 'x) sync_db_scheme, ident) io" where
  "reconcileCustomer d api env ids l =
    (let providerCustomerId = Option.bind (lo_previous l) ss_providerCustomerId in
     if \<not> truthy providerCustomerId
     then throw (ForeignError ''Reconciliation state is missing its provider customer id'')
     else let pid = or_else providerCustomerId [] in
       if lo_binding l \<noteq> None \<and> map_option pb_providerCustomerId (lo_binding l) \<noteq> Some pid
       then updateProvider d api env ids l
       else catching (andThen (if lo_binding l = None then bindCustomer d env ids l pid else ret ()) (\<lambda>_.
           andThen (interference (env [8])) (\<lambda>_.
           andThen (synchronized d ids (cu_id (lo_customer l)) pid (lo_attempt l)) (\<lambda>_. ret pid))))
         (\<lambda>e. andThen (interference (env [10])) (\<lambda>_.
           andThen (reconciliationRequired d ids (cu_id (lo_customer l)) (Some pid) (lo_attempt l) e None)
             (\<lambda>_. throw e))))"

definition assertDurableCustomerCreate :: "'w sync_deps \<Rightarrow> ('v, unit) io" where
  "assertDurableCustomerCreate d = guardE (cy_native d \<or> cy_hasStorage d \<and> cy_hasSyncs d)
     (PayableError ''CUSTOMER_PROVIDER_DURABLE_SYNC_REQUIRED'')"

definition customer_request_of ::
  "'w sync_deps \<Rightarrow> billable_input \<Rightarrow> local_sync option \<Rightarrow> error + customer_request" where
  "customer_request_of d b l = (case l of
      Some s \<Rightarrow> Inr \<lparr>yq_email = cu_email (lo_customer s), yq_name = cu_name (lo_customer s),
        yq_billableType = cu_billableType (lo_customer s), yq_billableId = cu_billableId (lo_customer s)\<rparr>
    | None \<Rightarrow> bindE (normalizeCustomerEmail (cy_schema d) (bl_email b)) (\<lambda>email.
        Inr \<lparr>yq_email = email, yq_name = bl_name b, yq_billableType = bl_type b, yq_billableId = bl_id b\<rparr>))"

definition customer_key :: "'w sync_deps \<Rightarrow> string \<Rightarrow> string \<Rightarrow> error + string" where
  "customer_key d type i = forCustomer \<lparr>kp_tenant = cy_tenant d, kp_provider = cy_providerName d,
     kp_billableType = type, kp_billableId = i\<rparr>"

definition rememberRemote :: "ident option \<Rightarrow> (('d, 'x) sync_db_scheme, unit) io" where
  "rememberRemote i = (\<lambda>w. (Inr (), w\<lparr>sy_remote := i\<rparr>))"

definition runCreate ::
  "('d, 'x) sync_db_scheme sync_deps \<Rightarrow> ('d, 'x) sync_db_scheme customer_api
    \<Rightarrow> (nat list \<Rightarrow> ('d, 'x) sync_db_scheme \<Rightarrow> ('d, 'x) sync_db_scheme) \<Rightarrow> sync_ids \<Rightarrow> customer_request \<Rightarrow> string
    \<Rightarrow> local_sync option \<Rightarrow> (('d, 'x) sync_db_scheme, ident) io" where
  "runCreate d api env ids request key l =
    andThen (api_create api request (yi_correlation ids) key) (\<lambda>pid.
    andThen (rememberRemote (Some pid)) (\<lambda>_.
    andThen (case l of
        None \<Rightarrow> ret ()
      | Some s \<Rightarrow> andThen (interference (env [7])) (\<lambda>_. andThen (bindCustomer d env ids s pid) (\<lambda>_.
          andThen (interference (env [8])) (\<lambda>_.
          synchronized d ids (cu_id (lo_customer s)) pid (lo_attempt s))))) (\<lambda>_.
    ret pid)))"

definition create_execution ::
  "('d, 'x) sync_db_scheme sync_deps \<Rightarrow> sync_ids \<Rightarrow> string \<Rightarrow> billable_input \<Rightarrow> (('d, 'x) sync_db_scheme, ident) io
    \<Rightarrow> (('d, 'x) sync_db_scheme, stored) idem_execution" where
  "create_execution d ids key b run = \<lparr>ex_key = key, ex_storageKey = None, ex_legacyStorageKeys = [],
     ex_scope = ''customer'', ex_operation = ''sync'', ex_requestHash = cy_requestHash d (bl_type b, bl_id b),
     ex_resourceType = Some ''customer'', ex_resourceId = None, ex_tenant = cy_tenant d, ex_retryFailed = None,
     ex_reclaimStaleProcessing = None, ex_lockTtl = None, ex_reconciliationRequired = False,
     ex_isFailureOutcomeUncertain = None, ex_token = yi_token ids,
     ex_run = andThen run (\<lambda>pid. ret (Some (S_reference pid))), ex_revive = None\<rparr>"

definition executeCreateIdempotently ::
  "('d, 'x) sync_db_scheme sync_deps \<Rightarrow> sync_ids \<Rightarrow> string \<Rightarrow> billable_input \<Rightarrow> (('d, 'x) sync_db_scheme, ident) io
    \<Rightarrow> (('d, 'x) sync_db_scheme, ident) io" where
  "executeCreateIdempotently d ids key b run = (case cy_idempotency d of
      None \<Rightarrow> run
    | Some config \<Rightarrow> andThen (execute (knex_idem_store (cy_json d)) idem_now config (create_execution d ids key b run))
        (\<lambda>r. case r of Some (S_reference pid) \<Rightarrow> ret pid | _ \<Rightarrow> throw TypeError))"

text \<open>What follows a failed creation: the attempt ends as failed, or waits for an operator.\<close>

definition createFailed ::
  "('d, 'x) sync_db_scheme sync_deps \<Rightarrow> (nat list \<Rightarrow> ('d, 'x) sync_db_scheme \<Rightarrow> ('d, 'x) sync_db_scheme) \<Rightarrow> sync_ids
    \<Rightarrow> local_sync \<Rightarrow> error \<Rightarrow> (('d, 'x) sync_db_scheme, ident) io" where
  "createFailed d env ids l e =
    andThen (interference (env [10])) (\<lambda>_.
    andThen (readState sy_remote) (\<lambda>remote.
    andThen (if truthy remote then reconciliationRequired d ids (cu_id (lo_customer l)) remote (lo_attempt l) e None
      else if requiresManualCreateReconciliation (cy_native d) e
      then reconciliationRequired d ids (cu_id (lo_customer l)) None (lo_attempt l) e None
      else syncFailed d (cu_id (lo_customer l)) (lo_attempt l) e None None) (\<lambda>_. throw e)))"

definition createProviderCustomer ::
  "('d, 'x) sync_db_scheme sync_deps \<Rightarrow> ('d, 'x) sync_db_scheme customer_api
    \<Rightarrow> (nat list \<Rightarrow> ('d, 'x) sync_db_scheme \<Rightarrow> ('d, 'x) sync_db_scheme) \<Rightarrow> sync_ids \<Rightarrow> billable_input \<Rightarrow> local_sync option
    \<Rightarrow> (('d, 'x) sync_db_scheme, ident) io" where
  "createProviderCustomer d api env ids b l =
    andThen (assertDurableCustomerCreate d) (\<lambda>_.
    andThen (liftResult (customer_request_of d b l)) (\<lambda>request.
    andThen (liftResult (case l of
        Some s \<Rightarrow> customer_key d (cu_billableType (lo_customer s)) (cu_billableId (lo_customer s))
      | None \<Rightarrow> customer_key d (bl_type b) (bl_id b))) (\<lambda>key.
    andThen (rememberRemote None) (\<lambda>_.
    catching (executeCreateIdempotently d ids key b (runCreate d api env ids request key l))
      (\<lambda>e. case l of None \<Rightarrow> throw e | Some s \<Rightarrow> createFailed d env ids s e)))))"

text \<open>The client that holds the attempt repairs, updates or creates.\<close>

definition syncAcquired ::
  "('d, 'x) sync_db_scheme sync_deps \<Rightarrow> ('d, 'x) sync_db_scheme customer_api
    \<Rightarrow> (nat list \<Rightarrow> ('d, 'x) sync_db_scheme \<Rightarrow> ('d, 'x) sync_db_scheme) \<Rightarrow> sync_ids \<Rightarrow> billable_input \<Rightarrow> local_sync
    \<Rightarrow> (('d, 'x) sync_db_scheme, ident) io" where
  "syncAcquired d api env ids b l =
    (if map_option ss_status (lo_previous l) = Some Sync_reconciliation_required
        \<and> truthy (Option.bind (lo_previous l) ss_providerCustomerId)
     then reconcileCustomer d api env ids l
     else if lo_binding l \<noteq> None then updateProvider d api env ids l
     else createProviderCustomer d api env ids b (Some l))"

text \<open>One round of the action: the provider's customer, or \<open>None\<close> to start over.\<close>

definition syncPrepared ::
  "('d, 'x) sync_db_scheme sync_deps \<Rightarrow> ('d, 'x) sync_db_scheme customer_api
    \<Rightarrow> (nat list \<Rightarrow> ('d, 'x) sync_db_scheme \<Rightarrow> ('d, 'x) sync_db_scheme) \<Rightarrow> sync_ids \<Rightarrow> nat
    \<Rightarrow> billable_input \<Rightarrow> local_sync option \<Rightarrow> (('d, 'x) sync_db_scheme, ident option) io" where
  "syncPrepared d api env ids rounds b local = (case local of
      None \<Rightarrow> andThen (createProviderCustomer d api env ids b None) (\<lambda>pid. ret (Some pid))
    | Some l \<Rightarrow>
        if \<not> at_acquired (lo_attempt l)
        then awaitSync d (\<lambda>p. env (5 # p)) rounds (cu_id (lo_customer l)) (lo_attempt l)
        else andThen (syncAcquired d api env ids b l) (\<lambda>pid. ret (Some pid)))"

definition syncRound ::
  "('d, 'x) sync_db_scheme sync_deps \<Rightarrow> (nat list \<Rightarrow> ('d, 'x) sync_db_scheme \<Rightarrow> ('d, 'x) sync_db_scheme) \<Rightarrow> sync_ids \<Rightarrow> nat
    \<Rightarrow> billable_input \<Rightarrow> (('d, 'x) sync_db_scheme, ident option) io" where
  "syncRound d env ids rounds b =
    andThen (requireCapability (cy_hasCustomers d) (cy_api d)) (\<lambda>api.
    andThen (prepareLocalCustomer d env ids rounds b) (syncPrepared d api env ids rounds b))"

fun syncCustomer ::
  "('d, 'x) sync_db_scheme sync_deps \<Rightarrow> (nat list \<Rightarrow> ('d, 'x) sync_db_scheme \<Rightarrow> ('d, 'x) sync_db_scheme)
    \<Rightarrow> (nat \<Rightarrow> sync_ids) \<Rightarrow> nat \<Rightarrow> billable_input \<Rightarrow> nat \<Rightarrow> (('d, 'x) sync_db_scheme, ident) io" where
  "syncCustomer d env ids rounds b 0 = throw unfinished"
| "syncCustomer d env ids rounds b (Suc n) =
    andThen (syncRound d (\<lambda>p. env (n # p)) (ids n) rounds b) (\<lambda>r. case r of
      Some pid \<Rightarrow> ret pid
    | None \<Rightarrow> syncCustomer d env ids rounds b n)"

section \<open>The loops end\<close>

lemma tryAttempt_decides:
  assumes "ct_syncs w = ct_syncs v" and "find (attempt_key d) (ct_syncs v) = found"
  shows "\<exists>c. fst (tryAttempt d i found w) = Inr (Some c)"
proof (cases found)
  case None
  then have "\<not> list_ex (attempt_key d) (ct_syncs w)"
    using assms by (auto simp: find_None_iff list_ex_iff)
  then show ?thesis
    by (simp add: None tryAttempt_def Let_def catching_def insertSync_def andThen_def newAttemptRow_def attempt_key_def)
next
  case (Some s)
  then have s: "s \<in> set (ct_syncs w)" "attempt_key d s"
    using assms find_SomeD by fastforce+
  then have found: "list_ex (unchanged_attempt d s (ss_status s)) (ct_syncs w)"
    by (auto simp: list_ex_iff unchanged_attempt_def)
  then show ?thesis
    by (auto simp: Some tryAttempt_def Let_def expirePendingAttempt_def updateSyncsWhere_def andThen_def)
qed

text \<open>No round throws: a lost race starts the next one.\<close>

lemma tryAttempt_Inr: "\<exists>r w'. tryAttempt d i found w = (Inr r, w')"
proof (cases found)
  case None
  then show ?thesis
    by (simp add: tryAttempt_def Let_def catching_def insertSync_def andThen_def isUniqueViolation_def)
next
  case (Some s)
  then show ?thesis
    by (simp add: tryAttempt_def Let_def expirePendingAttempt_def updateSyncsWhere_def andThen_def)
qed

lemma beginAttempt_step:
  "beginAttempt env newIds d (Suc n) w = (case tryAttempt d (newIds n) (find (attempt_key d) (ct_syncs w)) (env n w) of
     (Inr (Some c), w') \<Rightarrow> (Inr c, w') | (Inr None, w') \<Rightarrow> beginAttempt env newIds d n w' | (Inl e, w') \<Rightarrow> (Inl e, w'))"
  by (simp add: findSync_def andThen_readState interference_andThen attempt_key_def)
    (simp add: andThen_def split: prod.split sum.split option.split)

lemma beginAttempt_ends:
  assumes "k < n" and "\<And>v. ct_syncs (env k v) = ct_syncs v"
  shows "\<exists>c. fst (beginAttempt env newIds d n w) = Inr c"
  using assms(1)
proof (induction n arbitrary: w)
  case (Suc n)
  let ?found = "find (attempt_key d) (ct_syncs w)"
  obtain r w' where r: "tryAttempt d (newIds n) ?found (env n w) = (Inr r, w')" using tryAttempt_Inr by blast
  show ?case
  proof (cases r)
    case None
    have "k \<noteq> n" using tryAttempt_decides [of "env n w" w d ?found "newIds n"] assms(2) r None by auto
    then have "k < n" using Suc.prems by simp
    from Suc.IH [OF this] r None show ?thesis by (simp only: beginAttempt_step prod.case sum.case option.case)
  next
    case (Some c)
    with r show ?thesis by (simp only: beginAttempt_step prod.case sum.case option.case) simp
  qed
qed simp

lemma await_ends:
  assumes "\<And>k v. idem_now (env [1, k] v) \<ge> idem_now v + 10" and "lease - idem_now w \<le> 10 * int n"
  shows "\<exists>r. fst (awaitCustomerProviderSync d env customerId lease (Suc n) w) = Inr r"
  using assms(2)
proof (induction n arbitrary: w)
  case 0
  then show ?case
    by (simp add: findSync_def andThen_readState) (simp add: findBinding_def interference_andThen andThen_readState)
next
  case (Suc n)
  have "lease - idem_now (env [1, Suc n] w) \<le> 10 * int n"
    using Suc.prems assms(1) [of w "Suc n"] by simp
  from Suc.IH [OF this] show ?case
    by (subst awaitCustomerProviderSync.simps(2))
      (simp add: findSync_def andThen_readState findBinding_def interference_andThen
        del: awaitCustomerProviderSync.simps)
qed

text \<open>
  C37. The loops of the synchronisation end. The claim of an attempt answers once any one of its
  rounds passes without another client writing to the table of synchronisations, and throws
  nothing; a client that waits for another's attempt returns after at most 3001 looks, whatever
  the other client does, when a sleep lasts its ten milliseconds and the lease it waits for is
  one that was just taken.
\<close>

theorem customer_sync_loops_end:
  "(k < n \<and> (\<forall>v. ct_syncs (env k v) = ct_syncs v) \<longrightarrow> (\<exists>c. fst (beginAttempt env newIds a n w) = Inr c))
   \<and> ((\<forall>j v. idem_now (sleep [1, j] v) \<ge> idem_now v + 10) \<and> lease \<le> idem_now w + CUSTOMER_PROVIDER_SYNC_LEASE_MS
      \<longrightarrow> (\<exists>r. fst (awaitCustomerProviderSync d sleep customerId lease 3001 w) = Inr r))"
proof (intro conjI impI)
  assume "k < n \<and> (\<forall>v. ct_syncs (env k v) = ct_syncs v)"
  then show "\<exists>c. fst (beginAttempt env newIds a n w) = Inr c" using beginAttempt_ends by blast
next
  assume "(\<forall>j v. idem_now (sleep [1, j] v) \<ge> idem_now v + 10) \<and> lease \<le> idem_now w + CUSTOMER_PROVIDER_SYNC_LEASE_MS"
  then have "\<exists>r. fst (awaitCustomerProviderSync d sleep customerId lease (Suc 3000) w) = Inr r"
    by (intro await_ends) (auto simp: CUSTOMER_PROVIDER_SYNC_LEASE_MS_def)
  then show "\<exists>r. fst (awaitCustomerProviderSync d sleep customerId lease 3001 w) = Inr r"
    by (simp add: numeral_eq_Suc del: awaitCustomerProviderSync.simps)
qed

end
