(* ===== verification/Customer_Agreement.thy ===== *)
theory Customer_Agreement
  imports Customer_Sync
begin

text \<open>
  What the synchronisation of customers guarantees: every run that answers, answers the one
  binding of the customer, carried through each step as a triple from \<open>sync_ok\<close> and \<open>grows\<close>;
  an uncertain creation stops every later one; charging through it keeps the ledger; examples.
\<close>

section \<open>One customer at the provider\<close>

definition bound :: "string \<Rightarrow> ident \<Rightarrow> ident \<Rightarrow> ('d, 'x) customer_db_scheme \<Rightarrow> bool" where
  "bound provider customerId pid w \<longleftrightarrow> (\<exists>b \<in> set (ct_bindings w). pb_customerId b = customerId
     \<and> pb_provider b = provider \<and> pb_providerCustomerId b = pid)"

definition registered :: "tenant \<Rightarrow> billable_input \<Rightarrow> ident \<Rightarrow> ('d, 'x) customer_db_scheme \<Rightarrow> bool" where
  "registered t b customerId w \<longleftrightarrow> (\<exists>c \<in> set (ct_customers w). same_billable (bl_type b) (bl_id b) t c \<and> cu_id c = customerId)"

definition billable_key :: "customer \<Rightarrow> string \<times> string \<times> string" where
  "billable_key c = (cu_billableType c, cu_billableId c, tenant_column (cu_tenant c))"

definition binding_key :: "customer_binding \<Rightarrow> ident \<times> string" where
  "binding_key b = (pb_customerId b, pb_provider b)"

text \<open>
  The unique indexes, and the completed record of the billable's creation answering the customer
  its run has bound.
\<close>

definition sync_ok :: "'w sync_deps \<Rightarrow> billable_input \<Rightarrow> ('d, 'x) customer_db_scheme \<Rightarrow> bool" where
  "sync_ok d b w \<longleftrightarrow> distinct (map billable_key (ct_customers w)) \<and> distinct (map binding_key (ct_bindings w))
     \<and> (\<forall>key r. customer_key d (bl_type b) (bl_id b) = Inr key \<longrightarrow> knex_row w (''customer:'' @ key) (cy_tenant d) = Some r
         \<longrightarrow> ir_status r = Completed \<longrightarrow> (\<exists>pid customerId. ir_response r = Some (S_reference pid)
            \<and> registered (cy_tenant d) b customerId w \<and> bound (cy_providerName d) customerId pid w))"

text \<open>Bindings stay; a customer keeps its id, tenant and billable.\<close>

definition grows :: "('d, 'x) customer_db_scheme \<Rightarrow> ('d, 'x) customer_db_scheme \<Rightarrow> bool" where
  "grows w w' \<longleftrightarrow> (\<lambda>c. (cu_id c, billable_key c)) ` set (ct_customers w) \<subseteq> (\<lambda>c. (cu_id c, billable_key c)) ` set (ct_customers w')
     \<and> (\<lambda>b. (binding_key b, pb_providerCustomerId b)) ` set (ct_bindings w)
        \<subseteq> (\<lambda>b. (binding_key b, pb_providerCustomerId b)) ` set (ct_bindings w')"

text \<open>What other clients may do: anything that keeps the rows valid and lets them grow.\<close>

definition sync_rely :: "'w sync_deps \<Rightarrow> billable_input \<Rightarrow> (('d, 'x) customer_db_scheme \<Rightarrow> ('d, 'x) customer_db_scheme) \<Rightarrow> bool" where
  "sync_rely d b f \<longleftrightarrow> (\<forall>w. sync_ok d b w \<longrightarrow> sync_ok d b (f w) \<and> grows w (f w))"

lemma grows_refl [simp]: "grows w w"
  by (simp add: grows_def)

lemma grows_trans: "grows w v \<Longrightarrow> grows v u \<Longrightarrow> grows w u"
  unfolding grows_def by (meson subset_trans)

lemma registered_image:
  "registered t b i w \<longleftrightarrow> (i, bl_type b, bl_id b, tenant_column t) \<in> (\<lambda>c. (cu_id c, billable_key c)) ` set (ct_customers w)"
  by (auto simp: registered_def same_billable_def billable_key_def image_iff)

lemma bound_image:
  "bound p i pid w \<longleftrightarrow> ((i, p), pid) \<in> (\<lambda>b. (binding_key b, pb_providerCustomerId b)) ` set (ct_bindings w)"
  by (auto simp: bound_def binding_key_def image_iff)

lemma grows_keeps:
  "grows w w' \<Longrightarrow> registered t b i w \<Longrightarrow> registered t b i w'"
  "grows w w' \<Longrightarrow> bound p i pid w \<Longrightarrow> bound p i pid w'"
  by (auto simp: grows_def registered_image bound_image)

lemma distinct_map_eq: "distinct (map f xs) \<Longrightarrow> x \<in> set xs \<Longrightarrow> y \<in> set xs \<Longrightarrow> f x = f y \<Longrightarrow> x = y"
  by (auto simp: distinct_map inj_on_def)

lemma registered_unique:
  assumes "sync_ok d b w" and "registered t b' i w" and "registered t b' j w"
  shows "i = j"
proof -
  obtain c c' where c: "c \<in> set (ct_customers w)" "cu_id c = i" "c' \<in> set (ct_customers w)" "cu_id c' = j"
    and "billable_key c = billable_key c'"
    using assms(2,3) by (auto simp: registered_def same_billable_def billable_key_def)
  with assms(1) have "c = c'" by (auto simp: sync_ok_def dest: distinct_map_eq)
  with c show ?thesis by simp
qed

lemma bound_unique:
  assumes "sync_ok d b w" and "bound p i pid w" and "bound p i pid' w"
  shows "pid = pid'"
proof -
  obtain x y where x: "x \<in> set (ct_bindings w)" "pb_providerCustomerId x = pid" "y \<in> set (ct_bindings w)"
      "pb_providerCustomerId y = pid'" and "binding_key x = binding_key y"
    using assms(2,3) by (auto simp: bound_def binding_key_def)
  with assms(1) have "x = y" by (auto simp: sync_ok_def dest: distinct_map_eq)
  with x show ?thesis by simp
qed

text \<open>The state a run is in: valid, grown from where it started, and the customer known.\<close>

definition since :: "'w sync_deps \<Rightarrow> billable_input \<Rightarrow> ('d, 'x) customer_db_scheme \<Rightarrow> ('d, 'x) customer_db_scheme \<Rightarrow> bool" where
  "since d b w0 w \<longleftrightarrow> sync_ok d b w \<and> grows w0 w"

definition knows :: "'w sync_deps \<Rightarrow> billable_input \<Rightarrow> ('d, 'x) customer_db_scheme \<Rightarrow> ident \<Rightarrow> ('d, 'x) customer_db_scheme \<Rightarrow> bool" where
  "knows d b w0 i w \<longleftrightarrow> since d b w0 w \<and> registered (cy_tenant d) b i w"

definition answered :: "'w sync_deps \<Rightarrow> billable_input \<Rightarrow> ('d, 'x) customer_db_scheme \<Rightarrow> ident \<Rightarrow> ident \<Rightarrow> ('d, 'x) customer_db_scheme \<Rightarrow> bool" where
  "answered d b w0 i pid w \<longleftrightarrow> knows d b w0 i w \<and> bound (cy_providerName d) i pid w"

text \<open>Steps that do not write to customers, bindings or idempotency records.\<close>

definition aside :: "(('d, 'x) customer_db_scheme, 'a) io \<Rightarrow> bool" where
  "aside m \<longleftrightarrow> (\<forall>w. ct_customers (snd (m w)) = ct_customers w \<and> ct_bindings (snd (m w)) = ct_bindings w
     \<and> idem_rows (snd (m w)) = idem_rows w)"

definition steady :: "(('d, 'x) customer_db_scheme \<Rightarrow> bool) \<Rightarrow> bool" where
  "steady P \<longleftrightarrow> (\<forall>w w'. ct_customers w' = ct_customers w \<longrightarrow> ct_bindings w' = ct_bindings w \<longrightarrow> idem_rows w' = idem_rows w
     \<longrightarrow> P w \<longrightarrow> P w')"

lemma steady_facts:
  "steady (since d b w0)" "steady (knows d b w0 i)" "steady (answered d b w0 i pid)"
  by (auto simp: steady_def since_def knows_def answered_def sync_ok_def grows_def registered_def bound_def knex_row_def)

lemma aside_preserves: "aside m \<Longrightarrow> steady P \<Longrightarrow> preserves P m"
  by (rule preservesI) (simp add: aside_def steady_def)

lemma aside_steps:
  "aside (ret x)" "aside (throw e)" "aside (readState g)" "aside (guardE c e)" "aside (liftResult r)"
  by (simp_all add: aside_def guardE_def)

lemma aside_andThen: "aside m \<Longrightarrow> (\<And>x. aside (f x)) \<Longrightarrow> aside (andThen m f)"
  unfolding aside_def andThen_def by (auto split: prod.split sum.split) (metis snd_conv)+

lemma aside_atomically: "aside m \<Longrightarrow> aside (atomically m)"
  unfolding aside_def atomically_def by (auto split: prod.split sum.split) (metis snd_conv)+

lemma aside_if: "(c \<Longrightarrow> aside m) \<Longrightarrow> (\<not> c \<Longrightarrow> aside n) \<Longrightarrow> aside (if c then m else n)"
  by simp

lemma aside_option: "aside m \<Longrightarrow> (\<And>y. aside (f y)) \<Longrightarrow> aside (case x of None \<Rightarrow> m | Some y \<Rightarrow> f y)"
  by (cases x) simp_all

lemma aside_tables:
  "aside (updateSyncsWhere P f)" "aside (insertSync s)" "aside (on_audit m)" "aside (on_outbox m')" "aside (rememberRemote r)"
  by (simp_all add: aside_def updateSyncsWhere_def insertSync_def on_audit_def on_outbox_def rememberRemote_def split: prod.split)

lemmas aside_rules = aside_steps aside_andThen aside_atomically aside_if aside_option aside_tables

lemma aside_completeAttempt: "aside (completeAttempt r n owner)"
  unfolding completeAttempt_def findSync_def by (intro aside_rules)

lemma aside_recordCustomer: "aside (recordCustomer d entries verb status dedupe attemptId customerId pid failure)"
  unfolding recordCustomer_def by (intro aside_rules)

lemma aside_lifecycle:
  "aside (synchronized d ids customerId pid a)" "aside (recordAttempt d customerId p a status code at)"
  "aside (syncFailed d customerId a e p at)" "aside (reconciliationRequired d ids customerId p a e at)"
  unfolding synchronized_def recordAttempt_def syncFailed_def reconciliationRequired_def recordOrphan_def Let_def
  by (intro aside_rules aside_completeAttempt aside_recordCustomer)+

section \<open>Every run answers the customer's binding\<close>

lemma relied:
  assumes "sync_rely d b f"
  shows "preserves (since d b w0) (interference f)" "preserves (knows d b w0 i) (interference f)"
    "preserves (answered d b w0 i pid) (interference f)"
  using assms by (auto simp: preserves_def interference_def sync_rely_def since_def knows_def answered_def
      intro: grows_trans grows_keeps)

lemma weaker: "knows d b w0 i w \<Longrightarrow> since d b w0 w" "answered d b w0 i pid w \<Longrightarrow> knows d b w0 i w"
  "answered d b w0 i pid w \<Longrightarrow> since d b w0 w"
  by (simp_all add: knows_def answered_def)

lemma sync_ok_grown:
  assumes "sync_ok d b w" and "distinct (map billable_key (ct_customers w'))" and "distinct (map binding_key (ct_bindings w'))"
    and "idem_rows w' = idem_rows w" and "grows w w'"
  shows "sync_ok d b w'"
proof -
  have "\<exists>pid customerId. ir_response r = Some (S_reference pid) \<and> registered (cy_tenant d) b customerId w'
      \<and> bound (cy_providerName d) customerId pid w'"
    if "customer_key d (bl_type b) (bl_id b) = Inr key" "knex_row w' (''customer:'' @ key) (cy_tenant d) = Some r"
      "ir_status r = Completed" for key r
  proof -
    have "knex_row w (''customer:'' @ key) (cy_tenant d) = Some r" using that(2) assms(4) by (simp add: knex_row_def)
    with assms(1) that obtain pid i where "ir_response r = Some (S_reference pid)" "registered (cy_tenant d) b i w"
        "bound (cy_providerName d) i pid w"
      unfolding sync_ok_def by blast
    with grows_keeps [OF assms(5)] show ?thesis by blast
  qed
  with assms show ?thesis by (simp add: sync_ok_def)
qed

lemma createCustomer_triple:
  "triple (since d b w0) (createCustomer (new_customer i (cy_tenant d) b email))
    (\<lambda>c w. knows d b w0 (cu_id c) w \<and> same_billable (bl_type b) (bl_id b) (cy_tenant d) c) (\<lambda>_. since d b w0)"
proof -
  have "case createCustomer (new_customer i (cy_tenant d) b email) w of
      (Inr c, w') \<Rightarrow> knows d b w0 (cu_id c) w' \<and> same_billable (bl_type b) (bl_id b) (cy_tenant d) c
    | (Inl e, w') \<Rightarrow> since d b w0 w'" if w: "since d b w0 w" for w
  proof (cases "list_ex (same_billable (bl_type b) (bl_id b) (cy_tenant d)) (ct_customers w)")
    case False
    let ?c = "(new_customer i (cy_tenant d) b email)\<lparr>cu_createdAt := idem_now w, cu_updatedAt := idem_now w\<rparr>"
    let ?w = "w\<lparr>ct_customers := ct_customers w @ [?c]\<rparr>"
    have "sync_ok d b ?w"
    proof (rule sync_ok_grown [of _ _ w])
      show "sync_ok d b w" "distinct (map binding_key (ct_bindings ?w))" using w by (auto simp: since_def sync_ok_def)
      show "distinct (map billable_key (ct_customers ?w))"
        using w False by (force simp: since_def sync_ok_def list_ex_iff same_billable_def billable_key_def new_customer_def)
    qed (auto simp: grows_def)
    moreover have "grows w0 ?w" using w by (auto simp: since_def grows_def)
    moreover have "same_billable (bl_type b) (bl_id b) (cy_tenant d) ?c" by (simp add: same_billable_def new_customer_def)
    ultimately show ?thesis
      using False by (auto simp: createCustomer_def Let_def new_customer_def since_def knows_def registered_def)
  qed (use w in \<open>simp add: createCustomer_def Let_def new_customer_def\<close>)
  then show ?thesis by (simp add: triple_def)
qed

lemma findByBillable_triple:
  "triple (since d b w0) (findByBillable (bl_type b) (bl_id b) (cy_tenant d))
    (\<lambda>r w. since d b w0 w \<and> (\<forall>c. r = Some c \<longrightarrow> knows d b w0 (cu_id c) w
       \<and> same_billable (bl_type b) (bl_id b) (cy_tenant d) c)) (\<lambda>_. since d b w0)"
  by (auto simp: triple_def findByBillable_def knows_def registered_def dest: find_SomeD)

lemma ensureCustomer_triple:
  assumes "\<And>p. sync_rely d b (env p)"
  shows "triple (since d b w0) (ensureCustomer True schema (cy_tenant d) env i b)
    (\<lambda>c w. knows d b w0 (cu_id c) w \<and> same_billable (bl_type b) (bl_id b) (cy_tenant d) c) (\<lambda>_. since d b w0)"
    (is "triple ?S _ ?K _")
proof -
  have raced: "triple ?S (andThen (interference (env [1])) (\<lambda>_. andThen (findByBillable (bl_type b) (bl_id b) (cy_tenant d))
      (\<lambda>raced. case raced of Some c \<Rightarrow> ret c | None \<Rightarrow> throw e))) ?K (\<lambda>_. ?S)" for e
  proof (rule quiet_then [OF relied(1) [OF assms]])
    show "triple ?S (andThen (findByBillable (bl_type b) (bl_id b) (cy_tenant d))
        (\<lambda>raced. case raced of Some c \<Rightarrow> ret c | None \<Rightarrow> throw e)) ?K (\<lambda>_. ?S)"
      by (rule triple_andThen [OF findByBillable_triple], rule triple_option) (simp_all add: triple_def)
  qed
  have create: "triple ?S (andThen (liftResult (normalizeCustomerEmail schema (bl_email b)))
      (\<lambda>email. createCustomer (new_customer i (cy_tenant d) b email))) ?K (\<lambda>_. ?S)"
    by (rule quiet_then [OF preserves_liftResult _ createCustomer_triple]) simp
  have miss: "triple ?S (andThen (interference (env [0])) (\<lambda>_. catching (andThen (liftResult (normalizeCustomerEmail schema (bl_email b)))
      (\<lambda>email. createCustomer (new_customer i (cy_tenant d) b email))) (\<lambda>e. andThen (interference (env [1]))
        (\<lambda>_. andThen (findByBillable (bl_type b) (bl_id b) (cy_tenant d))
      (\<lambda>raced. case raced of Some c \<Rightarrow> ret c | None \<Rightarrow> throw e))))) ?K (\<lambda>_. ?S)"
    by (rule quiet_then [OF relied(1) [OF assms]], assumption, rule triple_catching [OF create raced])
  show ?thesis
    unfolding ensureCustomer_def not_True_eq_False if_False
    by (rule triple_andThen [OF findByBillable_triple], rule triple_option, rule triple_pre [OF miss])
      (simp_all add: triple_def [of _ "ret y" for y])
qed

lemma findBinding_triple:
  "triple (knows d b w0 i) (findBinding i (cy_providerName d) t)
    (\<lambda>r w. knows d b w0 i w \<and> (\<forall>x. r = Some x \<longrightarrow> bound (cy_providerName d) i (pb_providerCustomerId x) w)) E"
  by (auto simp: triple_def findBinding_def bound_def dest: find_SomeD)

lemma createBinding_triple:
  "triple (knows d b w0 i) (createBinding newId i (cy_providerName d) pid) (\<lambda>_. answered d b w0 i pid) (\<lambda>_. knows d b w0 i)"
proof -
  have "case createBinding newId i (cy_providerName d) pid w of (Inr x, w') \<Rightarrow> answered d b w0 i pid w'
      | (Inl e, w') \<Rightarrow> knows d b w0 i w'" if w: "knows d b w0 i w" for w
  proof -
    let ?r = "\<lparr>pb_id = newId, pb_customerId = i, pb_provider = cy_providerName d, pb_providerCustomerId = pid,
      pb_createdAt = idem_now w, pb_updatedAt = idem_now w\<rparr>"
    let ?w = "w\<lparr>ct_bindings := ct_bindings w @ [?r]\<rparr>"
    show ?thesis
    proof (cases "list_ex (binding_taken ?r) (ct_bindings w)")
      case False
      have "sync_ok d b ?w"
      proof (rule sync_ok_grown [of _ _ w])
        show "sync_ok d b w" "distinct (map billable_key (ct_customers ?w))"
          using w by (auto simp: knows_def since_def sync_ok_def)
        show "distinct (map binding_key (ct_bindings ?w))"
          using w False by (force simp: knows_def since_def sync_ok_def list_ex_iff binding_taken_def binding_key_def)
      qed (auto simp: grows_def)
      moreover have "grows w0 ?w" using w by (auto simp: knows_def since_def grows_def)
      moreover have "registered (cy_tenant d) b i ?w" using w by (simp add: knows_def registered_def)
      moreover have "bound (cy_providerName d) i pid ?w" by (simp add: bound_def)
      ultimately show ?thesis using False by (simp add: createBinding_def Let_def answered_def knows_def since_def)
    qed (use w in \<open>simp add: createBinding_def Let_def\<close>)
  qed
  then show ?thesis by (simp add: triple_def)
qed

lemma persistBinding_triple:
  assumes "\<And>p. sync_rely d b (env p)"
  shows "triple (knows d b w0 i) (persistBinding (cy_providerName d) t env newId i pid)
    (\<lambda>_. answered d b w0 i pid) (\<lambda>_. since d b w0)"
  unfolding persistBinding_def
proof (rule triple_catching [where R = "\<lambda>_. knows d b w0 i"])
  show "triple (knows d b w0 i) (andThen (createBinding newId i (cy_providerName d) pid) (\<lambda>_. ret ()))
      (\<lambda>_. answered d b w0 i pid) (\<lambda>_. knows d b w0 i)"
    by (rule triple_andThen [OF createBinding_triple]) (rule triple_ret)
next
  show "triple (knows d b w0 i) (andThen (interference (env [0])) (\<lambda>_. andThen (findBinding i (cy_providerName d) t)
      (\<lambda>raced. case raced of None \<Rightarrow> throw (PayableError ''CUSTOMER_PROVIDER_BINDING_PERSISTENCE_FAILED'')
        | Some b \<Rightarrow> guardE (pb_providerCustomerId b = pid) (PayableError ''CUSTOMER_PROVIDER_BINDING_CONFLICT''))))
      (\<lambda>_. answered d b w0 i pid) (\<lambda>_. since d b w0)"
    by (rule quiet_then [OF relied(2) [OF assms]], simp add: weaker, rule triple_andThen [OF findBinding_triple], rule triple_option)
      (auto simp: triple_def guardE_def answered_def weaker)
qed

text \<open>The customer is known, and the binding that was read is in the table.\<close>

definition seen ::
  "'w sync_deps \<Rightarrow> billable_input \<Rightarrow> ('d, 'x) customer_db_scheme \<Rightarrow> ident \<Rightarrow> customer_binding option
    \<Rightarrow> ('d, 'x) customer_db_scheme \<Rightarrow> bool" where
  "seen d b w0 i r w \<longleftrightarrow> knows d b w0 i w \<and> (\<forall>x. r = Some x \<longrightarrow> bound (cy_providerName d) i (pb_providerCustomerId x) w)"

definition of_billable :: "'w sync_deps \<Rightarrow> billable_input \<Rightarrow> customer \<Rightarrow> bool" where
  "of_billable d b c \<longleftrightarrow> same_billable (bl_type b) (bl_id b) (cy_tenant d) c"

lemma seen_weak: "seen d b w0 i r w \<Longrightarrow> since d b w0 w" "seen d b w0 i r w \<Longrightarrow> knows d b w0 i w"
  by (simp_all add: seen_def knows_def)

lemma seen_steady: "steady (seen d b w0 i r)"
  using steady_facts(2) [of d b w0 i] by (auto simp: steady_def seen_def bound_def)

lemma seen_relied:
  assumes "sync_rely d b f"
  shows "preserves (seen d b w0 i r) (interference f)"
proof (rule preservesI)
  fix w assume s: "seen d b w0 i r w"
  then have "grows w (f w)" using assms by (simp add: seen_def knows_def since_def sync_rely_def)
  with s preservesD [OF relied(2) [OF assms]] show "seen d b w0 i r (snd (interference f w))"
    by (auto simp: seen_def interference_def intro: grows_keeps)
qed

lemma aside_catching: "aside m \<Longrightarrow> (\<And>e. aside (h e)) \<Longrightarrow> aside (catching m h)"
  unfolding aside_def catching_def by (auto split: prod.split sum.split) (metis snd_conv)+

lemma aside_tryAttempt: "aside (tryAttempt a i found)"
  unfolding tryAttempt_def expirePendingAttempt_def Let_def
  by (intro aside_rules aside_catching)

lemma beginAttempt_keeps:
  assumes "steady P" and "\<And>k. preserves P (interference (env k))"
  shows "preserves P (beginAttempt env newIds a n)"
proof (induction n)
  case (Suc n)
  show ?case
    unfolding beginAttempt.simps findSync_def
    by (intro preserves_andThen preserves_readState preserves_option preserves_ret Suc
        aside_preserves [OF aside_tryAttempt assms(1)] assms(2))
qed (simp add: preserves_def)

lemma beginSync_keeps:
  assumes "steady P" and "\<And>k. preserves P (interference (env k))"
  shows "preserves P (beginSync d env ids rounds i repair reclaim)"
  unfolding beginSync_def
  by (intro preserves_if preserves_andThen preserves_readState preserves_ret beginAttempt_keeps assms)

lemma findBinding_seen:
  "triple (knows d b w0 i) (findBinding i (cy_providerName d) t) (\<lambda>r. seen d b w0 i r) E"
  "triple (seen d b w0 i r) (findBinding i (cy_providerName d) t) (\<lambda>r. seen d b w0 i r) E"
proof -
  show *: "triple (knows d b w0 i) (findBinding i (cy_providerName d) t) (\<lambda>r. seen d b w0 i r) E"
    using findBinding_triple by (simp add: seen_def [abs_def])
  show "triple (seen d b w0 i r) (findBinding i (cy_providerName d) t) (\<lambda>r. seen d b w0 i r) E"
    by (rule triple_pre [OF *]) (rule seen_weak)
qed

lemma prepare_triple:
  assumes rely: "\<And>p. sync_rely d b (env p)" and storage: "cy_hasStorage d"
  shows "triple (since d b w0) (prepareLocalCustomer d env ids rounds b)
    (\<lambda>r w. \<exists>l. r = Some l \<and> of_billable d b (lo_customer l) \<and> seen d b w0 (cu_id (lo_customer l)) (lo_binding l) w)
    (\<lambda>_. since d b w0)" (is "triple _ _ ?Q ?E")
proof -
  let ?find = "\<lambda>c. findBinding (cu_id c) (cy_providerName d) (cy_tenant d)"
  have look: "triple (seen d b w0 (cu_id c) before) (if q then ?find c else ret before)
      (\<lambda>r. seen d b w0 (cu_id c) r) ?E" for c before q
    by (rule triple_if [OF findBinding_seen(2) triple_ret])
  have finish: "triple (seen d b w0 (cu_id c) before) (andThen (if q then ?find c else ret before) (\<lambda>binding.
      if u binding then throw unresolvedCustomer
      else ret (Some \<lparr>lo_customer = c, lo_previous = p, lo_attempt = a, lo_binding = binding\<rparr>))) ?Q ?E"
    if "of_billable d b c" for c before q u p a
    by (rule triple_andThen [OF look]) (use that in \<open>auto simp: triple_def seen_weak\<close>)
  have keeps: "preserves (seen d b w0 i r) (interference (env p))"
      "preserves (seen d b w0 i r) (beginSync d (\<lambda>k. env [3, k]) ids rounds i' q q')" for i r p i' q q'
    by (auto intro: seen_relied rely beginSync_keeps seen_steady)
  show ?thesis
    unfolding prepareLocalCustomer_def if_not_P [where P = "\<not> cy_hasStorage d", unfolded not_not, OF storage] Let_def
  proof (rule triple_andThen [OF ensureCustomer_triple [OF rely]], subst conj_commute, rule triple_conj_pre,
      rule quiet_then [OF relied(2) [OF rely]], rule weaker, assumption,
      rule triple_andThen [OF findBinding_seen(1)])
    fix c u before
    assume "same_billable (bl_type b) (bl_id b) (cy_tenant d) c"
    then have c: "of_billable d b c" by (simp add: of_billable_def)
    show "triple (seen d b w0 (cu_id c) before) (andThen (interference (env [2])) (\<lambda>_.
       andThen (beginSync d (\<lambda>k. env [3, k]) ids rounds (cu_id c) (before \<noteq> None) (before \<noteq> None \<or> cy_native d)) (\<lambda>a.
       andThen (interference (env [4])) (\<lambda>_.
       andThen (if before = None \<and> (map_option ss_status (at_previous a) = Some Sync_synchronized
           \<or> \<not> at_acquired a \<and> map_option ss_status (at_previous a) = Some Sync_reconciliation_required)
         then ?find c else ret before) (\<lambda>binding.
       if map_option ss_status (at_previous a) = Some Sync_reconciliation_required
         \<and> \<not> truthy (Option.bind (at_previous a) ss_providerCustomerId) \<and> binding = None
       then throw unresolvedCustomer
       else ret (Some \<lparr>lo_customer = c, lo_previous = at_previous a, lo_attempt = a, lo_binding = binding\<rparr>)))))) ?Q ?E"
      by (rule quiet_then [OF keeps(1)], erule seen_weak, rule quiet_then [OF keeps(2)], erule seen_weak,
          rule quiet_then [OF keeps(1)], erule seen_weak, rule finish [OF c])
  qed
qed

text \<open>A provider's operation may contain whatever other clients may do.\<close>

definition provider_rely :: "'v sync_deps \<Rightarrow> billable_input \<Rightarrow> ('d, 'x) customer_db_scheme customer_api \<Rightarrow> bool" where
  "provider_rely d b api \<longleftrightarrow> (\<forall>r c k. sync_rely d b (\<lambda>w. snd (api_create api r c k w)))
     \<and> (\<forall>r c k. sync_rely d b (\<lambda>w. snd (api_update api r c k w)))"

lemma acts_relied:
  assumes "sync_rely d b (\<lambda>w. snd (m w))"
  shows "preserves (since d b w0) m" "preserves (knows d b w0 i) m" "preserves (seen d b w0 i r) m"
  using relied(1,2) [OF assms, of w0] seen_relied [OF assms, of w0 i r]
  by (auto simp: preserves_def interference_def)

lemma reconciliation_triple:
  assumes "\<And>p. sync_rely d b (env p)"
  shows "triple (since d b w0) (andThen (interference (env p)) (\<lambda>_.
      andThen (reconciliationRequired d ids i q a e at) (\<lambda>_. throw e))) Q (\<lambda>_. since d b w0)"
  by (rule quiet_then [OF relied(1) [OF assms]], assumption,
      rule quiet_then [OF aside_preserves [OF aside_lifecycle(4) steady_facts(1)]], assumption)
    (simp add: triple_def)

lemma seen_answered: "seen d b w0 i (Some x) w \<Longrightarrow> answered d b w0 i (pb_providerCustomerId x) w"
  by (simp add: seen_def answered_def)

lemma finish_triple:
  assumes rely: "\<And>p. sync_rely d b (env p)" and "steady P" and "\<And>w. P w \<Longrightarrow> answered d b w0 i pid w"
  shows "triple P (catching (andThen (synchronized d ids j pid' a) (\<lambda>_. ret pid))
      (\<lambda>e. andThen (interference (env p)) (\<lambda>_. andThen (reconciliationRequired d ids j' q a' e at) (\<lambda>_. throw e))))
    (\<lambda>pid. answered d b w0 i pid) (\<lambda>_. since d b w0)"
proof (rule triple_catching [OF _ reconciliation_triple [OF rely]])
  show "triple P (andThen (synchronized d ids j pid' a) (\<lambda>_. ret pid)) (\<lambda>pid. answered d b w0 i pid) (\<lambda>_. since d b w0)"
    by (rule quiet_then [OF aside_preserves [OF aside_lifecycle(1) assms(2)]]) (auto simp: triple_def dest: assms(3) weaker)
qed

lemma updateProvider_triple:
  assumes rely: "\<And>p. sync_rely d b (env p)" and api: "provider_rely d b api"
  shows "triple (seen d b w0 (cu_id (lo_customer l)) (lo_binding l)) (updateProvider d api env ids l)
    (\<lambda>pid. answered d b w0 (cu_id (lo_customer l)) pid) (\<lambda>_. since d b w0)"
proof (cases "lo_binding l")
  case None
  then show ?thesis by (simp add: updateProvider_def triple_def seen_weak)
next
  case (Some x)
  let ?i = "cu_id (lo_customer l)" and ?P = "seen d b w0 (cu_id (lo_customer l)) (Some x)"
  have call: "preserves ?P (attempt (api_update api r c k))" for r c k
    using api by (intro preserves_attempt acts_relied) (simp add: provider_rely_def)
  have failed: "triple ?P (andThen (syncFailed d j a e q at) (\<lambda>_. throw e)) (\<lambda>pid. answered d b w0 ?i pid) (\<lambda>_. since d b w0)"
    for j a e q at
    by (rule quiet_then [OF aside_preserves [OF aside_lifecycle(3) seen_steady]]) (auto simp: triple_def seen_weak)
  have answer: "triple ?P (case y of Inl e \<Rightarrow> andThen (syncFailed d ?i (lo_attempt l) e (Some (pb_providerCustomerId x))
          (Option.bind (lo_previous l) ss_synchronizedAt)) (\<lambda>_. throw e)
      | Inr _ \<Rightarrow> catching (andThen (synchronized d ids ?i (pb_providerCustomerId x) (lo_attempt l)) (\<lambda>_. ret (pb_providerCustomerId x)))
          (\<lambda>e. andThen (interference (env [10])) (\<lambda>_. andThen (reconciliationRequired d ids ?i (Some (pb_providerCustomerId x))
            (lo_attempt l) e (Option.bind (lo_previous l) ss_synchronizedAt)) (\<lambda>_. throw e))))
      (\<lambda>pid. answered d b w0 ?i pid) (\<lambda>_. since d b w0)" for y
    by (cases y) (simp_all only: sum.case failed finish_triple [OF rely seen_steady seen_answered])
  show ?thesis
    unfolding updateProvider_def Some option.case Let_def
    by (rule quiet_then [OF preserves_liftResult], erule seen_weak, rule quiet_then [OF call], erule seen_weak,
        rule quiet_then [OF seen_relied [OF rely]], erule seen_weak, rule answer)
qed

lemma bindCustomer_triple:
  assumes "\<And>p. sync_rely d b (env p)"
  shows "triple (knows d b w0 (cu_id (lo_customer l))) (bindCustomer d env ids l pid)
    (\<lambda>_. answered d b w0 (cu_id (lo_customer l)) pid) (\<lambda>_. since d b w0)"
  unfolding bindCustomer_def by (rule persistBinding_triple) (rule assms)

lemma reconcileCustomer_triple:
  assumes rely: "\<And>p. sync_rely d b (env p)" and api: "provider_rely d b api"
  shows "triple (seen d b w0 (cu_id (lo_customer l)) (lo_binding l)) (reconcileCustomer d api env ids l)
    (\<lambda>pid. answered d b w0 (cu_id (lo_customer l)) pid) (\<lambda>_. since d b w0)"
proof -
  let ?i = "cu_id (lo_customer l)" and ?P = "seen d b w0 (cu_id (lo_customer l)) (lo_binding l)"
  have bind: "triple ?P (if lo_binding l = None then bindCustomer d env ids l pid else ret ())
      (\<lambda>_. answered d b w0 ?i pid) (\<lambda>_. since d b w0)"
    if same: "\<not> (lo_binding l \<noteq> None \<and> map_option pb_providerCustomerId (lo_binding l) \<noteq> Some pid)" for pid
  proof (rule triple_if)
    show "triple ?P (bindCustomer d env ids l pid) (\<lambda>_. answered d b w0 ?i pid) (\<lambda>_. since d b w0)"
      by (rule triple_pre [OF bindCustomer_triple [OF rely]]) (rule seen_weak)
    assume "lo_binding l \<noteq> None"
    then show "triple ?P (ret ()) (\<lambda>_. answered d b w0 ?i pid) (\<lambda>_. since d b w0)"
      using same by (auto intro!: triple_ret dest: seen_answered)
  qed
  have sync: "triple (answered d b w0 ?i pid) (andThen (interference (env [8])) (\<lambda>_.
      andThen (synchronized d ids ?i pid (lo_attempt l)) (\<lambda>_. ret pid))) (\<lambda>pid. answered d b w0 ?i pid) (\<lambda>_. since d b w0)" for pid
    by (rule quiet_then [OF relied(3) [OF rely]], erule weaker,
        rule quiet_then [OF aside_preserves [OF aside_lifecycle(1) steady_facts(3)]], erule weaker)
      (simp add: triple_def)
  show ?thesis
    unfolding reconcileCustomer_def Let_def
    by (intro triple_if updateProvider_triple rely api triple_catching [OF _ reconciliation_triple [OF rely]]
        triple_andThen [OF bind sync]) (auto simp: triple_def seen_weak)
qed

lemma runCreate_triple:
  assumes rely: "\<And>p. sync_rely d b (env p)" and api: "provider_rely d b api"
  shows "triple (knows d b w0 (cu_id (lo_customer l))) (runCreate d api env ids request key (Some l))
    (\<lambda>pid. answered d b w0 (cu_id (lo_customer l)) pid) (\<lambda>_. since d b w0)"
proof -
  let ?i = "cu_id (lo_customer l)"
  have call: "preserves (knows d b w0 ?i) (api_create api r c k)" for r c k
    using api by (intro acts_relied) (simp add: provider_rely_def)
  have settle: "triple (answered d b w0 ?i pid) (andThen (interference (env [8])) (\<lambda>_.
      synchronized d ids ?i pid (lo_attempt l))) (\<lambda>_. answered d b w0 ?i pid) (\<lambda>_. since d b w0)" for pid
    by (rule quiet_then [OF relied(3) [OF rely]], erule weaker,
        rule preserves_triple [OF aside_preserves [OF aside_lifecycle(1) steady_facts(3)]], erule weaker)
  have bind: "triple (knows d b w0 ?i) (andThen (interference (env [7])) (\<lambda>_. andThen (bindCustomer d env ids l pid) (\<lambda>_.
      andThen (interference (env [8])) (\<lambda>_. synchronized d ids ?i pid (lo_attempt l)))))
      (\<lambda>_. answered d b w0 ?i pid) (\<lambda>_. since d b w0)" for pid
    by (rule quiet_then [OF relied(2) [OF rely]], erule weaker, rule triple_andThen [OF bindCustomer_triple [OF rely] settle])
  show ?thesis
    unfolding runCreate_def option.case
    by (rule quiet_then [OF call], erule weaker,
        rule quiet_then [OF aside_preserves [OF aside_tables(5) steady_facts(2)]], erule weaker,
        rule triple_andThen [OF bind triple_ret])
qed

lemma knex_row_put:
  "knex_row (put_row k t r w) k' t' = (if tenant_column t' = tenant_column t \<and> k' = k then Some r else knex_row w k' t')"
  by (auto simp: knex_row_def put_row_def)

lemma put_row_parts:
  "ct_customers (put_row k t r w) = ct_customers w" "ct_bindings (put_row k t r w) = ct_bindings w"
  by (simp_all add: put_row_def)

lemma put_row_views:
  "registered t' b i (put_row k t r w) = registered t' b i w" "bound p i pid (put_row k t r w) = bound p i pid w"
  "grows w0 (put_row k t r w) = grows w0 w"
  by (simp_all add: registered_def bound_def grows_def put_row_parts)

lemma create_carries:
  assumes json: "\<And>i. json (S_reference i) = S_reference i"
    and key: "customer_key d (bl_type b) (bl_id b) = Inr key"
    and run: "triple (knows d b w0 i) m (\<lambda>pid. answered d b w0 i pid) (\<lambda>_. knows d b w0 i)"
  shows "carries (knows d b w0 i) (\<lambda>v w. \<exists>pid. v = Some (S_reference pid) \<and> answered d b w0 i pid w)
    (create_execution d ids key b m) json"
proof -
  let ?ex = "create_execution d ids key b m"
  let ?Q = "\<lambda>v w. \<exists>pid. v = Some (S_reference pid) \<and> answered d b w0 i pid w"
  have ex: "scopedKey ?ex = ''customer:'' @ key" "ex_tenant ?ex = cy_tenant d" "ex_revive ?ex = None"
      "ex_legacyStorageKeys ?ex = []" "ex_run ?ex = andThen m (\<lambda>pid. ret (Some (S_reference pid)))"
    by (simp_all add: create_execution_def scopedKey_def or_else_def)
  have replayed: "?Q (ir_response r) w"
    if "knows d b w0 i w" "knex_row w (''customer:'' @ key) (cy_tenant d) = Some r" "ir_status r = Completed" for w r
  proof -
    have ok: "sync_ok d b w" using that(1) by (simp add: knows_def since_def)
    with that(2,3) key obtain pid j where r: "ir_response r = Some (S_reference pid)"
        "registered (cy_tenant d) b j w" "bound (cy_providerName d) j pid w"
      unfolding sync_ok_def by blast
    then have "j = i" using registered_unique [OF ok] that(1) by (auto simp: knows_def)
    with r that(1) show ?thesis by (simp add: answered_def)
  qed
  have opened: "knows d b w0 i (put_row (''customer:'' @ key) (cy_tenant d) r w)"
    if "knows d b w0 i w" "ir_status r \<noteq> Completed" for w r
    using that by (auto simp: knows_def since_def sync_ok_def put_row_views put_row_parts knex_row_put split: if_splits)
  have closed: "?Q v (put_row (''customer:'' @ key) (cy_tenant d) r w)"
    if q: "?Q v w" and r: "ir_status r = Completed" "ir_response r = map_option json v" for w r v
  proof -
    obtain pid where pid: "v = Some (S_reference pid)" "answered d b w0 i pid w" using q by blast
    have "sync_ok d b (put_row (''customer:'' @ key) (cy_tenant d) r w)"
      using pid r json by (auto simp: answered_def knows_def since_def sync_ok_def put_row_views put_row_parts knex_row_put
          split: if_splits)
    with pid show ?thesis by (auto simp: answered_def knows_def since_def put_row_views)
  qed
  have "triple (knows d b w0 i) (andThen m (\<lambda>pid. ret (Some (S_reference pid)))) ?Q (\<lambda>_. knows d b w0 i)"
    by (rule triple_andThen [OF run triple_ret]) blast
  then show ?thesis
    unfolding carries_def ex using replayed opened closed by (auto simp: answered_def)
qed

text \<open>A run that starts where the customer is registered keeps it registered.\<close>

lemma since_registered: "registered (cy_tenant d) b i w0 \<Longrightarrow> since d b w0 = knows d b w0 i"
  by (rule ext) (auto simp: knows_def since_def intro: grows_keeps)

lemma triple_from:
  assumes "\<And>w1. registered (cy_tenant d) b i w1 \<Longrightarrow> triple (knows d b w1 i) m (\<lambda>pid. answered d b w1 i pid) (\<lambda>_. since d b w1)"
  shows "triple (knows d b w0 i) m (\<lambda>pid. answered d b w0 i pid) (\<lambda>_. since d b w0)"
proof (rule tripleI)
  fix w pid w'
  assume w: "knows d b w0 i w" and m: "m w = (Inr pid, w')"
  then have "knows d b w i w" "registered (cy_tenant d) b i w" by (auto simp: knows_def since_def)
  with assms m have "answered d b w i pid w'" by (blast dest: tripleD_ok)
  with w show "answered d b w0 i pid w'"
    by (auto simp: answered_def knows_def since_def intro: grows_trans)
next
  fix w e w'
  assume w: "knows d b w0 i w" and m: "m w = (Inl e, w')"
  then have "knows d b w i w" "registered (cy_tenant d) b i w" by (auto simp: knows_def since_def)
  with assms m have "since d b w w'" by (blast dest: tripleD_err)
  with w show "since d b w0 w'" by (auto simp: knows_def since_def intro: grows_trans)
qed

lemma executeCreate_triple:
  assumes rely: "\<And>p. sync_rely d b (env p)" and api: "provider_rely d b api"
    and json: "\<And>i. cy_json d (S_reference i) = S_reference i"
    and key: "customer_key d (bl_type b) (bl_id b) = Inr key"
  shows "triple (knows d b w0 (cu_id (lo_customer l)))
    (executeCreateIdempotently d ids key b (runCreate d api env ids request key (Some l)))
    (\<lambda>pid. answered d b w0 (cu_id (lo_customer l)) pid) (\<lambda>_. since d b w0)"
proof (cases "cy_idempotency d")
  case None
  then show ?thesis by (simp add: executeCreateIdempotently_def runCreate_triple [OF rely api])
next
  case (Some config)
  let ?i = "cu_id (lo_customer l)" and ?m = "runCreate d api env ids request key (Some l)"
  show ?thesis
  proof (rule triple_from)
    fix w1 :: "('a, 'b) sync_db_scheme"
    assume reg: "registered (cy_tenant d) b ?i w1"
    have run: "triple (knows d b w1 ?i) ?m (\<lambda>pid. answered d b w1 ?i pid) (\<lambda>_. knows d b w1 ?i)"
      using runCreate_triple [OF rely api, where ?w0.0 = w1] unfolding since_registered [OF reg] .
    have "triple (knows d b w1 ?i) (execute (knex_idem_store (cy_json d)) idem_now config (create_execution d ids key b ?m))
        (\<lambda>v w. \<exists>pid. v = Some (S_reference pid) \<and> answered d b w1 ?i pid w) (\<lambda>_. since d b w1)"
      using execute_triple [OF create_carries [OF json key run]] unfolding since_registered [OF reg] .
    then show "triple (knows d b w1 ?i) (executeCreateIdempotently d ids key b ?m) (\<lambda>pid. answered d b w1 ?i pid) (\<lambda>_. since d b w1)"
      unfolding executeCreateIdempotently_def Some option.case
      by (rule triple_andThen) (auto simp: triple_def)
  qed
qed

lemma createProvider_triple:
  assumes rely: "\<And>p. sync_rely d b (env p)" and api: "provider_rely d b api"
    and json: "\<And>i. cy_json d (S_reference i) = S_reference i"
    and c: "of_billable d b (lo_customer l)"
  shows "triple (seen d b w0 (cu_id (lo_customer l)) (lo_binding l)) (createProviderCustomer d api env ids b (Some l))
    (\<lambda>pid. answered d b w0 (cu_id (lo_customer l)) pid) (\<lambda>_. since d b w0)"
proof -
  let ?i = "cu_id (lo_customer l)"
  have failed: "triple (since d b w0) (createFailed d env ids l e) (\<lambda>pid. answered d b w0 ?i pid) (\<lambda>_. since d b w0)" for e
    unfolding createFailed_def
    by (rule quiet_then [OF relied(1) [OF rely]], assumption, rule quiet_then [OF preserves_readState], assumption,
        rule quiet_then [OF preserves_if [OF aside_preserves [OF aside_lifecycle(4) steady_facts(1)]
          preserves_if [OF aside_preserves [OF aside_lifecycle(4) steady_facts(1)]
            aside_preserves [OF aside_lifecycle(3) steady_facts(1)]]]], assumption)
      (simp add: triple_def)
  have same: "customer_key d (cu_billableType (lo_customer l)) (cu_billableId (lo_customer l)) = customer_key d (bl_type b) (bl_id b)"
    using c by (simp add: of_billable_def same_billable_def)
  have create: "triple (knows d b w0 ?i) (andThen (liftResult (customer_key d (bl_type b) (bl_id b))) (\<lambda>key.
      andThen (rememberRemote None) (\<lambda>_. catching (executeCreateIdempotently d ids key b
          (runCreate d api env ids request key (Some l))) (\<lambda>e. createFailed d env ids l e))))
      (\<lambda>pid. answered d b w0 ?i pid) (\<lambda>_. since d b w0)" for request
  proof (cases "customer_key d (bl_type b) (bl_id b)")
    case (Inr key)
    have "triple (knows d b w0 ?i) (andThen (rememberRemote None) (\<lambda>_. catching (executeCreateIdempotently d ids key b
          (runCreate d api env ids request key (Some l))) (\<lambda>e. createFailed d env ids l e)))
        (\<lambda>pid. answered d b w0 ?i pid) (\<lambda>_. since d b w0)"
      by (rule quiet_then [OF aside_preserves [OF aside_tables(5) steady_facts(2)]], erule weaker,
          rule triple_catching [OF executeCreate_triple [OF rely api json Inr] failed])
    with Inr show ?thesis by (simp add: triple_def andThen_liftResult)
  qed (simp add: triple_def andThen_liftResult weaker)
  show ?thesis
    unfolding createProviderCustomer_def option.case same assertDurableCustomerCreate_def
    by (rule triple_pre [OF _ seen_weak(2)], rule quiet_then [OF preserves_guardE], erule weaker,
        rule quiet_then [OF preserves_liftResult], erule weaker, rule create)
qed

lemma await_triple:
  assumes rely: "\<And>p. sync_rely d b (env p)"
  shows "triple (knows d b w0 i) (awaitCustomerProviderSync d env i lease n)
    (\<lambda>r w. since d b w0 w \<and> (\<forall>pid. r = Some pid \<longrightarrow> answered d b w0 i pid w)) (\<lambda>_. since d b w0)"
    (is "triple _ _ ?Q ?E")
proof (induction n)
  case (Suc n)
  have look: "triple (knows d b w0 i) (andThen (interference (env [0])) (\<lambda>_. andThen (findBinding i (cy_providerName d) (cy_tenant d))
      (\<lambda>x. ret (if q then map_option pb_providerCustomerId x else None)))) ?Q ?E" for q
    by (rule quiet_then [OF relied(2) [OF rely]], erule weaker, rule triple_andThen [OF findBinding_seen(1)])
      (auto simp: triple_def seen_weak intro: seen_answered)
  show ?case
    unfolding awaitCustomerProviderSync.simps findSync_def
    by (rule quiet_then [OF preserves_readState], erule weaker, rule triple_if [OF look],
        rule quiet_then [OF preserves_readState], erule weaker, rule triple_if)
      (auto simp: triple_def [of _ "ret y" for y] weaker intro!: quiet_then [OF relied(2) [OF rely]] Suc)
qed (simp add: triple_def weaker)

lemma syncAcquired_triple:
  assumes "\<And>p. sync_rely d b (env p)" and "provider_rely d b api"
    and "\<And>i. cy_json d (S_reference i) = S_reference i" and "of_billable d b (lo_customer l)"
  shows "triple (seen d b w0 (cu_id (lo_customer l)) (lo_binding l)) (syncAcquired d api env ids b l)
    (\<lambda>pid. answered d b w0 (cu_id (lo_customer l)) pid) (\<lambda>_. since d b w0)"
  unfolding syncAcquired_def
  by (intro triple_if reconcileCustomer_triple updateProvider_triple createProvider_triple assms)

lemma awaitSync_triple:
  assumes rely: "\<And>p. sync_rely d b (env p)"
  shows "triple (seen d b w0 i x) (awaitSync d env rounds i a)
    (\<lambda>r w. since d b w0 w \<and> (\<forall>pid. r = Some pid \<longrightarrow> (\<exists>i. answered d b w0 i pid w))) (\<lambda>_. since d b w0)"
    (is "triple _ _ ?Q _")
proof (rule triple_pre [OF _ seen_weak(2)], unfold awaitSync_def, rule triple_option)
  fix lease
  have "triple (knows d b w0 i) (awaitCustomerProviderSync d env i lease rounds) ?Q (\<lambda>_. since d b w0)"
    by (rule triple_weaken [OF await_triple [OF rely]]) auto
  then show "triple (knows d b w0 i) (if \<not> (cy_hasStorage d \<and> cy_hasSyncs d) then ret None
      else awaitCustomerProviderSync d env i lease rounds) ?Q (\<lambda>_. since d b w0)"
    by (auto intro!: triple_if simp: triple_def [of _ "ret y" for y] weaker)
qed (auto simp: triple_def weaker)

lemma syncRound_triple:
  assumes rely: "\<And>p. sync_rely d b (env p)" and api: "\<And>a. cy_api d = Some a \<Longrightarrow> provider_rely d b a"
    and json: "\<And>i. cy_json d (S_reference i) = S_reference i" and storage: "cy_hasStorage d"
  shows "triple (since d b w0) (syncRound d env ids rounds b)
    (\<lambda>r w. since d b w0 w \<and> (\<forall>pid. r = Some pid \<longrightarrow> (\<exists>i. answered d b w0 i pid w))) (\<lambda>_. since d b w0)"
    (is "triple _ _ ?Q ?E")
proof (cases "\<exists>a. cy_api d = Some a \<and> cy_hasCustomers d")
  case True
  then obtain a where a: "cy_api d = Some a" "cy_hasCustomers d" by blast
  have act: "triple (seen d b w0 (cu_id (lo_customer l)) (lo_binding l)) (syncPrepared d a env ids rounds b (Some l)) ?Q ?E"
    if "of_billable d b (lo_customer l)" for l
    unfolding syncPrepared_def option.case
    by (intro triple_if awaitSync_triple rely triple_andThen [OF syncAcquired_triple [OF rely api [OF a(1)] json that]])
      (auto simp: triple_def weaker)
  have "triple (since d b w0) (andThen (prepareLocalCustomer d env ids rounds b) (syncPrepared d a env ids rounds b)) ?Q ?E"
  proof (rule triple_andThen [OF prepare_triple [OF rely storage]])
    show "triple (\<lambda>w. \<exists>l. r = Some l \<and> of_billable d b (lo_customer l) \<and> seen d b w0 (cu_id (lo_customer l)) (lo_binding l) w)
        (syncPrepared d a env ids rounds b r) ?Q ?E" for r
      using act by (cases "\<exists>l. r = Some l \<and> of_billable d b (lo_customer l)") (auto intro: triple_pre, auto simp: triple_def)
  qed
  with a show ?thesis by (simp add: syncRound_def requireCapability_def)
next
  case False
  then show ?thesis by (auto simp: syncRound_def requireCapability_def triple_def split: option.split)
qed

lemma syncCustomer_triple:
  assumes rely: "\<And>p. sync_rely d b (env p)" and api: "\<And>a. cy_api d = Some a \<Longrightarrow> provider_rely d b a"
    and json: "\<And>i. cy_json d (S_reference i) = S_reference i" and storage: "cy_hasStorage d"
  shows "triple (since d b w0) (syncCustomer d env ids rounds b n) (\<lambda>pid w. \<exists>i. answered d b w0 i pid w) (\<lambda>_. since d b w0)"
proof (induction n)
  case (Suc n)
  show ?case
    unfolding syncCustomer.simps
    by (rule triple_andThen [OF syncRound_triple [OF rely api json storage]], assumption, rule triple_option)
      (auto simp: triple_def [of _ "ret y" for y] intro: triple_pre [OF Suc])
qed (simp add: triple_def)

text \<open>A client of the billable: it has the storage, and its provider keeps to what is relied on.\<close>

definition sync_client :: "('d, 'x) sync_db_scheme sync_deps \<Rightarrow> billable_input \<Rightarrow> (nat list \<Rightarrow> ('d, 'x) sync_db_scheme \<Rightarrow> ('d, 'x) sync_db_scheme) \<Rightarrow> bool" where
  "sync_client d b env \<longleftrightarrow> cy_hasStorage d \<and> (\<forall>p. sync_rely d b (env p))
     \<and> (\<forall>api. cy_api d = Some api \<longrightarrow> provider_rely d b api) \<and> (\<forall>i. cy_json d (S_reference i) = S_reference i)"

lemma client_run:
  assumes "sync_client d b env" and "sync_ok d b w" and "syncCustomer d env ids rounds b n w = (Inr pid, w')"
  shows "\<exists>i. answered d b w i pid w'"
proof -
  have "triple (since d b w) (syncCustomer d env ids rounds b n) (\<lambda>pid v. \<exists>i. answered d b w i pid v) (\<lambda>_. since d b w)"
    using assms(1) by (intro syncCustomer_triple) (auto simp: sync_client_def)
  moreover have "since d b w w" using assms(2) by (simp add: since_def)
  ultimately show ?thesis using assms(3) by (rule tripleD_ok)
qed

text \<open>
  C9. All clients get the same customer of the provider. When the synchronisation answers a
  provider's customer, the billable has one row in the customers table and that row's only binding
  to the provider is the answer, even when other clients synchronised the same billable meanwhile,
  a creation was lost, repaired, replayed from its idempotency record or done twice. So every later
  synchronisation, by any client, that answers at all answers the same. Other clients and the
  provider may do anything that keeps the unique indexes and removes no binding.
\<close>

theorem customer_sync_agrees:
  assumes client: "sync_client d b env" and ok: "sync_ok d b w"
    and run: "syncCustomer d env ids rounds b n w = (Inr pid, w1)"
    and client': "sync_client d' b env'" "cy_tenant d' = cy_tenant d" "cy_providerName d' = cy_providerName d"
    and later: "sync_ok d b w2" "grows w1 w2"
    and run': "syncCustomer d' env' ids' rounds' b n' w2 = (Inr pid', w3)"
  shows "pid' = pid \<and> (\<exists>i. registered (cy_tenant d) b i w3 \<and> bound (cy_providerName d) i pid w3
    \<and> (\<forall>x. bound (cy_providerName d) i x w3 \<longrightarrow> x = pid))"
proof -
  have same: "sync_ok d' b v = sync_ok d b v" for v :: "('a, 'b) sync_db_scheme"
    using client'(2,3) by (simp add: sync_ok_def customer_key_def)
  obtain i where i: "answered d b w i pid w1" using client_run [OF client ok run] by blast
  obtain j where j: "answered d' b w2 j pid' w3" using client_run [OF client'(1) _ run'] later(1) same by blast
  then have ok3: "sync_ok d b w3" and grown: "grows w1 w3"
    using same later(2) by (auto simp: answered_def knows_def since_def intro: grows_trans)
  have i3: "registered (cy_tenant d) b i w3" "bound (cy_providerName d) i pid w3"
    using i grows_keeps [OF grown] by (auto simp: answered_def knows_def)
  moreover have "registered (cy_tenant d) b j w3" "bound (cy_providerName d) j pid' w3"
    using j client'(2,3) by (auto simp: answered_def knows_def)
  ultimately have "pid' = pid" using registered_unique [OF ok3] bound_unique [OF ok3] by blast
  with i3 bound_unique [OF ok3] show ?thesis by blast
qed

section \<open>An uncertain creation waits for an operator\<close>

lemma find_map_same:
  "(\<And>x. P (g x) = P x) \<Longrightarrow> find P (map g xs) = map_option g (find P xs)"
  by (induction xs) auto

lemma find_snoc: "find P xs = None \<Longrightarrow> find P (xs @ [x]) = (if P x then Some x else None)"
  by (induction xs) (auto split: if_splits)

lemma beginAttempt_acquires:
  fixes w :: "('d, 'x) customer_db_scheme"
  assumes free: "find (attempt_key a) (ct_syncs w) = None
      \<or> (\<exists>s. find (attempt_key a) (ct_syncs w) = Some s \<and> ss_status s = Sync_failed)"
  shows "\<exists>c syncs. beginAttempt (\<lambda>_ w. w) newIds a (Suc n) w = (Inr c, w\<lparr>ct_syncs := syncs\<rparr>) \<and> sc_acquired c
    \<and> sc_previous c = find (attempt_key a) (ct_syncs w) \<and> find (attempt_key a) syncs = Some (sc_state c)
    \<and> ss_attemptOwnerId (sc_state c) = Some (bd_attemptOwnerId a)"
proof (cases "find (attempt_key a) (ct_syncs w)")
  case None
  let ?r = "newAttemptRow (newIds n) a (idem_now w)"
  have "attempt_key a ?r" by (simp add: attempt_key_def sync_key_def newAttemptRow_def)
  moreover note find_snoc [OF None, of ?r]
  moreover have "\<not> list_ex (attempt_key a) (ct_syncs w)" using None by (auto simp: find_None_iff list_ex_iff)
  ultimately show ?thesis
    using None by (intro exI [of _ "\<lparr>sc_state = ?r, sc_acquired = True, sc_previous = None\<rparr>"] exI [of _ "ct_syncs w @ [?r]"])
      (simp add: beginAttempt_step tryAttempt_def Let_def insertSync_def andThen_def catching_def attempt_key_def
        newAttemptRow_def del: beginAttempt.simps)
next
  case (Some s)
  with free have failed: "ss_status s = Sync_failed" by simp
  have s: "s \<in> set (ct_syncs w)" "attempt_key a s" using find_SomeD [OF Some] by auto
  let ?n = "ss_attempts s + 1"
  let ?g = "\<lambda>x. if unchanged_attempt a s Sync_failed x then claimed_attempt a ?n (idem_now w) x else x"
  have "attempt_key a (?g x) = attempt_key a x" for x
    by (simp add: attempt_key_def sync_key_def claimed_attempt_def)
  then have found: "find (attempt_key a) (map ?g (ct_syncs w)) = Some (?g s)"
    by (simp add: find_map_same Some)
  have "unchanged_attempt a s Sync_failed s" using s failed by (simp add: unchanged_attempt_def)
  then have "list_ex (unchanged_attempt a s Sync_failed) (ct_syncs w)" "?g s = claimed_attempt a ?n (idem_now w) s"
    using s(1) by (auto simp: list_ex_iff)
  with found failed Some show ?thesis
    by (intro exI [of _ "\<lparr>sc_state = ?g s, sc_acquired = True, sc_previous = Some s\<rparr>"] exI [of _ "map ?g (ct_syncs w)"])
      (simp add: beginAttempt_step tryAttempt_def Let_def requiresManualReconciliation_def hasActiveLease_def
        updateSyncsWhere_def andThen_def claimed_attempt_def del: beginAttempt.simps)
qed

lemma completeAttempt_owned:
  fixes w :: "('d, 'x) customer_db_scheme"
  assumes "find (sync_key (yr_tenant r) (yr_customerId r) (yr_provider r)) (ct_syncs w) = Some s"
    and "ss_attempts s = n" and "ss_attemptOwnerId s = Some owner"
  shows "\<exists>syncs. completeAttempt r n owner w = (Inr (Some (completed_attempt r (idem_now w) s)), w\<lparr>ct_syncs := syncs\<rparr>)
    \<and> find (sync_key (yr_tenant r) (yr_customerId r) (yr_provider r)) syncs = Some (completed_attempt r (idem_now w) s)"
proof -
  let ?key = "sync_key (yr_tenant r) (yr_customerId r) (yr_provider r)"
  let ?g = "\<lambda>x. if expected_attempt r n owner x then completed_attempt r (idem_now w) x else x"
  have "?key (?g x) = ?key x" for x by (simp add: sync_key_def completed_attempt_def)
  then have found: "find ?key (map ?g (ct_syncs w)) = Some (?g s)" by (simp add: find_map_same assms(1))
  have "expected_attempt r n owner s" using find_SomeD [OF assms(1)] assms(2,3) by (simp add: expected_attempt_def)
  then have "list_ex (expected_attempt r n owner) (ct_syncs w)" "?g s = completed_attempt r (idem_now w) s"
    using find_SomeD [OF assms(1)] by (auto simp: list_ex_iff)
  with found show ?thesis
    by (intro exI [of _ "map ?g (ct_syncs w)"]) (simp add: completeAttempt_def updateSyncsWhere_def findSync_def andThen_def)
qed

text \<open>The customer waits: it has no binding, and its synchronisation is one an operator has to settle.\<close>

definition unresolved :: "'w sync_deps \<Rightarrow> billable_input \<Rightarrow> ('d, 'x) customer_db_scheme \<Rightarrow> bool" where
  "unresolved d b w \<longleftrightarrow> (case find (same_billable (bl_type b) (bl_id b) (cy_tenant d)) (ct_customers w) of
      None \<Rightarrow> False
    | Some c \<Rightarrow> (\<forall>x \<in> set (ct_bindings w). \<not> (pb_customerId x = cu_id c \<and> pb_provider x = cy_providerName d))
        \<and> (case find (sync_key (cy_tenant d) (cu_id c) (cy_providerName d)) (ct_syncs w) of
            None \<Rightarrow> False | Some s \<Rightarrow> requiresManualReconciliation s))"

lemma findBinding_none:
  assumes "\<forall>x \<in> set (ct_bindings w). \<not> (pb_customerId x = i \<and> pb_provider x = p)"
  shows "findBinding i p t w = (Inr None, w)"
  using assms by (auto simp: findBinding_def find_None_iff)

lemma unresolved_refused:
  assumes "unresolved d b w" and "cy_hasStorage d" and "cy_hasSyncs d" and "cy_hasCustomers d" and "cy_api d = Some api"
  shows "syncCustomer d (\<lambda>_ w. w) ids (Suc rounds) b (Suc n) w = (Inl unresolvedCustomer, w)"
proof -
  obtain c s where c: "find (same_billable (bl_type b) (bl_id b) (cy_tenant d)) (ct_customers w) = Some c"
    and none: "\<forall>x \<in> set (ct_bindings w). \<not> (pb_customerId x = cu_id c \<and> pb_provider x = cy_providerName d)"
    and s: "find (sync_key (cy_tenant d) (cu_id c) (cy_providerName d)) (ct_syncs w) = Some s" "requiresManualReconciliation s"
    using assms(1) by (auto simp: unresolved_def split: option.splits)
  have ensure: "ensureCustomer True schema (cy_tenant d) env i b w = (Inr c, w)" for schema env i
    by (simp add: ensureCustomer_def findByBillable_def c)
  have beg: "beginSync d (\<lambda>_ w. w) ids' (Suc rounds) (cu_id c) False q w =
      (Inr \<lparr>at_id = yi_attempt ids', at_number = ss_attempts s, at_acquired = False,
        at_leaseExpiresAt = ss_leaseExpiresAt s, at_previous = Some s\<rparr>, w)" for ids' q
    using assms(2,3) s by (simp add: beginSync_def beginAttempt_step attempt_key_def tryAttempt_def Let_def andThen_def
        del: beginAttempt.simps)
  note none' = findBinding_none [OF none, of "cy_tenant d"]
  have "prepareLocalCustomer d (\<lambda>_ w. w) ids' (Suc rounds) b w = (Inl unresolvedCustomer, w)" for ids'
    using s(2) assms(2) by (simp add: prepareLocalCustomer_def andThen_def [of "ensureCustomer a1 a2 a3 a4 a5 a6" for a1 a2 a3 a4 a5 a6]
        ensure interference_andThen andThen_def [of "findBinding a1 a2 a3" for a1 a2 a3] none'
        andThen_def [of "beginSync a1 a2 a3 a4 a5 a6 a7" for a1 a2 a3 a4 a5 a6 a7] beg Let_def
        requiresManualReconciliation_def truthy_def del: beginAttempt.simps)
  then have "syncRound d (\<lambda>_ w. w) ids' (Suc rounds) b w = (Inl unresolvedCustomer, w)" for ids'
    using assms(4,5) by (simp add: syncRound_def requireCapability_def andThen_def)
  then show ?thesis by (simp add: andThen_def)
qed

lemma runCreate_fails:
  assumes "\<And>r c k v. api_create api r c k v = (Inl e, v)"
  shows "runCreate d api env ids request key l v = (Inl e, v)"
  using assms by (simp add: runCreate_def andThen_def)

lemma executeCreate_fails:
  fixes w :: "('d, 'x) sync_db_scheme"
  assumes fails: "\<And>r c k v. api_create api r c k v = (Inl e, v)"
    and fresh: "cy_idempotency d = None \<or> knex_row w (''customer:'' @ key) (cy_tenant d) = None"
  shows "\<exists>w'. executeCreateIdempotently d ids key b (runCreate d api env ids request key l) w = (Inl e, w')
    \<and> ct_customers w' = ct_customers w \<and> ct_bindings w' = ct_bindings w \<and> ct_syncs w' = ct_syncs w
    \<and> sy_remote w' = sy_remote w"
proof (cases "cy_idempotency d")
  case None
  with runCreate_fails [of api, OF fails] show ?thesis by (simp add: executeCreateIdempotently_def)
next
  case (Some config)
  let ?m = "runCreate d api env ids request key l" and ?ex = "create_execution d ids key b (runCreate d api env ids request key l)"
  let ?P = "\<lambda>v :: ('d, 'x) sync_db_scheme. ct_customers v = ct_customers w \<and> ct_bindings v = ct_bindings w
    \<and> ct_syncs v = ct_syncs w \<and> sy_remote v = sy_remote w"
  have run: "ex_run ?ex v = (Inl e, v)" for v
    using runCreate_fails [of api, OF fails] by (simp add: create_execution_def andThen_def)
  have rec: "record_of knex_row v ?ex = knex_row v (''customer:'' @ key) (cy_tenant d)" for v :: "('d, 'x) sync_db_scheme"
    by (simp add: record_of_def create_execution_def scopedKey_def or_else_def)
  have "leads ?P (execute (knex_idem_store (cy_json d)) idem_now config ?ex) ?P"
  proof (rule execute_leads)
    show "leads ?P (ex_run ?ex) ?P" by (simp add: leads_def run)
    show "\<And>f v. ex_revive ?ex = Some f \<Longrightarrow> preserves ?P (f v)" by (simp add: create_execution_def)
  qed (simp_all add: row_blind_def put_row_def)
  moreover obtain u w' r where "execute (knex_idem_store (cy_json d)) idem_now config ?ex w = (fst (ex_run ?ex u), w')"
  proof -
    have "ex_legacyStorageKeys ?ex = []" by (simp add: create_execution_def)
    from knex_idem.execute_fresh [of w ?ex "cy_json d" config, OF _ this] fresh Some run rec that show ?thesis by auto
  qed
  ultimately show ?thesis
    using run Some by (auto simp: executeCreateIdempotently_def andThen_def leads_def dest: spec [of _ w])
qed

text \<open>
  C36. An uncertain creation is not repeated. Let a provider without idempotency keys of its own
  fail to create a customer in a way that leaves open whether it was created: any foreign error, or
  a provider error or time-out. The run throws that error and leaves the synchronisation for
  an operator; from then on every synchronisation of the billable ends in \<open>reconciliation
  required\<close>, changes nothing, and does not call the provider, whatever its operations would do.
\<close>

theorem uncertain_create_blocks:
  fixes w :: "('d, 'x) sync_db_scheme"
  assumes deps: "cy_hasStorage d" "cy_hasSyncs d" "cy_hasCustomers d" "cy_api d = Some api" "\<not> cy_native d"
    and c: "find (same_billable (bl_type b) (bl_id b) (cy_tenant d)) (ct_customers w) = Some c"
    and none: "\<forall>x \<in> set (ct_bindings w). \<not> (pb_customerId x = cu_id c \<and> pb_provider x = cy_providerName d)"
    and free: "\<forall>s. find (sync_key (cy_tenant d) (cu_id c) (cy_providerName d)) (ct_syncs w) = Some s \<longrightarrow> ss_status s = Sync_failed"
    and key: "customer_key d (bl_type b) (bl_id b) = Inr key"
    and fresh: "cy_idempotency d = None \<or> knex_row w (''customer:'' @ key) (cy_tenant d) = None"
    and fails: "\<And>r c k v. api_create api r c k v = (Inl e, v)"
    and uncertain: "requiresManualCreateReconciliation False e"
  shows "\<exists>w'. syncCustomer d (\<lambda>_ v. v) ids (Suc rounds) b (Suc n) w = (Inl e, w')
    \<and> (\<forall>d' api' ids' rounds' n'. cy_tenant d' = cy_tenant d \<and> cy_providerName d' = cy_providerName d \<and> cy_hasStorage d'
        \<and> cy_hasSyncs d' \<and> cy_hasCustomers d' \<and> cy_api d' = Some api'
        \<longrightarrow> syncCustomer d' (\<lambda>_ v. v) ids' (Suc rounds') b (Suc n') w' = (Inl unresolvedCustomer, w'))"
proof -
  let ?ids = "ids n" and ?t = "cy_tenant d" and ?p = "cy_providerName d" and ?i = "cu_id c"
  let ?a = "\<lparr>bd_tenant = ?t, bd_customerId = ?i, bd_provider = ?p, bd_lastAttemptedAt = idem_now w,
     bd_attemptOwnerId = yi_attempt ?ids, bd_leaseExpiresAt = Some (idem_now w + CUSTOMER_PROVIDER_SYNC_LEASE_MS),
     bd_allowReconciliationRepair = False, bd_allowExpiredLeaseReclaim = False\<rparr>"
  have ensure: "ensureCustomer True schema ?t env i b w = (Inr c, w)" for schema env i
    by (simp add: ensureCustomer_def findByBillable_def c)
  have key_a: "attempt_key ?a = sync_key ?t ?i ?p" by (rule ext) (simp add: attempt_key_def)
  obtain cl syncs where beg: "beginAttempt (\<lambda>_ w. w) (yi_states ?ids) ?a (Suc rounds) w = (Inr cl, w\<lparr>ct_syncs := syncs\<rparr>)"
      and cl: "sc_acquired cl" "sc_previous cl = find (sync_key ?t ?i ?p) (ct_syncs w)"
        "find (sync_key ?t ?i ?p) syncs = Some (sc_state cl)" "ss_attemptOwnerId (sc_state cl) = Some (yi_attempt ?ids)"
    using beginAttempt_acquires [of ?a w "yi_states ?ids" rounds] free unfolding key_a
    by (cases "find (sync_key ?t ?i ?p) (ct_syncs w)") auto
  let ?w1 = "w\<lparr>ct_syncs := syncs\<rparr>"
  let ?at = "\<lparr>at_id = yi_attempt ?ids, at_number = ss_attempts (sc_state cl), at_acquired = True,
      at_leaseExpiresAt = ss_leaseExpiresAt (sc_state cl), at_previous = sc_previous cl\<rparr>"
  let ?l = "\<lparr>lo_customer = c, lo_previous = sc_previous cl, lo_attempt = ?at, lo_binding = None\<rparr>"
  have prevc: "sc_previous cl = None \<or> (\<exists>s. sc_previous cl = Some s \<and> ss_status s = Sync_failed)"
    using free cl(2) by (cases "sc_previous cl") auto
  have prev: "map_option ss_status (sc_previous cl) \<noteq> Some Sync_reconciliation_required"
      "map_option ss_status (sc_previous cl) \<noteq> Some Sync_synchronized"
    using free cl(2) by auto
  have sync: "beginSync d (\<lambda>k v. v) ?ids (Suc rounds) ?i False False w = (Inr ?at, ?w1)"
    using deps(1,2) cl(1) beg by (simp add: beginSync_def andThen_def del: beginAttempt.simps)
  have prepared: "prepareLocalCustomer d (\<lambda>_ v. v) ?ids (Suc rounds) b w = (Inr (Some ?l), ?w1)"
    using deps(1,5) prevc
    by (elim disjE exE conjE) (simp_all add: prepareLocalCustomer_def andThen_def [of "ensureCustomer a1 a2 a3 a4 a5 a6" for a1 a2 a3 a4 a5 a6]
        ensure interference_andThen andThen_def [of "findBinding a1 a2 a3" for a1 a2 a3] findBinding_none [OF none]
        andThen_def [of "beginSync a1 a2 a3 a4 a5 a6 a7" for a1 a2 a3 a4 a5 a6 a7] sync Let_def del: beginAttempt.simps)
  have of_c: "cu_billableType c = bl_type b" "cu_billableId c = bl_id b"
    using find_SomeD [OF c] by (simp_all add: same_billable_def)
  let ?r = "\<lparr>yq_email = cu_email c, yq_name = cu_name c, yq_billableType = bl_type b, yq_billableId = bl_id b\<rparr>"
  let ?w2 = "?w1\<lparr>sy_remote := None\<rparr>"
  obtain w3 where w3: "executeCreateIdempotently d ?ids key b (runCreate d api (\<lambda>p v. v) ?ids ?r key (Some ?l)) ?w2 = (Inl e, w3)"
      "ct_customers w3 = ct_customers w" "ct_bindings w3 = ct_bindings w" "ct_syncs w3 = syncs" "sy_remote w3 = None"
    using executeCreate_fails [of api e d ?w2 key ?ids b "\<lambda>p v. v" ?r "Some ?l"] fails fresh by (auto simp: knex_row_def)
  let ?done = "\<lparr>yr_tenant = ?t, yr_customerId = ?i, yr_provider = ?p, yr_status = Sync_reconciliation_required,
     yr_providerCustomerId = None, yr_lastAttemptedAt = idem_now w3, yr_synchronizedAt = None,
     yr_failureCode = Some (errorCode d e ''CUSTOMER_PROVIDER_RECONCILIATION_REQUIRED'')\<rparr>"
  obtain syncs' where completed: "completeAttempt ?done (ss_attempts (sc_state cl)) (yi_attempt ?ids) w3
      = (Inr (Some (completed_attempt ?done (idem_now w3) (sc_state cl))), w3\<lparr>ct_syncs := syncs'\<rparr>)"
    "find (sync_key ?t ?i ?p) syncs' = Some (completed_attempt ?done (idem_now w3) (sc_state cl))"
    using completeAttempt_owned [of ?done w3 "sc_state cl"] cl(3,4) w3(4) by auto
  let ?w' = "w3\<lparr>ct_syncs := syncs'\<rparr>"
  have stored: "reconciliationRequired d ?ids ?i None ?at e None w3
      = (Inr (Some (completed_attempt ?done (idem_now w3) (sc_state cl))), ?w')"
    using deps(1,2) completed(1) by (simp add: reconciliationRequired_def Let_def truthy_def recordAttempt_def)
  have failed: "createFailed d (\<lambda>p v. v) ?ids ?l e w3 = (Inl e, ?w')"
  proof -
    have "(if truthy (sy_remote w3) then x else if requiresManualCreateReconciliation (cy_native d) e then y else z) = y" for x y z :: "(('d, 'x) sync_db_scheme, sync_state option) io"
      using deps(5) uncertain w3(5) by (simp add: truthy_def)
    then show ?thesis
      using stored by (simp add: createFailed_def interference_andThen andThen_readState)
        (simp add: andThen_def)
  qed
  have "createProviderCustomer d api (\<lambda>p v. v) ?ids b (Some ?l) ?w1 = (Inl e, ?w')"
    using deps key of_c w3(1) failed
    by (simp add: createProviderCustomer_def assertDurableCustomerCreate_def andThen_guardE andThen_liftResult customer_request_of_def
        rememberRemote_def andThen_def [of "\<lambda>w. (Inr (), w\<lparr>sy_remote := i\<rparr>)" for i] catching_def)
  then have "syncRound d (\<lambda>_ v. v) ?ids (Suc rounds) b w = (Inl e, ?w')"
    using deps prepared prev by (auto simp: syncRound_def requireCapability_def andThen_def syncPrepared_def syncAcquired_def)
  then have "syncCustomer d (\<lambda>_ v. v) ids (Suc rounds) b (Suc n) w = (Inl e, ?w')" by (simp add: andThen_def)
  moreover have "syncCustomer d' (\<lambda>_ v. v) ids' (Suc rounds') b (Suc n') ?w' = (Inl unresolvedCustomer, ?w')"
    if "cy_tenant d' = ?t" "cy_providerName d' = ?p" "cy_hasStorage d'" "cy_hasSyncs d'" "cy_hasCustomers d'"
      "cy_api d' = Some api'" for d' api' ids' rounds' n'
  proof (rule unresolved_refused [OF _ that(3-6)])
    show "unresolved d' b ?w'" using that(1,2) c none completed(2) w3(2,3)
      by (simp add: unresolved_def completed_attempt_def requiresManualReconciliation_def)
  qed
  ultimately show ?thesis by blast
qed

section \<open>Examples\<close>

definition example_customers :: "customer list \<Rightarrow> sync_state list \<Rightarrow> unit sync_db" where
  "example_customers customers syncs = \<lparr>idem_rows = (\<lambda>_. None), idem_now = 100, payments = [], refunds = [],
     hk_subscriptions = [], hk_items = [], hk_bindings = [], hk_events = [], hk_audit = [], hk_outbox = [],
     ct_customers = customers, ct_bindings = [], ct_syncs = syncs, sy_remote = None\<rparr>"

definition example_billable :: billable_input where
  "example_billable = \<lparr>bl_type = ''user'', bl_id = ''7'', bl_email = Some ''ana@example.com'', bl_name = Some ''Ana''\<rparr>"

definition example_sync_deps :: "bool \<Rightarrow> unit sync_db customer_api \<Rightarrow> unit sync_db sync_deps" where
  "example_sync_deps native api = \<lparr>cy_tenant = None, cy_providerName = ''paddle'', cy_hasStorage = True, cy_hasSyncs = True,
     cy_schema = Some, cy_hasCustomers = True, cy_api = Some api, cy_native = native,
     cy_idempotency = Some \<lparr>cfg_lockTtl = 30000, cfg_retryFailed = True, cfg_completedTtl = 100000, cfg_failedTtl = 1000\<rparr>,
     cy_json = (\<lambda>x. x), cy_requestHash = (\<lambda>_. ''h''), cy_updateHash = (\<lambda>_. ''h''), cy_digest = (\<lambda>_. ''d''),
     cy_foreignCode = (\<lambda>_. None)\<rparr>"

definition example_sync_ids :: "nat \<Rightarrow> sync_ids" where
  "example_sync_ids n = \<lparr>yi_attempt = ''at'', yi_customer = ''cu_1'', yi_binding = ''bi_1'', yi_states = (\<lambda>_. ''st_1''),
     yi_correlation = ''co'', yi_token = ''tok'', yi_entries = (\<lambda>_. ''e''), yi_orphans = (\<lambda>_. ''o'')\<rparr>"

text \<open>A provider that creates one customer.\<close>

definition example_api :: "unit sync_db customer_api" where
  "example_api = \<lparr>api_create = (\<lambda>_ _ _. ret ''cus_9''), api_update = (\<lambda>_ _ _. ret ())\<rparr>"

lemma example_sync_runs:
  "fst (syncCustomer (example_sync_deps True example_api) (\<lambda>_ w. w) example_sync_ids 1 example_billable 1
     (example_customers [] [])) = Inr ''cus_9''"
  by code_simp

text \<open>A second client whose provider would create another customer is answered the first one.\<close>

definition other_api :: "unit sync_db customer_api" where
  "other_api = \<lparr>api_create = (\<lambda>_ _ _. ret ''cus_10''), api_update = (\<lambda>_ _ _. ret ())\<rparr>"

lemma example_sync_again:
  "fst (syncCustomer (example_sync_deps True other_api) (\<lambda>_ w. w) example_sync_ids 1 example_billable 1
     (snd (syncCustomer (example_sync_deps True example_api) (\<lambda>_ w. w) example_sync_ids 1 example_billable 1
       (example_customers [] [])))) = Inr ''cus_9''"
  by code_simp

lemma example_sync_ok: "sync_ok d b (example_customers [] [])"
  by (simp add: sync_ok_def example_customers_def knex_row_def)

lemma example_client:
  "api \<in> {example_api, other_api} \<Longrightarrow> sync_client (example_sync_deps native api) example_billable (\<lambda>_ w. w)"
  by (auto simp: sync_client_def example_sync_deps_def sync_rely_def provider_rely_def example_api_def other_api_def)

theorem customer_sync_agrees_witness:
  "\<exists>w1 w3. syncCustomer (example_sync_deps True example_api) (\<lambda>_ w. w) example_sync_ids 1 example_billable 1
      (example_customers [] []) = (Inr ''cus_9'', w1)
    \<and> syncCustomer (example_sync_deps True other_api) (\<lambda>_ w. w) example_sync_ids 1 example_billable 1 w1 = (Inr ''cus_9'', w3)
    \<and> (\<exists>i. bound ''paddle'' i ''cus_9'' w3)"
proof -
  let ?d = "example_sync_deps True example_api" and ?d' = "example_sync_deps True other_api" and ?w = "example_customers [] []"
  obtain w1 where w1: "syncCustomer ?d (\<lambda>_ w. w) example_sync_ids 1 example_billable 1 ?w = (Inr ''cus_9'', w1)"
    using example_sync_runs by (metis prod.collapse)
  obtain w3 where w3: "syncCustomer ?d' (\<lambda>_ w. w) example_sync_ids 1 example_billable 1 w1 = (Inr ''cus_9'', w3)"
    using example_sync_again unfolding w1 snd_conv by (metis prod.collapse)
  have clients: "sync_client ?d example_billable (\<lambda>_ w. w)" "sync_client ?d' example_billable (\<lambda>_ w. w)"
    by (simp_all add: example_client)
  have names: "cy_tenant ?d' = cy_tenant ?d" "cy_providerName ?d' = cy_providerName ?d" "cy_providerName ?d = ''paddle''"
    by (simp_all add: example_sync_deps_def)
  obtain i where "answered ?d example_billable ?w i ''cus_9'' w1" using client_run [OF clients(1) example_sync_ok w1] by blast
  then have "sync_ok ?d example_billable w1" by (simp add: answered_def knows_def since_def)
  from customer_sync_agrees [OF clients(1) example_sync_ok w1 clients(2) names(1,2) this grows_refl w3] w1 w3 names(3)
  show ?thesis by auto
qed

definition example_row :: customer where
  "example_row = \<lparr>cu_id = ''cu_1'', cu_tenant = None, cu_billableType = ''user'', cu_billableId = ''7'',
     cu_email = ''ana@example.com'', cu_name = Some ''Ana'', cu_metadata = None, cu_createdAt = 0, cu_updatedAt = 0\<rparr>"

text \<open>A provider whose connection breaks, and then one that would work.\<close>

definition broken_api :: "unit sync_db customer_api" where
  "broken_api = \<lparr>api_create = (\<lambda>_ _ _. throw TypeError), api_update = (\<lambda>_ _ _. throw TypeError)\<rparr>"

lemma example_key: "customer_key (example_sync_deps native api) (bl_type example_billable) (bl_id example_billable)
    = Inr ''customer::paddle:user:7''"
  by code_simp

theorem uncertain_create_blocks_witness:
  "\<exists>w'. syncCustomer (example_sync_deps False broken_api) (\<lambda>_ v. v) example_sync_ids 1 example_billable 1
      (example_customers [example_row] []) = (Inl TypeError, w')
    \<and> syncCustomer (example_sync_deps False example_api) (\<lambda>_ v. v) example_sync_ids 1 example_billable 1 w'
      = (Inl unresolvedCustomer, w')"
proof -
  let ?d = "example_sync_deps False broken_api" and ?w = "example_customers [example_row] []"
  have hyps: "cy_hasStorage ?d" "cy_hasSyncs ?d" "cy_hasCustomers ?d" "cy_api ?d = Some broken_api" "\<not> cy_native ?d"
    "find (same_billable (bl_type example_billable) (bl_id example_billable) (cy_tenant ?d)) (ct_customers ?w) = Some example_row"
    "\<forall>x \<in> set (ct_bindings ?w). \<not> (pb_customerId x = cu_id example_row \<and> pb_provider x = cy_providerName ?d)"
    "\<forall>s. find (sync_key (cy_tenant ?d) (cu_id example_row) (cy_providerName ?d)) (ct_syncs ?w) = Some s \<longrightarrow> ss_status s = Sync_failed"
    by (simp_all add: example_sync_deps_def example_customers_def same_billable_def example_row_def example_billable_def)
  have fresh: "cy_idempotency ?d = None \<or> knex_row ?w (''customer:'' @ ''customer::paddle:user:7'') (cy_tenant ?d) = None"
    by (simp add: knex_row_def example_customers_def)
  have fails: "api_create broken_api r c k v = (Inl TypeError, v)" for r c k v by (simp add: broken_api_def)
  have uncertain: "requiresManualCreateReconciliation False TypeError" by (simp add: requiresManualCreateReconciliation_def)
  from uncertain_create_blocks [OF hyps example_key fresh fails uncertain, of example_sync_ids 0 0]
  obtain w' where w': "syncCustomer ?d (\<lambda>_ v. v) example_sync_ids (Suc 0) example_billable (Suc 0) ?w = (Inl TypeError, w')"
    and later: "\<forall>d' api' ids' rounds' n'. cy_tenant d' = cy_tenant ?d \<and> cy_providerName d' = cy_providerName ?d \<and> cy_hasStorage d'
        \<and> cy_hasSyncs d' \<and> cy_hasCustomers d' \<and> cy_api d' = Some api'
        \<longrightarrow> syncCustomer d' (\<lambda>_ v. v) ids' (Suc rounds') example_billable (Suc n') w' = (Inl unresolvedCustomer, w')"
    by blast
  have "syncCustomer (example_sync_deps False example_api) (\<lambda>_ v. v) example_sync_ids (Suc 0) example_billable (Suc 0) w'
      = (Inl unresolvedCustomer, w')"
    by (rule later [rule_format]) (simp add: example_sync_deps_def)
  with w' show ?thesis unfolding One_nat_def by blast
qed

definition example_begin :: begin_attempt where
  "example_begin = \<lparr>bd_tenant = None, bd_customerId = ''cu_1'', bd_provider = ''paddle'', bd_lastAttemptedAt = 100,
     bd_attemptOwnerId = ''at'', bd_leaseExpiresAt = Some 30100, bd_allowReconciliationRepair = False,
     bd_allowExpiredLeaseReclaim = False\<rparr>"

theorem customer_sync_loops_end_witness:
  "(\<exists>c. fst (beginAttempt (\<lambda>_ w. w) (\<lambda>_. ''st'') example_begin 1 (example_customers [] [])) = Inr c)
   \<and> (\<exists>r. fst (awaitCustomerProviderSync (example_sync_deps True example_api)
        (\<lambda>_ w. w\<lparr>idem_now := idem_now w + 10\<rparr>) ''cu_1'' 30100 3001 (example_customers [] [])) = Inr r)"
  using customer_sync_loops_end [of 0 1 "\<lambda>_ w. w" "\<lambda>_. ''st''" example_begin "example_customers [] []"
      "\<lambda>_ w. w\<lparr>idem_now := idem_now w + 10\<rparr>" 30100 "example_sync_deps True example_api" "''cu_1''"]
  by (simp add: example_customers_def CUSTOMER_PROVIDER_SYNC_LEASE_MS_def)

section \<open>Charging through the synchronisation\<close>

text \<open>A predicate on the payments and refunds alone, which other clients and the provider keep.\<close>

definition money_only :: "(('d, 'x) sync_db_scheme \<Rightarrow> bool) \<Rightarrow> bool" where
  "money_only P \<longleftrightarrow> (\<forall>w w'. payments w' = payments w \<longrightarrow> refunds w' = refunds w \<longrightarrow> P w \<longrightarrow> P w')"

definition kept_by_clients ::
  "(('d, 'x) sync_db_scheme \<Rightarrow> bool) \<Rightarrow> ('d, 'x) sync_db_scheme sync_deps
    \<Rightarrow> (nat list \<Rightarrow> ('d, 'x) sync_db_scheme \<Rightarrow> ('d, 'x) sync_db_scheme) \<Rightarrow> bool" where
  "kept_by_clients P d env \<longleftrightarrow> (\<forall>p. preserves P (interference (env p)))
     \<and> (\<forall>api r c k. cy_api d = Some api \<longrightarrow> preserves P (api_create api r c k))
     \<and> (\<forall>api r c k. cy_api d = Some api \<longrightarrow> preserves P (api_update api r c k))"

lemma money_steps [preserves_rules]:
  assumes "money_only P"
  shows "preserves P (findByBillable ty i t)" "preserves P (createCustomer c)" "preserves P (findBinding i p t)"
    "preserves P (createBinding n i p x)" "preserves P (insertSync s)" "preserves P (updateSyncsWhere Q f)"
    "preserves P (findSync i p t)" "preserves P (on_audit m)" "preserves P (on_outbox m')" "preserves P (rememberRemote r)"
  using assms by (auto simp: money_only_def findByBillable_def createCustomer_def findBinding_def createBinding_def
      insertSync_def updateSyncsWhere_def findSync_def on_audit_def on_outbox_def rememberRemote_def Let_def
      intro!: preservesI split: prod.split)

lemma money_local:
  assumes "money_only P" and "\<And>p. preserves P (interference (env p))"
  shows "preserves P (ensureCustomer storage schema t env i b)" "preserves P (persistBinding q t env n c x)"
  unfolding ensureCustomer_def persistBinding_def Let_def
  by (intro preserves_rules assms)+

lemma money_attempts:
  assumes "money_only P"
  shows "preserves P (tryAttempt a i' found)" "preserves P (completeAttempt r k owner)"
  unfolding tryAttempt_def expirePendingAttempt_def completeAttempt_def Let_def
  by (intro preserves_rules assms)+

lemma money_begin:
  assumes "money_only P" and "\<And>k. preserves P (interference (env k))"
  shows "preserves P (beginAttempt env newIds a n)"
proof (induction n)
  case (Suc n)
  show ?case
    unfolding beginAttempt.simps
    by (intro preserves_andThen preserves_option preserves_ret Suc money_steps(7) money_attempts(1) assms)
qed (simp add: preserves_def)

lemma money_lifecycle:
  assumes "money_only P"
  shows "preserves P (synchronized d ids c x a)" "preserves P (syncFailed d c a e q at)"
    "preserves P (reconciliationRequired d ids c q a e at)"
  unfolding synchronized_def syncFailed_def reconciliationRequired_def recordAttempt_def recordOrphan_def recordCustomer_def Let_def
  by (intro preserves_rules assms money_attempts(2))+

lemma money_await:
  assumes "money_only P" and "\<And>p. preserves P (interference (env p))"
  shows "preserves P (awaitCustomerProviderSync d env c lease n)"
proof (induction n)
  case (Suc n)
  show ?case
    unfolding awaitCustomerProviderSync.simps by (intro preserves_rules Suc assms)
qed (simp add: preserves_def)

lemma money_prepare:
  assumes P: "money_only P" and env: "\<And>p. preserves P (interference (env p))"
  shows "preserves P (prepareLocalCustomer d env ids rounds b)"
  unfolding prepareLocalCustomer_def beginSync_def Let_def
  by (intro preserves_rules P env money_local(1) money_begin)

lemma money_acquired:
  assumes P: "money_only P" and kept: "kept_by_clients P d env" and api: "cy_api d = Some api"
  shows "preserves P (updateProvider d api env ids l)" "preserves P (reconcileCustomer d api env ids l)"
    "preserves P (runCreate d api env ids request key l')" "preserves P (createFailed d env ids l e)"
proof -
  have env: "preserves P (interference (env p))" for p using kept by (simp add: kept_by_clients_def)
  have calls: "preserves P (api_create api r c k)" "preserves P (api_update api r' c k)" for r r' c k
    using kept api by (simp_all add: kept_by_clients_def)
  show update: "preserves P (updateProvider d api env ids l)"
    unfolding updateProvider_def Let_def by (intro preserves_rules money_lifecycle P env calls)
  show "preserves P (reconcileCustomer d api env ids l)"
    unfolding reconcileCustomer_def bindCustomer_def Let_def
    by (intro preserves_rules update money_lifecycle money_local(2) P env)
  show "preserves P (runCreate d api env ids request key l')"
    unfolding runCreate_def bindCustomer_def by (intro preserves_rules calls money_lifecycle money_local(2) P env)
  show "preserves P (createFailed d env ids l e)"
    unfolding createFailed_def by (intro preserves_rules money_lifecycle P env)
qed

lemma money_create:
  assumes P: "money_only P" and kept: "kept_by_clients P d env" and api: "cy_api d = Some api"
  shows "preserves P (createProviderCustomer d api env ids b l)"
proof -
  have blind: "row_blind P" using P by (simp add: row_blind_def money_only_def put_row_def)
  have run: "preserves P (runCreate d api env ids request key l)" for request key by (rule money_acquired(3) [OF assms])
  have idem: "preserves P (execute (knex_idem_store (cy_json d)) idem_now config (create_execution d ids key b
      (runCreate d api env ids request key l)))" for config request key
    unfolding leads_preserves [symmetric]
    by (rule execute_leads [OF blind blind]) (auto simp: create_execution_def leads_preserves intro!: preserves_rules run)
  have "preserves P (executeCreateIdempotently d ids key b (runCreate d api env ids request key l))" for request key
    unfolding executeCreateIdempotently_def
    by (auto intro!: preserves_option preserves_andThen idem run preserves_ret preserves_throw split: stored.split)
  then show ?thesis
    unfolding createProviderCustomer_def assertDurableCustomerCreate_def
    by (intro preserves_rules money_acquired(4) [OF P kept api] P run)
qed

lemma syncCustomer_money:
  assumes P: "money_only P" and kept: "kept_by_clients P d env"
  shows "preserves P (syncCustomer d env ids rounds b n)"
proof -
  have env: "preserves P (interference (env p))" for p using kept by (simp add: kept_by_clients_def)
  have kept': "kept_by_clients P d (\<lambda>p. env (m # p))" for m using kept by (simp add: kept_by_clients_def)
  have round: "preserves P (syncRound d (\<lambda>p. env (m # p)) i rounds b)" for m i
  proof -
    have "preserves P (syncPrepared d api (\<lambda>p. env (m # p)) i rounds b l)" if "cy_api d = Some api" for api l
      unfolding syncPrepared_def awaitSync_def syncAcquired_def
      by (intro preserves_rules money_create money_acquired money_await P kept' that env)
    then show ?thesis
      unfolding syncRound_def requireCapability_def
      by (cases "cy_api d") (auto intro!: money_prepare P env simp: preserves_throw)
  qed
  show ?thesis
  proof (induction n)
    case (Suc n)
    then show ?case by (auto intro!: preserves_rules round)
  qed (simp add: preserves_def)
qed

text \<open>The charge's dependencies with the synchronisation of this theory in their place.\<close>

definition with_customers ::
  "('d, 'x) sync_db_scheme sync_deps \<Rightarrow> (nat list \<Rightarrow> ('d, 'x) sync_db_scheme \<Rightarrow> ('d, 'x) sync_db_scheme)
    \<Rightarrow> (nat \<Rightarrow> sync_ids) \<Rightarrow> nat \<Rightarrow> nat \<Rightarrow> string option \<Rightarrow> string option
    \<Rightarrow> ('d, 'x) sync_db_scheme charge_deps \<Rightarrow> ('d, 'x) sync_db_scheme charge_deps" where
  "with_customers cs env ids rounds n email name d = d\<lparr>
     cd_sync := (\<lambda>b. syncCustomer cs env ids rounds (billable.extend b \<lparr>bl_email = email, bl_name = name\<rparr>) n),
     cd_findByBillable := (\<lambda>ty i t. andThen (findByBillable ty i t) (\<lambda>c. ret (map_option cu_id c)))\<rparr>"

lemma fresh_money: "money_only (fresh_payment i)"
  unfolding money_only_def fresh_payment_def ledger_ok_def by (intro allI impI) (simp only:; blast)

lemma with_customers_sound:
  "sound_charge i (with_customers cs env ids rounds n email name d) = sound_charge i d"
  "sound_authorize i (with_customers cs env ids rounds n email name d) = sound_authorize i d"
  by (simp_all add: sound_charge_def sound_authorize_def with_customers_def)

text \<open>
  C38. Charging composed with the synchronisation of customers. A charge or an authorization that
  first creates or updates the customer at the provider, under attempts, leases, bindings, audit
  entries and events, keeps the ledger of payments and refunds on every path, as long as other
  clients and the provider's operations keep it and do not take the fresh id of the payment.
\<close>

theorem charging_customers_keeps_ledger:
  assumes st: "fresh_payment i w" and clients: "kept_by_clients (fresh_payment i) cs env"
    and charge: "sound_charge i d" and authorize: "sound_authorize i d"
    and audit: "\<And>e. preserves ledger_ok (cd_audit d e)" and emit: "\<And>e. preserves ledger_ok (cd_emit d e)"
  shows "ledger_ok (snd (chargePayment (with_customers cs env ids rounds n email name d) nonce correlation i token input w))
    \<and> ledger_ok (snd (authorizePayment (with_customers cs env ids rounds n email name d) correlation i token request w))"
proof -
  let ?d = "with_customers cs env ids rounds n email name d"
  have sync: "preserves (fresh_payment i) (cd_sync ?d b)" for b
    by (simp add: with_customers_def syncCustomer_money [OF fresh_money clients])
  have customer: "preserves (fresh_payment i) (cd_findByBillable ?d a b t)" for a b t
    by (simp add: with_customers_def preserves_andThen money_steps(1) [OF fresh_money] preserves_ret)
  have rest: "sound_charge i ?d" "sound_authorize i ?d" "preserves ledger_ok (cd_audit ?d e)" "preserves ledger_ok (cd_emit ?d e')" for e e'
    using charge authorize audit emit by (simp_all add: with_customers_sound) (simp_all add: with_customers_def)
  show ?thesis
    using chargePayment_leads [OF sync customer rest(1), of nonce correlation token input]
      authorizePayment_leads [OF sync customer rest(2-4), of correlation token request] st
    unfolding leads_def by blast
qed

text \<open>A new customer is charged: the provider knows them, and the payment is theirs.\<close>

definition example_charges :: "unit sync_db charge_deps" where
  "example_charges = \<lparr>cd_authorizationEnabled = False, cd_tenant = None, cd_providerName = ''paddle'', cd_hasStorage = True,
     cd_idempotency = None, cd_json = (\<lambda>x. x), cd_sync = (\<lambda>_. throw TypeError), cd_findByBillable = (\<lambda>_ _ _. ret None),
     cd_hasCharges = True, cd_charge = Some (\<lambda>r _ _. ret \<lparr>ch_providerPaymentId = cq_providerCustomerId r,
       ch_status = P_succeeded, ch_amount = cq_amount r\<rparr>),
     cd_chargeUnsupported = False, cd_fingerprint = None, cd_isUncertain = None, cd_chargeHash = (\<lambda>_. ''h''),
     cd_hasAuthorize = False, cd_authorize = None, cd_authorizeNative = False, cd_authorizeHash = (\<lambda>_. ''h''),
     cd_audit = (\<lambda>_. ret ()), cd_emit = (\<lambda>_. ret ())\<rparr>"

definition example_composed :: "unit sync_db charge_deps" where
  "example_composed = with_customers (example_sync_deps True example_api) (\<lambda>_ w. w) example_sync_ids 1 1
     (Some ''ana@example.com'') None example_charges"

lemma example_composed_run:
  "map (\<lambda>p. (pay_customerId p, pay_providerPaymentId p)) (payments (snd (chargePayment example_composed ''n'' ''c'' ''p1'' ''t''
     example_charge_input (example_customers [] [])))) = [(Some ''cu_1'', Some ''cus_9'')]"
  by code_simp

theorem charging_customers_keeps_ledger_witness:
  "let w = snd (chargePayment example_composed ''n'' ''c'' ''p1'' ''t'' example_charge_input (example_customers [] []))
   in ledger_ok w \<and> map pay_customerId (payments w) = [Some ''cu_1'']"
proof -
  let ?w = "snd (chargePayment example_composed ''n'' ''c'' ''p1'' ''t'' example_charge_input (example_customers [] []))"
  have st: "fresh_payment ''p1'' (example_customers [] [])"
    by (simp add: fresh_payment_def ledger_ok_def example_customers_def)
  have clients: "kept_by_clients (fresh_payment ''p1'') (example_sync_deps True example_api) (\<lambda>_ w. w)"
    by (auto simp: kept_by_clients_def interference_def example_sync_deps_def example_api_def intro!: preservesI)
  have sound: "sound_charge ''p1'' example_charges" "sound_authorize ''p1'' example_charges"
    by (auto simp: sound_charge_def sound_authorize_def example_charges_def triple_def charge_answer_def)
  have "ledger_ok ?w"
    unfolding example_composed_def
    by (rule charging_customers_keeps_ledger [OF st clients sound, THEN conjunct1]) (simp_all add: example_charges_def preserves_ret)
  moreover have "map fst (map (\<lambda>p. (pay_customerId p, pay_providerPaymentId p)) (payments ?w)) = [Some ''cu_1'']"
    unfolding example_composed_run by simp
  ultimately show ?thesis by (simp add: Let_def comp_def)
qed

end
