(* ===== verification/Webhooks.thy ===== *)
theory Webhooks
  imports Webhook_Tables Settlement "HOL-Library.Sublist"
begin

text \<open>
  Receiving, storing, processing and replaying provider webhooks: \<open>application/actions/webhooks\<close>,
  \<open>application/pipelines/webhooks\<close> and \<open>application/services/webhooks\<close>. The provider's
  methods, the queue and the catalog reconcilers are fields of \<open>hook_deps\<close>; \<open>env n\<close> is
  what other clients do to the state at the \<open>n\<close>-th point where an action waits, and random
  ids and tokens are arguments.
\<close>

section \<open>What the actions are given\<close>

record 'd verified_webhook =
  ve_providerEventId :: string
  ve_type :: string
  ve_normalizedType :: "string option"
  ve_occurredAt :: "instant option"
  ve_data :: 'd

record payment_dto =
  pd_providerPaymentId :: ident
  pd_status :: payment_status

record webhook_job =
  wj_webhookEventId :: ident
  wj_providerEventId :: string
  wj_correlationId :: string
  wj_tenant :: tenant

record ('w, 'd) hook_deps =
  wd_providerName :: string
  wd_hasWebhooks :: bool
  wd_verify :: "(string \<Rightarrow> string \<Rightarrow> (string \<times> string) list \<Rightarrow> ('w, 'd verified_webhook) io) option"
  wd_reconcilePayment :: "('d verified_webhook \<Rightarrow> error + payment_dto option) option"
  wd_reconcileSubscription :: "('d verified_webhook \<Rightarrow> ('w, subscription_dto option) io) option"
  wd_resourceId :: "'d \<Rightarrow> string option"
  wd_syncProduct :: "string \<Rightarrow> tenant \<Rightarrow> ('w, unit) io"
  wd_syncPrice :: "string \<Rightarrow> tenant \<Rightarrow> ('w, unit) io"
  wd_collate :: "string \<Rightarrow> string"
  wd_digest :: "hook_json audit_payload \<Rightarrow> string"
  wd_dispatch :: "webhook_job \<Rightarrow> ('w, unit) io"
  wd_inline :: bool
  wd_tenantEnabled :: bool
  wd_tenantResolver :: "(string \<Rightarrow> (string \<times> string) list \<Rightarrow> string \<Rightarrow> ('w, tenant) io) option"

abbreviation CLAIM_LOST :: error where "CLAIM_LOST \<equiv> PayableError ''WEBHOOK_CLAIM_LOST''"

text \<open>\<open>assertCapableProvider(provider, 'webhooks', isWebhookCapable)\<close>.\<close>

definition requireWebhooks :: "('w, 'd) hook_deps \<Rightarrow> ('w, unit) io" where
  "requireWebhooks d = guardE (wd_hasWebhooks d \<and> wd_verify d \<noteq> None \<and> wd_reconcileSubscription d \<noteq> None)
     (PayableError ''PROVIDER_CAPABILITY_NOT_SUPPORTED'')"

section \<open>Reconciling a payment\<close>

definition updatePayment :: "ident \<Rightarrow> (payment \<Rightarrow> payment) \<Rightarrow> tenant \<Rightarrow> ('x pay_db_scheme, payment) io" where
  "updatePayment i patch t =
    andThen (updatePaymentsWhere (scopedPayment i t) patch) (\<lambda>_.
    andThen (findPayment i t) (\<lambda>found. case found of
      None \<Rightarrow> throw (ForeignError ''row missing after write'') | Some p \<Rightarrow> ret p))"

definition payment_patch :: "payment_status \<Rightarrow> instant \<Rightarrow> payment \<Rightarrow> payment \<Rightarrow> payment" where
  "payment_patch status occurredAt local p = p\<lparr>pay_status := status,
     pay_authorizedAt := (if status = P_authorized \<and> pay_authorizedAt local = None then Some occurredAt
       else pay_authorizedAt p)\<rparr>"

definition reconcileWebhookPayment ::
  "(('d, 'x) hook_db_scheme, 'd) hook_deps \<Rightarrow> 'd verified_webhook \<Rightarrow> instant \<Rightarrow> tenant
    \<Rightarrow> (('d, 'x) hook_db_scheme, unit) io" where
  "reconcileWebhookPayment d v occurredAt t = (case wd_reconcilePayment d of
     None \<Rightarrow> ret ()
   | Some reconcilePayment \<Rightarrow>
       andThen (liftResult (reconcilePayment v)) (\<lambda>answer. case answer of
         None \<Rightarrow> ret ()
       | Some dto \<Rightarrow>
           andThen (findPaymentByProviderId (wd_providerName d) (pd_providerPaymentId dto) t) (\<lambda>found. case found of
             None \<Rightarrow> ret ()
           | Some local \<Rightarrow>
               if isSupersededAuthorization (pay_status local) (pay_authorizedAt local) (pay_providerPaymentId local)
                   (pd_status dto) (pd_providerPaymentId dto) then ret ()
               else (case tryTransitionTo (pay_status local) (pd_status dto) of
                 (Inl e, _) \<Rightarrow> throw e
               | (Inr False, _) \<Rightarrow> ret ()
               | (Inr True, status) \<Rightarrow>
                   andThen (updatePayment (pay_id local) (payment_patch status occurredAt local) t) (\<lambda>_. ret ())))))"

section \<open>Reconciling a subscription\<close>

text \<open>An event that is not newer than the last one is ignored.\<close>

definition last_synced :: "binding option \<Rightarrow> subscription \<Rightarrow> instant option" where
  "last_synced b s = (case Option.bind b bi_providerSyncedAt of Some x \<Rightarrow> Some x | None \<Rightarrow> sub_providerSyncedAt s)"

definition outdated :: "instant option \<Rightarrow> instant option \<Rightarrow> bool" where
  "outdated occurred synced \<longleftrightarrow> (case (occurred, synced) of (Some o', Some s) \<Rightarrow> o' \<le> s | _ \<Rightarrow> False)"

fun updateItems :: "ident \<Rightarrow> tenant \<Rightarrow> item_reconciliation list \<Rightarrow> (('d, 'x) hook_db_scheme, unit) io" where
  "updateItems i t [] = ret ()"
| "updateItems i t (r # rs) = andThen (updateItemById i (ir_itemId r) \<lparr>xp_priceId = Some (ir_priceId r),
       xp_providerItemId = Some (ir_providerItemId r), xp_quantity = Some (ir_quantity r)\<rparr> t) (\<lambda>_. updateItems i t rs)"

text \<open>The items are rebound; the answer is the patch of a subscription with one item.\<close>

definition reconcileItems ::
  "(string \<Rightarrow> string) \<Rightarrow> subscription \<Rightarrow> provider_item list option \<Rightarrow> tenant
    \<Rightarrow> (('d, 'x) hook_db_scheme, (string \<times> int) option) io" where
  "reconcileItems collate local items t = (case items of
     None \<Rightarrow> ret None
   | Some providerItems \<Rightarrow>
       if or_else (sub_canonicalPriceId local) [] \<noteq> [] then ret None
       else andThen (listBySubscription (sub_id local) t) (\<lambda>localItems.
         let reconciliations = reconcileProviderSubscriptionItems collate localItems providerItems in
         andThen (updateItems (sub_id local) t reconciliations) (\<lambda>_.
         ret (case providerItems of
            [p] \<Rightarrow> if length localItems = 1 \<and> length reconciliations = 1
                    then Some (li_priceId p, li_quantity p) else None
          | _ \<Rightarrow> None))))"

definition subscription_patch_of ::
  "subscription \<Rightarrow> binding option \<Rightarrow> subscription_dto \<Rightarrow> subscription_status \<Rightarrow> (string \<times> int) option
    \<Rightarrow> instant option \<Rightarrow> instant \<Rightarrow> subscription_patch" where
  "subscription_patch_of local b dto status item providerOccurredAt occurredAt =
    (let completedScheduledLifecycleChange = (status = S_active \<and> sd_scheduledChangeAction dto = Some None
         \<and> sd_scheduledChangeEffectiveAt dto = Some None \<and> sd_scheduledResumeAt dto = Some None);
         price = (if or_else (sub_canonicalPriceId local) [] \<noteq> [] then None else item)
     in no_patch\<lparr>sp_status := Some status,
       sp_priceId := map_option (\<lambda>x. Some (fst x)) price, sp_quantity := map_option snd price,
       sp_currentPeriodEnd := Some (sd_currentPeriodEnd dto), sp_trialEndsAt := Some (sd_trialEndsAt dto),
       sp_providerSyncedAt := (if providerOccurredAt \<noteq> None
           \<and> (b = None \<or> sub_provider local \<noteq> None \<and> sub_providerSubscriptionId local \<noteq> None)
         then Some providerOccurredAt else None),
       sp_endsAt := (if status = S_canceled
         then Some (Some (or_else (sd_currentPeriodEnd dto) occurredAt)) else None),
       sp_scheduledChangeAction := sd_scheduledChangeAction dto,
       sp_scheduledChangeEffectiveAt := sd_scheduledChangeEffectiveAt dto,
       sp_scheduledResumeAt := sd_scheduledResumeAt dto,
       sp_resumeBillingPolicy := (case sd_resumeBillingPolicy dto of
           Some p \<Rightarrow> Some p | None \<Rightarrow> if completedScheduledLifecycleChange then Some None else None),
       sp_paymentCollectionPauseBehavior := sd_paymentCollectionPauseBehavior dto,
       sp_paymentCollectionResumesAt := sd_paymentCollectionResumesAt dto\<rparr>)"

definition findLocalSubscription ::
  "string \<Rightarrow> ident \<Rightarrow> tenant \<Rightarrow> (('d, 'x) hook_db_scheme, binding option \<times> subscription option) io" where
  "findLocalSubscription provider providerSubscriptionId t =
    andThen (findBindingByProviderId provider providerSubscriptionId t) (\<lambda>b.
    andThen (case b of Some x \<Rightarrow> findSubscription (bi_subscriptionId x) t
        | None \<Rightarrow> findSubscriptionByProviderId provider providerSubscriptionId t) (\<lambda>s.
    ret (b, s)))"

definition applySubscription ::
  "(string \<Rightarrow> string) \<Rightarrow> 'd verified_webhook \<Rightarrow> subscription_dto \<Rightarrow> instant \<Rightarrow> tenant \<Rightarrow> binding option \<Rightarrow> subscription
    \<Rightarrow> (('d, 'x) hook_db_scheme, unit) io" where
  "applySubscription collate v dto occurredAt t b local =
    (if outdated (ve_occurredAt v) (last_synced b local) then ret ()
     else andThen (reconcileItems collate local (sd_items dto) t) (\<lambda>item.
       case reconcileSubscriptionStatus (sub_status local) (sd_status dto) of
         None \<Rightarrow> throw TypeError
       | Some r \<Rightarrow>
           if \<not> rec_applied r then ret ()
           else andThen (updateSubscription (sub_id local)
               (subscription_patch_of local b dto (rec_status r) item (ve_occurredAt v) occurredAt) t) (\<lambda>_.
             case (ve_occurredAt v, b) of
               (Some at, Some x) \<Rightarrow> andThen (updateProviderSyncedAt (bi_id x) at t) (\<lambda>_. ret ())
             | _ \<Rightarrow> ret ())))"

definition reconcileWebhookSubscription ::
  "(('d, 'x) hook_db_scheme, 'd) hook_deps \<Rightarrow> 'd verified_webhook \<Rightarrow> instant \<Rightarrow> tenant
    \<Rightarrow> (('d, 'x) hook_db_scheme, unit) io" where
  "reconcileWebhookSubscription d v occurredAt t =
    andThen (requireWebhooks d) (\<lambda>_.
    case wd_reconcileSubscription d of
      None \<Rightarrow> throw TypeError
    | Some reconcileSubscription \<Rightarrow>
        andThen (reconcileSubscription v) (\<lambda>answer. case answer of
          None \<Rightarrow> ret ()
        | Some dto \<Rightarrow>
            andThen (findLocalSubscription (wd_providerName d) (sd_providerSubscriptionId dto) t) (\<lambda>(b, found).
            case found of
              None \<Rightarrow> ret ()
            | Some local \<Rightarrow> applySubscription (wd_collate d) v dto occurredAt t b local)))"

section \<open>The pipeline\<close>

definition CATALOG_PRODUCT_EVENTS :: "string list" where
  "CATALOG_PRODUCT_EVENTS = [''product.created'', ''product.updated'', ''product.deleted'']"

definition CATALOG_PRICE_EVENTS :: "string list" where
  "CATALOG_PRICE_EVENTS = [''price.created'', ''price.updated'', ''price.deleted'']"

definition reconcileCatalog :: "('w, 'd) hook_deps \<Rightarrow> 'd verified_webhook \<Rightarrow> tenant \<Rightarrow> ('w, unit) io" where
  "reconcileCatalog d v t =
    (let providerResourceId = or_else (wd_resourceId d (ve_data v)) [] in
     if providerResourceId = [] then ret ()
     else if ve_type v \<in> set CATALOG_PRODUCT_EVENTS then wd_syncProduct d providerResourceId t
     else if ve_type v \<in> set CATALOG_PRICE_EVENTS then wd_syncPrice d providerResourceId t
     else ret ())"

definition reconcile ::
  "(('d, 'x) hook_db_scheme, 'd) hook_deps \<Rightarrow> 'd verified_webhook \<Rightarrow> instant \<Rightarrow> tenant
    \<Rightarrow> (('d, 'x) hook_db_scheme, unit) io" where
  "reconcile d v occurredAt t =
    (if \<not> wd_hasWebhooks d then ret ()
     else andThen (requireWebhooks d) (\<lambda>_.
       andThen (reconcileWebhookPayment d v occurredAt t) (\<lambda>_.
       reconcileWebhookSubscription d v occurredAt t)))"

definition webhook_audit :: "('w, 'd) hook_deps \<Rightarrow> 'd verified_webhook \<Rightarrow> ident \<Rightarrow> string \<Rightarrow> hook_json audit_content" where
  "webhook_audit d v i correlationId = \<lparr>au_correlationId = correlationId, au_actorType = Some ''provider'',
     au_actorId = Some (wd_providerName d), au_action = ''webhook.'' @ ve_type v,
     au_resourceType = ''webhook_event'', au_resourceId = i, au_before = None,
     au_after = Some (HJ_after (ve_providerEventId v) (ve_type v) (ve_normalizedType v)),
     au_metadata = Some (HJ_metadata (ve_normalizedType v)), au_ipAddress = None, au_userAgent = None\<rparr>"

definition webhook_outbox ::
  "'d verified_webhook \<Rightarrow> string \<Rightarrow> ident \<Rightarrow> string \<Rightarrow> tenant \<Rightarrow> 'd hook_payload new_outbox_event" where
  "webhook_outbox v name i correlationId t = \<lparr>nob_tenant = t, nob_correlationId = correlationId,
     nob_eventType = name @ ''.v1'', nob_eventVersion = 1, nob_payload = HP_event (ve_providerEventId v) (ve_data v),
     nob_dedupeKey = Some (''webhook:'' @ i @ '':'' @ name)\<rparr>"

definition recordWebhook ::
  "(('d, 'x) hook_db_scheme, 'd) hook_deps \<Rightarrow> (nat \<Rightarrow> string) \<Rightarrow> 'd verified_webhook \<Rightarrow> ident \<Rightarrow> string \<Rightarrow> tenant
    \<Rightarrow> (('d, 'x) hook_db_scheme, unit) io" where
  "recordWebhook d ids v i correlationId t =
    andThen (on_audit (audit_create (wd_digest d) (\<lambda>_ a. a) ids t (webhook_audit d v i correlationId))) (\<lambda>_.
    if or_else (ve_normalizedType v) [] = [] then ret ()
    else andThen (on_outbox (outbox_create (ids 0)
        (webhook_outbox v (or_else (ve_normalizedType v) []) i correlationId t))) (\<lambda>_. ret ()))"

text \<open>The transaction, and the pipeline around it. The event bus's errors are swallowed.\<close>

definition processTransaction ::
  "(('d, 'x) hook_db_scheme, 'd) hook_deps \<Rightarrow> (nat \<Rightarrow> string) \<Rightarrow> 'd verified_webhook \<Rightarrow> instant \<Rightarrow> ident \<Rightarrow> string
    \<Rightarrow> tenant \<Rightarrow> string option \<Rightarrow> (('d, 'x) hook_db_scheme, unit) io" where
  "processTransaction d ids v processedAt i correlationId t token =
    andThen (reconcile d v (or_else (ve_occurredAt v) processedAt) t) (\<lambda>_.
    andThen (recordWebhook d ids v i correlationId t) (\<lambda>_.
    andThen (markStatus i W_processed (Some processedAt) (Some t) token) (\<lambda>marked.
    guardE (\<not> (token \<noteq> None \<and> marked = None)) CLAIM_LOST)))"

definition processPipeline ::
  "(('d, 'x) hook_db_scheme, 'd) hook_deps
    \<Rightarrow> (nat \<Rightarrow> ('d, 'x) hook_db_scheme \<Rightarrow> ('d, 'x) hook_db_scheme) \<Rightarrow> (nat \<Rightarrow> string)
    \<Rightarrow> 'd verified_webhook \<Rightarrow> ident \<Rightarrow> string \<Rightarrow> tenant \<Rightarrow> string option \<Rightarrow> (('d, 'x) hook_db_scheme, unit) io" where
  "processPipeline d env ids v i correlationId t token =
    andThen (readState idem_now) (\<lambda>processedAt.
    andThen (reconcileCatalog d v t) (\<lambda>_.
    andThen (interference (env 2)) (\<lambda>_.
    atomically (processTransaction d ids v processedAt i correlationId t token))))"

section \<open>Processing and replaying\<close>

definition verified_of :: "'d webhook_event \<Rightarrow> instant option \<Rightarrow> 'd verified_webhook" where
  "verified_of r occurredAt = \<lparr>ve_providerEventId = we_providerEventId r, ve_type = we_type r,
     ve_normalizedType = we_normalizedType r, ve_occurredAt = occurredAt, ve_data = we_data r\<rparr>"

definition processWebhook ::
  "(('d, 'x) hook_db_scheme, 'd) hook_deps
    \<Rightarrow> (nat \<Rightarrow> ('d, 'x) hook_db_scheme \<Rightarrow> ('d, 'x) hook_db_scheme) \<Rightarrow> (nat \<Rightarrow> string) \<Rightarrow> string
    \<Rightarrow> webhook_job \<Rightarrow> (('d, 'x) hook_db_scheme, unit) io" where
  "processWebhook d env ids token job =
    (let i = wj_webhookEventId job; t = wj_tenant job in
     andThen (findEvent i (Some t)) (\<lambda>found. case found of
       None \<Rightarrow> throw (PayableError ''WEBHOOK_EVENT_NOT_FOUND'')
     | Some event \<Rightarrow>
         if we_status event = W_processed then ret ()
         else andThen (interference (env 0)) (\<lambda>_.
           andThen (claimEvent token i (Some t) False) (\<lambda>claimed.
           if \<not> claimed then ret ()
           else catching
             (andThen (interference (env 1)) (\<lambda>_.
              processPipeline d env ids (verified_of event (we_occurredAt event)) i (wj_correlationId job) t (Some token)))
             (\<lambda>e. if e = CLAIM_LOST then ret ()
               else andThen (interference (env 3)) (\<lambda>_.
                 andThen (attempt (markStatus i W_failed None (Some t) (Some token))) (\<lambda>_. throw e)))))))"

definition replay_verify :: "('w, 'd) hook_deps \<Rightarrow> 'd webhook_event \<Rightarrow> ('w, 'd verified_webhook) io" where
  "replay_verify d r =
    (if \<not> wd_hasWebhooks d then ret (verified_of r None)
     else andThen (requireWebhooks d) (\<lambda>_. case (we_signature r, wd_verify d) of
         (Some signature, Some verify) \<Rightarrow> verify (we_payload r) signature (we_headers r)
       | _ \<Rightarrow> throw (PayableError ''WEBHOOK_REPLAY_UNVERIFIABLE'')))"

text \<open>The tenant of the context, \<open>None\<close> when it is undefined.\<close>

definition replayWebhook ::
  "(('d, 'x) hook_db_scheme, 'd) hook_deps
    \<Rightarrow> (nat \<Rightarrow> ('d, 'x) hook_db_scheme \<Rightarrow> ('d, 'x) hook_db_scheme) \<Rightarrow> (nat \<Rightarrow> string) \<Rightarrow> string \<Rightarrow> string
    \<Rightarrow> ident \<Rightarrow> authorization_context \<Rightarrow> tenant option \<Rightarrow> (('d, 'x) hook_db_scheme, unit) io" where
  "replayWebhook d env ids token correlationId i context scope =
    andThen (guardE (isAuthorized context) (PayableError ''WEBHOOK_REPLAY_DENIED'')) (\<lambda>_.
    andThen (findEvent i scope) (\<lambda>found. case found of
      None \<Rightarrow> throw (PayableError ''WEBHOOK_EVENT_NOT_FOUND'')
    | Some event \<Rightarrow>
        let t = event_tenant event in
        andThen (guardE (t = or_else scope None) (PayableError ''WEBHOOK_REPLAY_DENIED'')) (\<lambda>_.
        andThen (replay_verify d event) (\<lambda>v.
        andThen (interference (env 0)) (\<lambda>_.
        andThen (claimEvent token (we_id event) scope True) (\<lambda>claimed.
        if \<not> claimed then ret ()
        else catching
          (andThen (interference (env 1)) (\<lambda>_.
           processPipeline d env ids v (we_id event) correlationId t (Some token)))
          (\<lambda>e. if e = CLAIM_LOST then ret ()
            else andThen (interference (env 3)) (\<lambda>_.
              andThen (markStatus (we_id event) W_failed None (Some t) (Some token)) (\<lambda>_. throw e)))))))))"

section \<open>Receiving\<close>

definition SENSITIVE_NAMES :: "string list" where
  "SENSITIVE_NAMES = [''authorization'', ''proxy-authorization'', ''cookie'', ''set-cookie'',
     ''stripe-signature'', ''paddle-signature'', ''pan'', ''iban'', ''ssn'', ''pin'']"

definition SENSITIVE_PATTERNS :: "string list" where
  "SENSITIVE_PATTERNS = [''auth'', ''signature'', ''secret'', ''token'', ''api-key'', ''apikey'', ''api_key'',
     ''cookie'', ''password'', ''card'', ''cvv'', ''cvc'', ''bearer'', ''credential'']"

definition isSensitiveKey :: "string \<Rightarrow> bool" where
  "isSensitiveKey name = (let lower = map lower_char name in
     lower \<in> set SENSITIVE_NAMES \<or> (\<exists>pattern \<in> set SENSITIVE_PATTERNS. sublist pattern lower))"

definition redactHeaders :: "(string \<times> string) list \<Rightarrow> (string \<times> string) list" where
  "redactHeaders headers = filter (\<lambda>(key, _). \<not> isSensitiveKey key) headers"

record stored_webhook =
  sw_id :: ident
  sw_correlationId :: string
  sw_duplicate :: bool
  sw_status :: webhook_status

definition duplicate_of :: "'d webhook_event \<Rightarrow> stored_webhook" where
  "duplicate_of r = \<lparr>sw_id = we_id r, sw_correlationId = we_correlationId r, sw_duplicate = True, sw_status = we_status r\<rparr>"

definition new_event ::
  "ident \<Rightarrow> string \<Rightarrow> string \<Rightarrow> 'd verified_webhook \<Rightarrow> string \<Rightarrow> string option \<Rightarrow> (string \<times> string) list \<Rightarrow> tenant \<Rightarrow> instant
    \<Rightarrow> 'd webhook_event" where
  "new_event i provider correlationId v payload signature headers t now =
    \<lparr>we_id = i, we_tenant = tenant_column t, we_provider = provider, we_providerEventId = ve_providerEventId v,
     we_type = ve_type v, we_normalizedType = ve_normalizedType v, we_payload = payload, we_signature = signature,
     we_data = ve_data v, we_headers = redactHeaders headers, we_status = W_pending,
     we_correlationId = correlationId, we_occurredAt = ve_occurredAt v, we_receivedAt = now,
     we_processedAt = None, we_claimedUntil = None, we_claimToken = None\<rparr>"

definition storeWebhookEvent ::
  "string \<Rightarrow> (nat \<Rightarrow> ('d, 'x) hook_db_scheme \<Rightarrow> ('d, 'x) hook_db_scheme) \<Rightarrow> ident \<Rightarrow> string \<Rightarrow> 'd verified_webhook
    \<Rightarrow> string \<Rightarrow> string option \<Rightarrow> (string \<times> string) list \<Rightarrow> tenant \<Rightarrow> (('d, 'x) hook_db_scheme, stored_webhook) io" where
  "storeWebhookEvent provider env i correlationId v payload signature headers t =
    andThen (findByProviderEvent provider (ve_providerEventId v) t) (\<lambda>existing. case existing of
      Some r \<Rightarrow> ret (duplicate_of r)
    | None \<Rightarrow>
        andThen (interference (env 0)) (\<lambda>_.
        catching
          (andThen (readState idem_now) (\<lambda>now.
           andThen (createEvent (new_event i provider correlationId v payload signature headers t now)) (\<lambda>created.
           ret \<lparr>sw_id = we_id created, sw_correlationId = correlationId, sw_duplicate = False, sw_status = W_pending\<rparr>)))
          (\<lambda>e. andThen (interference (env 1)) (\<lambda>_.
             andThen (findByProviderEvent provider (ve_providerEventId v) t) (\<lambda>raced. case raced of
               Some r \<Rightarrow> ret (duplicate_of r) | None \<Rightarrow> throw e)))))"

definition resolveTenant :: "('w, 'd) hook_deps \<Rightarrow> tenant option \<Rightarrow> (string \<times> string) list \<Rightarrow> string \<Rightarrow> ('w, tenant) io" where
  "resolveTenant d scope headers payload = (case scope of
     Some t \<Rightarrow> ret t
   | None \<Rightarrow> (case wd_tenantResolver d of
       None \<Rightarrow> ret None | Some resolver \<Rightarrow> resolver (wd_providerName d) headers payload))"

definition receiveWebhook ::
  "(('d, 'x) hook_db_scheme, 'd) hook_deps
    \<Rightarrow> (nat \<Rightarrow> ('d, 'x) hook_db_scheme \<Rightarrow> ('d, 'x) hook_db_scheme) \<Rightarrow> ident \<Rightarrow> string
    \<Rightarrow> string \<Rightarrow> string \<Rightarrow> (string \<times> string) list \<Rightarrow> tenant option
    \<Rightarrow> (('d, 'x) hook_db_scheme, ident \<times> bool \<times> webhook_status) io" where
  "receiveWebhook d env i correlationId payload signature headers scope =
    andThen (requireWebhooks d) (\<lambda>_. case wd_verify d of
      None \<Rightarrow> throw TypeError
    | Some verify \<Rightarrow>
        andThen (verify payload signature headers) (\<lambda>v.
        andThen (resolveTenant d scope headers payload) (\<lambda>t.
        andThen (guardE (\<not> (wd_tenantEnabled d \<and> t = None)) (PayableError ''TENANT_REQUIRED'')) (\<lambda>_.
        andThen (storeWebhookEvent (wd_providerName d) env i correlationId v payload (Some signature) headers t) (\<lambda>stored.
        if sw_duplicate stored \<and> sw_status stored \<notin> {W_pending, W_failed}
        then ret (sw_id stored, True, sw_status stored)
        else andThen (wd_dispatch d \<lparr>wj_webhookEventId = sw_id stored, wj_providerEventId = ve_providerEventId v,
               wj_correlationId = sw_correlationId stored, wj_tenant = t\<rparr>) (\<lambda>_.
          if \<not> wd_inline d then ret (sw_id stored, sw_duplicate stored, sw_status stored)
          else andThen (findEvent (sw_id stored) (Some t)) (\<lambda>settled.
            let status = (case settled of None \<Rightarrow> sw_status stored | Some r \<Rightarrow> we_status r) in
            if status = W_failed then throw (PayableError ''WEBHOOK_PROCESSING_FAILED'')
            else ret (sw_id stored, sw_duplicate stored, status))))))))"

section \<open>Handlers that leave events and audit log alone\<close>

definition neutral :: "(('d, 'x) hook_db_scheme, 'a) io \<Rightarrow> bool" where
  "neutral m \<longleftrightarrow> (\<forall>E A. preserves (\<lambda>w. hk_events w = E \<and> hk_audit w = A) m)"

named_theorems neutral_rules \<open>actions that leave events and audit log alone\<close>

lemma neutralI: "(\<And>w. hk_events (snd (m w)) = hk_events w \<and> hk_audit (snd (m w)) = hk_audit w) \<Longrightarrow> neutral m"
  by (simp add: neutral_def preserves_def)

lemma neutralD: "neutral m \<Longrightarrow> m w = (r, w') \<Longrightarrow> hk_events w' = hk_events w \<and> hk_audit w' = hk_audit w"
  unfolding neutral_def preserves_def by (metis (mono_tags, lifting) snd_conv)

lemma neutral_basic [neutral_rules, intro]:
  "neutral (ret x)" "neutral (throw e)" "neutral (readState g)" "neutral (liftResult r)" "neutral (guardE b e)"
  by (simp_all add: neutral_def preserves_rules)

lemma neutral_andThen [neutral_rules, intro]: "neutral m \<Longrightarrow> (\<And>x. neutral (f x)) \<Longrightarrow> neutral (andThen m f)"
  by (simp add: neutral_def preserves_andThen)

lemma neutral_if [neutral_rules, intro]: "(b \<Longrightarrow> neutral m) \<Longrightarrow> (\<not> b \<Longrightarrow> neutral n) \<Longrightarrow> neutral (if b then m else n)"
  by simp

lemma neutral_option [neutral_rules, intro]:
  "(x = None \<Longrightarrow> neutral m) \<Longrightarrow> (\<And>y. x = Some y \<Longrightarrow> neutral (f y)) \<Longrightarrow> neutral (case x of None \<Rightarrow> m | Some y \<Rightarrow> f y)"
  by (cases x) simp_all

lemma neutral_sum [neutral_rules, intro]:
  "(\<And>e. neutral (f e)) \<Longrightarrow> (\<And>y. neutral (g y)) \<Longrightarrow> neutral (case x of Inl e \<Rightarrow> f e | Inr y \<Rightarrow> g y)"
  by (cases x) simp_all

lemma neutral_prod [neutral_rules, intro]: "(\<And>a b. neutral (f a b)) \<Longrightarrow> neutral (case x of (a, b) \<Rightarrow> f a b)"
  by (cases x) simp

lemma neutral_bool [neutral_rules, intro]: "neutral m \<Longrightarrow> neutral n \<Longrightarrow> neutral (case b of True \<Rightarrow> m | False \<Rightarrow> n)"
  by (cases b) simp_all

lemma neutral_tables [neutral_rules, intro]:
  "neutral (updatePaymentsWhere P f :: (('d, 'x) hook_db_scheme, bool) io)"
  "neutral (updateSubscription i u t :: (('d, 'x) hook_db_scheme, subscription) io)"
  "neutral (updateProviderSyncedAt i at t :: (('d, 'x) hook_db_scheme, binding) io)"
  "neutral (updateItemById i x r t :: (('d, 'x) hook_db_scheme, unit) io)"
  by (rule neutralI, simp add: updatePaymentsWhere_def updateSubscription_def updateProviderSyncedAt_def
      updateItemById_def Let_def split: option.split)+

lemma neutral_updateItems [neutral_rules, intro]: "neutral (updateItems i t rs)"
  by (induction rs) (simp_all only: updateItems.simps, intro neutral_rules, intro neutral_rules)

lemma neutral_payment [neutral_rules, intro]: "neutral (reconcileWebhookPayment d v at t)"
  unfolding reconcileWebhookPayment_def findPaymentByProviderId_def updatePayment_def findPayment_def
  by (intro neutral_rules)

lemma neutral_applySubscription [neutral_rules, intro]: "neutral (applySubscription c v dto at t b s)"
  unfolding applySubscription_def reconcileItems_def listBySubscription_def Let_def
  by (intro neutral_rules)

definition quiet_provider :: "(('d, 'x) hook_db_scheme, 'd) hook_deps \<Rightarrow> bool" where
  "quiet_provider d \<longleftrightarrow> (\<forall>f v. wd_reconcileSubscription d = Some f \<longrightarrow> neutral (f v))"

lemma neutral_provider: "quiet_provider d \<Longrightarrow> wd_reconcileSubscription d = Some f \<Longrightarrow> neutral (f v)"
  by (simp add: quiet_provider_def)

lemma neutral_reconcile: "quiet_provider d \<Longrightarrow> neutral (reconcile d v at t)"
  unfolding reconcile_def reconcileWebhookSubscription_def requireWebhooks_def findLocalSubscription_def
    findBindingByProviderId_def findSubscription_def findSubscriptionByProviderId_def
  by (intro neutral_rules neutral_provider)

section \<open>The audit entry and the outbox event of a webhook\<close>

lemma appendEntry_quiet:
  "appendEntry H (\<lambda>a. a) i t c a = (r, a') \<Longrightarrow>
    (isUniqueViolation (projl r) \<and> isl r \<longrightarrow> a' = a) \<and> (\<not> isl r \<longrightarrow> (\<exists>row. audit_rows a' = audit_rows a @ [row] \<and> ar_content row = c))"
  by (auto simp: appendEntry_def Let_def toEntity_def isUniqueViolation_def split: if_splits option.splits)

lemma createAttempts_quiet:
  "createAttempts H (\<lambda>_ a. a) ids t c n a = (Inr e, a') \<Longrightarrow>
    \<exists>row. audit_rows a' = audit_rows a @ [row] \<and> ar_content row = c"
proof (induction n)
  case (Suc n)
  obtain r b where app: "appendEntry H (\<lambda>a. a) (ids n) t c a = (r, b)" by (cases "appendEntry H (\<lambda>a. a) (ids n) t c a")
  note quiet = appendEntry_quiet [OF app]
  show ?case
  proof (cases r)
    case (Inl x)
    with Suc.prems app have "isUniqueViolation x" by (auto simp: catching_def split: if_splits)
    with Suc quiet Inl app show ?thesis by (simp add: catching_def)
  next
    case (Inr y)
    with Suc.prems app quiet show ?thesis by (simp add: catching_def)
  qed
qed simp

lemma on_audit_Inr:
  "on_audit (audit_create H (\<lambda>_ a. a) ids t c) w = (Inr e, w') \<Longrightarrow>
    \<exists>row. w' = w\<lparr>hk_audit := hk_audit w @ [row]\<rparr> \<and> ar_content row = c"
  by (auto simp: on_audit_def audit_create_def split: prod.splits dest!: createAttempts_quiet)

lemma on_outbox_create_Inr:
  assumes "on_outbox (outbox_create i n) w = (Inr e, w')" and "nob_dedupeKey n = Some k"
  shows "\<exists>obs. w' = w\<lparr>hk_outbox := obs\<rparr> \<and> (\<exists>r \<in> set obs. ob_dedupeKey r = Some k \<and> ob_tenant r = nob_tenant n)
    \<and> set (hk_outbox w) \<subseteq> set obs"
proof (cases "find (\<lambda>r. ob_dedupeKey r = Some k \<and> ob_tenant r = nob_tenant n) (hk_outbox w)")
  case None
  with assms have "w' = w\<lparr>hk_outbox := hk_outbox w @ [new_row i (idem_now w) n]\<rparr>"
    by (auto simp: on_outbox_def outbox_create_def Let_def)
  with assms(2) show ?thesis
    by (intro exI [of _ "hk_outbox w @ [new_row i (idem_now w) n]"]) (auto simp: new_row_def)
next
  case (Some r)
  with assms have "w' = w\<lparr>hk_outbox := hk_outbox w\<rparr>" by (simp add: on_outbox_def outbox_create_def Let_def)
  with find_SomeD [OF Some] show ?thesis by (intro exI [of _ "hk_outbox w"]) blast
qed

lemma recordWebhook_Inr:
  assumes "recordWebhook d ids v i c t w = (Inr u, w')"
  shows "\<exists>row obs. w' = w\<lparr>hk_audit := hk_audit w @ [row], hk_outbox := obs\<rparr> \<and> ar_content row = webhook_audit d v i c
    \<and> set (hk_outbox w) \<subseteq> set obs
    \<and> (\<forall>name. ve_normalizedType v = Some name \<longrightarrow> name \<noteq> [] \<longrightarrow>
        (\<exists>r \<in> set obs. ob_dedupeKey r = Some (''webhook:'' @ i @ '':'' @ name) \<and> ob_tenant r = t))"
proof -
  from assms obtain e w1 where one: "on_audit (audit_create (wd_digest d) (\<lambda>_ a. a) ids t (webhook_audit d v i c)) w = (Inr e, w1)"
    and two: "(if or_else (ve_normalizedType v) [] = [] then ret ()
     else andThen (on_outbox (outbox_create (ids 0) (webhook_outbox v (or_else (ve_normalizedType v) []) i c t)))
       (\<lambda>_. ret ())) w1 = (Inr u, w')"
    by (auto simp: recordWebhook_def andThen_Inr_iff)
  from on_audit_Inr [OF one] obtain row where w1: "w1 = w\<lparr>hk_audit := hk_audit w @ [row]\<rparr>"
    and row: "ar_content row = webhook_audit d v i c" by blast
  show ?thesis
  proof (cases "or_else (ve_normalizedType v) [] = []")
    case True
    with two have "w' = w1\<lparr>hk_outbox := hk_outbox w1\<rparr>" by simp
    then have "w' = w\<lparr>hk_audit := hk_audit w @ [row], hk_outbox := hk_outbox w\<rparr>" by (simp add: w1)
    with True row show ?thesis by (intro exI [of _ row] exI [of _ "hk_outbox w"]) (auto simp: or_else_def)
  next
    case False
    let ?n = "webhook_outbox v (or_else (ve_normalizedType v) []) i c t"
    from False two obtain e' where "on_outbox (outbox_create (ids 0) ?n) w1 = (Inr e', w')"
      by (auto simp: andThen_Inr_iff)
    from on_outbox_create_Inr [OF this] obtain obs where "w' = w1\<lparr>hk_outbox := obs\<rparr>"
      "\<exists>r \<in> set obs. ob_dedupeKey r = nob_dedupeKey ?n \<and> ob_tenant r = nob_tenant ?n" "set (hk_outbox w1) \<subseteq> set obs"
      by (auto simp: webhook_outbox_def)
    with row show ?thesis
      by (intro exI [of _ row] exI [of _ obs]) (auto simp: w1 webhook_outbox_def or_else_def split: option.splits)
  qed
qed


section \<open>Exactly once\<close>

text \<open>
  Every committed transaction leaves one entry about its event in the audit log. What holds between
  any two operations, as long as nothing is replayed: a processed event has exactly one entry, an
  event that is not processed has none.
\<close>

definition effects :: "ident \<Rightarrow> hook_json audit_row list \<Rightarrow> nat" where
  "effects i rows = length (filter (\<lambda>r. au_resourceType (ar_content r) = ''webhook_event''
     \<and> au_resourceId (ar_content r) = i) rows)"

definition once_ok :: "('d, 'x) hook_db_scheme \<Rightarrow> bool" where
  "once_ok w \<longleftrightarrow> distinct (map we_id (hk_events w))
     \<and> (\<forall>r \<in> set (hk_events w). effects (we_id r) (hk_audit w) = (if we_status r = W_processed then 1 else 0))"

definition token_free :: "string \<Rightarrow> ('d, 'x) hook_db_scheme \<Rightarrow> bool" where
  "token_free k w \<longleftrightarrow> (\<forall>r \<in> set (hk_events w). we_claimToken r \<noteq> Some k)"

text \<open>What other clients do: they keep the invariant and neither write nor settle a claim that is not theirs.\<close>

definition hook_rely :: "string \<Rightarrow> (('d, 'x) hook_db_scheme \<Rightarrow> ('d, 'x) hook_db_scheme) \<Rightarrow> bool" where
  "hook_rely k f \<longleftrightarrow> (\<forall>w. once_ok w \<longrightarrow> once_ok (f w)
     \<and> (\<forall>r' \<in> set (hk_events (f w)). we_claimToken r' = Some k \<longrightarrow>
         (\<exists>r \<in> set (hk_events w). we_claimToken r = Some k \<and> we_status r' = we_status r)))"

definition unclaimed :: "string \<Rightarrow> ('d, 'x) hook_db_scheme \<Rightarrow> bool" where
  "unclaimed k w \<longleftrightarrow> once_ok w \<and> token_free k w"

definition working :: "string \<Rightarrow> ('d, 'x) hook_db_scheme \<Rightarrow> bool" where
  "working k w \<longleftrightarrow> once_ok w \<and> (\<forall>r \<in> set (hk_events w). we_claimToken r = Some k \<longrightarrow> we_status r = W_processing)"

lemma rely_unclaimed: "hook_rely k f \<Longrightarrow> preserves (unclaimed k) (interference f)"
  by (rule preservesI) (force simp: interference_def unclaimed_def token_free_def hook_rely_def)

lemma rely_working: "hook_rely k f \<Longrightarrow> preserves (working k) (interference f)"
  by (rule preservesI) (force simp: interference_def working_def hook_rely_def)

lemma neutral_working:
  fixes m :: "(('d, 'x) hook_db_scheme, 'a) io"
  assumes "neutral m"
  shows "preserves (working k) m"
proof (rule preservesI)
  fix w :: "('d, 'x) hook_db_scheme"
  assume ok: "working k w"
  have "hk_events (snd (m w)) = hk_events w" "hk_audit (snd (m w)) = hk_audit w"
    using assms by (metis neutralD prod.collapse)+
  with ok show "working k (snd (m w))" by (simp add: working_def once_ok_def)
qed

text \<open>A row of an event changes; no other row has its id.\<close>

lemma once_ok_update:
  assumes ok: "once_ok w" and events: "hk_events w' = map (\<lambda>r. if P r then f r else r) (hk_events w)"
    and audit: "hk_audit w' = hk_audit w" and same: "\<And>r. we_id (f r) = we_id r"
    and status: "\<And>r. r \<in> set (hk_events w) \<Longrightarrow> P r \<Longrightarrow> (we_status (f r) = W_processed) = (we_status r = W_processed)"
  shows "once_ok w'"
proof -
  have "map we_id (hk_events w') = map we_id (hk_events w)" using same by (simp add: events)
  moreover have "effects (we_id r') (hk_audit w') = (if we_status r' = W_processed then 1 else 0)"
    if "r' \<in> set (hk_events w')" for r'
  proof -
    from that obtain r where r: "r \<in> set (hk_events w)" "r' = (if P r then f r else r)" by (auto simp: events)
    with ok have "effects (we_id r) (hk_audit w) = (if we_status r = W_processed then 1 else 0)" by (simp add: once_ok_def)
    with r same status [OF r(1)] show ?thesis by (simp add: audit)
  qed
  ultimately show ?thesis using ok by (simp add: once_ok_def)
qed

lemma claim_leads: "leads (unclaimed k) (claimEvent k i scope False) (working k)"
proof (rule leadsI)
  fix w r w'
  assume w: "unclaimed k w" and "claimEvent k i scope False w = (r, w')"
  then have w': "w' = w\<lparr>hk_events := map (\<lambda>r. if eventScope i scope r \<and> event_claimable (idem_now w) False r
      then r\<lparr>we_status := W_processing, we_claimedUntil := Some (idem_now w + WEBHOOK_CLAIM_TTL_MS), we_claimToken := Some k\<rparr>
      else r) (hk_events w)\<rparr>" by (auto simp: claimEvent_def updateEventsWhere_def)
  then have events: "hk_events w' = map (\<lambda>r. if eventScope i scope r \<and> event_claimable (idem_now w) False r
      then r\<lparr>we_status := W_processing, we_claimedUntil := Some (idem_now w + WEBHOOK_CLAIM_TTL_MS), we_claimToken := Some k\<rparr>
      else r) (hk_events w)" by simp
  have "once_ok w'"
    by (rule once_ok_update [OF _ events])
      (use w w' in \<open>auto simp: unclaimed_def event_claimable_def claimable_statuses_def\<close>)
  moreover have "\<forall>r \<in> set (hk_events w'). we_claimToken r = Some k \<longrightarrow> we_status r = W_processing"
    using w by (auto simp: w' unclaimed_def token_free_def)
  ultimately show "working k w'" by (simp add: working_def)
qed

definition marked_rows ::
  "ident \<Rightarrow> webhook_status \<Rightarrow> instant option \<Rightarrow> tenant option \<Rightarrow> string \<Rightarrow> 'd webhook_event list \<Rightarrow> 'd webhook_event list" where
  "marked_rows i s at scope k rows = map (\<lambda>r. if eventScope i scope r \<and> we_claimToken r = Some k
     then r\<lparr>we_status := s, we_processedAt := at\<rparr> else r) rows"

lemma markStatus_eq:
  "markStatus i s at scope (Some k) w =
    (let w' = w\<lparr>hk_events := marked_rows i s at scope k (hk_events w)\<rparr> in
     if \<exists>r \<in> set (hk_events w). eventScope i scope r \<and> we_claimToken r = Some k
     then (case find (eventScope i scope) (hk_events w') of
            Some r \<Rightarrow> (Inr (Some r), w') | None \<Rightarrow> (Inl (ForeignError ''row missing after write''), w'))
     else (Inr None, w'))"
  by (simp add: markStatus_def updateEventsWhere_def andThen_def findEvent_def ret_def throw_def marked_rows_def
      Let_def split: option.split)

lemma markStatus_state:
  "markStatus i s at scope (Some k) w = (r, w') \<Longrightarrow> w' = w\<lparr>hk_events := marked_rows i s at scope k (hk_events w)\<rparr>"
  by (auto simp: markStatus_eq Let_def split: if_splits option.splits)

lemma mark_failed_leads: "leads (working k) (markStatus i W_failed None scope (Some k)) once_ok"
proof (rule leadsI)
  fix w r w'
  assume w: "working k w" and run: "markStatus i W_failed None scope (Some k) w = (r, w')"
  from run have w': "w' = w\<lparr>hk_events := marked_rows i W_failed None scope k (hk_events w)\<rparr>"
    by (elim markStatus_state)
  then have events: "hk_events w' = map (\<lambda>r. if eventScope i scope r \<and> we_claimToken r = Some k
        then r\<lparr>we_status := W_failed, we_processedAt := None\<rparr> else r) (hk_events w)"
    by (simp add: marked_rows_def)
  show "once_ok w'"
    by (rule once_ok_update [OF _ events]) (use w w' in \<open>auto simp: working_def\<close>)
qed


lemma effects_append [simp]:
  "effects i (rows @ [row]) = effects i rows
    + (if au_resourceType (ar_content row) = ''webhook_event'' \<and> au_resourceId (ar_content row) = i then 1 else 0)"
  by (simp add: effects_def)

text \<open>What a committed transaction did.\<close>

lemma processTransaction_Inr:
  assumes run: "processTransaction d ids v at i c t (Some k) w = (Inr u, w')"
    and quiet: "quiet_provider d"
  shows "\<exists>row. hk_audit w' = hk_audit w @ [row] \<and> ar_content row = webhook_audit d v i c
    \<and> hk_events w' = marked_rows i W_processed (Some at) (Some t) k (hk_events w)
    \<and> (\<exists>r \<in> set (hk_events w). eventScope i (Some t) r \<and> we_claimToken r = Some k)
    \<and> (\<forall>name. ve_normalizedType v = Some name \<longrightarrow> name \<noteq> [] \<longrightarrow>
        (\<exists>r \<in> set (hk_outbox w'). ob_dedupeKey r = Some (''webhook:'' @ i @ '':'' @ name) \<and> ob_tenant r = t))"
proof -
  from run obtain u1 w1 u2 w2 m where rec: "reconcile d v (or_else (ve_occurredAt v) at) t w = (Inr u1, w1)"
    and wrote: "recordWebhook d ids v i c t w1 = (Inr u2, w2)"
    and mark: "markStatus i W_processed (Some at) (Some t) (Some k) w2 = (Inr m, w')" and "m \<noteq> None"
    by (auto simp: processTransaction_def andThen_Inr_iff guardE_def split: if_splits)
  from neutralD [OF neutral_reconcile [OF quiet] rec]
  have w1: "hk_events w1 = hk_events w" "hk_audit w1 = hk_audit w" by simp_all
  from recordWebhook_Inr [OF wrote] obtain row obs where w2: "w2 = w1\<lparr>hk_audit := hk_audit w1 @ [row], hk_outbox := obs\<rparr>"
    and row: "ar_content row = webhook_audit d v i c"
    and sent: "\<forall>name. ve_normalizedType v = Some name \<longrightarrow> name \<noteq> [] \<longrightarrow>
        (\<exists>r \<in> set obs. ob_dedupeKey r = Some (''webhook:'' @ i @ '':'' @ name) \<and> ob_tenant r = t)" by blast
  from mark \<open>m \<noteq> None\<close> have held: "\<exists>r \<in> set (hk_events w2). eventScope i (Some t) r \<and> we_claimToken r = Some k"
    by (auto simp: markStatus_eq Let_def split: if_splits)
  from markStatus_state [OF mark] have "hk_events w' = marked_rows i W_processed (Some at) (Some t) k (hk_events w)"
    "hk_audit w' = hk_audit w @ [row]" "hk_outbox w' = obs" by (simp_all add: w2 w1)
  with row sent held show ?thesis by (auto simp: w2 w1)
qed

lemma processTransaction_triple:
  assumes quiet: "quiet_provider d"
  shows "triple (working k) (atomically (processTransaction d ids v at i c t (Some k))) (\<lambda>_. once_ok) (\<lambda>_. working k)"
proof (rule triple_atomically)
  show "triple (working k) (processTransaction d ids v at i c t (Some k)) (\<lambda>_. once_ok) (\<lambda>_ _. True)"
  proof (rule tripleI)
    fix w u w'
    assume w: "working k w" and run: "processTransaction d ids v at i c t (Some k) w = (Inr u, w')"
    from processTransaction_Inr [OF run quiet] obtain row r where
      audit: "hk_audit w' = hk_audit w @ [row]" "ar_content row = webhook_audit d v i c"
      and events: "hk_events w' = marked_rows i W_processed (Some at) (Some t) k (hk_events w)"
      and r: "r \<in> set (hk_events w)" "eventScope i (Some t) r" "we_claimToken r = Some k" by blast
    have one: "x = r" if "x \<in> set (hk_events w)" "we_id x = i" for x
      using that r w by (auto simp: working_def once_ok_def distinct_map eventScope_def dest: inj_onD)
    have "effects (we_id x') (hk_audit w') = (if we_status x' = W_processed then 1 else 0)" if x': "x' \<in> set (hk_events w')" for x'
    proof -
      from x' obtain x where x: "x \<in> set (hk_events w)"
        "x' = (if eventScope i (Some t) x \<and> we_claimToken x = Some k
          then x\<lparr>we_status := W_processed, we_processedAt := Some at\<rparr> else x)" by (auto simp: events marked_rows_def)
      show ?thesis
      proof (cases "we_id x = i")
        case True
        with one x(1) have "x = r" by simp
        moreover have "effects i (hk_audit w) = 0" using w r True one x(1) by (auto simp: working_def once_ok_def)
        ultimately show ?thesis using x(2) r True by (simp add: audit webhook_audit_def)
      next
        case False
        then have "x' = x" using x(2) by (simp add: eventScope_def)
        with False x(1) w show ?thesis by (simp add: audit webhook_audit_def working_def once_ok_def)
      qed
    qed
    moreover have "map we_id (hk_events w') = map we_id (hk_events w)" by (simp add: events marked_rows_def)
    ultimately show "once_ok w'" using w by (simp add: working_def once_ok_def)
  qed simp
qed simp


text \<open>The catalog reconcilers, which run outside the transaction, are other clients of the tables.\<close>

definition quiet_catalog :: "string \<Rightarrow> (('d, 'x) hook_db_scheme, 'd) hook_deps \<Rightarrow> bool" where
  "quiet_catalog k d \<longleftrightarrow> (\<forall>i t. preserves (working k) (wd_syncProduct d i t) \<and> preserves (working k) (wd_syncPrice d i t))"

lemma catalog_working: "quiet_catalog k d \<Longrightarrow> preserves (working k) (reconcileCatalog d v t)"
  unfolding reconcileCatalog_def Let_def quiet_catalog_def by (intro preserves_rules) simp_all

lemma triple_preserves: "preserves I m \<Longrightarrow> triple I m (\<lambda>_. I) (\<lambda>_. I)"
  by (simp add: triple_leads leads_preserves)

lemma processPipeline_triple:
  assumes "quiet_provider d" and "quiet_catalog k d" and "\<forall>n. hook_rely k (env n)"
  shows "triple (working k) (processPipeline d env ids v i c t (Some k)) (\<lambda>_. once_ok) (\<lambda>_. working k)"
  unfolding processPipeline_def
  by (intro triple_andThen [where R = "\<lambda>_. working k"] triple_preserves preserves_readState catalog_working
      rely_working processTransaction_triple assms assms(3) [rule_format])

lemma working_once: "working k w \<Longrightarrow> once_ok w" by (simp add: working_def)
lemma unclaimed_once: "unclaimed k w \<Longrightarrow> once_ok w" by (simp add: unclaimed_def)

lemma settle_claim_leads:
  assumes "quiet_provider d" and "quiet_catalog k d" and "\<forall>n. hook_rely k (env n)"
  shows "leads (working k)
    (catching (andThen (interference (env 1)) (\<lambda>_. processPipeline d env ids v i c t (Some k)))
      (\<lambda>e. if e = CLAIM_LOST then ret ()
        else andThen (interference (env 3)) (\<lambda>_.
          andThen (attempt (markStatus i W_failed None (Some t) (Some k))) (\<lambda>_. throw e)))) once_ok"
  unfolding triple_leads [symmetric]
proof (rule triple_catching)
  show "triple (working k) (andThen (interference (env 1)) (\<lambda>_. processPipeline d env ids v i c t (Some k)))
     (\<lambda>_. once_ok) (\<lambda>_. working k)"
    by (intro triple_andThen [where R = "\<lambda>_. working k"] triple_preserves rely_working
        processPipeline_triple assms assms(3) [rule_format])
  fix e
  have "leads (working k) (attempt (markStatus i W_failed None (Some t) (Some k))) once_ok"
    using mark_failed_leads [of k i "Some t"] unfolding leads_def attempt_def
    by (metis (mono_tags, lifting) case_prod_beta snd_conv)
  then have mark: "leads (working k) (andThen (attempt (markStatus i W_failed None (Some t) (Some k)))
      (\<lambda>_. throw e :: (_, unit) io)) once_ok"
    by (rule leads_andThen) (simp_all add: leads_def)
  have "leads (working k) (andThen (interference (env 3)) (\<lambda>_.
      andThen (attempt (markStatus i W_failed None (Some t) (Some k))) (\<lambda>_. throw e :: (_, unit) io))) once_ok"
    using rely_working [OF assms(3) [THEN spec], unfolded leads_preserves [symmetric]] mark working_once
    by (rule leads_andThen)
  moreover have "leads (working k) (ret ()) once_ok" by (simp add: leads_def working_def)
  ultimately show "triple (working k) (if e = CLAIM_LOST then ret () else andThen (interference (env 3)) (\<lambda>_.
      andThen (attempt (markStatus i W_failed None (Some t) (Some k))) (\<lambda>_. throw e))) (\<lambda>_. once_ok) (\<lambda>_. once_ok)"
    unfolding triple_leads by (rule leads_if [rotated])
qed


text \<open>
  A job's transaction commits as a whole or not at all. When it throws, because the provider,
  a table or the lost claim throws, the state is the one before; when it returns, the row of the
  event still held the job's claim and is marked processed, the audit log has the entry of the
  event as its new last entry, and a normalized event is in the outbox under its dedupe key.
\<close>

theorem webhook_transaction_atomic:
  assumes "quiet_provider d"
  shows "case atomically (processTransaction d ids v now i c t (Some k)) w of
      (Inl e, w') \<Rightarrow> w' = w
    | (Inr u, w') \<Rightarrow> \<exists>row. hk_audit w' = hk_audit w @ [row] \<and> ar_content row = webhook_audit d v i c
        \<and> hk_events w' = map (\<lambda>r. if eventScope i (Some t) r \<and> we_claimToken r = Some k
            then r\<lparr>we_status := W_processed, we_processedAt := Some now\<rparr> else r) (hk_events w)
        \<and> (\<exists>r \<in> set (hk_events w). eventScope i (Some t) r \<and> we_claimToken r = Some k)
        \<and> (\<forall>name. ve_normalizedType v = Some name \<longrightarrow> name \<noteq> [] \<longrightarrow>
            (\<exists>r \<in> set (hk_outbox w'). ob_dedupeKey r = Some (''webhook:'' @ i @ '':'' @ name) \<and> ob_tenant r = t))"
proof (cases "processTransaction d ids v now i c t (Some k) w")
  case (Pair r w')
  show ?thesis
  proof (cases r)
    case (Inl e)
    with Pair show ?thesis by (simp add: atomically_def)
  next
    case (Inr u)
    with Pair have "processTransaction d ids v now i c t (Some k) w = (Inr u, w')" by simp
    from processTransaction_Inr [OF this assms] Pair Inr show ?thesis by (simp add: atomically_def marked_rows_def)
  qed
qed


definition example_webhook :: "webhook_status \<Rightarrow> string option \<Rightarrow> unit webhook_event" where
  "example_webhook status token = \<lparr>we_id = ''whe_1'', we_tenant = [], we_provider = ''stripe'', we_providerEventId = ''evt_1'',
     we_type = ''payment_intent.succeeded'', we_normalizedType = Some ''payment.succeeded'', we_payload = ''{}'',
     we_signature = Some ''sig'', we_data = (), we_headers = [], we_status = status, we_correlationId = ''cor_1'',
     we_occurredAt = Some 5, we_receivedAt = 6, we_processedAt = None, we_claimedUntil = None, we_claimToken = token\<rparr>"

definition example_hook_db :: "unit webhook_event list \<Rightarrow> unit hook_db" where
  "example_hook_db events = \<lparr>idem_rows = (\<lambda>_. None), idem_now = 10,
     payments = [(example_payment P_processing 0)\<lparr>pay_provider := Some ''stripe'', pay_providerPaymentId := Some ''pi_1''\<rparr>],
     refunds = [], hk_subscriptions = [], hk_items = [], hk_bindings = [], hk_events = events, hk_audit = [], hk_outbox = []\<rparr>"

definition example_verified :: "unit verified_webhook" where
  "example_verified = verified_of (example_webhook W_pending None) (Some 5)"

definition example_hooks :: "(unit hook_db, unit) hook_deps" where
  "example_hooks = \<lparr>wd_providerName = ''stripe'', wd_hasWebhooks = True, wd_verify = Some (\<lambda>_ _ _. ret example_verified),
     wd_reconcilePayment = Some (\<lambda>_. Inr (Some \<lparr>pd_providerPaymentId = ''pi_1'', pd_status = P_succeeded\<rparr>)),
     wd_reconcileSubscription = Some (\<lambda>_. ret None), wd_resourceId = (\<lambda>_. None), wd_syncProduct = (\<lambda>_ _. ret ()),
     wd_syncPrice = (\<lambda>_ _. ret ()), wd_collate = id, wd_digest = (\<lambda>p. au_action (pl_content p)),
     wd_dispatch = (\<lambda>_. ret ()), wd_inline = False, wd_tenantEnabled = False, wd_tenantResolver = None\<rparr>"

definition example_job :: webhook_job where
  "example_job = \<lparr>wj_webhookEventId = ''whe_1'', wj_providerEventId = ''evt_1'', wj_correlationId = ''cor_1'', wj_tenant = None\<rparr>"

abbreviation example_run :: "(error + unit) \<times> unit hook_db" where
  "example_run \<equiv> processWebhook example_hooks (\<lambda>_ w. w) (\<lambda>_. ''id'') ''tok'' example_job
     (example_hook_db [example_webhook W_pending None])"

lemma example_hooks_quiet: "quiet_provider example_hooks" "quiet_catalog k example_hooks"
  by (auto simp: quiet_provider_def quiet_catalog_def example_hooks_def)


theorem webhook_transaction_atomic_witness:
  "\<exists>row. hk_audit (snd (atomically (processTransaction example_hooks (\<lambda>_. ''id'') example_verified 10 ''whe_1'' ''cor_1'' None (Some ''tok''))
      (example_hook_db [example_webhook W_processing (Some ''tok'')]))) = [row]
    \<and> ar_content row = webhook_audit example_hooks example_verified ''whe_1'' ''cor_1''"
proof -
  let ?w = "example_hook_db [example_webhook W_processing (Some ''tok'')]"
  let ?run = "atomically (processTransaction example_hooks (\<lambda>_. ''id'') example_verified 10 ''whe_1'' ''cor_1'' None (Some ''tok'')) ?w"
  have "fst ?run = Inr ()" by code_simp
  then obtain w' where run: "?run = (Inr (), w')" by (cases ?run) simp
  have "hk_audit ?w = []" by (simp add: example_hook_db_def)
  with webhook_transaction_atomic [OF example_hooks_quiet(1), where ids = "\<lambda>_. ''id''" and v = example_verified
      and now = 10 and i = "''whe_1''" and c = "''cor_1''" and t = None and k = "''tok''" and w = ?w]
  show ?thesis unfolding run by auto
qed

section \<open>Storing an event once\<close>

definition event_key :: "'d webhook_event \<Rightarrow> string \<times> string \<times> string" where
  "event_key r = (we_provider r, we_providerEventId r, we_tenant r)"

definition unique_events :: "('d, 'x) hook_db_scheme \<Rightarrow> bool" where
  "unique_events w \<longleftrightarrow> distinct (map event_key (hk_events w))"

text \<open>Other clients keep the unique index and remove no event.\<close>

definition store_rely :: "(('d, 'x) hook_db_scheme \<Rightarrow> ('d, 'x) hook_db_scheme) \<Rightarrow> bool" where
  "store_rely f \<longleftrightarrow> (\<forall>w. unique_events w \<longrightarrow> unique_events (f w)
     \<and> (\<lambda>r. (event_key r, we_id r)) ` set (hk_events w) \<subseteq> (\<lambda>r. (event_key r, we_id r)) ` set (hk_events (f w)))"

lemma same_provider_event_key: "same_provider_event p e t r \<longleftrightarrow> event_key r = (p, e, tenant_column t)"
  by (auto simp: same_provider_event_def event_key_def)

lemma createEvent_eq:
  "createEvent r w = (let row = r\<lparr>we_processedAt := None, we_claimedUntil := None, we_claimToken := None\<rparr> in
    if event_key r \<in> event_key ` set (hk_events w) then (Inl (ForeignError ''UNIQUE_VIOLATION''), w)
    else (Inr row, w\<lparr>hk_events := hk_events w @ [row]\<rparr>))"
proof -
  have "event_key r \<in> event_key ` set (hk_events w) \<longleftrightarrow> (\<exists>x \<in> set (hk_events w). we_provider x = we_provider r
      \<and> we_providerEventId x = we_providerEventId r \<and> we_tenant x = we_tenant r)"
    unfolding image_iff event_key_def prod.inject by metis
  then show ?thesis by (simp add: createEvent_def Let_def)
qed

lemma find_key_Some:
  assumes "(p, e, tenant_column t) \<in> event_key ` set rows"
  obtains r where "find (same_provider_event p e t) rows = Some r" "r \<in> set rows" "same_provider_event p e t r"
proof (cases "find (same_provider_event p e t) rows")
  case None
  from assms obtain r where "r \<in> set rows" "event_key r = (p, e, tenant_column t)" by auto
  with find_NoneD [OF None] show ?thesis by (simp add: same_provider_event_key)
next
  case (Some r)
  with find_SomeD [OF Some] that show ?thesis by blast
qed

text \<open>
  Storing a webhook always answers an event: exactly one row has its provider, provider event
  id and tenant afterwards, the answer carries the id of that row, and it is a duplicate unless
  this call inserted the row, which is then pending and without sensitive headers. This holds
  when other clients insert the same event before or after this call looked for it.
\<close>

theorem store_deduplicates:
  assumes uniq: "unique_events w" and env: "store_rely (env 0)" "store_rely (env 1)"
  shows "\<exists>s w' r. storeWebhookEvent provider env i c v payload signature headers t w = (Inr s, w')
    \<and> unique_events w' \<and> filter (same_provider_event provider (ve_providerEventId v) t) (hk_events w') = [r]
    \<and> we_id r = sw_id s
    \<and> (\<not> sw_duplicate s \<longrightarrow> we_status r = W_pending \<and> (\<forall>h \<in> set (we_headers r). \<not> isSensitiveKey (fst h)))"
proof -
  let ?same = "same_provider_event provider (ve_providerEventId v) t"
  let ?key = "(provider, ve_providerEventId v, tenant_column t)"
  have one: "filter ?same (hk_events x) = [r]" if "unique_events x" "r \<in> set (hk_events x)" "?same r" for x and r :: "'a webhook_event"
  proof (rule filter_single)
    show "distinct (hk_events x)" using that(1) by (simp add: unique_events_def distinct_map)
    show "y = r" if "y \<in> set (hk_events x)" "?same y" for y
      using that \<open>unique_events x\<close> \<open>r \<in> _\<close> \<open>?same r\<close>
      by (auto simp: unique_events_def same_provider_event_key distinct_map intro: inj_onD [of event_key "set (hk_events x)"])
  qed (use that in auto)
  show ?thesis
  proof (cases "find ?same (hk_events w)")
    case (Some r)
    with find_SomeD [OF Some] one [OF uniq] have "filter ?same (hk_events w) = [r]" by blast
    moreover have "storeWebhookEvent provider env i c v payload signature headers t w = (Inr (duplicate_of r), w)"
      using Some by (simp add: storeWebhookEvent_def findByProviderEvent_def)
    ultimately show ?thesis using uniq by (auto simp: duplicate_of_def)
  next
    case None
    let ?new = "\<lambda>now. new_event i provider c v payload signature headers t now"
    define w0 where "w0 = env 0 w"
    have u0: "unique_events w0" using env(1) uniq by (simp add: store_rely_def w0_def)
    have new_key: "event_key (?new n) = ?key" for n by (simp add: event_key_def new_event_def)
    show ?thesis
    proof (cases "?key \<in> event_key ` set (hk_events w0)")
      case False
      define row where "row = ?new (idem_now w0)"
      have plain: "row\<lparr>we_processedAt := None, we_claimedUntil := None, we_claimToken := None\<rparr> = row"
        by (simp add: row_def new_event_def)
      let ?w' = "w0\<lparr>hk_events := hk_events w0 @ [row]\<rparr>"
      have "storeWebhookEvent provider env i c v payload signature headers t w
          = (Inr \<lparr>sw_id = we_id row, sw_correlationId = c, sw_duplicate = False, sw_status = W_pending\<rparr>, ?w')"
        using None False plain new_key
        by (simp add: storeWebhookEvent_def findByProviderEvent_def interference_def andThen_def catching_def
            createEvent_eq Let_def w0_def row_def ret_def readState_def)
      moreover have "unique_events ?w'" using u0 False new_key by (simp add: unique_events_def row_def)
      moreover from this have "filter ?same (hk_events ?w') = [row]"
        using new_key by (intro one) (simp_all add: same_provider_event_key row_def)
      moreover have "we_status row = W_pending" "\<forall>h \<in> set (we_headers row). \<not> isSensitiveKey (fst h)"
        by (auto simp: row_def new_event_def redactHeaders_def)
      ultimately show ?thesis by (intro exI [of _ row] exI conjI) (assumption | simp)+
    next
      case True
      define w1 where "w1 = env 1 w0"
      have u1: "unique_events w1" using env(2) u0 by (simp add: store_rely_def w1_def)
      have "(\<lambda>r. (event_key r, we_id r)) ` set (hk_events w0) \<subseteq> (\<lambda>r. (event_key r, we_id r)) ` set (hk_events w1)"
        using env(2) u0 by (simp add: store_rely_def w1_def)
      from image_mono [OF this, of fst] True have "?key \<in> event_key ` set (hk_events w1)"
        by (auto simp: image_image)
      then obtain r where r: "find ?same (hk_events w1) = Some r" "r \<in> set (hk_events w1)" "?same r"
        by (rule find_key_Some)
      have "storeWebhookEvent provider env i c v payload signature headers t w = (Inr (duplicate_of r), w1)"
        using None True r(1) new_key
        by (simp add: storeWebhookEvent_def findByProviderEvent_def interference_def andThen_def catching_def
            createEvent_eq Let_def w0_def w1_def ret_def readState_def)
      moreover have "filter ?same (hk_events w1) = [r]" using one [OF u1 r(2,3)] .
      ultimately show ?thesis using u1 by (auto simp: duplicate_of_def)
    qed
  qed
qed

text \<open>A client that stores the same event in between.\<close>

definition example_racer :: "nat \<Rightarrow> unit hook_db \<Rightarrow> unit hook_db" where
  "example_racer n w = (if n = 0 then snd (createEvent (example_webhook W_processing None) w) else w)"

theorem store_deduplicates_witness:
  "\<exists>s w' r. storeWebhookEvent ''stripe'' example_racer ''whe_2'' ''cor_2'' example_verified ''{}'' None
      [(''Stripe-Signature'', ''s'')] None (example_hook_db []) = (Inr s, w')
    \<and> filter (same_provider_event ''stripe'' ''evt_1'' None) (hk_events w') = [r] \<and> we_id r = sw_id s"
proof -
  have uniq: "unique_events (example_hook_db [])" by (simp add: unique_events_def example_hook_db_def)
  have racer: "store_rely (example_racer 0)" "store_rely (example_racer 1)"
    by (auto simp: store_rely_def example_racer_def createEvent_eq Let_def unique_events_def example_webhook_def event_key_def)
  have "ve_providerEventId example_verified = ''evt_1''"
    by (simp add: example_verified_def verified_of_def example_webhook_def)
  then show ?thesis using store_deduplicates [OF uniq racer, where provider = "''stripe''" and i = "''whe_2''" and c = "''cor_2''"
      and v = example_verified and payload = "''{}''" and signature = None
      and headers = "[(''Stripe-Signature'', ''s'')]" and t = None] by metis
qed

section \<open>Subscriptions follow the provider's events in order\<close>

definition not_before :: "instant option \<Rightarrow> instant option \<Rightarrow> bool" where
  "not_before old new \<longleftrightarrow> (case old of None \<Rightarrow> True | Some x \<Rightarrow> (case new of None \<Rightarrow> False | Some y \<Rightarrow> x \<le> y))"

definition subscriptions_advance :: "('d, 'x) hook_db_scheme \<Rightarrow> ('d, 'x) hook_db_scheme \<Rightarrow> bool" where
  "subscriptions_advance w w' \<longleftrightarrow>
     list_all2 (\<lambda>s s'. sub_id s' = sub_id s \<and> moves subscription_map (sub_status s) (sub_status s'))
       (hk_subscriptions w) (hk_subscriptions w')
     \<and> list_all2 (\<lambda>b b'. bi_id b' = bi_id b \<and> not_before (bi_providerSyncedAt b) (bi_providerSyncedAt b'))
       (hk_bindings w) (hk_bindings w')"

lemma not_before_refl [simp]: "not_before x x" by (simp add: not_before_def split: option.split)

lemma list_all2_map_self: "(\<And>x. x \<in> set xs \<Longrightarrow> P x (f x)) \<Longrightarrow> list_all2 P xs (map f xs)"
  by (induction xs) auto

lemma list_all2_self: "(\<And>x. P x x) \<Longrightarrow> list_all2 P xs xs"
  by (simp add: list_all2_same)

lemma subscriptions_advance_refl:
  "hk_subscriptions w' = hk_subscriptions w \<Longrightarrow> hk_bindings w' = hk_bindings w \<Longrightarrow> subscriptions_advance w w'"
  by (auto simp: subscriptions_advance_def intro!: list_all2_self moves.stay)

lemma reconciled_moves:
  assumes "reconcileSubscriptionStatus c t = Some r"
  shows "moves subscription_map c (rec_status r)"
proof (cases "shortestEventPath c t")
  case (Some p)
  with assms show ?thesis
    using shortestEventPath_found_iff [of c t]
    by (cases p) (auto simp: reconcileSubscriptionStatus_def intro: moves.stay)
qed (use shortestEventPath_total in simp)

lemma updateItems_state: "\<exists>xs. updateItems i t rs w = (Inr (), w\<lparr>hk_items := xs\<rparr>)"
proof (induction rs arbitrary: w)
  case Nil
  show ?case by (intro exI [of _ "hk_items w"]) simp
next
  case (Cons r rs)
  obtain xs where "updateItemById i (ir_itemId r) \<lparr>xp_priceId = Some (ir_priceId r),
       xp_providerItemId = Some (ir_providerItemId r), xp_quantity = Some (ir_quantity r)\<rparr> t w = (Inr (), w\<lparr>hk_items := xs\<rparr>)" by (simp add: updateItemById_def)
  with Cons [of "w\<lparr>hk_items := xs\<rparr>"] show ?case by (auto simp: andThen_def)
qed

lemma reconcileItems_state: "\<exists>item xs. reconcileItems c s items t w = (Inr item, w\<lparr>hk_items := xs\<rparr>)"
proof -
  have stay: "\<exists>item xs. ret None w = (Inr (item :: (string \<times> int) option), w\<lparr>hk_items := xs\<rparr>)"
    by (intro exI [of _ None] exI [of _ "hk_items w"]) simp
  have "\<exists>item xs. andThen (updateItems i t rs) (\<lambda>_. ret x) w = (Inr item, w\<lparr>hk_items := xs\<rparr>)" for i rs and x :: "(string \<times> int) option"
    using updateItems_state [of i t rs w] by (auto simp: andThen_def)
  with stay show ?thesis
    by (cases items) (auto simp: reconcileItems_def listBySubscription_def Let_def)
qed

lemma updateProviderSyncedAt_state:
  "updateProviderSyncedAt i at' t w = (r, w') \<Longrightarrow> w' = w\<lparr>hk_bindings := map (\<lambda>b. if scopedBinding i t b
     then b\<lparr>bi_providerSyncedAt := Some at', bi_updatedAt := idem_now w\<rparr> else b) (hk_bindings w)\<rparr>"
  by (auto simp: updateProviderSyncedAt_def Let_def split: option.splits)

lemma patch_advances:
  assumes ids: "distinct (map sub_id (hk_subscriptions w))" and s: "s \<in> set (hk_subscriptions w)"
    and move: "moves subscription_map (sub_status s) status" "sp_status u = Some status"
  shows "list_all2 (\<lambda>s s'. sub_id s' = sub_id s \<and> moves subscription_map (sub_status s) (sub_status s'))
    (hk_subscriptions w)
    (map (\<lambda>x. if scopedSubscription (sub_id s) t x then patchSubscription u now x else x) (hk_subscriptions w))"
proof (rule list_all2_map_self)
  fix x
  assume x: "x \<in> set (hk_subscriptions w)"
  have "x = s" if "sub_id x = sub_id s" using that ids s x by (auto simp: distinct_map dest: inj_onD)
  with move show "sub_id (if scopedSubscription (sub_id s) t x then patchSubscription u now x else x) = sub_id x
    \<and> moves subscription_map (sub_status x) (sub_status (if scopedSubscription (sub_id s) t x then patchSubscription u now x else x))"
    by (auto simp: scopedSubscription_def patchSubscription_def patched_def intro: moves.stay)
qed

lemma binding_advances:
  assumes ids: "distinct (map bi_id (hk_bindings w))" and b: "b \<in> set (hk_bindings w)"
    and later: "not_before (bi_providerSyncedAt b) (Some at')"
  shows "list_all2 (\<lambda>b b'. bi_id b' = bi_id b \<and> not_before (bi_providerSyncedAt b) (bi_providerSyncedAt b'))
    (hk_bindings w) (map (\<lambda>x. if scopedBinding (bi_id b) t x
      then x\<lparr>bi_providerSyncedAt := Some at', bi_updatedAt := now\<rparr> else x) (hk_bindings w))"
proof (rule list_all2_map_self)
  fix x
  assume x: "x \<in> set (hk_bindings w)"
  have "x = b" if "bi_id x = bi_id b" using that ids b x by (auto simp: distinct_map dest: inj_onD)
  with later show "bi_id (if scopedBinding (bi_id b) t x then x\<lparr>bi_providerSyncedAt := Some at', bi_updatedAt := now\<rparr> else x) = bi_id x
    \<and> not_before (bi_providerSyncedAt x) (bi_providerSyncedAt (if scopedBinding (bi_id b) t x
      then x\<lparr>bi_providerSyncedAt := Some at', bi_updatedAt := now\<rparr> else x))"
    by (auto simp: scopedBinding_def)
qed

lemma applySubscription_advances:
  assumes ids: "distinct (map sub_id (hk_subscriptions w))" "distinct (map bi_id (hk_bindings w))"
    and s: "s \<in> set (hk_subscriptions w)" and b: "\<And>x. b = Some x \<Longrightarrow> x \<in> set (hk_bindings w)"
    and run: "applySubscription c v dto at' t b s w = (r, w')"
  shows "subscriptions_advance w w'" and "outdated (ve_occurredAt v) (last_synced b s) \<Longrightarrow> w' = w"
proof -
  show "subscriptions_advance w w'"
  proof (cases "outdated (ve_occurredAt v) (last_synced b s)")
    case True
    with run show ?thesis by (auto simp: applySubscription_def intro: subscriptions_advance_refl)
  next
    case False
    obtain item xs where items: "reconcileItems c s (sd_items dto) t w = (Inr item, w\<lparr>hk_items := xs\<rparr>)"
      using reconcileItems_state by metis
    show ?thesis
    proof (cases "reconcileSubscriptionStatus (sub_status s) (sd_status dto)")
      case None
      with run False items show ?thesis
        by (auto simp: applySubscription_def andThen_def intro: subscriptions_advance_refl)
    next
      case rec: (Some rc)
      let ?u = "subscription_patch_of s b dto (rec_status rc) item (ve_occurredAt v) at'"
      obtain r1 w1 where up: "updateSubscription (sub_id s) ?u t (w\<lparr>hk_items := xs\<rparr>) = (r1, w1)" by fastforce
      note w1 = updateSubscription_state [OF up]
      have "sp_status ?u = Some (rec_status rc)" by (simp add: subscription_patch_of_def Let_def)
      note subs = patch_advances [OF ids(1) s reconciled_moves [OF rec] this]
      then have one: "subscriptions_advance w w1" using w1 by (auto simp: subscriptions_advance_def intro: list_all2_self)
      have later: "not_before (bi_providerSyncedAt x) (Some o')" if "b = Some x" "ve_occurredAt v = Some o'" for x o'
        using False that by (auto simp: outdated_def last_synced_def not_before_def split: option.splits)
      show ?thesis
      proof (cases "rec_applied rc \<and> (\<exists>u. r1 = Inr u) \<and> (\<exists>o' x. ve_occurredAt v = Some o' \<and> b = Some x)")
        case True
        then obtain o' x where ox: "ve_occurredAt v = Some o'" "b = Some x" by blast
        obtain r2 w2 where sync: "updateProviderSyncedAt (bi_id x) o' t w1 = (r2, w2)" by fastforce
        have "w' = w2" using run False items rec up True ox sync
          by (auto simp: applySubscription_def andThen_def split: sum.splits)
        with updateProviderSyncedAt_state [OF sync] binding_advances [OF ids(2) b [OF ox(2)] later [OF ox(2,1)]] subs
        show ?thesis by (simp add: w1 subscriptions_advance_def)
      next
        case False': False
        with run False items rec up have "w' = w1 \<or> w' = w\<lparr>hk_items := xs\<rparr>"
          by (auto simp: applySubscription_def andThen_def split: sum.splits option.splits if_splits)
        with one show ?thesis by (auto intro: subscriptions_advance_refl)
      qed
    qed
  qed
  show "w' = w" if "outdated (ve_occurredAt v) (last_synced b s)"
    using run that by (simp add: applySubscription_def)
qed


text \<open>
  C29. Reconciling a subscription with a provider's event follows the provider in order: each
  subscription keeps its id and its status moves along the edges of the state machine only, the
  time a binding was last synchronized never goes back, and an event that is not newer than the
  binding's last one changes nothing.
\<close>

theorem subscription_events_in_order:
  assumes ids: "distinct (map sub_id (hk_subscriptions w))" "distinct (map bi_id (hk_bindings w))"
    and f: "wd_reconcileSubscription d = Some f" "f v w = (answer, w)"
    and run: "reconcileWebhookSubscription d v occurredAt t w = (r, w')"
  shows "subscriptions_advance w w'
    \<and> (\<forall>dto b synced received. answer = Inr (Some dto) \<longrightarrow>
        findBindingByProviderId (wd_providerName d) (sd_providerSubscriptionId dto) t w = (Inr (Some b), w) \<longrightarrow>
        bi_providerSyncedAt b = Some synced \<longrightarrow> ve_occurredAt v = Some received \<longrightarrow> received \<le> synced \<longrightarrow> w' = w)"
proof (cases "wd_hasWebhooks d \<and> wd_verify d \<noteq> None \<and> (\<exists>dto. answer = Inr (Some dto))")
  case False
  then have "w' = w" using run f
    by (auto simp: reconcileWebhookSubscription_def requireWebhooks_def andThen_def guardE_def split: sum.splits option.splits if_splits)
  then show ?thesis by (simp add: subscriptions_advance_refl)
next
  case True
  then obtain dto where dto: "answer = Inr (Some dto)" by blast
  define b where "b = find (\<lambda>b. bi_provider b = wd_providerName d \<and> bi_providerSubscriptionId b = sd_providerSubscriptionId dto
      \<and> tenant_column (bi_tenant b) = tenant_column t) (hk_bindings w)"
  have b_found: "findBindingByProviderId (wd_providerName d) (sd_providerSubscriptionId dto) t w = (Inr b, w)"
    by (simp add: findBindingByProviderId_def b_def)
  obtain s where found: "findLocalSubscription (wd_providerName d) (sd_providerSubscriptionId dto) t w = (Inr (b, s), w)"
    and s: "\<And>x. s = Some x \<Longrightarrow> x \<in> set (hk_subscriptions w)"
    using b_found
    by (cases b) (auto simp: findLocalSubscription_def andThen_def findSubscription_def findSubscriptionByProviderId_def
        dest!: find_SomeD)
  have bin: "x \<in> set (hk_bindings w)" if "b = Some x" for x using that find_SomeD unfolding b_def by fastforce
  show ?thesis
  proof (cases s)
    case None
    with run True f dto found have "w' = w"
      by (auto simp: reconcileWebhookSubscription_def requireWebhooks_def andThen_def guardE_def)
    then show ?thesis by (simp add: subscriptions_advance_refl)
  next
    case (Some x)
    with run True f dto found have app: "applySubscription (wd_collate d) v dto occurredAt t b x w = (r, w')"
      by (auto simp: reconcileWebhookSubscription_def requireWebhooks_def andThen_def guardE_def)
    from applySubscription_advances [OF ids s [OF Some] bin app]
    show ?thesis using dto b_found by (auto simp: outdated_def last_synced_def)
  qed
qed

declare walkBack.simps [code]

definition example_subscription :: subscription where
  "example_subscription = \<lparr>sub_id = ''sub_1'', sub_tenant = None, sub_customerId = ''cus_1'', sub_name = ''default'',
     sub_provider = Some ''stripe'', sub_providerSubscriptionId = Some ''psub_1'', sub_status = S_active,
     sub_priceId = Some ''pro'', sub_quantity = 1, sub_canonicalPriceId = None, sub_canonicalProductId = None,
     sub_acceptedCurrency = None, sub_acceptedUnitAmount = None, sub_acceptedInterval = None, sub_acceptedIntervalCount = None,
     sub_acceptedQuantity = None, sub_collectionResponsibility = CR_provider, sub_creationSource = None, sub_trialEndsAt = None,
     sub_endsAt = None, sub_currentPeriodStart = None, sub_currentPeriodEnd = Some 50, sub_providerSyncedAt = Some 3, sub_scheduledChangeAction = None,
     sub_scheduledChangeEffectiveAt = None, sub_scheduledResumeAt = None, sub_resumeBillingPolicy = None,
     sub_paymentCollectionPauseBehavior = None, sub_paymentCollectionResumesAt = None, sub_createdAt = 0,
     sub_updatedAt = 0\<rparr>"

definition example_binding :: binding where
  "example_binding = \<lparr>bi_id = ''bi_1'', bi_tenant = None, bi_subscriptionId = ''sub_1'', bi_provider = ''stripe'',
     bi_providerSubscriptionId = ''psub_1'', bi_providerSyncedAt = Some 3, bi_updatedAt = 0\<rparr>"

definition example_past_due :: subscription_dto where
  "example_past_due = \<lparr>sd_providerSubscriptionId = ''psub_1'', sd_status = S_past_due, sd_currentPeriodEnd = Some 60,
     sd_trialEndsAt = None, sd_scheduledChangeAction = None, sd_scheduledChangeEffectiveAt = None,
     sd_scheduledResumeAt = None, sd_resumeBillingPolicy = None, sd_paymentCollectionPauseBehavior = None,
     sd_paymentCollectionResumesAt = None, sd_items = Some [\<lparr>li_priceId = ''pro'', li_quantity = 2, pi_providerItemId = Some ''si_1''\<rparr>]\<rparr>"

definition example_subscription_db :: "unit hook_db" where
  "example_subscription_db = (example_hook_db [])\<lparr>hk_subscriptions := [example_subscription], hk_bindings := [example_binding]\<rparr>"

theorem subscription_events_in_order_witness:
  "\<exists>w'. reconcileWebhookSubscription (example_hooks\<lparr>wd_reconcileSubscription := Some (\<lambda>_. ret (Some example_past_due))\<rparr>)
      example_verified 5 None example_subscription_db = (Inr (), w')
    \<and> map sub_status (hk_subscriptions w') = [S_past_due] \<and> map bi_providerSyncedAt (hk_bindings w') = [Some 5]
    \<and> subscriptions_advance example_subscription_db w'"
proof -
  let ?d = "example_hooks\<lparr>wd_reconcileSubscription := Some (\<lambda>_. ret (Some example_past_due))\<rparr>"
  let ?run = "reconcileWebhookSubscription ?d example_verified 5 None example_subscription_db"
  have "fst ?run = Inr () \<and> map sub_status (hk_subscriptions (snd ?run)) = [S_past_due]
      \<and> map bi_providerSyncedAt (hk_bindings (snd ?run)) = [Some 5]" by code_simp
  moreover obtain r w' where run: "?run = (r, w')" by (cases ?run)
  moreover have "subscriptions_advance example_subscription_db w'"
  proof -
    have "distinct (map sub_id (hk_subscriptions example_subscription_db))"
      "distinct (map bi_id (hk_bindings example_subscription_db))"
      "wd_reconcileSubscription ?d = Some (\<lambda>_. ret (Some example_past_due))"
      "(\<lambda>_. ret (Some example_past_due)) example_verified example_subscription_db
        = (Inr (Some example_past_due), example_subscription_db)"
      by (simp_all add: example_subscription_db_def)
    from subscription_events_in_order [OF this run] show ?thesis by (rule conjunct1)
  qed
  ultimately show ?thesis by auto
qed

section \<open>Replays are guarded\<close>

text \<open>
  C30. A webhook is replayed only by an authorized actor and in its own tenant: otherwise, when the
  event is not there, and when a provider that verifies webhooks meets an event without a
  signature, the replay throws and the state is unchanged.
\<close>

theorem replay_guarded:
  assumes "\<not> isAuthorized context \<or> find (eventScope i scope) (hk_events w) = None
    \<or> (\<exists>event. find (eventScope i scope) (hk_events w) = Some event
        \<and> (event_tenant event \<noteq> or_else scope None \<or> wd_hasWebhooks d \<and> we_signature event = None))"
  shows "\<exists>e. replayWebhook d env ids token c i context scope w = (Inl e, w)"
proof (cases "isAuthorized context \<and> (\<exists>event. find (eventScope i scope) (hk_events w) = Some event
    \<and> event_tenant event = or_else scope None)")
  case True
  with assms show ?thesis
    by (auto simp: replayWebhook_def findEvent_def andThen_guardE replay_verify_def requireWebhooks_def andThen_assoc
        andThen_def [of "throw e" for e] split: option.split)
next
  case False
  then show ?thesis
    by (auto simp: replayWebhook_def findEvent_def andThen_guardE Let_def split: option.split)
qed

theorem replay_guarded_witness:
  "\<exists>e. replayWebhook example_hooks (\<lambda>_ w. w) (\<lambda>_. ''id'') ''tok'' ''cor'' ''whe_1''
      \<lparr>ac_actorType = None, ac_actorId = Some ''ops'', ac_allowed = Some True\<rparr> (Some (Some ''other''))
      (example_hook_db [example_webhook W_processed None]) = (Inl e, example_hook_db [example_webhook W_processed None])"
  by (rule replay_guarded) (simp add: example_hook_db_def example_webhook_def eventScope_def tenant_column_def)

section \<open>Payments\<close>

lemma unrefunded_after_move:
  assumes "tryTransitionTo s target = (Inr True, s')" and "target \<notin> {P_refunded, P_partially_refunded}"
  shows "s' = target \<and> s \<notin> {P_refunded, P_partially_refunded}"
  using assms
  by (cases s; cases target; simp add: tryTransitionTo_def payment_can_def canTransition_def payment_to_def
      applyTransition_def nextStatus_def transitions_def payment_map_def)


lemma transition_moves:
  assumes "tryTransitionTo s target = (Inr True, s')"
  shows "moves payment_map s s'"
proof -
  from assms obtain e where "payment_to s e = Inr s'"
    by (auto simp: tryTransitionTo_def Let_def split: if_splits option.splits sum.splits)
  then show ?thesis by (auto simp: payment_to_def intro: moves.intros)
qed

lemma updatePayment_state:
  "updatePayment i f t w = (r, w') \<Longrightarrow> w' = w\<lparr>payments := map (\<lambda>p. if scopedPayment i t p
     then (f p)\<lparr>pay_updatedAt := idem_now w\<rparr> else p) (payments w)\<rparr>"
  by (auto simp: updatePayment_def updatePaymentsWhere_def andThen_def findPayment_def split: option.splits)

lemma webhook_payment_cases:
  assumes run: "reconcileWebhookPayment d v at' t w = (r, w')"
  obtains "w' = w"
  | f dto local status where "wd_reconcilePayment d = Some f" "f v = Inr (Some dto)" "local \<in> set (payments w)"
      "tryTransitionTo (pay_status local) (pd_status dto) = (Inr True, status)"
      "\<exists>p. updatePayment (pay_id local) (payment_patch status at' local) t w = (p, w')"
proof (cases "wd_reconcilePayment d")
  case None
  with run that(1) show ?thesis by (simp add: reconcileWebhookPayment_def)
next
  case f: (Some f)
  show ?thesis
  proof (cases "\<exists>dto local. f v = Inr (Some dto)
      \<and> findPaymentByProviderId (wd_providerName d) (pd_providerPaymentId dto) t w = (Inr (Some local), w)
      \<and> \<not> isSupersededAuthorization (pay_status local) (pay_authorizedAt local) (pay_providerPaymentId local)
          (pd_status dto) (pd_providerPaymentId dto)
      \<and> (\<exists>status. tryTransitionTo (pay_status local) (pd_status dto) = (Inr True, status))")
    case True
    then obtain dto local status where *: "f v = Inr (Some dto)"
      "findPaymentByProviderId (wd_providerName d) (pd_providerPaymentId dto) t w = (Inr (Some local), w)"
      "\<not> isSupersededAuthorization (pay_status local) (pay_authorizedAt local) (pay_providerPaymentId local)
          (pd_status dto) (pd_providerPaymentId dto)"
      "tryTransitionTo (pay_status local) (pd_status dto) = (Inr True, status)" by blast
    from *(2) have "local \<in> set (payments w)" by (auto simp: findPaymentByProviderId_def dest!: find_SomeD)
    moreover have "\<exists>p. updatePayment (pay_id local) (payment_patch status at' local) t w = (p, w')"
      using run f * by (auto simp: reconcileWebhookPayment_def andThen_def split: prod.splits sum.splits)
    ultimately show ?thesis using that(2) f *(1,4) by blast
  next
    case False
    have "w' = w" using run f False
      by (auto simp: reconcileWebhookPayment_def andThen_def findPaymentByProviderId_def
          split: prod.splits sum.splits option.splits if_splits bool.splits)
    then show ?thesis by (rule that(1))
  qed
qed

text \<open>
  A payment event of a provider moves payments along the edges of the state machine only, and
  keeps the ledger of payments and refunds unless the provider reports a refund: those are left to
  the refund action, which counts the refunded amount.
\<close>

theorem webhook_payment_keeps_ledger:
  assumes ok: "ledger_ok w" and run: "reconcileWebhookPayment d v occurredAt t w = (r, w')"
    and reports: "\<And>f dto. wd_reconcilePayment d = Some f \<Longrightarrow> f v = Inr (Some dto) \<Longrightarrow>
      pd_status dto \<notin> {P_refunded, P_partially_refunded}"
  shows "ledger_ok w' \<and> list_all2 (\<lambda>p p'. pay_id p' = pay_id p \<and> pay_amount p' = pay_amount p
    \<and> moves payment_map (pay_status p) (pay_status p')) (payments w) (payments w')"
  using run
proof (cases rule: webhook_payment_cases)
  case 1
  with ok show ?thesis by (auto intro!: list_all2_self moves.stay)
next
  case (2 f dto local status)
  let ?u = "\<lambda>p. (payment_patch status occurredAt local p)\<lparr>pay_updatedAt := idem_now w\<rparr>"
  from 2(5) obtain p where "updatePayment (pay_id local) (payment_patch status occurredAt local) t w = (p, w')" by blast
  from updatePayment_state [OF this] have w': "w' = w\<lparr>payments := map (\<lambda>p. if scopedPayment (pay_id local) t p
     then ?u p else p) (payments w)\<rparr>" .
  have same: "p = local" if "p \<in> set (payments w)" "scopedPayment (pay_id local) t p" for p
    using that 2(3) ledger_okD(1) [OF ok] by (auto simp: scopedPayment_def distinct_map dest: inj_onD)
  from unrefunded_after_move [OF 2(4) reports [OF 2(1,2)]]
  have plain: "status \<notin> {P_refunded, P_partially_refunded}" "pay_status local \<notin> {P_refunded, P_partially_refunded}"
    using reports [OF 2(1,2)] by auto
  have "list_all2 (\<lambda>p p'. pay_id p' = pay_id p \<and> pay_amount p' = pay_amount p
      \<and> moves payment_map (pay_status p) (pay_status p')) (payments w) (payments w')"
    unfolding w' using same transition_moves [OF 2(4)]
    by (simp, intro list_all2_map_self) (auto simp: payment_patch_def intro: moves.stay)
  moreover have "ledger_ok w'"
  proof (cases "scopedPayment (pay_id local) t local")
    case False
    with same have "\<not> scopedPayment (pay_id local) t p" if "p \<in> set (payments w)" for p using that by metis
    then have "payments w' = payments w" by (simp add: w' map_idI)
    moreover have "refunds w' = refunds w" by (simp add: w')
    ultimately have "ledger_ok w' = ledger_ok w" by (rule ledger_ok_cong)
    with ok show ?thesis by (rule iffD2 [rotated])
  next
    case True
    show ?thesis
    proof (rule ledger_change [OF ok 2(3), where p' = "?u local"])
      show "payments w' = map (\<lambda>q. if q = local then ?u local else q) (payments w)"
        unfolding w' using same True by (auto intro!: map_cong)
      show "status_matches (?u local)"
      proof -
        have "status_matches local" using ok 2(3) by (simp add: ledger_ok_def)
        with plain(2) have "pay_refundedAmount local = 0" by (cases "pay_status local") (simp_all add: status_matches_def)
        with plain(1) show ?thesis by (cases status) (simp_all add: status_matches_def payment_patch_def)
      qed
    qed (use ledger_okD [OF ok] 2(3) in \<open>simp_all add: w' payment_patch_def\<close>)
  qed
  ultimately show ?thesis by blast
qed

theorem webhook_payment_keeps_ledger_witness:
  "\<exists>w'. reconcileWebhookPayment example_hooks example_verified 5 None (example_hook_db []) = (Inr (), w')
    \<and> ledger_ok w' \<and> map pay_status (payments w') = [P_succeeded]"
proof -
  let ?run = "reconcileWebhookPayment example_hooks example_verified 5 None (example_hook_db [])"
  have ok: "ledger_ok (example_hook_db [])"
    by (simp add: ledger_ok_def example_hook_db_def example_payment_def status_matches_def)
  obtain r w' where run: "?run = (r, w')" by (cases ?run)
  have "ledger_ok w' \<and> list_all2 (\<lambda>p p'. pay_id p' = pay_id p \<and> pay_amount p' = pay_amount p
    \<and> moves payment_map (pay_status p) (pay_status p')) (payments (example_hook_db [])) (payments w')"
    by (rule webhook_payment_keeps_ledger [OF ok run]) (auto simp: example_hooks_def)
  moreover have "fst ?run = Inr () \<and> map pay_status (payments (snd ?run)) = [P_succeeded]" by code_simp
  ultimately show ?thesis using run by auto
qed

end
