(* ===== verification/Blocked_Hosts.thy ===== *)
theory Blocked_Hosts
  imports Request_Keys "HOL-Library.Word"
begin

text \<open>
  \<open>support/net/blocked-host.ts\<close>: which hosts a webhook endpoint must not name, because they
  lead back into the network of the server. Numbers are read as integers of any size: the
  source's doubles agree with them wherever the comparisons look. The reference is the list of
  address ranges, on 32-bit words.
\<close>

unbundle bit_operations_syntax

section \<open>Reading hosts\<close>

definition normalizeHost :: "string \<Rightarrow> string" where
  "normalizeHost v = (let a = (case v of c # s \<Rightarrow> if c = CHR ''['' then s else v | [] \<Rightarrow> v);
      b = (if a \<noteq> [] \<and> last a = CHR '']'' then butlast a else a) in map lower_char b)"

definition is_hex :: "char \<Rightarrow> bool" where
  "is_hex c \<longleftrightarrow> is_digit c \<or> (97::nat) \<le> of_char c \<and> of_char c \<le> (102::nat)"

definition is_octal :: "char \<Rightarrow> bool" where
  "is_octal c \<longleftrightarrow> (48::nat) \<le> of_char c \<and> of_char c \<le> (55::nat)"

definition nibble_of :: "char \<Rightarrow> int" where
  "nibble_of c = (if is_digit c then int (of_char c) - 48 else int (of_char c) - 87)"

definition parse_base :: "int \<Rightarrow> string \<Rightarrow> int" where
  "parse_base base s = foldl (\<lambda>n c. n * base + nibble_of c) 0 s"

definition parseUint :: "string \<Rightarrow> int option" where
  "parseUint part =
    (if take 2 part = ''0x'' \<and> drop 2 part \<noteq> [] \<and> list_all is_hex (drop 2 part)
     then Some (parse_base 16 (drop 2 part))
     else if take 1 part = ''0'' \<and> drop 1 part \<noteq> [] \<and> list_all is_octal (drop 1 part)
     then Some (parse_base 8 (drop 1 part))
     else if part \<noteq> [] \<and> list_all is_digit part then Some (parse_base 10 part)
     else None)"

fun split_on :: "char \<Rightarrow> string \<Rightarrow> string list" where
  "split_on c [] = [[]]"
| "split_on c (x # xs) = (if x = c then [] # split_on c xs
     else (case split_on c xs of y # ys \<Rightarrow> (x # y) # ys | [] \<Rightarrow> [[x]]))"

type_synonym octets = "int \<times> int \<times> int \<times> int"

fun octets_of :: "int option list \<Rightarrow> octets option" where
  "octets_of [Some a, Some b, Some c, Some d] =
    (if a \<le> 255 \<and> b \<le> 255 \<and> c \<le> 255 \<and> d \<le> 255 then Some (a, b, c, d) else None)"
| "octets_of _ = None"

text \<open>A number without dots is cut into octets by the 32-bit operators of the source.\<close>

definition cut_octets :: "32 word \<Rightarrow> octets" where
  "cut_octets v = (uint (drop_bit 24 v AND 255), uint (drop_bit 16 v AND 255), uint (drop_bit 8 v AND 255), uint (v AND 255))"

definition parseIpv4 :: "string \<Rightarrow> octets option" where
  "parseIpv4 host =
    (if CHR ''.'' \<in> set host
     then (let parts = split_on CHR ''.'' host in
           if length parts \<noteq> 4 then None else octets_of (map parseUint parts))
     else (case parseUint host of
         None \<Rightarrow> None
       | Some v \<Rightarrow> if v > 4294967295 then None else Some (cut_octets (of_int v))))"

section \<open>The ranges\<close>

definition isReservedDocumentationIpv4 :: "int \<Rightarrow> int \<Rightarrow> int \<Rightarrow> bool" where
  "isReservedDocumentationIpv4 first second third \<longleftrightarrow>
     first = 192 \<and> second = 0 \<and> (third = 0 \<or> third = 2)
   \<or> first = 198 \<and> second = 51 \<and> third = 100
   \<or> first = 203 \<and> second = 0 \<and> third = 113"

fun isBlockedIpv4 :: "octets \<Rightarrow> bool" where
  "isBlockedIpv4 (first, second, third, _) \<longleftrightarrow>
     first = 0 \<or> first = 10 \<or> first = 127
   \<or> first \<ge> 224
   \<or> first = 169 \<and> second = 254
   \<or> first = 192 \<and> second = 168
   \<or> first = 172 \<and> second \<ge> 16 \<and> second \<le> 31
   \<or> first = 100 \<and> second \<ge> 64 \<and> second \<le> 127
   \<or> first = 198 \<and> (second = 18 \<or> second = 19)
   \<or> isReservedDocumentationIpv4 first second third"

text \<open>The two prefixes of an address that embeds an IPv4 one.\<close>

definition embedding_rest :: "string \<Rightarrow> string option" where
  "embedding_rest host = (if take 7 host = ''::ffff:'' then Some (drop 7 host)
     else if take 9 host = ''64:ff9b::'' then Some (drop 9 host) else None)"

definition dotted_digits :: "string \<Rightarrow> bool" where
  "dotted_digits s \<longleftrightarrow> length (split_on CHR ''.'' s) = 4
     \<and> list_all (\<lambda>p. p \<noteq> [] \<and> list_all is_digit p) (split_on CHR ''.'' s)"

definition hex_group :: "string \<Rightarrow> bool" where
  "hex_group s \<longleftrightarrow> 1 \<le> length s \<and> length s \<le> 4 \<and> list_all is_hex s"

definition hex_octets :: "32 word \<Rightarrow> 32 word \<Rightarrow> octets" where
  "hex_octets high low = (uint (drop_bit 8 high AND 255), uint (high AND 255),
     uint (drop_bit 8 low AND 255), uint (low AND 255))"

definition embeddedIpv4 :: "string \<Rightarrow> octets option" where
  "embeddedIpv4 host = (case embedding_rest host of
      None \<Rightarrow> None
    | Some s \<Rightarrow> if dotted_digits s then parseIpv4 s
        else (case split_on CHR '':'' s of
            [h, l] \<Rightarrow> if hex_group h \<and> hex_group l
              then Some (hex_octets (of_int (parse_base 16 h)) (of_int (parse_base 16 l))) else None
          | _ \<Rightarrow> None))"

text \<open>The loopback address written out: seven zero groups, and a one with leading zeros.\<close>

definition long_loopback :: "string \<Rightarrow> bool" where
  "long_loopback s \<longleftrightarrow> take 14 s = ''0:0:0:0:0:0:0:''
     \<and> (let r = drop 14 s in r \<noteq> [] \<and> last r = CHR ''1'' \<and> list_all (\<lambda>c. c = CHR ''0'') (butlast r))"

definition LOCAL_PREFIXES :: "string list" where
  "LOCAL_PREFIXES = [''fc'', ''fd'', ''fe8'', ''fe9'', ''fea'', ''feb'']"

definition isBlockedIpv6 :: "string \<Rightarrow> bool" where
  "isBlockedIpv6 host \<longleftrightarrow> (let zoneless = takeWhile (\<lambda>c. c \<noteq> CHR ''%'') host in
     if zoneless = ''::1'' \<or> zoneless = ''::'' \<or> long_loopback zoneless then True
     else (case embeddedIpv4 zoneless of
         Some e \<Rightarrow> isBlockedIpv4 e
       | None \<Rightarrow> list_ex (\<lambda>p. take (length p) zoneless = p) LOCAL_PREFIXES))"

definition isBlockedIp :: "string \<Rightarrow> bool" where
  "isBlockedIp address \<longleftrightarrow> (let host = normalizeHost address in
     case parseIpv4 host of Some v \<Rightarrow> isBlockedIpv4 v | None \<Rightarrow> isBlockedIpv6 host)"

definition ends_with :: "string \<Rightarrow> string \<Rightarrow> bool" where
  "ends_with suffix s \<longleftrightarrow> length suffix \<le> length s \<and> drop (length s - length suffix) s = suffix"

definition isBlockedHostname :: "string \<Rightarrow> bool" where
  "isBlockedHostname hostname \<longleftrightarrow> (let host = normalizeHost hostname in
     if host = ''localhost'' \<or> ends_with ''.localhost'' host then True else isBlockedIp host)"

section \<open>The reference\<close>

text \<open>An address range: a network and the length of its prefix.\<close>

definition in_range :: "32 word \<times> nat \<Rightarrow> 32 word \<Rightarrow> bool" where
  "in_range r a \<longleftrightarrow> (case r of (net, len) \<Rightarrow> drop_bit (32 - len) a = drop_bit (32 - len) net)"

definition address :: "int \<Rightarrow> int \<Rightarrow> int \<Rightarrow> int \<Rightarrow> 32 word" where
  "address a b c d = of_int (((a * 256 + b) * 256 + c) * 256 + d)"

definition BLOCKED_RANGES :: "(32 word \<times> nat) list" where
  "BLOCKED_RANGES = [(address 0 0 0 0, 8), (address 10 0 0 0, 8), (address 127 0 0 0, 8), (address 224 0 0 0, 3),
     (address 169 254 0 0, 16), (address 192 168 0 0, 16), (address 172 16 0 0, 12), (address 100 64 0 0, 10),
     (address 198 18 0 0, 15), (address 192 0 0 0, 24), (address 192 0 2 0, 24), (address 198 51 100 0, 24),
     (address 203 0 113 0, 24)]"

definition blocked_address :: "32 word \<Rightarrow> bool" where
  "blocked_address a \<longleftrightarrow> list_ex (\<lambda>r. in_range r a) BLOCKED_RANGES"

text \<open>The ways to write an address.\<close>

fun dotted :: "octets \<Rightarrow> string" where
  "dotted (a, b, c, d) = show_int a @ ''.'' @ show_int b @ ''.'' @ show_int c @ ''.'' @ show_int d"

definition hex_char :: "nat \<Rightarrow> char" where
  "hex_char n = (if n < 10 then char_of (48 + n) else char_of (87 + n))"

fun show_hex :: "nat \<Rightarrow> string" where
  "show_hex n = (if n < 16 then [hex_char n] else show_hex (n div 16) @ [hex_char (n mod 16)])"

declare show_hex.simps [simp del]

definition mapped_hex :: "32 word \<Rightarrow> string" where
  "mapped_hex a = show_hex (unat a div 65536) @ '':'' @ show_hex (unat a mod 65536)"

definition embedded_forms :: "string \<Rightarrow> string list" where
  "embedded_forms s = [''::ffff:'' @ s, ''64:ff9b::'' @ s, ''[::ffff:'' @ s @ '']'', ''[64:ff9b::'' @ s @ '']'']"

definition spellings :: "32 word \<Rightarrow> string list" where
  "spellings a = show_int (uint a) # dotted (cut_octets a) # embedded_forms (dotted (cut_octets a)) @ embedded_forms (mapped_hex a)"

section \<open>The spellings of an address\<close>

definition host_char :: "char \<Rightarrow> bool" where
  "host_char c \<longleftrightarrow> is_hex c \<or> c = CHR ''.'' \<or> c = CHR '':''"

lemma host_char_simps [simp]:
  "host_char CHR ''.''" "host_char CHR '':''" "host_char CHR ''f''" "host_char CHR ''6''" "host_char CHR ''4''"
  "host_char CHR ''9''" "host_char CHR ''b''" "\<not> host_char CHR ''[''" "\<not> host_char CHR '']''"
  "\<not> host_char CHR ''%''" "\<not> host_char CHR ''l''" "\<not> is_hex CHR ''.''" "\<not> is_hex CHR '':''"
  "\<not> is_digit CHR ''.''" "\<not> is_digit CHR '':''" "\<not> is_digit CHR ''x''" "\<not> is_octal CHR '':''"
  by (simp_all add: host_char_def is_hex_def is_digit_def is_octal_def)

lemma digit_host: "is_digit c \<Longrightarrow> host_char c" "is_digit c \<Longrightarrow> is_hex c" "is_hex c \<Longrightarrow> host_char c"
  by (simp_all add: host_char_def is_hex_def)

lemma lower_char_host: "host_char c \<Longrightarrow> lower_char c = c"
  by (auto simp: host_char_def is_hex_def is_digit_def lower_char_def Let_def)

lemma normalize_plain:
  assumes "list_all host_char s"
  shows "normalizeHost s = s" and "normalizeHost (CHR ''['' # s @ '']'') = s"
proof -
  have l: "map lower_char s = s" using assms by (induction s) (auto simp: lower_char_host)
  have last: "last s \<noteq> CHR '']''" if "s \<noteq> []"
    using assms last_in_set [OF that] host_char_simps(9) unfolding list_all_iff by metis
  show "normalizeHost s = s"
  proof (cases s)
    case (Cons c t)
    then have "c \<noteq> CHR ''[''" using assms host_char_simps(8) by fastforce
    moreover have "last (c # t) \<noteq> CHR '']''" "map lower_char (c # t) = c # t" using last l Cons by simp_all
    ultimately show ?thesis unfolding Cons normalizeHost_def Let_def list.case by (simp only: if_False simp_thms)
  qed (simp add: normalizeHost_def)
  show "normalizeHost (CHR ''['' # s @ '']'') = s" using l by (simp add: normalizeHost_def Let_def)
qed

lemma not_localhost:
  assumes "list_all host_char s"
  shows "isBlockedHostname s = isBlockedIp s"
    "isBlockedHostname (CHR ''['' # s @ '']'') = isBlockedIp (CHR ''['' # s @ '']'')"
proof -
  have "CHR ''l'' \<notin> set s" using assms host_char_simps(11) by (auto simp: list_all_iff)
  moreover from this have "\<not> ends_with ''.localhost'' s"
    using in_set_dropD [of "CHR ''l''" "length s - length ''.localhost''" s] by (auto simp: ends_with_def)
  ultimately have "s \<noteq> ''localhost''" "\<not> ends_with ''.localhost'' s" by auto
  have local: "isBlockedHostname t = isBlockedIp t" if "normalizeHost t = s" for t
    using \<open>s \<noteq> ''localhost''\<close> \<open>\<not> ends_with ''.localhost'' s\<close> normalize_plain(1) [OF assms] that
    by (simp add: isBlockedHostname_def isBlockedIp_def Let_def)
  show "isBlockedHostname s = isBlockedIp s" by (rule local [OF normalize_plain(1) [OF assms]])
  show "isBlockedHostname (CHR ''['' # s @ '']'') = isBlockedIp (CHR ''['' # s @ '']'')"
    by (rule local [OF normalize_plain(2) [OF assms]])
qed

lemma blocked_bracketed: "list_all host_char s \<Longrightarrow> isBlockedIp (CHR ''['' # s @ '']'') = isBlockedIp s"
  by (simp add: isBlockedIp_def normalize_plain)

section \<open>Reading numbers\<close>

lemma show_nat_digits [simp]: "list_all is_digit (show_nat n)" "show_nat n \<noteq> []"
  using show_nat_ok [of n] by (auto simp: show_nat.simps)

lemma nibble_digit: "is_digit c \<Longrightarrow> nibble_of c = digit_value c"
  by (simp add: nibble_of_def digit_value_def)

lemma parse_base_digits: "list_all is_digit s \<Longrightarrow> parse_base 10 s = parse_digits s"
proof -
  have "list_all is_digit s \<Longrightarrow> foldl (\<lambda>n c. n * 10 + nibble_of c) m s = foldl (\<lambda>n c. n * 10 + digit_value c) m s" for m
    by (induction s arbitrary: m) (simp_all add: nibble_digit)
  then show "list_all is_digit s \<Longrightarrow> parse_base 10 s = parse_digits s"
    by (simp add: parse_base_def parse_digits_def)
qed

lemma show_nat_head: "0 < n \<Longrightarrow> hd (show_nat n) \<noteq> CHR ''0''"
proof (induction n rule: show_nat.induct)
  case (1 n)
  show ?case
  proof (cases "n < 10")
    case True
    have "digit_char n \<noteq> digit_char 0" using digit_char_ok [of n] digit_char_ok [of 0] True 1(2) by auto
    moreover have "CHR ''0'' = digit_char 0" by code_simp
    ultimately show ?thesis using True by (simp add: show_nat.simps)
  next
    case False
    with 1(1) [OF False] show ?thesis by (simp add: show_nat.simps [of n] hd_append)
  qed
qed

lemma parseUint_show: "parseUint (show_nat n) = Some (int n)"
proof -
  have "take 2 (show_nat n) \<noteq> ''0x''"
  proof
    assume "take 2 (show_nat n) = ''0x''"
    then have "CHR ''x'' \<in> set (show_nat n)" by (metis in_set_takeD list.set_intros)
    then show False using show_nat_digits(1) [of n] host_char_simps(16) by (auto simp: list_all_iff)
  qed
  moreover have "drop 1 (show_nat n) = []" if "take 1 (show_nat n) = ''0''"
  proof (cases "n = 0")
    case False
    with show_nat_head [of n] that show ?thesis by (cases "show_nat n") auto
  qed (simp add: show_nat.simps)
  ultimately show ?thesis
    using show_nat_ok [of n] by (auto simp: parseUint_def parse_base_digits)
qed

lemma split_on_append: "c \<notin> set p \<Longrightarrow> split_on c (p @ c # s) = p # split_on c s"
  by (induction p) auto

lemma split_on_plain: "c \<notin> set p \<Longrightarrow> split_on c p = [p]"
  by (induction p) auto

lemma show_nat_chars [simp]: "CHR ''.'' \<notin> set (show_nat n)" "CHR '':'' \<notin> set (show_nat n)"
  using show_nat_digits(1) [of n] host_char_simps(14,15) by (auto simp: list_all_iff)

lemma show_nat_host: "list_all host_char (show_nat n)"
  using show_nat_digits(1) [of n] digit_host(1) by (auto simp: list_all_iff)

text \<open>The same for hexadecimal groups.\<close>

lemma hex_char_ok: "n < 16 \<Longrightarrow> is_hex (hex_char n) \<and> nibble_of (hex_char n) = int n"
  by (auto simp: hex_char_def is_hex_def is_digit_def nibble_of_def of_char_of)

lemma parse_base_append: "parse_base b (s @ [c]) = parse_base b s * b + nibble_of c"
  by (simp add: parse_base_def)

lemma show_hex_ok: "list_all is_hex (show_hex n) \<and> parse_base 16 (show_hex n) = int n \<and> show_hex n \<noteq> []"
proof (induction n rule: show_hex.induct)
  case (1 n)
  show ?case
  proof (cases "n < 16")
    case True
    then show ?thesis using hex_char_ok [of n] by (simp add: show_hex.simps parse_base_def)
  next
    case False
    moreover have "int (n div 16) * 16 + int (n mod 16) = int n" by (simp add: zdiv_int zmod_int)
    ultimately show ?thesis using 1 hex_char_ok [of "n mod 16"] by (simp add: show_hex.simps [of n] parse_base_append)
  qed
qed

lemma show_hex_length: "n < 16 ^ k \<Longrightarrow> 0 < k \<Longrightarrow> length (show_hex n) \<le> k"
proof (induction n arbitrary: k rule: show_hex.induct)
  case (1 n)
  show ?case
  proof (cases "n < 16")
    case True
    with 1(3) show ?thesis by (simp add: show_hex.simps)
  next
    case False
    then obtain j where k: "k = Suc j" "0 < j" using 1(2,3) by (cases k; cases "k - 1") auto
    then have "n div 16 < 16 ^ j" using 1(2) by (simp add: less_mult_imp_div_less mult.commute)
    with 1(1) [OF False] k show ?thesis using False by (simp add: show_hex.simps [of n])
  qed
qed

lemma show_hex_chars [simp]: "CHR ''.'' \<notin> set (show_hex n)" "CHR '':'' \<notin> set (show_hex n)"
  using show_hex_ok [of n] host_char_simps(12,13) by (auto simp: list_all_iff)

section \<open>Reading addresses\<close>

lemma uint_less: "0 \<le> uint a" "uint (a :: 32 word) < 2 ^ 32"
  using uint_lt2p [of a] by simp_all

lemma uint_byte: "uint (v AND 255) = uint v mod 256" for v :: "32 word"
proof -
  have "uint (v AND 255) = uint v AND mask 8" by (simp add: unsigned_and_eq mask_eq_exp_minus_1)
  also have "\<dots> = take_bit 8 (uint v)" by (simp only: take_bit_eq_mask)
  finally show ?thesis by (simp add: take_bit_eq_mod)
qed

lemma uint_cut: "uint (drop_bit n (v :: 32 word)) = uint v div 2 ^ n"
  using uint_less [of v] by (subst unsigned_drop_bit_eq) (simp add: drop_bit_eq_div take_bit_eq_mod)

lemma cut_octets_div:
  "cut_octets a = (uint a div 2 ^ 24 mod 256, uint a div 2 ^ 16 mod 256, uint a div 2 ^ 8 mod 256, uint a mod 256)"
  by (simp add: cut_octets_def uint_byte uint_cut)

lemma parse_number: "parseIpv4 (show_int (uint a)) = Some (cut_octets a)"
proof -
  have "show_int (uint a) = show_nat (nat (uint a))" by (simp add: show_int_def)
  then show ?thesis using uint_less [of a] by (simp add: parseIpv4_def parseUint_show)
qed

lemma parseUint_colon: "CHR '':'' \<in> set s \<Longrightarrow> parseUint s = None"
proof -
  assume c: "CHR '':'' \<in> set s"
  have "CHR '':'' \<in> set (drop n s)" if "take n s = t" "CHR '':'' \<notin> set t" for n t
    using c that by (metis Un_iff append_take_drop_id set_append)
  then have "take 2 s = ''0x'' \<Longrightarrow> \<not> list_all is_hex (drop 2 s)" "take 1 s = ''0'' \<Longrightarrow> \<not> list_all is_octal (drop 1 s)"
    using host_char_simps(13,17) by (force simp: list_all_iff)+
  moreover have "\<not> list_all is_digit s" using c host_char_simps(15) unfolding list_all_iff by blast
  ultimately show "parseUint s = None" by (auto simp: parseUint_def)
qed

definition octet :: "int \<Rightarrow> bool" where
  "octet n \<longleftrightarrow> 0 \<le> n \<and> n \<le> 255"

lemma octet_show: "octet n \<Longrightarrow> show_int n = show_nat (nat n)"
  by (simp add: octet_def show_int_def)

lemma dotted_parts:
  assumes "octet a" "octet b" "octet c" "octet d" and "CHR ''.'' \<notin> set p"
  shows "split_on CHR ''.'' (p @ dotted (a, b, c, d)) = [p @ show_int a, show_int b, show_int c, show_int d]"
  using assms split_on_append [of "CHR ''.''" "p @ show_int a"]
  by (simp add: octet_show split_on_append split_on_plain)

lemma parse_dotted:
  assumes "octet a" "octet b" "octet c" "octet d"
  shows "parseIpv4 (dotted (a, b, c, d)) = Some (a, b, c, d)" "dotted_digits (dotted (a, b, c, d))"
    "\<lbrakk> CHR ''.'' \<notin> set p; CHR '':'' \<in> set p \<rbrakk> \<Longrightarrow> parseIpv4 (p @ dotted (a, b, c, d)) = None"
proof -
  have parts: "split_on CHR ''.'' (dotted (a, b, c, d)) = [show_int a, show_int b, show_int c, show_int d]"
    using dotted_parts [OF assms, of "[]"] by (simp only: append_Nil list.set empty_iff simp_thms)
  show "parseIpv4 (dotted (a, b, c, d)) = Some (a, b, c, d)"
    unfolding parseIpv4_def parts Let_def using assms by (simp add: octet_show parseUint_show) (simp add: octet_def)
  show "dotted_digits (dotted (a, b, c, d))"
    unfolding dotted_digits_def parts using assms by (simp add: octet_show)
  show "parseIpv4 (p @ dotted (a, b, c, d)) = None" if p: "CHR ''.'' \<notin> set p" "CHR '':'' \<in> set p"
    unfolding parseIpv4_def dotted_parts [OF assms p(1)] Let_def using p by (simp add: parseUint_colon)
qed

lemma cut_octets_ok:
  obtains a b c d where "cut_octets v = (a, b, c, d)" "octet a" "octet b" "octet c" "octet d"
proof
  show "cut_octets v = (uint v div 2 ^ 24 mod 256, uint v div 2 ^ 16 mod 256, uint v div 2 ^ 8 mod 256, uint v mod 256)"
    by (rule cut_octets_div)
qed (simp_all add: octet_def)

section \<open>Embedded addresses\<close>

lemma long_loopback_zero: "long_loopback s \<Longrightarrow> take 1 s = ''0''"
proof -
  assume "long_loopback s"
  then have "take 1 (take 14 s) = ''0''" by (simp add: long_loopback_def)
  then show ?thesis by simp
qed

lemma embedding_cases:
  assumes "p = ''::ffff:'' \<or> p = ''64:ff9b::''"
  shows "embedding_rest (p @ s) = Some s" "s \<noteq> [] \<Longrightarrow> p @ s \<noteq> ''::1''" "s \<noteq> [] \<Longrightarrow> p @ s \<noteq> ''::''"
    "\<not> long_loopback (p @ s)" "CHR ''.'' \<notin> set p" "CHR '':'' \<in> set p" "list_all host_char p"
  subgoal using assms by (elim disjE) (simp_all add: embedding_rest_def)
  subgoal using assms by auto
  subgoal using assms by auto
  subgoal using assms long_loopback_zero [of "p @ s"] by (elim disjE) auto
  subgoal using assms by (elim disjE) simp_all
  subgoal using assms by (elim disjE) simp_all
  subgoal using assms by (elim disjE) simp_all
  done

lemma blocked_embedded:
  assumes p: "p = ''::ffff:'' \<or> p = ''64:ff9b::''" and s: "list_all host_char s" "s \<noteq> []"
    and none: "parseIpv4 (p @ s) = None" and e: "embeddedIpv4 (p @ s) = Some e"
  shows "isBlockedIp (p @ s) = isBlockedIpv4 e"
proof -
  have plain: "list_all host_char (p @ s)" using s embedding_cases(7) [OF p] by simp
  have "CHR ''%'' \<notin> set (p @ s)" using plain host_char_simps(10) unfolding list_all_iff by blast
  then have zone: "takeWhile (\<lambda>c. c \<noteq> CHR ''%'') (p @ s) = p @ s" by (intro takeWhile_eq_all_conv [THEN iffD2]) auto
  show ?thesis
    unfolding isBlockedIp_def normalize_plain(1) [OF plain] Let_def none isBlockedIpv6_def zone e option.case
    using s embedding_cases(2-4) [OF p, of s] by simp
qed

lemma embedded_dotted:
  assumes p: "p = ''::ffff:'' \<or> p = ''64:ff9b::''"
  shows "isBlockedIp (p @ dotted (cut_octets v)) = isBlockedIpv4 (cut_octets v)"
proof -
  obtain a b c d where o: "cut_octets v = (a, b, c, d)" "octet a" "octet b" "octet c" "octet d"
    by (rule cut_octets_ok)
  note d = parse_dotted [OF o(2-5)]
  have "list_all host_char (dotted (a, b, c, d))"
    using o(2-5) by (simp add: octet_show show_nat_host)
  with d embedding_cases(1,5,6) [OF p] show ?thesis unfolding o(1)
    by (intro blocked_embedded [OF p]) (auto simp: embeddedIpv4_def)
qed

section \<open>The ranges as numbers\<close>

lemma in_range_div: "in_range (net, len) a \<longleftrightarrow> uint a div 2 ^ (32 - len) = uint net div 2 ^ (32 - len)"
  by (simp add: in_range_def uint_cut flip: word_uint_eq_iff uint_cut)

lemma uint_of_int: "uint (of_int x :: 32 word) = x mod 2 ^ 32"
  by (simp add: uint_word_of_int)

lemma uint_address:
  assumes "octet a" "octet b" "octet c" "octet d"
  shows "uint (address a b c d) = ((a * 256 + b) * 256 + c) * 256 + d"
  unfolding address_def uint_of_int using assms by (intro mod_pos_pos_trivial) (simp_all add: octet_def)

lemma div_cut: "0 \<le> r \<Longrightarrow> r < k \<Longrightarrow> (q * k + r) div k = (q :: int)"
  by (simp add: div_add1_eq)

text \<open>The quotients of an address by powers of two, in terms of its octets.\<close>

lemma address_div:
  assumes "octet a" "octet b" "octet c" "octet d"
  defines "n \<equiv> ((a * 256 + b) * 256 + c) * 256 + d"
  shows "n div 2 ^ 8 = (a * 256 + b) * 256 + c" "n div 2 ^ 16 = a * 256 + b" "n div 2 ^ 24 = a"
    "n div 2 ^ 29 = a div 32" "n div 2 ^ 20 = (a * 256 + b) div 16" "n div 2 ^ 22 = (a * 256 + b) div 64"
    "n div 2 ^ 17 = (a * 256 + b) div 2"
proof -
  have e: "n div 256 = (a * 256 + b) * 256 + c"
    unfolding n_def using assms(1-4) by (intro div_cut) (simp_all add: octet_def)
  have s: "n div (256 * 256) = a * 256 + b"
    by (subst zdiv_zmult2_eq, simp, unfold e, rule div_cut) (use assms(3) in \<open>simp_all add: octet_def\<close>)
  have t: "n div (256 * 256 * 256) = a"
    by (subst zdiv_zmult2_eq, simp, unfold s, rule div_cut) (use assms(2) in \<open>simp_all add: octet_def\<close>)
  have p: "(2 :: int) ^ 29 = 256 * 256 * 256 * 32" "(2 :: int) ^ 20 = 256 * 256 * 16" "(2 :: int) ^ 22 = 256 * 256 * 64"
    "(2 :: int) ^ 17 = 256 * 256 * 2" "(2 :: int) ^ 8 = 256" "(2 :: int) ^ 16 = 256 * 256" "(2 :: int) ^ 24 = 256 * 256 * 256"
    by simp_all
  show "n div 2 ^ 8 = (a * 256 + b) * 256 + c" "n div 2 ^ 16 = a * 256 + b" "n div 2 ^ 24 = a"
    unfolding p by (rule e s t)+
  show "n div 2 ^ 29 = a div 32" unfolding p by (subst zdiv_zmult2_eq, simp, simp only: t)
  show "n div 2 ^ 20 = (a * 256 + b) div 16" unfolding p by (subst zdiv_zmult2_eq, simp, simp only: s)
  show "n div 2 ^ 22 = (a * 256 + b) div 64" unfolding p by (subst zdiv_zmult2_eq, simp, simp only: s)
  show "n div 2 ^ 17 = (a * 256 + b) div 2" unfolding p by (subst zdiv_zmult2_eq, simp, simp only: s)
qed

lemma blocked_div:
  "blocked_address v \<longleftrightarrow> uint v div 2 ^ 24 = 0 \<or> uint v div 2 ^ 24 = 10 \<or> uint v div 2 ^ 24 = 127
      \<or> uint v div 2 ^ 29 = 7 \<or> uint v div 2 ^ 16 = 43518 \<or> uint v div 2 ^ 16 = 49320
      \<or> uint v div 2 ^ 20 = 2753 \<or> uint v div 2 ^ 22 = 401 \<or> uint v div 2 ^ 17 = 25353
      \<or> uint v div 2 ^ 8 = 12582912 \<or> uint v div 2 ^ 8 = 12582914
      \<or> uint v div 2 ^ 8 = 12989284 \<or> uint v div 2 ^ 8 = 13303921"
  by (simp add: blocked_address_def BLOCKED_RANGES_def in_range_div uint_address octet_def)

lemma pair_eq:
  assumes "0 \<le> b" "b < k" "0 \<le> q" "q < k"
  shows "a * k + b = p * k + q \<longleftrightarrow> a = p \<and> b = (q :: int)"
  using div_cut [OF assms(1,2), of a] div_cut [OF assms(3,4), of p] by auto

lemma cut_div: "(a * 256 + b) div 16 = a * 16 + b div 16" "(a * 256 + b) div 64 = a * 4 + b div 64"
  "(a * 256 + b) div 2 = a * 128 + b div (2 :: int)"
  using div_mult_self1 [of 16 b "a * 16"] div_mult_self1 [of 64 b "a * 4"] div_mult_self1 [of 2 b "a * 128"]
  by (simp_all add: ac_simps)

lemma div_eq: "0 < k \<Longrightarrow> b div k = q \<longleftrightarrow> q * k \<le> b \<and> b < q * k + (k :: int)"
proof
  assume "0 < k" "b div k = q"
  from this(2) have q: "q = b div k" by simp
  show "q * k \<le> b \<and> b < q * k + k"
    unfolding q using div_mult_mod_eq [of b k] pos_mod_bound [OF \<open>0 < k\<close>, of b] pos_mod_sign [OF \<open>0 < k\<close>, of b] by linarith
next
  assume "0 < k" "q * k \<le> b \<and> b < q * k + k"
  then show "b div k = q" using div_cut [of "b - q * k" k q] by simp
qed

lemma div_bound:
  assumes "0 < k" "b < m * k"
  shows "b div k < (m :: int)"
proof (rule ccontr)
  assume "\<not> b div k < m"
  then have "m * k \<le> b div k * k" using assms(1) by simp
  then show False using assms(2) div_mult_mod_eq [of b k] pos_mod_sign [OF assms(1), of b] by linarith
qed

lemma half_octets:
  assumes "octet b"
  shows "b div 16 = 1 \<longleftrightarrow> 16 \<le> b \<and> b \<le> 31" "b div 64 = 1 \<longleftrightarrow> 64 \<le> b \<and> b \<le> 127" "b div 2 = 9 \<longleftrightarrow> b = 18 \<or> b = 19"
    "0 \<le> b div 16" "b div 16 < 16" "0 \<le> b div 64" "b div 64 < 4" "0 \<le> b div 2" "b div 2 < 128"
  subgoal by (simp add: div_eq) linarith
  subgoal by (simp add: div_eq) linarith
  subgoal by (simp add: div_eq) linarith
  using assms by (auto simp: octet_def pos_imp_zdiv_nonneg_iff intro!: div_bound)

lemma octet_ranges:
  assumes "octet a" "octet b" "octet c"
  shows "a div 32 = 7 \<longleftrightarrow> a \<ge> 224" "a * 256 + b = 43518 \<longleftrightarrow> a = 169 \<and> b = 254"
    "a * 256 + b = 49320 \<longleftrightarrow> a = 192 \<and> b = 168"
    "(a * 256 + b) div 16 = 2753 \<longleftrightarrow> a = 172 \<and> 16 \<le> b \<and> b \<le> 31"
    "(a * 256 + b) div 64 = 401 \<longleftrightarrow> a = 100 \<and> 64 \<le> b \<and> b \<le> 127"
    "(a * 256 + b) div 2 = 25353 \<longleftrightarrow> a = 198 \<and> (b = 18 \<or> b = 19)"
    "(a * 256 + b) * 256 + c = 12582912 \<longleftrightarrow> a = 192 \<and> b = 0 \<and> c = 0"
    "(a * 256 + b) * 256 + c = 12582914 \<longleftrightarrow> a = 192 \<and> b = 0 \<and> c = 2"
    "(a * 256 + b) * 256 + c = 12989284 \<longleftrightarrow> a = 198 \<and> b = 51 \<and> c = 100"
    "(a * 256 + b) * 256 + c = 13303921 \<longleftrightarrow> a = 203 \<and> b = 0 \<and> c = 113"
  subgoal using assms(1) unfolding octet_def by presburger
  subgoal using pair_eq [of b 256 254 a 169] assms(2) by (simp add: octet_def)
  subgoal using pair_eq [of b 256 168 a 192] assms(2) by (simp add: octet_def)
  subgoal unfolding cut_div using pair_eq [of "b div 16" 16 1 a 172] half_octets(1,4,5) [OF assms(2)] by simp
  subgoal unfolding cut_div using pair_eq [of "b div 64" 4 1 a 100] half_octets(2,6,7) [OF assms(2)] by simp
  subgoal unfolding cut_div using pair_eq [of "b div 2" 128 9 a 198] half_octets(3,8,9) [OF assms(2)] by simp
  subgoal using pair_eq [of c 256 0 "a * 256 + b" 49152] pair_eq [of b 256 0 a 192] assms(2,3) by (simp add: octet_def)
  subgoal using pair_eq [of c 256 2 "a * 256 + b" 49152] pair_eq [of b 256 0 a 192] assms(2,3) by (simp add: octet_def)
  subgoal using pair_eq [of c 256 100 "a * 256 + b" 50739] pair_eq [of b 256 51 a 198] assms(2,3) by (simp add: octet_def)
  subgoal using pair_eq [of c 256 113 "a * 256 + b" 51968] pair_eq [of b 256 0 a 203] assms(2,3) by (simp add: octet_def)
  done

lemma blocked_octets:
  assumes "octet a" "octet b" "octet c" "octet d" and "uint v = ((a * 256 + b) * 256 + c) * 256 + d"
  shows "blocked_address v \<longleftrightarrow> isBlockedIpv4 (a, b, c, d)"
  unfolding blocked_div assms(5) address_div [OF assms(1-4)] octet_ranges [OF assms(1-3)]
  by (simp only: isBlockedIpv4.simps isReservedDocumentationIpv4_def conj_disj_distribL disj_assoc)

lemma blocked_address_octets: "isBlockedIpv4 (cut_octets v) \<longleftrightarrow> blocked_address v"
proof -
  obtain a b c d where o: "cut_octets v = (a, b, c, d)" "octet a" "octet b" "octet c" "octet d"
    by (rule cut_octets_ok)
  define n where "n = uint v"
  have "n div 2 ^ 24 mod 256 = n div 2 ^ 24"
    using uint_less [of v] by (intro mod_pos_pos_trivial) (simp_all add: n_def pos_imp_zdiv_nonneg_iff)
  then have o': "a = n div 2 ^ 24" "b = n div 2 ^ 16 mod 256" "c = n div 2 ^ 8 mod 256" "d = n mod 256"
    using o(1) unfolding cut_octets_div n_def [symmetric] by simp_all
  have e: "n div 2 ^ 8 div 256 = n div 2 ^ 16" "n div 2 ^ 16 div 256 = n div 2 ^ 24"
    using zdiv_zmult2_eq [of 256 n "2 ^ 8"] zdiv_zmult2_eq [of 256 n "2 ^ 16"] by simp_all
  have "a * 256 + b = n div 2 ^ 16" using div_mult_mod_eq [of "n div 2 ^ 16" 256] unfolding o' e .
  moreover have "n div 2 ^ 16 * 256 + c = n div 2 ^ 8" using div_mult_mod_eq [of "n div 2 ^ 8" 256] unfolding o' e .
  moreover have "n div 2 ^ 8 * 256 + d = n" using div_mult_mod_eq [of n 256] unfolding o' by simp
  ultimately have "n = ((a * 256 + b) * 256 + c) * 256 + d" by (simp only:)
  then show ?thesis using blocked_octets [OF o(2-5), of v] o(1) by (simp add: n_def)
qed

section \<open>All spellings\<close>

lemma show_hex_host: "list_all host_char (show_hex n)"
  using show_hex_ok [of n] digit_host(3) by (auto simp: list_all_iff)

lemma hex_parts:
  assumes "h < 65536" "l < 65536"
  shows "hex_group (show_hex h)" "split_on CHR '':'' (show_hex h @ '':'' @ show_hex l) = [show_hex h, show_hex l]"
    "\<not> dotted_digits (show_hex h @ '':'' @ show_hex l)"
proof -
  show "hex_group (show_hex h)"
    using show_hex_ok [of h] show_hex_length [of h 4] assms(1) by (cases "show_hex h") (auto simp: hex_group_def)
  show "split_on CHR '':'' (show_hex h @ '':'' @ show_hex l) = [show_hex h, show_hex l]"
    by (simp add: split_on_append split_on_plain)
  have "split_on CHR ''.'' (show_hex h @ '':'' @ show_hex l) = [show_hex h @ '':'' @ show_hex l]"
    by (rule split_on_plain) simp
  then show "\<not> dotted_digits (show_hex h @ '':'' @ show_hex l)" by (simp add: dotted_digits_def)
qed

lemma hex_octets_cut:
  "hex_octets (of_int (uint v div 65536)) (of_int (uint v mod 65536)) = cut_octets (v :: 32 word)"
proof -
  define n where "n = uint v"
  have n: "0 \<le> n" "n < 2 ^ 32" using uint_less [of v] by (simp_all add: n_def)
  have "0 \<le> n div 65536" "n div 65536 < 65536" using n by (simp_all add: pos_imp_zdiv_nonneg_iff)
  then have high: "n div 65536 mod 2 ^ 32 = n div 65536" by (intro mod_pos_pos_trivial) simp_all
  have low: "n mod 65536 mod 2 ^ 32 = n mod 65536" by (intro mod_pos_pos_trivial) (simp_all add: order_less_trans [OF pos_mod_bound])
  have "n mod (256 * 256) = 256 * (n div 256 mod 256) + n mod 256" by (rule zmod_zmult2_eq) simp
  then have "n mod (256 * 256) div 256 = n div 256 mod 256" "n mod (256 * 256) mod 256 = n mod 256"
    using div_cut [of "n mod 256" 256 "n div 256 mod 256"] by (simp_all only: mult.commute) (simp_all add: mod_mult_self3)
  moreover have "n div (256 * 256) div 256 = n div (256 * 256 * 256)" using zdiv_zmult2_eq [of 256 n "256 * 256"] by simp
  moreover have "(65536 :: int) = 256 * 256" "(2 :: int) ^ 8 = 256" "(2 :: int) ^ 16 = 256 * 256" "(2 :: int) ^ 24 = 256 * 256 * 256"
    by simp_all
  ultimately have "n div 65536 mod 2 ^ 32 div 2 ^ 8 mod 256 = n div 2 ^ 24 mod 256"
    "n div 65536 mod 2 ^ 32 mod 256 = n div 2 ^ 16 mod 256"
    "n mod 65536 mod 2 ^ 32 div 2 ^ 8 mod 256 = n div 2 ^ 8 mod 256" "n mod 65536 mod 2 ^ 32 mod 256 = n mod 256"
    unfolding high low by (simp_all only: mod_mod_trivial)
  then show ?thesis
    unfolding n_def hex_octets_def cut_octets_div uint_byte uint_cut uint_of_int by (simp only: prod.inject simp_thms)
qed

lemma embedded_hex:
  assumes p: "p = ''::ffff:'' \<or> p = ''64:ff9b::''"
  shows "isBlockedIp (p @ mapped_hex v) = isBlockedIpv4 (cut_octets v)"
proof -
  let ?h = "unat v div 65536" and ?l = "unat v mod 65536"
  have n: "?h < 65536" "?l < 65536"
    using unsigned_less [of v, where 'a = nat] by (simp_all add: less_mult_imp_div_less)
  have m: "mapped_hex v = show_hex ?h @ '':'' @ show_hex ?l" by (simp add: mapped_hex_def)
  have e: "embeddedIpv4 (p @ mapped_hex v) = Some (cut_octets v)"
    unfolding embeddedIpv4_def embedding_cases(1) [OF p] option.case unfolding m hex_parts(2) [OF n] list.case
    using hex_parts(1,3) [OF n] hex_parts(1) [OF n(2,1)] show_hex_ok [of ?h] show_hex_ok [of ?l] hex_octets_cut [of v]
    by (simp add: zdiv_int zmod_int)
  have "CHR ''.'' \<notin> set (p @ mapped_hex v)" "CHR '':'' \<in> set (p @ mapped_hex v)"
    using embedding_cases(5,6) [OF p] unfolding m by simp_all
  then have "parseIpv4 (p @ mapped_hex v) = None" by (simp add: parseIpv4_def parseUint_colon)
  then show ?thesis by (intro blocked_embedded [OF p] e) (simp_all add: m show_hex_host)
qed

lemma embedded_all:
  assumes s: "list_all host_char s"
    and ip: "\<And>p. p = ''::ffff:'' \<or> p = ''64:ff9b::'' \<Longrightarrow> isBlockedIp (p @ s) = b"
  shows "list_all (\<lambda>h. isBlockedIp h = b \<and> isBlockedHostname h = b) (embedded_forms s)"
proof -
  have h: "isBlockedIp (p @ s) = b \<and> isBlockedHostname (p @ s) = b
      \<and> isBlockedIp (CHR ''['' # (p @ s) @ '']'') = b \<and> isBlockedHostname (CHR ''['' # (p @ s) @ '']'') = b"
    if "p = ''::ffff:'' \<or> p = ''64:ff9b::''" for p
  proof -
    have "list_all host_char (p @ s)" using s embedding_cases(7) [OF that] by simp
    with ip [OF that] show ?thesis by (simp only: not_localhost blocked_bracketed simp_thms)
  qed
  from h [of "''::ffff:''"] h [of "''64:ff9b::''"] show ?thesis by (simp add: embedded_forms_def)
qed


text \<open>The test for local IPv6 prefixes is applied to names too, which blocks every public name with such a start.\<close>

lemma names_blocked_by_prefix:
  "isBlockedHostname ''fdic.gov''" "isBlockedHostname ''fcbank.com''" "isBlockedHostname ''febo.nl''"
  by code_simp+

end
