(* ===== verification/Webhook_Delivery.thy ===== *)
theory Webhook_Delivery
  imports Outbox Blocked_Hosts
begin

text \<open>
  \<open>application/services/webhook-delivery/webhook-delivery-service.ts\<close> and the tables it keeps
  (\<open>KnexWebhookEndpointRepository\<close>, \<open>KnexWebhookDeliveryRepository\<close>): posting an outbox event to
  the endpoints that subscribed to its type. The host of a url, the resolver, the signature, the
  body and the two transports are given; so are random ids. \<open>env\<close> is what other clients do
  between a delivery's look-up and its insert. Sealing a column and opening it are inverse.
\<close>

datatype endpoint_status = Enabled | Disabled

record endpoint =
  ep_id :: ident
  ep_tenant :: tenant
  ep_url :: string
  ep_events :: "string list"
  ep_secret :: string
  ep_status :: endpoint_status
  ep_createdAt :: instant
  ep_updatedAt :: instant

datatype delivery_status = Delivered | Undelivered

record 'p delivery =
  dl_id :: ident
  dl_tenant :: tenant
  dl_endpointId :: ident
  dl_eventId :: ident
  dl_eventType :: string
  dl_payload :: 'p
  dl_status :: delivery_status
  dl_attempts :: nat
  dl_responseCode :: "int option"
  dl_responseBody :: "string option"
  dl_createdAt :: instant
  dl_updatedAt :: instant

record 'p delivery_db = "'p outbox_db" +
  dv_endpoints :: "endpoint list"
  dv_subscribed :: "(ident \<times> string) list"
  dv_deliveries :: "'p delivery list"

section \<open>The tables\<close>

definition MAX_ENDPOINT_LIST :: nat where "MAX_ENDPOINT_LIST = 1000"

record new_endpoint =
  ne_tenant :: tenant
  ne_url :: string
  ne_events :: "string list"
  ne_secret :: string
  ne_status :: endpoint_status

definition createEndpoint :: "ident \<Rightarrow> new_endpoint \<Rightarrow> (('p, 'x) delivery_db_scheme, endpoint) io" where
  "createEndpoint newId data = (\<lambda>w.
    let row = \<lparr>ep_id = newId, ep_tenant = ne_tenant data, ep_url = ne_url data, ep_events = ne_events data,
          ep_secret = ne_secret data, ep_status = ne_status data, ep_createdAt = ob_now w, ep_updatedAt = ob_now w\<rparr>
    in (Inr row, w\<lparr>dv_endpoints := dv_endpoints w @ [row],
          dv_subscribed := fold (\<lambda>t xs. if (newId, t) \<in> set xs then xs else xs @ [(newId, t)]) (ne_events data) (dv_subscribed w)\<rparr>))"

definition scopedEndpoint :: "ident \<Rightarrow> tenant \<Rightarrow> endpoint \<Rightarrow> bool" where
  "scopedEndpoint i t e \<longleftrightarrow> ep_id e = i \<and> ep_tenant e = t"

definition findEndpoint :: "ident \<Rightarrow> tenant \<Rightarrow> (('p, 'x) delivery_db_scheme, endpoint option) io" where
  "findEndpoint i t = readState (\<lambda>w. find (scopedEndpoint i t) (dv_endpoints w))"

definition listEndpoints :: "tenant \<Rightarrow> (('p, 'x) delivery_db_scheme, endpoint list) io" where
  "listEndpoints t = readState (\<lambda>w. take MAX_ENDPOINT_LIST
     (rev (sort_key (\<lambda>e. (ep_createdAt e, ep_id e)) (filter (\<lambda>e. ep_tenant e = t) (dv_endpoints w)))))"

text \<open>The join with the subscriptions, whose primary key makes it one row per endpoint.\<close>

definition subscribed_to :: "string \<Rightarrow> tenant \<Rightarrow> ('p, 'x) delivery_db_scheme \<Rightarrow> endpoint \<Rightarrow> bool" where
  "subscribed_to eventType t w e \<longleftrightarrow> (ep_id e, eventType) \<in> set (dv_subscribed w) \<and> ep_status e = Enabled \<and> ep_tenant e = t"

definition listEnabledForEvent :: "string \<Rightarrow> tenant \<Rightarrow> (('p, 'x) delivery_db_scheme, endpoint list) io" where
  "listEnabledForEvent eventType t = readState (\<lambda>w. sort_key (\<lambda>e. (ep_createdAt e, ep_id e))
     (filter (subscribed_to eventType t w) (dv_endpoints w)))"

definition setEndpointStatus :: "ident \<Rightarrow> endpoint_status \<Rightarrow> tenant \<Rightarrow> (('p, 'x) delivery_db_scheme, endpoint) io" where
  "setEndpointStatus i status t = (\<lambda>w.
    let w' = w\<lparr>dv_endpoints := map (\<lambda>e. if scopedEndpoint i t e
          then e\<lparr>ep_status := status, ep_updatedAt := ob_now w\<rparr> else e) (dv_endpoints w)\<rparr>
    in (case find (scopedEndpoint i t) (dv_endpoints w') of
          None \<Rightarrow> (Inl (ForeignError ''row missing after write''), w') | Some e \<Rightarrow> (Inr e, w')))"

record 'p new_delivery =
  nd_tenant :: tenant
  nd_endpointId :: ident
  nd_eventId :: ident
  nd_eventType :: string
  nd_payload :: 'p
  nd_status :: delivery_status
  nd_attempts :: nat
  nd_responseCode :: "int option"
  nd_responseBody :: "string option"

definition same_delivery :: "tenant \<Rightarrow> ident \<Rightarrow> ident \<Rightarrow> ('p, 'y) delivery_scheme \<Rightarrow> bool" where
  "same_delivery t endpointId eventId r \<longleftrightarrow> dl_endpointId r = endpointId \<and> dl_eventId r = eventId \<and> dl_tenant r = t"

definition update_delivery :: "'p new_delivery \<Rightarrow> instant \<Rightarrow> 'p delivery \<Rightarrow> 'p delivery" where
  "update_delivery data now r = r\<lparr>dl_status := nd_status data, dl_attempts := nd_attempts data,
     dl_responseCode := nd_responseCode data, dl_responseBody := nd_responseBody data,
     dl_payload := nd_payload data, dl_updatedAt := now\<rparr>"

definition applyDeliveryUpdate :: "ident \<Rightarrow> 'p new_delivery \<Rightarrow> instant \<Rightarrow> (('p, 'x) delivery_db_scheme, 'p delivery) io" where
  "applyDeliveryUpdate i data now = (\<lambda>w.
    let w' = w\<lparr>dv_deliveries := map (\<lambda>r. if dl_id r = i then update_delivery data now r else r) (dv_deliveries w)\<rparr>
    in (case find (\<lambda>r. dl_id r = i) (dv_deliveries w') of
          None \<Rightarrow> (Inl (ForeignError ''row missing after write''), w') | Some r \<Rightarrow> (Inr r, w')))"

text \<open>The unique index on tenant, endpoint and event refuses a second row.\<close>

definition insertDelivery :: "ident \<Rightarrow> 'p new_delivery \<Rightarrow> instant \<Rightarrow> (('p, 'x) delivery_db_scheme, 'p delivery) io" where
  "insertDelivery newId data now = (\<lambda>w.
    let row = \<lparr>dl_id = newId, dl_tenant = nd_tenant data, dl_endpointId = nd_endpointId data,
          dl_eventId = nd_eventId data, dl_eventType = nd_eventType data, dl_payload = nd_payload data,
          dl_status = nd_status data, dl_attempts = nd_attempts data, dl_responseCode = nd_responseCode data,
          dl_responseBody = nd_responseBody data, dl_createdAt = now, dl_updatedAt = now\<rparr>
    in if list_ex (same_delivery (nd_tenant data) (nd_endpointId data) (nd_eventId data)) (dv_deliveries w)
       then (Inl (ForeignError ''UNIQUE_VIOLATION''), w)
       else (Inr row, w\<lparr>dv_deliveries := dv_deliveries w @ [row]\<rparr>))"

definition lookDelivery :: "'p new_delivery \<Rightarrow> (('p, 'x) delivery_db_scheme, 'p delivery option) io" where
  "lookDelivery data = readState (\<lambda>w.
     find (same_delivery (nd_tenant data) (nd_endpointId data) (nd_eventId data)) (dv_deliveries w))"

definition recordDelivery ::
  "(('p, 'x) delivery_db_scheme \<Rightarrow> ('p, 'x) delivery_db_scheme) \<Rightarrow> ident \<Rightarrow> 'p new_delivery
    \<Rightarrow> (('p, 'x) delivery_db_scheme, 'p delivery) io" where
  "recordDelivery env newId data =
    andThen (readState ob_now) (\<lambda>now.
    andThen (lookDelivery data) (\<lambda>existing. case existing of
      Some r \<Rightarrow> applyDeliveryUpdate (dl_id r) data now
    | None \<Rightarrow>
        andThen (\<lambda>w. (Inr (), env w)) (\<lambda>_.
        catching (insertDelivery newId data now) (\<lambda>error.
          if error \<noteq> ForeignError ''UNIQUE_VIOLATION'' then throw error else
          andThen (lookDelivery data) (\<lambda>raced. case raced of
            None \<Rightarrow> throw error | Some r \<Rightarrow> applyDeliveryUpdate (dl_id r) data now)))))"

definition listForEvent :: "ident \<Rightarrow> tenant \<Rightarrow> (('p, 'x) delivery_db_scheme, 'p delivery list) io" where
  "listForEvent eventId t = readState (\<lambda>w. sort_key (\<lambda>r. (dl_createdAt r, dl_id r))
     (filter (\<lambda>r. dl_eventId r = eventId \<and> dl_tenant r = t) (dv_deliveries w)))"

section \<open>One delivery\<close>

definition DEFAULT_TIMEOUT_MS :: int where "DEFAULT_TIMEOUT_MS = 10000"
definition MAX_RESPONSE_BODY :: nat where "MAX_RESPONSE_BODY = 2000"
definition DEFAULT_WEBHOOK_DELIVERY_ATTEMPTS :: nat where "DEFAULT_WEBHOOK_DELIVERY_ATTEMPTS = 10"

record delivery_outcome =
  do_ok :: bool
  do_responseCode :: "int option"
  do_responseBody :: "string option"

record delivery_request =
  dq_url :: string
  dq_eventId :: string
  dq_eventType :: string
  dq_signature :: string
  dq_body :: string

text \<open>
  What a transport answers: the status, whether it counts as ok (for \<open>fetch\<close>), and the chunks of
  the text, or nothing when reading it fails. A transport that throws gives its message.
\<close>

record http_response =
  hr_status :: int
  hr_ok :: bool
  hr_chunks :: "string list option"

datatype http_result = Answered http_response | Broken string

record ('p, 'w) delivery_deps =
  wv_hostname :: "string \<Rightarrow> string option"
  wv_resolve :: "string \<Rightarrow> ('w, string list) io"
  wv_sign :: "string \<Rightarrow> string \<Rightarrow> string"
  wv_body :: "'p outbox_event \<Rightarrow> string \<Rightarrow> string"
  wv_fetch :: "(delivery_request \<Rightarrow> string list \<Rightarrow> ('w, http_result) io) option"
  wv_request :: "delivery_request \<Rightarrow> string option \<Rightarrow> ('w, http_result) io"
  wv_maxAttempts :: nat
  wv_ids :: "ident \<Rightarrow> ident"
  wv_env :: "'w \<Rightarrow> 'w"

text \<open>The address a connection is pinned to: the first that is not blocked.\<close>

definition pinnedLookup :: "string list \<Rightarrow> string option" where
  "pinnedLookup addresses = find (\<lambda>a. \<not> isBlockedIp a) addresses"

text \<open>Chunks are appended until the limit is reached; the rest is dropped.\<close>

fun readChunks :: "string \<Rightarrow> string list \<Rightarrow> string" where
  "readChunks text [] = text"
| "readChunks text (c # cs) = (let text' = text @ c in
     if length text' \<ge> MAX_RESPONSE_BODY then take MAX_RESPONSE_BODY text' else readChunks text' cs)"

definition redirected :: "int \<Rightarrow> bool" where
  "redirected status \<longleftrightarrow> 300 \<le> status \<and> status < 400"

definition redirect_outcome :: "int \<Rightarrow> delivery_outcome" where
  "redirect_outcome status = \<lparr>do_ok = False, do_responseCode = Some status, do_responseBody = Some ''redirect not followed''\<rparr>"

definition broken_outcome :: "string \<Rightarrow> delivery_outcome" where
  "broken_outcome message = \<lparr>do_ok = False, do_responseCode = None, do_responseBody = Some message\<rparr>"

definition fetchDeliver ::
  "(delivery_request \<Rightarrow> string list \<Rightarrow> ('w, http_result) io) \<Rightarrow> delivery_request \<Rightarrow> string list \<Rightarrow> ('w, delivery_outcome) io" where
  "fetchDeliver fetch request addresses =
    andThen (fetch request addresses) (\<lambda>result. ret (case result of
        Broken message \<Rightarrow> broken_outcome message
      | Answered r \<Rightarrow> if redirected (hr_status r) then redirect_outcome (hr_status r)
          else \<lparr>do_ok = hr_ok r, do_responseCode = Some (hr_status r),
            do_responseBody = map_option (\<lambda>cs. take MAX_RESPONSE_BODY (concat cs)) (hr_chunks r)\<rparr>))"

definition secureDeliver ::
  "(delivery_request \<Rightarrow> string option \<Rightarrow> ('w, http_result) io) \<Rightarrow> delivery_request \<Rightarrow> string list \<Rightarrow> ('w, delivery_outcome) io" where
  "secureDeliver send request addresses =
    andThen (send request (pinnedLookup addresses)) (\<lambda>result. ret (case result of
        Broken message \<Rightarrow> broken_outcome message
      | Answered r \<Rightarrow> if redirected (hr_status r) then redirect_outcome (hr_status r)
          else \<lparr>do_ok = 200 \<le> hr_status r \<and> hr_status r < 300, do_responseCode = Some (hr_status r),
            do_responseBody = Some (readChunks [] (case hr_chunks r of None \<Rightarrow> [] | Some cs \<Rightarrow> cs))\<rparr>))"

text \<open>A host is refused when its name is blocked, when it does not resolve, or when any address is blocked.\<close>

definition resolveTarget :: "('p, 'w) delivery_deps \<Rightarrow> string \<Rightarrow> ('w, string + string list) io" where
  "resolveTarget d url = (case wv_hostname d url of
      None \<Rightarrow> throw TypeError
    | Some hostname \<Rightarrow>
        if isBlockedHostname hostname then ret (Inl hostname) else
        andThen (attempt (wv_resolve d hostname)) (\<lambda>resolved. case resolved of
          Inl _ \<Rightarrow> ret (Inl hostname)
        | Inr addresses \<Rightarrow> if addresses = [] \<or> list_ex isBlockedIp addresses then ret (Inl hostname)
            else ret (Inr addresses)))"

text \<open>An action that throws inside the request is an outcome; its message is not modelled further.\<close>

definition post ::
  "('p, 'w) delivery_deps \<Rightarrow> endpoint \<Rightarrow> string \<Rightarrow> ident \<Rightarrow> string \<Rightarrow> int \<Rightarrow> ('w, delivery_outcome) io" where
  "post d endpoint eventType eventId body timestamp =
    (let signature = wv_sign d (ep_secret endpoint) (show_int timestamp @ ''.'' @ body) in
    andThen (resolveTarget d (ep_url endpoint)) (\<lambda>target. case target of
      Inl host \<Rightarrow> ret (broken_outcome (''blocked host: '' @ host))
    | Inr addresses \<Rightarrow>
        let request = \<lparr>dq_url = ep_url endpoint, dq_eventId = eventId, dq_eventType = eventType,
              dq_signature = ''t='' @ show_int timestamp @ '',v1='' @ signature, dq_body = body\<rparr> in
        catching (case wv_fetch d of
            Some fetch \<Rightarrow> fetchDeliver fetch request addresses
          | None \<Rightarrow> secureDeliver (wv_request d) request addresses)
          (\<lambda>_. ret (broken_outcome ''request failed''))))"

section \<open>The event\<close>

text \<open>The type without its version: a final \<open>.v\<close> and digits is cut off.\<close>

definition strip_version :: "string \<Rightarrow> string" where
  "strip_version s = (let r = rev s; digits = takeWhile is_digit r; rest = dropWhile is_digit r in
     if digits \<noteq> [] \<and> take 2 rest = ''v.'' then rev (drop 2 rest) else s)"

definition previousAttempts :: "ident \<Rightarrow> 'p delivery list \<Rightarrow> nat" where
  "previousAttempts endpointId prior =
     foldl (\<lambda>m r. max m (dl_attempts r)) 0 (filter (\<lambda>r. dl_endpointId r = endpointId) prior)"

definition delivery_of ::
  "'p outbox_event \<Rightarrow> endpoint \<Rightarrow> string \<Rightarrow> nat \<Rightarrow> delivery_outcome \<Rightarrow> 'p new_delivery" where
  "delivery_of event endpoint eventType attempts outcome = \<lparr>nd_tenant = ob_tenant event,
     nd_endpointId = ep_id endpoint, nd_eventId = ob_id event, nd_eventType = eventType,
     nd_payload = ob_payload event, nd_status = (if do_ok outcome then Delivered else Undelivered),
     nd_attempts = attempts, nd_responseCode = do_responseCode outcome, nd_responseBody = do_responseBody outcome\<rparr>"

definition deliverTo ::
  "('p, ('p, 'x) delivery_db_scheme) delivery_deps \<Rightarrow> 'p outbox_event \<Rightarrow> string \<Rightarrow> string \<Rightarrow> int \<Rightarrow> nat \<Rightarrow> endpoint
    \<Rightarrow> (('p, 'x) delivery_db_scheme, bool) io" where
  "deliverTo d event eventType body timestamp attempts endpoint =
    andThen (post d endpoint eventType (ob_id event) body timestamp) (\<lambda>outcome.
    andThen (recordDelivery (wv_env d) (wv_ids d (ep_id endpoint))
      (delivery_of event endpoint eventType attempts outcome)) (\<lambda>_.
    if do_ok outcome then ret False
    else if attempts \<ge> wv_maxAttempts d
    then andThen (setEndpointStatus (ep_id endpoint) Disabled (ob_tenant event)) (\<lambda>_. ret False)
    else ret True))"

text \<open>The endpoints in turn; the result says whether one is left to be tried again.\<close>

fun deliverEach ::
  "('p, ('p, 'x) delivery_db_scheme) delivery_deps \<Rightarrow> 'p outbox_event \<Rightarrow> string \<Rightarrow> string \<Rightarrow> int \<Rightarrow> 'p delivery list
    \<Rightarrow> endpoint list \<Rightarrow> bool \<Rightarrow> (('p, 'x) delivery_db_scheme, bool) io" where
  "deliverEach d event eventType body timestamp prior [] incomplete = ret incomplete"
| "deliverEach d event eventType body timestamp prior (e # es) incomplete =
    (if list_ex (\<lambda>r. dl_status r = Delivered \<and> dl_endpointId r = ep_id e) prior
     then deliverEach d event eventType body timestamp prior es incomplete
     else andThen (deliverTo d event eventType body timestamp (previousAttempts (ep_id e) prior + 1) e) (\<lambda>again.
       deliverEach d event eventType body timestamp prior es (incomplete \<or> again)))"

definition handleEvent ::
  "('p, ('p, 'x) delivery_db_scheme) delivery_deps \<Rightarrow> 'p outbox_event \<Rightarrow> (('p, 'x) delivery_db_scheme, unit) io" where
  "handleEvent d event = (let eventType = strip_version (ob_eventType event) in
    andThen (listEnabledForEvent eventType (ob_tenant event)) (\<lambda>endpoints.
    if endpoints = [] then ret () else
    andThen (listForEvent (ob_id event) (ob_tenant event)) (\<lambda>prior.
    andThen (readState ob_now) (\<lambda>now.
    andThen (deliverEach d event eventType (wv_body d event eventType) (now div 1000) prior endpoints False) (\<lambda>incomplete.
    if incomplete then throw (PayableError ''WEBHOOK_DELIVERY_INCOMPLETE'') else ret ())))))"

text \<open>\<open>deliverPendingWebhooks\<close>: the outbox publisher with the service as its callback.\<close>

definition deliverPendingWebhooks ::
  "outbox_config \<Rightarrow> ('p, ('p, 'x) delivery_db_scheme) delivery_deps \<Rightarrow> (string \<Rightarrow> int) \<Rightarrow> string \<Rightarrow> nat
    \<Rightarrow> (('p, 'x) delivery_db_scheme, publish_result) io" where
  "deliverPendingWebhooks c d p token limit = publishPending c (handleEvent d) p token limit"

section \<open>Only public targets are connected to\<close>

definition public_host :: "('p, 'w) delivery_deps \<Rightarrow> string \<Rightarrow> bool" where
  "public_host d url \<longleftrightarrow> (case wv_hostname d url of None \<Rightarrow> False | Some h \<Rightarrow> \<not> isBlockedHostname h)"

text \<open>Transports that refuse, with an error, everything but public addresses of a public host.\<close>

definition guarded_fetch where
  "guarded_fetch d f = (\<lambda>request addresses w.
     if public_host d (dq_url request) \<and> addresses \<noteq> [] \<and> \<not> list_ex isBlockedIp addresses then f request addresses w
     else (Inl (ForeignError ''refused''), w))"

definition guarded_request where
  "guarded_request d f = (\<lambda>request pin w.
     if public_host d (dq_url request) \<and> (case pin of None \<Rightarrow> False | Some a \<Rightarrow> \<not> isBlockedIp a) then f request pin w
     else (Inl (ForeignError ''refused''), w))"

definition guarded_delivery :: "('p, 'w) delivery_deps \<Rightarrow> ('p, 'w) delivery_deps" where
  "guarded_delivery d = d\<lparr>wv_fetch := map_option (guarded_fetch d) (wv_fetch d), wv_request := guarded_request d (wv_request d)\<rparr>"

lemma guarded_delivery_simps [simp]:
  "wv_hostname (guarded_delivery d) = wv_hostname d" "wv_resolve (guarded_delivery d) = wv_resolve d"
  "wv_sign (guarded_delivery d) = wv_sign d" "wv_body (guarded_delivery d) = wv_body d"
  "wv_maxAttempts (guarded_delivery d) = wv_maxAttempts d" "wv_ids (guarded_delivery d) = wv_ids d"
  "wv_env (guarded_delivery d) = wv_env d" "wv_fetch (guarded_delivery d) = map_option (guarded_fetch d) (wv_fetch d)"
  "wv_request (guarded_delivery d) = guarded_request d (wv_request d)"
  by (simp_all add: guarded_delivery_def)

lemma pinned_public:
  "addresses \<noteq> [] \<Longrightarrow> \<not> list_ex isBlockedIp addresses \<Longrightarrow> \<exists>a. pinnedLookup addresses = Some a \<and> \<not> isBlockedIp a"
  by (cases addresses) (auto simp: pinnedLookup_def)

lemma resolveTarget_public:
  "resolveTarget d url w = (Inr (Inr addresses), w') \<Longrightarrow>
     public_host d url \<and> addresses \<noteq> [] \<and> \<not> list_ex isBlockedIp addresses"
proof -
  assume run: "resolveTarget d url w = (Inr (Inr addresses), w')"
  obtain h where h: "wv_hostname d url = Some h" "\<not> isBlockedHostname h"
    using run by (auto simp: resolveTarget_def split: option.split_asm if_split_asm)
  obtain r w1 where r: "attempt (wv_resolve d h) w = (Inr r, w1)"
    by (cases "wv_resolve d h w") (simp add: attempt_def)
  show ?thesis
  proof (cases r)
    case (Inr found)
    with run h r have "\<not> (found = [] \<or> list_ex isBlockedIp found)" "addresses = found"
      by (simp_all add: resolveTarget_def andThen_def split: if_split_asm)
    with h show ?thesis by (simp add: public_host_def)
  qed (use run h r in \<open>simp add: resolveTarget_def andThen_def\<close>)
qed

lemma post_guarded: "post (guarded_delivery d) e t i b s = post d e t i b s"
proof
  fix w
  have r: "resolveTarget (guarded_delivery d) (ep_url e) = resolveTarget d (ep_url e)"
    unfolding resolveTarget_def guarded_delivery_simps by (rule refl)
  obtain o1 w1 where run: "resolveTarget d (ep_url e) w = (o1, w1)" by (cases "resolveTarget d (ep_url e) w")
  show "post (guarded_delivery d) e t i b s w = post d e t i b s w"
  proof (cases "\<exists>addresses. o1 = Inr (Inr addresses)")
    case True
    then obtain addresses where a: "o1 = Inr (Inr addresses)" by blast
    note p = resolveTarget_public [OF run [unfolded a]]
    obtain x where x: "pinnedLookup addresses = Some x" "\<not> isBlockedIp x" using pinned_public p by blast
    have g: "fetchDeliver (guarded_fetch d f) q addresses = fetchDeliver f q addresses"
      "secureDeliver (guarded_request d g) q addresses = secureDeliver g q addresses" if "dq_url q = ep_url e" for f g q
      unfolding fetchDeliver_def secureDeliver_def guarded_fetch_def guarded_request_def using p x that by simp_all
    show ?thesis
      by (cases "wv_fetch d") (simp_all add: post_def r run a g Let_def andThen_def [of "resolveTarget d (ep_url e)"])
  next
    case False
    with run show ?thesis by (auto simp: post_def r Let_def andThen_def [of "resolveTarget d (ep_url e)"] split: sum.splits)
  qed
qed

text \<open>
  C34. Webhooks are delivered to public targets only. Publishing the outbox is the same when both
  transports refuse every request whose url names a blocked host or whose addresses include a
  blocked one: neither is ever asked for such a connection, whatever the resolver answers,
  fails or changes between two deliveries.
\<close>

theorem delivery_targets_public:
  "deliverPendingWebhooks c (guarded_delivery d) p token limit = deliverPendingWebhooks c d p token limit"
proof -
  have "deliverTo (guarded_delivery d) e t b s n x = deliverTo d e t b s n x" for e t b s n x
    by (rule ext) (simp add: deliverTo_def post_guarded)
  then have "deliverEach (guarded_delivery d) e t b s prior es inc = deliverEach d e t b s prior es inc" for e t b s prior es inc
    by (induction es arbitrary: inc) simp_all
  then have "deliverEach (guarded_delivery d) = deliverEach d" by (intro ext) (simp only:)
  then have "handleEvent (guarded_delivery d) e = handleEvent d e" for e
    unfolding handleEvent_def guarded_delivery_simps by (simp only:)
  then have "handleEvent (guarded_delivery d) = handleEvent d" by (rule ext)
  then show ?thesis by (simp add: deliverPendingWebhooks_def)
qed

section \<open>Every delivery comes to an end\<close>

definition delivery_kept :: "(('p, 'x) delivery_db_scheme, 'a) io \<Rightarrow> bool" where
  "delivery_kept m \<longleftrightarrow> (\<forall>v. dv_endpoints (snd (m v)) = dv_endpoints v \<and> dv_subscribed (snd (m v)) = dv_subscribed v
     \<and> dv_deliveries (snd (m v)) = dv_deliveries v)"

text \<open>The resolver, the transports and the other clients leave the tables of this event alone.\<close>

definition calm :: "('p, ('p, 'x) delivery_db_scheme) delivery_deps \<Rightarrow> bool" where
  "calm d \<longleftrightarrow> (\<forall>h. delivery_kept (wv_resolve d h)) \<and> (\<forall>f r a. wv_fetch d = Some f \<longrightarrow> delivery_kept (f r a))
     \<and> (\<forall>r a. delivery_kept (wv_request d r a)) \<and> (\<forall>v. dv_endpoints (wv_env d v) = dv_endpoints v
       \<and> dv_subscribed (wv_env d v) = dv_subscribed v \<and> dv_deliveries (wv_env d v) = dv_deliveries v)"

lemma delivery_kept_rules:
  "delivery_kept m \<Longrightarrow> (\<And>x. delivery_kept (f x)) \<Longrightarrow> delivery_kept (andThen m f)"
  "delivery_kept m \<Longrightarrow> (\<And>e. delivery_kept (h e)) \<Longrightarrow> delivery_kept (catching m h)"
  "delivery_kept m \<Longrightarrow> delivery_kept (attempt m)"
  "delivery_kept (ret x)" "delivery_kept (throw e)" "delivery_kept (readState g)"
  by (auto simp: delivery_kept_def andThen_def catching_def attempt_def split: prod.split sum.split) (metis snd_conv)+

lemma post_kept:
  assumes "calm d"
  shows "delivery_kept (post d e t i b s)"
proof -
  have "delivery_kept (resolveTarget d url)" for url
    unfolding resolveTarget_def
    using assms by (auto simp: calm_def split: option.split sum.split intro!: delivery_kept_rules)
  moreover have "delivery_kept (case wv_fetch d of Some fetch \<Rightarrow> fetchDeliver fetch r a | None \<Rightarrow> secureDeliver (wv_request d) r a)" for r a
    unfolding fetchDeliver_def secureDeliver_def
    using assms by (auto simp: calm_def split: option.split intro!: delivery_kept_rules)
  ultimately show ?thesis
    unfolding post_def Let_def
    by (auto split: sum.split intro!: delivery_kept_rules)
qed

lemma post_returns:
  assumes "wv_hostname d (ep_url e) \<noteq> None"
  shows "\<exists>o1. fst (post d e t i b s w) = Inr o1"
proof -
  obtain h where "wv_hostname d (ep_url e) = Some h" using assms by blast
  then have "\<exists>x. fst (resolveTarget d (ep_url e) w) = Inr x"
    by (auto simp: resolveTarget_def andThen_def attempt_def split: prod.split sum.split)
  then obtain x w1 where "resolveTarget d (ep_url e) w = (Inr x, w1)" by (metis prod.collapse)
  then show ?thesis
    by (auto simp: post_def andThen_def Let_def catching_def split: sum.split prod.split)
qed

text \<open>What the table says of one endpoint and the event: the status and attempts of its row.\<close>

definition delivery_state :: "'p outbox_event \<Rightarrow> ('p, 'x) delivery_db_scheme \<Rightarrow> ident \<Rightarrow> (delivery_status \<times> nat) option" where
  "delivery_state event w i = map_option (\<lambda>r. (dl_status r, dl_attempts r))
     (find (same_delivery (ob_tenant event) i (ob_id event)) (dv_deliveries w))"

definition attempts_of :: "(delivery_status \<times> nat) option \<Rightarrow> nat" where
  "attempts_of s = (case s of None \<Rightarrow> 0 | Some (_, n) \<Rightarrow> n)"

definition is_delivered :: "(delivery_status \<times> nat) option \<Rightarrow> bool" where
  "is_delivered s \<longleftrightarrow> (\<exists>n. s = Some (Delivered, n))"

text \<open>The keys of the tables, and ids of new rows that are free.\<close>

definition delivery_keys :: "('p, ('p, 'x) delivery_db_scheme) delivery_deps \<Rightarrow> 'p outbox_event \<Rightarrow> ('p, 'x) delivery_db_scheme \<Rightarrow> bool" where
  "delivery_keys d event w \<longleftrightarrow> distinct (map dl_id (dv_deliveries w))
     \<and> distinct (map (\<lambda>r. (dl_tenant r, dl_endpointId r, dl_eventId r)) (dv_deliveries w))
     \<and> (\<forall>r \<in> set (dv_deliveries w). \<forall>i. dl_id r = wv_ids d i \<longrightarrow> same_delivery (ob_tenant event) i (ob_id event) r)
     \<and> distinct (map ep_id (dv_endpoints w))
     \<and> (\<forall>e \<in> set (dv_endpoints w). wv_hostname d (ep_url e) \<noteq> None)"

lemma same_key: "same_delivery t i j r \<longleftrightarrow> (dl_tenant r, dl_endpointId r, dl_eventId r) = (t, i, j)"
  by (auto simp: same_delivery_def)

lemma find_map_other:
  assumes "\<And>r. r \<in> set rs \<Longrightarrow> P (f r) = P r" and "\<And>r. r \<in> set rs \<Longrightarrow> P r \<Longrightarrow> g (f r) = g r"
  shows "map_option g (find P (map f rs)) = map_option g (find P rs)"
  using assms by (induction rs) auto

lemma find_map_found: "find P xs = Some x \<Longrightarrow> (\<And>y. P (f y) = P y) \<Longrightarrow> find P (map f xs) = Some (f x)"
  by (induction xs) (auto split: if_splits)

lemma find_append: "find P (xs @ ys) = (case find P xs of None \<Rightarrow> find P ys | Some x \<Rightarrow> Some x)"
  by (induction xs) auto

lemma update_delivery_simps [simp]:
  "dl_id (update_delivery data now r) = dl_id r" "dl_tenant (update_delivery data now r) = dl_tenant r"
  "dl_endpointId (update_delivery data now r) = dl_endpointId r" "dl_eventId (update_delivery data now r) = dl_eventId r"
  "dl_status (update_delivery data now r) = nd_status data" "dl_attempts (update_delivery data now r) = nd_attempts data"
  by (simp_all add: update_delivery_def)

text \<open>Recording an attempt changes the state of its endpoint and of no other.\<close>

lemma recordDelivery_state:
  assumes keys: "delivery_keys d event w" and calm: "calm d"
    and data: "nd_tenant data = ob_tenant event" "nd_endpointId data = i" "nd_eventId data = ob_id event"
    and inj: "inj (wv_ids d)"
  shows "\<exists>r w'. recordDelivery (wv_env d) (wv_ids d i) data w = (Inr r, w') \<and> delivery_keys d event w'
    \<and> dv_endpoints w' = dv_endpoints w \<and> dv_subscribed w' = dv_subscribed w
    \<and> delivery_state event w' = (delivery_state event w)(i \<mapsto> (nd_status data, nd_attempts data))"
proof (cases "find (same_delivery (ob_tenant event) i (ob_id event)) (dv_deliveries w)")
  case (Some r)
  note r = find_SomeD [OF Some]
  define f where "f = (\<lambda>x. if dl_id x = dl_id r then update_delivery data (ob_now w) x else x)"
  define w' where "w' = w\<lparr>dv_deliveries := map f (dv_deliveries w)\<rparr>"
  have f: "dl_id (f x) = dl_id x" "dl_tenant (f x) = dl_tenant x" "dl_endpointId (f x) = dl_endpointId x"
    "dl_eventId (f x) = dl_eventId x" "same_delivery t j k (f x) = same_delivery t j k x" for x t j k
    by (simp_all add: f_def same_delivery_def)
  have only: "x = r" if "x \<in> set (dv_deliveries w)" "dl_id x = dl_id r" for x
    using keys r that by (auto simp: delivery_keys_def distinct_map dest: inj_onD)
  have keys': "delivery_keys d event w'"
    using keys by (simp add: delivery_keys_def w'_def f comp_def)
  have "find (\<lambda>x. dl_id x = dl_id (f r)) (map f (dv_deliveries w)) = Some (f r)"
    using keys r by (intro find_Some_iff_distinct) (simp_all add: delivery_keys_def f comp_def)
  then have run: "recordDelivery (wv_env d) (wv_ids d i) data w = (Inr (f r), w')"
    using Some data by (simp add: recordDelivery_def lookDelivery_def applyDeliveryUpdate_def Let_def f_def w'_def)
  have "delivery_state event w' i = Some (nd_status data, nd_attempts data)"
  proof -
    have "find (same_delivery (ob_tenant event) i (ob_id event)) (map f (dv_deliveries w)) = Some (f r)"
      using Some f(5) by (intro find_map_found) simp_all
    then show ?thesis by (simp add: delivery_state_def w'_def f_def)
  qed
  moreover have "delivery_state event w' j = delivery_state event w j" if "j \<noteq> i" for j
  proof -
    have rows: "dv_deliveries w' = map f (dv_deliveries w)" by (simp add: w'_def)
    show ?thesis unfolding delivery_state_def rows
      by (rule find_map_other) (use only r that f in \<open>auto simp: f_def same_delivery_def\<close>)
  qed
  ultimately have "delivery_state event w' = (delivery_state event w)(i \<mapsto> (nd_status data, nd_attempts data))" by auto
  with run keys' show ?thesis by (auto simp: w'_def)
next
  case None
  define v where "v = wv_env d w"
  have v: "dv_endpoints v = dv_endpoints w" "dv_subscribed v = dv_subscribed w" "dv_deliveries v = dv_deliveries w"
    using calm by (simp_all add: calm_def v_def)
  have absent: "\<not> same_delivery (ob_tenant event) i (ob_id event) r" if "r \<in> set (dv_deliveries w)" for r
    using find_NoneD [OF None that] .
  obtain row where row: "insertDelivery (wv_ids d i) data (ob_now w) v = (Inr row, v\<lparr>dv_deliveries := dv_deliveries v @ [row]\<rparr>)"
      "dl_id row = wv_ids d i" "dl_tenant row = ob_tenant event" "dl_endpointId row = i" "dl_eventId row = ob_id event"
      "dl_status row = nd_status data" "dl_attempts row = nd_attempts data"
    using absent data by (simp add: insertDelivery_def Let_def list_ex_iff v(3))
  define w' where "w' = v\<lparr>dv_deliveries := dv_deliveries v @ [row]\<rparr>"
  have run: "recordDelivery (wv_env d) (wv_ids d i) data w = (Inr row, w')"
    using None data row(1) by (simp add: recordDelivery_def lookDelivery_def andThen_def catching_def v_def [symmetric] w'_def)
  have "wv_ids d i \<notin> dl_id ` set (dv_deliveries w)"
  proof
    assume "wv_ids d i \<in> dl_id ` set (dv_deliveries w)"
    then obtain r where r: "r \<in> set (dv_deliveries w)" "dl_id r = wv_ids d i" by auto
    then have "same_delivery (ob_tenant event) i (ob_id event) r" using keys unfolding delivery_keys_def by blast
    with absent [OF r(1)] show False by simp
  qed
  moreover have "(ob_tenant event, i, ob_id event) \<notin> (\<lambda>r. (dl_tenant r, dl_endpointId r, dl_eventId r)) ` set (dv_deliveries w)"
    using absent unfolding same_key by (metis (no_types, lifting) imageE)
  ultimately have "delivery_keys d event w'"
    using keys inj by (auto simp: delivery_keys_def w'_def v row same_delivery_def inj_eq)
  moreover have "delivery_state event w' = (delivery_state event w)(i \<mapsto> (nd_status data, nd_attempts data))"
    using None row by (auto simp: delivery_state_def w'_def v find_append same_delivery_def split: option.split)
  ultimately show ?thesis using run v by (auto simp: w'_def)
qed

lemma setEndpointStatus_eq:
  assumes "distinct (map ep_id (dv_endpoints w))" and "e \<in> set (dv_endpoints w)" and "ep_tenant e = t" and "ep_id e = i"
  shows "\<exists>r w'. setEndpointStatus i Disabled t w = (Inr r, w')
    \<and> dv_endpoints w' = map (\<lambda>x. if ep_id x = i then x\<lparr>ep_status := Disabled, ep_updatedAt := ob_now w\<rparr> else x) (dv_endpoints w)
    \<and> dv_subscribed w' = dv_subscribed w \<and> dv_deliveries w' = dv_deliveries w"
proof -
  let ?f = "\<lambda>x. if scopedEndpoint i t x then x\<lparr>ep_status := Disabled, ep_updatedAt := ob_now w\<rparr> else x"
  have same: "scopedEndpoint i t x \<longleftrightarrow> ep_id x = i" if "x \<in> set (dv_endpoints w)" for x
    using assms that by (auto simp: scopedEndpoint_def distinct_map dest: inj_onD)
  have "map ?f (dv_endpoints w) = map (\<lambda>x. if ep_id x = i then x\<lparr>ep_status := Disabled, ep_updatedAt := ob_now w\<rparr> else x) (dv_endpoints w)"
    using same by (intro map_cong) auto
  moreover have "find (scopedEndpoint i t) (map ?f (dv_endpoints w)) \<noteq> None"
  proof
    assume "find (scopedEndpoint i t) (map ?f (dv_endpoints w)) = None"
    then have "\<not> scopedEndpoint i t (?f e)" using assms(2) by (auto simp: find_None_iff)
    then show False using assms(3,4) by (auto simp: scopedEndpoint_def split: if_splits)
  qed
  ultimately show ?thesis by (auto simp: setEndpointStatus_def Let_def split: option.split)
qed

text \<open>What one attempt does: the state of the endpoint, its status, and the answer.\<close>

definition attempted ::
  "('p, ('p, 'x) delivery_db_scheme) delivery_deps \<Rightarrow> 'p outbox_event \<Rightarrow> nat \<Rightarrow> endpoint
    \<Rightarrow> ('p, 'x) delivery_db_scheme \<Rightarrow> ('p, 'x) delivery_db_scheme \<Rightarrow> bool \<Rightarrow> bool" where
  "attempted d event n e w w' again \<longleftrightarrow> (\<exists>s. delivery_state event w' = (delivery_state event w)(ep_id e \<mapsto> (s, n))
     \<and> again = (s = Undelivered \<and> n < wv_maxAttempts d)
     \<and> dv_subscribed w' = dv_subscribed w
     \<and> (\<exists>t. dv_endpoints w' = map (\<lambda>x. if s = Undelivered \<and> \<not> n < wv_maxAttempts d \<and> ep_id x = ep_id e
          then x\<lparr>ep_status := Disabled, ep_updatedAt := t\<rparr> else x) (dv_endpoints w)))"

lemma deliverTo_attempted:
  assumes keys: "delivery_keys d event w" and calm: "calm d" and inj: "inj (wv_ids d)"
    and e: "x \<in> set (dv_endpoints w)" "ep_tenant x = ob_tenant event" "ep_id x = ep_id e" "wv_hostname d (ep_url e) \<noteq> None"
  shows "\<exists>again w'. deliverTo d event t b s n e w = (Inr again, w') \<and> delivery_keys d event w' \<and> attempted d event n e w w' again"
proof -
  obtain out w1 where post: "post d e t (ob_id event) b s w = (Inr out, w1)"
    using post_returns [OF e(4), of t "ob_id event" b s w] by (metis prod.collapse)
  have w1: "dv_endpoints w1 = dv_endpoints w" "dv_subscribed w1 = dv_subscribed w" "dv_deliveries w1 = dv_deliveries w"
    using post_kept [OF calm, of e t "ob_id event" b s] post by (auto simp: delivery_kept_def) (metis snd_conv)+
  have keys1: "delivery_keys d event w1" using keys by (simp add: delivery_keys_def w1)
  have st1: "delivery_state event w1 = delivery_state event w" by (rule ext) (simp add: delivery_state_def w1)
  let ?data = "delivery_of event e t n out"
  let ?s = "if do_ok out then Delivered else Undelivered"
  obtain r w2 where rec: "recordDelivery (wv_env d) (wv_ids d (ep_id e)) ?data w1 = (Inr r, w2)"
      "delivery_keys d event w2" "dv_endpoints w2 = dv_endpoints w" "dv_subscribed w2 = dv_subscribed w"
      "delivery_state event w2 = (delivery_state event w)(ep_id e \<mapsto> (?s, n))"
    using recordDelivery_state [OF keys1 calm _ _ _ inj, of ?data "ep_id e"] by (auto simp: delivery_of_def w1 st1)
  show ?thesis
  proof (cases "do_ok out \<or> n < wv_maxAttempts d")
    case True
    then have "deliverTo d event t b s n e w = (Inr (\<not> do_ok out), w2)"
      using post rec(1) by (auto simp: deliverTo_def andThen_def)
    with rec True show ?thesis by (auto simp: attempted_def)
  next
    case False
    have "x \<in> set (dv_endpoints w2)" "distinct (map ep_id (dv_endpoints w2))" using e(1) rec(2,3) by (simp_all add: delivery_keys_def)
    then obtain y w3 where set: "setEndpointStatus (ep_id e) Disabled (ob_tenant event) w2 = (Inr y, w3)"
        "dv_endpoints w3 = map (\<lambda>x. if ep_id x = ep_id e then x\<lparr>ep_status := Disabled, ep_updatedAt := ob_now w2\<rparr> else x) (dv_endpoints w2)"
        "dv_subscribed w3 = dv_subscribed w2" "dv_deliveries w3 = dv_deliveries w2"
      using setEndpointStatus_eq [of w2 x "ob_tenant event" "ep_id e"] e(2,3) by blast
    have "map ep_id (dv_endpoints w3) = map ep_id (dv_endpoints w2)" by (simp add: set(2))
    moreover have "\<forall>x \<in> set (dv_endpoints w3). wv_hostname d (ep_url x) \<noteq> None"
      using rec(2) by (auto simp: set(2) delivery_keys_def)
    ultimately have "delivery_keys d event w3"
      using rec(2) unfolding delivery_keys_def set(4) by auto
    moreover have "delivery_state event w3 = delivery_state event w2" by (rule ext) (simp add: delivery_state_def set(4))
    moreover have "deliverTo d event t b s n e w = (Inr False, w3)"
      using post rec(1) set(1) False by (simp add: deliverTo_def andThen_def)
    ultimately show ?thesis using rec set False by (auto simp: attempted_def)
  qed
qed

text \<open>An endpoint is done with an event when the event was delivered or the endpoint is disabled.\<close>

definition settled :: "'p outbox_event \<Rightarrow> ('p, 'x) delivery_db_scheme \<Rightarrow> ident \<Rightarrow> bool" where
  "settled event w i \<longleftrightarrow> is_delivered (delivery_state event w i)
     \<or> (\<forall>e \<in> set (dv_endpoints w). ep_id e = i \<longrightarrow> ep_status e = Disabled)"

text \<open>
  From \<open>w\<close> to \<open>w'\<close> the endpoints of \<open>tried\<close> were tried: each is settled or has one attempt more than
  before and is not out of attempts; what was settled stays so, and endpoints are only disabled.
\<close>

definition progressed ::
  "('p, ('p, 'x) delivery_db_scheme) delivery_deps \<Rightarrow> 'p outbox_event \<Rightarrow> ident set
    \<Rightarrow> ('p, 'x) delivery_db_scheme \<Rightarrow> ('p, 'x) delivery_db_scheme \<Rightarrow> bool" where
  "progressed d event tried w w' \<longleftrightarrow> dv_subscribed w' = dv_subscribed w
     \<and> map (\<lambda>e. (ep_id e, ep_tenant e)) (dv_endpoints w') = map (\<lambda>e. (ep_id e, ep_tenant e)) (dv_endpoints w)
     \<and> (\<forall>e' \<in> set (dv_endpoints w'). \<exists>e \<in> set (dv_endpoints w). ep_id e' = ep_id e \<and> ep_tenant e' = ep_tenant e
          \<and> (ep_status e = Disabled \<longrightarrow> ep_status e' = Disabled))
     \<and> (\<forall>i. settled event w i \<longrightarrow> settled event w' i)
     \<and> (\<forall>i. i \<notin> tried \<longrightarrow> delivery_state event w' i = delivery_state event w i)
     \<and> (\<forall>i \<in> tried. settled event w' i \<or> (attempts_of (delivery_state event w' i) = attempts_of (delivery_state event w i) + 1
          \<and> attempts_of (delivery_state event w i) + 1 < wv_maxAttempts d))"

lemma attempted_progressed:
  assumes a: "attempted d event n e w w' again" and "\<not> is_delivered (delivery_state event w (ep_id e))"
    and n: "n = attempts_of (delivery_state event w (ep_id e)) + 1"
  shows "progressed d event {ep_id e} w w'" and "again \<Longrightarrow> n < wv_maxAttempts d" and "\<not> again \<Longrightarrow> settled event w' (ep_id e)"
proof -
  obtain s t where s: "delivery_state event w' = (delivery_state event w)(ep_id e \<mapsto> (s, n))"
     "again = (s = Undelivered \<and> n < wv_maxAttempts d)" "dv_subscribed w' = dv_subscribed w"
     "dv_endpoints w' = map (\<lambda>x. if s = Undelivered \<and> \<not> n < wv_maxAttempts d \<and> ep_id x = ep_id e
          then x\<lparr>ep_status := Disabled, ep_updatedAt := t\<rparr> else x) (dv_endpoints w)"
    using a by (auto simp: attempted_def)
  have "settled event w' (ep_id e) \<or> (attempts_of (delivery_state event w' (ep_id e)) = n \<and> n < wv_maxAttempts d)"
    by (cases s) (auto simp: settled_def s is_delivered_def attempts_of_def)
  moreover have "settled event w i \<Longrightarrow> settled event w' i" for i
    using assms(2) by (auto simp: settled_def s is_delivered_def)
  moreover have "\<exists>x \<in> set (dv_endpoints w). ep_id x' = ep_id x \<and> ep_tenant x' = ep_tenant x
          \<and> (ep_status x = Disabled \<longrightarrow> ep_status x' = Disabled)" if "x' \<in> set (dv_endpoints w')" for x'
  proof -
    from that obtain x where x: "x \<in> set (dv_endpoints w)" "x' = (if s = Undelivered \<and> \<not> n < wv_maxAttempts d \<and> ep_id x = ep_id e
          then x\<lparr>ep_status := Disabled, ep_updatedAt := t\<rparr> else x)" by (auto simp: s(4))
    then show ?thesis by (intro bexI [OF _ x(1)]) auto
  qed
  moreover have "map (\<lambda>e. (ep_id e, ep_tenant e)) (dv_endpoints w') = map (\<lambda>e. (ep_id e, ep_tenant e)) (dv_endpoints w)"
    by (simp add: s(4))
  ultimately show "progressed d event {ep_id e} w w'"
    using n by (simp add: progressed_def s(1,3))
  show "again \<Longrightarrow> n < wv_maxAttempts d" by (simp add: s)
  show "\<not> again \<Longrightarrow> settled event w' (ep_id e)" by (cases s) (auto simp: settled_def s is_delivered_def)
qed

lemma progressed_refl: "progressed d event {} w w"
  by (auto simp: progressed_def)

lemma progressed_trans:
  assumes "progressed d event A w w'" and "progressed d event B w' w''" and "A \<inter> B = {}"
  shows "progressed d event (A \<union> B) w w''"
proof -
  have "\<exists>e \<in> set (dv_endpoints w). ep_id e'' = ep_id e \<and> ep_tenant e'' = ep_tenant e
          \<and> (ep_status e = Disabled \<longrightarrow> ep_status e'' = Disabled)" if "e'' \<in> set (dv_endpoints w'')" for e''
    using assms(1,2) that unfolding progressed_def by metis
  moreover have "settled event w'' i \<or> (attempts_of (delivery_state event w'' i) = attempts_of (delivery_state event w i) + 1
          \<and> attempts_of (delivery_state event w i) + 1 < wv_maxAttempts d)" if "i \<in> A \<union> B" for i
    using assms that unfolding progressed_def by (metis UnE disjoint_iff)
  ultimately show ?thesis using assms(1,2) unfolding progressed_def by simp
qed

lemma foldl_max: "(\<And>x. x \<in> set xs \<Longrightarrow> f x = n) \<Longrightarrow> m \<le> n \<Longrightarrow>
    foldl (\<lambda>m x. max m (f x)) m xs = (if xs = [] then m else (n :: nat))"
  by (induction xs arbitrary: m) auto

lemma listForEvent_prior:
  assumes keys: "delivery_keys d event w" and prior: "listForEvent (ob_id event) (ob_tenant event) w = (Inr prior, w')"
  shows "list_ex (\<lambda>r. dl_status r = Delivered \<and> dl_endpointId r = i) prior = is_delivered (delivery_state event w i)"
    and "previousAttempts i prior = attempts_of (delivery_state event w i)"
proof -
  have mem: "r \<in> set prior \<and> dl_endpointId r = i \<longleftrightarrow> r \<in> set (dv_deliveries w) \<and> same_delivery (ob_tenant event) i (ob_id event) r" for r
    using prior by (auto simp: listForEvent_def same_delivery_def)
  have "list_ex (\<lambda>r. dl_status r = Delivered \<and> dl_endpointId r = i) prior = is_delivered (delivery_state event w i)
    \<and> previousAttempts i prior = attempts_of (delivery_state event w i)"
  proof (cases "find (same_delivery (ob_tenant event) i (ob_id event)) (dv_deliveries w)")
    case None
    then have none: "r \<in> set prior \<Longrightarrow> dl_endpointId r \<noteq> i" for r using mem find_NoneD [OF None] by blast
    then have "filter (\<lambda>r. dl_endpointId r = i) prior = []" by (simp add: filter_empty_conv)
    with None none show ?thesis
      by (auto simp: delivery_state_def is_delivered_def attempts_of_def previousAttempts_def list_ex_iff)
  next
    case (Some r)
    note r = find_SomeD [OF Some]
    have inj: "inj_on (\<lambda>r. (dl_tenant r, dl_endpointId r, dl_eventId r)) (set (dv_deliveries w))"
      using keys by (simp add: delivery_keys_def distinct_map)
    have "x = r" if "x \<in> set (dv_deliveries w)" "same_delivery (ob_tenant event) i (ob_id event) x" for x
      by (rule inj_onD [OF inj _ that(1) conjunct1 [OF r]]) (use that(2) r in \<open>simp add: same_key\<close>)
    then have only: "x \<in> set prior \<and> dl_endpointId x = i \<longleftrightarrow> x = r" for x using mem r by blast
    have "list_ex (\<lambda>x. dl_status x = Delivered \<and> dl_endpointId x = i) prior \<longleftrightarrow> dl_status r = Delivered"
      unfolding list_ex_iff using only by metis
    moreover have "filter (\<lambda>x. dl_endpointId x = i) prior \<noteq> []" using only by (auto simp: filter_empty_conv)
    then have "previousAttempts i prior = dl_attempts r"
      unfolding previousAttempts_def using only by (subst foldl_max [where n = "dl_attempts r"]) auto
    ultimately show ?thesis using Some
      by (auto simp: delivery_state_def is_delivered_def attempts_of_def)
  qed
  then show "list_ex (\<lambda>r. dl_status r = Delivered \<and> dl_endpointId r = i) prior = is_delivered (delivery_state event w i)"
    "previousAttempts i prior = attempts_of (delivery_state event w i)" by blast+
qed

lemma deliverEach_progressed:
  assumes calm: "calm d" and inj: "inj (wv_ids d)"
    and prior: "\<And>i. list_ex (\<lambda>r. dl_status r = Delivered \<and> dl_endpointId r = i) prior = is_delivered (st i)"
      "\<And>i. previousAttempts i prior = attempts_of (st i)"
  shows "\<lbrakk> delivery_keys d event w; distinct (map ep_id es);
      \<And>e. e \<in> set es \<Longrightarrow> (ep_id e, ob_tenant event) \<in> (\<lambda>x. (ep_id x, ep_tenant x)) ` set (dv_endpoints w)
        \<and> wv_hostname d (ep_url e) \<noteq> None \<and> delivery_state event w (ep_id e) = st (ep_id e) \<rbrakk> \<Longrightarrow>
    \<exists>again w'. deliverEach d event t b s prior es incomplete w = (Inr again, w') \<and> delivery_keys d event w'
      \<and> progressed d event (ep_id ` {e \<in> set es. \<not> is_delivered (st (ep_id e))}) w w'
      \<and> (again \<longrightarrow> incomplete \<or> (\<exists>e \<in> set es. \<not> is_delivered (st (ep_id e)) \<and> attempts_of (st (ep_id e)) + 1 < wv_maxAttempts d))
      \<and> (again \<or> \<not> incomplete \<and> (\<forall>e \<in> set es. \<not> is_delivered (st (ep_id e)) \<longrightarrow> settled event w' (ep_id e)))"
proof (induction es arbitrary: w incomplete)
  case Nil
  then show ?case by (auto simp: progressed_refl)
next
  case (Cons e es)
  show ?case
  proof (cases "is_delivered (st (ep_id e))")
    case True
    have same: "{x \<in> set (e # es). \<not> is_delivered (st (ep_id x))} = {x \<in> set es. \<not> is_delivered (st (ep_id x))}"
      using True by auto
    have "distinct (map ep_id es)" using Cons.prems(2) by simp
    from Cons.IH [OF Cons.prems(1) this, of incomplete] Cons.prems(3) True show ?thesis
      unfolding same by (simp add: prior(1))
  next
    case False
    let ?n = "attempts_of (st (ep_id e)) + 1"
    obtain x where x: "x \<in> set (dv_endpoints w)" "ep_tenant x = ob_tenant event" "ep_id x = ep_id e"
      using Cons.prems(3) [of e] by auto
    have e: "wv_hostname d (ep_url e) \<noteq> None" "delivery_state event w (ep_id e) = st (ep_id e)"
      using Cons.prems(3) [of e] by simp_all
    obtain again w1 where one: "deliverTo d event t b s ?n e w = (Inr again, w1)" "delivery_keys d event w1"
        "attempted d event ?n e w w1 again"
      using deliverTo_attempted [OF Cons.prems(1) calm inj x e(1)] by blast
    have p1: "progressed d event {ep_id e} w w1" "again \<Longrightarrow> ?n < wv_maxAttempts d"
      "\<not> again \<Longrightarrow> settled event w1 (ep_id e)"
      using attempted_progressed [OF one(3)] False e(2) by auto
    have es: "distinct (map ep_id es)" "ep_id e \<notin> ep_id ` set es" using Cons.prems(2) by auto
    have rest: "(ep_id y, ob_tenant event) \<in> (\<lambda>x. (ep_id x, ep_tenant x)) ` set (dv_endpoints w1)
        \<and> wv_hostname d (ep_url y) \<noteq> None \<and> delivery_state event w1 (ep_id y) = st (ep_id y)" if y: "y \<in> set es" for y
    proof -
      have "(\<lambda>x. (ep_id x, ep_tenant x)) ` set (dv_endpoints w1) = (\<lambda>x. (ep_id x, ep_tenant x)) ` set (dv_endpoints w)"
        using p1(1) unfolding progressed_def by (metis (no_types, lifting) set_map)
      moreover have "ep_id y \<noteq> ep_id e" using es(2) y by (metis imageI)
      then have "delivery_state event w1 (ep_id y) = delivery_state event w (ep_id y)"
        using p1(1) unfolding progressed_def by blast
      ultimately show ?thesis using Cons.prems(3) [of y] y by simp
    qed
    obtain again' w2 where two: "deliverEach d event t b s prior es (incomplete \<or> again) w1 = (Inr again', w2)"
        "delivery_keys d event w2" "progressed d event (ep_id ` {e \<in> set es. \<not> is_delivered (st (ep_id e))}) w1 w2"
        "again' \<longrightarrow> incomplete \<or> again \<or> (\<exists>e \<in> set es. \<not> is_delivered (st (ep_id e)) \<and> attempts_of (st (ep_id e)) + 1 < wv_maxAttempts d)"
        "again' \<or> \<not> (incomplete \<or> again) \<and> (\<forall>e \<in> set es. \<not> is_delivered (st (ep_id e)) \<longrightarrow> settled event w2 (ep_id e))"
      using Cons.IH [OF one(2) es(1) rest, of "incomplete \<or> again"] by blast
    have "{ep_id e} \<union> ep_id ` {e \<in> set es. \<not> is_delivered (st (ep_id e))} = ep_id ` {x \<in> set (e # es). \<not> is_delivered (st (ep_id x))}"
      using False by auto
    moreover have "{ep_id e} \<inter> ep_id ` {e \<in> set es. \<not> is_delivered (st (ep_id e))} = {}" using es(2) by auto
    ultimately have "progressed d event (ep_id ` {x \<in> set (e # es). \<not> is_delivered (st (ep_id x))}) w w2"
      using progressed_trans [OF p1(1) two(3)] by simp
    moreover have "deliverEach d event t b s prior (e # es) incomplete w = (Inr again', w2)"
      using False one(1) two(1) by (simp add: prior andThen_def)
    moreover have "settled event w1 (ep_id e) \<Longrightarrow> settled event w2 (ep_id e)"
      using two(3) by (simp add: progressed_def)
    ultimately show ?thesis using two(2,4,5) p1(2,3) False by auto
  qed
qed


text \<open>The endpoints of an event, and those that are still to be tried.\<close>

definition recipients :: "'p outbox_event \<Rightarrow> ('p, 'x) delivery_db_scheme \<Rightarrow> ident set" where
  "recipients event w = ep_id ` {e \<in> set (dv_endpoints w). subscribed_to (strip_version (ob_eventType event)) (ob_tenant event) w e}"

definition owed :: "'p outbox_event \<Rightarrow> ('p, 'x) delivery_db_scheme \<Rightarrow> ident set" where
  "owed event w = {i \<in> recipients event w. \<not> is_delivered (delivery_state event w i)}"

text \<open>One call of the handler.\<close>

lemma handleEvent_round:
  assumes keys: "delivery_keys d event w" and calm: "calm d" and inj: "inj (wv_ids d)"
  shows "\<exists>again w'. handleEvent d event w = (if again then Inl (PayableError ''WEBHOOK_DELIVERY_INCOMPLETE'') else Inr (), w')
    \<and> delivery_keys d event w' \<and> progressed d event (owed event w) w w'
    \<and> (again \<longrightarrow> (\<exists>i \<in> owed event w. attempts_of (delivery_state event w i) + 1 < wv_maxAttempts d))
    \<and> (again \<or> (\<forall>i \<in> owed event w. settled event w' i))"
proof -
  let ?type = "strip_version (ob_eventType event)"
  define es where "es = sort_key (\<lambda>e. (ep_createdAt e, ep_id e)) (filter (subscribed_to ?type (ob_tenant event) w) (dv_endpoints w))"
  have es: "set es = {e \<in> set (dv_endpoints w). subscribed_to ?type (ob_tenant event) w e}" by (auto simp: es_def)
  have "distinct (map ep_id (filter (subscribed_to ?type (ob_tenant event) w) (dv_endpoints w)))"
    using keys by (simp add: delivery_keys_def distinct_map_filter)
  then have dist: "distinct (map ep_id es)"
    by (auto simp: es_def distinct_map intro: inj_on_subset)
  have owed: "owed event w = ep_id ` {e \<in> set es. \<not> is_delivered (delivery_state event w (ep_id e))}"
    by (auto simp: owed_def recipients_def es)
  have list: "listEnabledForEvent ?type (ob_tenant event) w = (Inr es, w)"
    by (simp add: listEnabledForEvent_def es_def)
  show ?thesis
  proof (cases "es = []")
    case True
    then have "handleEvent d event w = (Inr (), w)" using list by (simp add: handleEvent_def andThen_def Let_def)
    moreover have none: "owed event w = {}" using True by (simp add: owed)
    ultimately show ?thesis using keys
      by (intro exI [of _ False] exI [of _ w]) (simp add: none progressed_refl)
  next
    case False
    obtain prior where prior: "listForEvent (ob_id event) (ob_tenant event) w = (Inr prior, w)"
      by (simp add: listForEvent_def)
    have mem: "(ep_id e, ob_tenant event) \<in> (\<lambda>x. (ep_id x, ep_tenant x)) ` set (dv_endpoints w)
        \<and> wv_hostname d (ep_url e) \<noteq> None \<and> delivery_state event w (ep_id e) = delivery_state event w (ep_id e)" if "e \<in> set es" for e
      using that keys by (auto simp: es subscribed_to_def delivery_keys_def image_iff)
    obtain again w' where run: "deliverEach d event ?type (wv_body d event ?type) (ob_now w div 1000) prior es False w = (Inr again, w')"
        "delivery_keys d event w'" "progressed d event (owed event w) w w'"
        "again \<longrightarrow> (\<exists>e \<in> set es. \<not> is_delivered (delivery_state event w (ep_id e)) \<and> attempts_of (delivery_state event w (ep_id e)) + 1 < wv_maxAttempts d)"
        "again \<or> (\<forall>e \<in> set es. \<not> is_delivered (delivery_state event w (ep_id e)) \<longrightarrow> settled event w' (ep_id e))"
      using deliverEach_progressed [OF calm inj listForEvent_prior [OF keys prior] keys dist mem, of ?type "wv_body d event ?type" "ob_now w div 1000" False]
      unfolding owed by auto
    have "handleEvent d event w = (if again then Inl (PayableError ''WEBHOOK_DELIVERY_INCOMPLETE'') else Inr (), w')"
      using list prior run(1) False by (simp add: handleEvent_def andThen_def Let_def)
    then show ?thesis using run(2-5) unfolding owed by (intro exI [of _ again] exI [of _ w']) auto
  qed
qed

text \<open>The publisher calls the handler again while it throws.\<close>

fun retryEvent ::
  "('p, ('p, 'x) delivery_db_scheme) delivery_deps \<Rightarrow> 'p outbox_event \<Rightarrow> nat \<Rightarrow> (('p, 'x) delivery_db_scheme, bool) io" where
  "retryEvent d event 0 = ret False"
| "retryEvent d event (Suc n) = andThen (attempt (handleEvent d event)) (\<lambda>r. case r of
     Inr _ \<Rightarrow> ret True | Inl _ \<Rightarrow> retryEvent d event n)"

lemma still_owed:
  assumes p: "progressed d event (owed event w) w w'" and i: "i \<in> owed event w'"
  shows "i \<in> owed event w \<and> attempts_of (delivery_state event w' i) = attempts_of (delivery_state event w i) + 1"
proof -
  from i obtain e' where e': "e' \<in> set (dv_endpoints w')" "ep_id e' = i" "ep_tenant e' = ob_tenant event" "ep_status e' = Enabled"
      "(i, strip_version (ob_eventType event)) \<in> set (dv_subscribed w')" "\<not> is_delivered (delivery_state event w' i)"
    by (auto simp: owed_def recipients_def subscribed_to_def)
  have unsettled: "\<not> settled event w' i" using e' by (auto simp: settled_def)
  obtain e where e: "e \<in> set (dv_endpoints w)" "ep_id e = i" "ep_tenant e = ob_tenant event" "ep_status e \<noteq> Disabled"
    using p e' unfolding progressed_def by (metis endpoint_status.distinct(1))
  then have "ep_status e = Enabled" by (cases "ep_status e") auto
  moreover have "dv_subscribed w = dv_subscribed w'" using p by (simp add: progressed_def)
  ultimately have "i \<in> recipients event w" using e e'(5) by (auto simp: recipients_def subscribed_to_def)
  moreover have "\<not> settled event w i" using p unsettled by (auto simp: progressed_def)
  ultimately have "i \<in> owed event w" by (auto simp: owed_def settled_def)
  with p unsettled show ?thesis by (auto simp: progressed_def)
qed

lemma recipient_owed_or_settled:
  assumes p: "progressed d event (owed event w) w w'" and keys: "delivery_keys d event w" and i: "i \<in> recipients event w"
  shows "i \<in> recipients event w' \<or> settled event w' i"
proof (rule ccontr)
  assume no: "\<not> ?thesis"
  from i obtain e where e: "e \<in> set (dv_endpoints w)" "ep_id e = i" "ep_tenant e = ob_tenant event"
      "(i, strip_version (ob_eventType event)) \<in> set (dv_subscribed w)"
    by (auto simp: recipients_def subscribed_to_def)
  have inj: "inj_on ep_id (set (dv_endpoints w))" using keys by (simp add: delivery_keys_def distinct_map)
  from no obtain e' where e': "e' \<in> set (dv_endpoints w')" "ep_id e' = i" "ep_status e' \<noteq> Disabled" by (auto simp: settled_def)
  obtain x where x: "x \<in> set (dv_endpoints w)" "ep_id x = i" "ep_tenant e' = ep_tenant x"
    using p e'(1,2) unfolding progressed_def by metis
  have "x = e" by (rule inj_onD [OF inj _ x(1) e(1)]) (simp add: x(2) e(2))
  moreover have "ep_status e' = Enabled" using e'(3) by (cases "ep_status e'") auto
  moreover have "dv_subscribed w' = dv_subscribed w" using p by (simp add: progressed_def)
  ultimately have "e' \<in> {a \<in> set (dv_endpoints w'). subscribed_to (strip_version (ob_eventType event)) (ob_tenant event) w' a}"
    using e e' x by (simp add: subscribed_to_def)
  then have "i \<in> recipients event w'" unfolding recipients_def e'(2) [symmetric] by (rule imageI)
  with no show False by blast
qed

lemma retryEvent_settles:
  assumes calm: "calm d" and inj: "inj (wv_ids d)"
  shows "\<lbrakk> delivery_keys d event w; 0 < n; \<And>i. i \<in> owed event w \<Longrightarrow> wv_maxAttempts d \<le> attempts_of (delivery_state event w i) + n \<rbrakk> \<Longrightarrow>
    \<exists>w'. retryEvent d event n w = (Inr True, w') \<and> (\<forall>i. settled event w i \<longrightarrow> settled event w' i)
      \<and> (\<forall>i \<in> recipients event w. settled event w' i)"
proof (induction n arbitrary: w)
  case (Suc n)
  obtain again w1 where one: "handleEvent d event w = (if again then Inl (PayableError ''WEBHOOK_DELIVERY_INCOMPLETE'') else Inr (), w1)"
      "delivery_keys d event w1" "progressed d event (owed event w) w w1"
      "again \<longrightarrow> (\<exists>i \<in> owed event w. attempts_of (delivery_state event w i) + 1 < wv_maxAttempts d)"
      "again \<or> (\<forall>i \<in> owed event w. settled event w1 i)"
    using handleEvent_round [OF Suc.prems(1) calm inj] by blast
  have mono: "settled event w i \<Longrightarrow> settled event w1 i" for i using one(3) by (simp add: progressed_def)
  show ?case
  proof (cases again)
    case False
    have "settled event w1 i" if "i \<in> recipients event w" for i
    proof (cases "i \<in> owed event w")
      case True
      with one(5) False show ?thesis by blast
    next
      case False
      with that have "settled event w i" by (simp add: owed_def settled_def)
      then show ?thesis by (rule mono)
    qed
    with one(1) False mono show ?thesis by (intro exI [of _ w1]) (simp add: andThen_def attempt_def)
  next
    case True
    with one(4) obtain i where i: "i \<in> owed event w" "attempts_of (delivery_state event w i) + 1 < wv_maxAttempts d" by blast
    with Suc.prems(3) [OF i(1)] have "0 < n" by linarith
    moreover have "wv_maxAttempts d \<le> attempts_of (delivery_state event w1 j) + n" if "j \<in> owed event w1" for j
      using still_owed [OF one(3) that] Suc.prems(3) [of j] by simp
    ultimately obtain w' where w': "retryEvent d event n w1 = (Inr True, w')" "\<And>i. settled event w1 i \<Longrightarrow> settled event w' i"
        "\<And>i. i \<in> recipients event w1 \<Longrightarrow> settled event w' i"
      using Suc.IH [OF one(2)] by blast
    have "settled event w' i" if "i \<in> recipients event w" for i
      using recipient_owed_or_settled [OF one(3) Suc.prems(1) that] w'(2,3) by blast
    with one(1) True mono w' show ?thesis by (intro exI [of _ w']) (simp add: andThen_def attempt_def)
  qed
qed simp



text \<open>Two endpoints of one tenant, and a transport that always fails.\<close>

definition example_endpoint :: "ident \<Rightarrow> instant \<Rightarrow> endpoint" where
  "example_endpoint i created = \<lparr>ep_id = i, ep_tenant = None, ep_url = ''u'', ep_events = [''t''],
     ep_secret = ''s'', ep_status = Enabled, ep_createdAt = created, ep_updatedAt = created\<rparr>"

definition example_deliveries :: "unit delivery_db" where
  "example_deliveries = \<lparr>ob_rows = [], ob_now = 100, dv_endpoints = [example_endpoint ''a'' 2, example_endpoint ''b'' 1],
     dv_subscribed = [(''a'', ''t''), (''b'', ''t'')], dv_deliveries = []\<rparr>"

definition example_delivery_deps :: "(unit, unit delivery_db) delivery_deps" where
  "example_delivery_deps = \<lparr>wv_hostname = (\<lambda>_. Some ''example.com''), wv_resolve = (\<lambda>_. ret [''93.184.216.34'']),
     wv_sign = (\<lambda>_ _. ''x''), wv_body = (\<lambda>_ _. []), wv_fetch = None,
     wv_request = (\<lambda>_ _. ret (Broken ''down'')), wv_maxAttempts = 2, wv_ids = (\<lambda>i. ''w'' @ i), wv_env = (\<lambda>w. w)\<rparr>"


end
